(* ===== verification/Jit_Prelude.thy ===== *)
theory Jit_Prelude
  imports Complex_Main "HOL-Library.Word" "HOL-Library.Sublist"
begin

text \<open>
  The vocabulary shared by every component of the development: the errors the C++ code raises,
  a state monad in which a thrown exception keeps the mutations made before it, the resizing
  of a \<^verbatim>\<open>std::vector\<close>, access to a vector slot (an index out of range is undefined
  behaviour in the source and an error value here), and lemmas on the last elements of a list,
  which is what every rolling window of the runtime abstracts to.
\<close>

named_theorems prog_simps \<open>equations that evaluate programs of the state monad\<close>
named_theorems refines_intro \<open>introduction rules for the refinement of programs\<close>

section \<open>Errors and results\<close>

text \<open>
  \<open>RuntimeError\<close> is \<^verbatim>\<open>std::runtime_error\<close>; \<open>Undefined\<close> marks an operation
  for which C++ promises nothing (a vector index out of range, a cast of an out-of-range
  double); \<open>OutOfFuel\<close> is the only value that is not a behaviour of the program, and the
  theorems about the functions that use fuel show it is never returned.
\<close>

record SourceLoc =
  line :: "32 word"
  col :: "32 word"
  length_of :: "32 word"

definition no_loc :: SourceLoc where
  "no_loc = \<lparr>line = 0, col = 0, length_of = 0\<rparr>"

datatype err =
    RuntimeError string
  | ParseError string SourceLoc string
  | OutOfRange string
  | Undefined string
  | OutOfFuel

type_synonym 'a result = "err + 'a"

fun rbind :: "'a result \<Rightarrow> ('a \<Rightarrow> 'b result) \<Rightarrow> 'b result" where
  "rbind (Inl e) f = Inl e"
| "rbind (Inr x) f = f x"

lemma rbind_eq_Inr_iff: "rbind r f = Inr y \<longleftrightarrow> (\<exists>x. r = Inr x \<and> f x = Inr y)"
  by (cases r) auto

lemma rbind_eq_Inl_iff: "rbind r f = Inl e \<longleftrightarrow> r = Inl e \<or> (\<exists>x. r = Inr x \<and> f x = Inl e)"
  by (cases r) auto

lemma rbind_cong [fundef_cong]:
  "r = r' \<Longrightarrow> (\<And>x. r' = Inr x \<Longrightarrow> f x = f' x) \<Longrightarrow> rbind r f = rbind r' f'"
  by (cases r') auto

text \<open>A property of the value, when there is one; its rules forget the conditions of the branches.\<close>

definition on_Inr :: "('a \<Rightarrow> bool) \<Rightarrow> 'a result \<Rightarrow> bool" where
  "on_Inr Q r \<longleftrightarrow> (\<forall>x. r = Inr x \<longrightarrow> Q x)"

lemma on_Inr_simps [simp]: "on_Inr Q (Inr x) = Q x" "on_Inr Q (Inl e)"
  by (simp_all add: on_Inr_def)

lemma on_Inr_if: "on_Inr Q r \<Longrightarrow> on_Inr Q r' \<Longrightarrow> on_Inr Q (if b then r else r')"
  by simp

lemma on_Inr_rbind: "(\<And>x. on_Inr Q (f x)) \<Longrightarrow> on_Inr Q (rbind r f)"
  by (cases r) auto

lemma on_InrD: "on_Inr Q r \<Longrightarrow> r = Inr x \<Longrightarrow> Q x"
  by (simp add: on_Inr_def)

text \<open>A loop that stops at the first error.\<close>

primrec iterate :: "('a \<Rightarrow> 's \<Rightarrow> 's result) \<Rightarrow> 'a list \<Rightarrow> 's \<Rightarrow> 's result" where
  "iterate f [] s = Inr s"
| "iterate f (x # xs) s = rbind (f x s) (iterate f xs)"

lemma iterate_append: "iterate f (xs @ ys) s = rbind (iterate f xs s) (iterate f ys)"
proof (induction xs arbitrary: s)
  case (Cons x xs)
  then show ?case by (cases "f x s") auto
qed simp

lemma iterate_invariant:
  assumes "iterate f xs s = Inr s'" and "P s"
    and "\<And>x s s'. x \<in> set xs \<Longrightarrow> P s \<Longrightarrow> f x s = Inr s' \<Longrightarrow> P s'"
  shows "P s'"
  using assms
proof (induction xs arbitrary: s)
  case (Cons x xs)
  then obtain t where t: "f x s = Inr t" "iterate f xs t = Inr s'" by (auto simp: rbind_eq_Inr_iff)
  have "P t" by (rule Cons.prems(3) [OF _ Cons.prems(2) t(1)]) simp
  then show ?case by (rule Cons.IH [OF t(2)]) (rule Cons.prems(3), auto)
qed simp

section \<open>Programs over a mutable state\<close>

type_synonym ('s, 'a) prog = "'s \<Rightarrow> 'a result \<times> 's"

definition ret :: "'a \<Rightarrow> ('s, 'a) prog" where
  "ret x = (\<lambda>s. (Inr x, s))"

definition throw :: "err \<Rightarrow> ('s, 'a) prog" where
  "throw e = (\<lambda>s. (Inl e, s))"

definition lift_result :: "'a result \<Rightarrow> ('s, 'a) prog" where
  "lift_result r = (\<lambda>s. (r, s))"

definition bindm :: "('s, 'a) prog \<Rightarrow> ('a \<Rightarrow> ('s, 'b) prog) \<Rightarrow> ('s, 'b) prog" where
  "bindm m f = (\<lambda>s. case m s of (Inl e, s') \<Rightarrow> (Inl e, s') | (Inr x, s') \<Rightarrow> f x s')"

lemma ret_apply [simp, prog_simps]: "ret x s = (Inr x, s)"
  by (simp add: ret_def)

lemma throw_apply [simp, prog_simps]: "throw e s = (Inl e, s)"
  by (simp add: throw_def)

lemma lift_result_apply [simp, prog_simps]: "lift_result r s = (r, s)"
  by (simp add: lift_result_def)

lemma lift_result_cases: "lift_result (Inr x) = ret x" "lift_result (Inl e) = throw e"
  by (simp_all add: lift_result_def ret_def throw_def)

lemma bindm_Inr [prog_simps]: "m s = (Inr x, s') \<Longrightarrow> bindm m f s = f x s'"
  by (simp add: bindm_def)

lemma bindm_Inl [prog_simps]: "m s = (Inl e, s') \<Longrightarrow> bindm m f s = (Inl e, s')"
  by (simp add: bindm_def)

lemma bindm_ret [simp, prog_simps]: "bindm (ret x) f = f x"
  by (simp add: bindm_def ret_def)

lemma bindm_throw [simp, prog_simps]: "bindm (throw e) f = throw e"
  by (simp add: bindm_def throw_def)

lemma bindm_lift_Inr [simp, prog_simps]: "bindm (lift_result (Inr x)) f = f x"
  by (simp add: bindm_def lift_result_def)

lemma bindm_lift_Inl [simp, prog_simps]: "bindm (lift_result (Inl e)) f = throw e"
  by (simp add: bindm_def lift_result_def throw_def)

lemma bindm_eq_Inr_iff:
  "bindm m f s = (Inr y, s'') \<longleftrightarrow> (\<exists>x s'. m s = (Inr x, s') \<and> f x s' = (Inr y, s''))"
  by (auto simp: bindm_def split: prod.splits sum.splits)

lemma bindm_eq_Inl_iff:
  "bindm m f s = (Inl e, s'') \<longleftrightarrow>
     m s = (Inl e, s'') \<or> (\<exists>x s'. m s = (Inr x, s') \<and> f x s' = (Inl e, s''))"
  by (auto simp: bindm_def split: prod.splits sum.splits)

lemma bindm_cong [fundef_cong]:
  "m = m' \<Longrightarrow> (\<And>x. f x = f' x) \<Longrightarrow> bindm m f = bindm m' f'"
  by (rule arg_cong2 [where f = bindm]) auto

text \<open>
  One program refines another when every normal run of the first is a run of the second: the
  relation that a transformation satisfies when it may turn an error into a success but never
  changes a value or a state the original computes.
\<close>

definition refines :: "('s, 'a) prog \<Rightarrow> ('s, 'a) prog \<Rightarrow> bool" where
  "refines m m' \<longleftrightarrow> (\<forall>s x s'. m s = (Inr x, s') \<longrightarrow> m' s = (Inr x, s'))"

lemma refines_refl [refines_intro, simp]: "refines m m"
  by (simp add: refines_def)

lemma refines_throw [refines_intro, simp]: "refines (throw e) m"
  by (simp add: refines_def)

lemma refines_bindm [refines_intro]:
  assumes "refines m m'" and "\<And>x. refines (f x) (f' x)"
  shows "refines (bindm m f) (bindm m' f')"
  using assms unfolding refines_def by (fastforce simp: bindm_eq_Inr_iff)

lemma refinesD: "refines m m' \<Longrightarrow> m s = (Inr x, s') \<Longrightarrow> m' s = (Inr x, s')"
  by (simp add: refines_def)

text \<open>
  A program is well behaved for a set of states and errors when it stays in the set, and fails
  with an allowed error only: the shape of every "never undefined behaviour" statement.
\<close>

definition keeps :: "('s \<Rightarrow> bool) \<Rightarrow> (err \<Rightarrow> bool) \<Rightarrow> ('s, 'a) prog \<Rightarrow> bool" where
  "keeps P ok m \<longleftrightarrow>
     (\<forall>s r s'. P s \<longrightarrow> m s = (r, s') \<longrightarrow> P s' \<and> (\<forall>e. r = Inl e \<longrightarrow> ok e))"

lemma keeps_ret [intro]: "keeps P ok (ret x)"
  by (simp add: keeps_def)

lemma keeps_throw [intro]: "ok e \<Longrightarrow> keeps P ok (throw e)"
  by (simp add: keeps_def)

lemma keeps_lift [intro]: "(\<And>e. r = Inl e \<Longrightarrow> ok e) \<Longrightarrow> keeps P ok (lift_result r)"
  by (simp add: keeps_def)

lemma keeps_bindm [intro]:
  assumes m: "keeps P ok m" and f: "\<And>x. keeps P ok (f x)"
  shows "keeps P ok (bindm m f)"
  unfolding keeps_def
proof (intro allI impI)
  fix s r s'
  assume P: "P s" and run: "bindm m f s = (r, s')"
  obtain q t where ms: "m s = (q, t)" by force
  from m P ms have t: "P t" and q: "\<And>e. q = Inl e \<Longrightarrow> ok e"
    by (auto simp: keeps_def)
  show "P s' \<and> (\<forall>e. r = Inl e \<longrightarrow> ok e)"
  proof (cases q)
    case (Inl e)
    with ms run t q show ?thesis by (auto simp: bindm_def)
  next
    case (Inr x)
    with ms run have "f x t = (r, s')" by (simp add: bindm_def)
    with f t show ?thesis by (auto simp: keeps_def)
  qed
qed

section \<open>Vectors\<close>

text \<open>\<open>grow d n xs\<close> is \<^verbatim>\<open>if (v.size() < n) v.resize(n, d)\<close>; \<open>resize\<close> is the
  unconditional \<^verbatim>\<open>v.resize(n, d)\<close>, which also shrinks.\<close>

definition resize :: "'a \<Rightarrow> nat \<Rightarrow> 'a list \<Rightarrow> 'a list" where
  "resize d n xs = take n xs @ replicate (n - length xs) d"

definition grow :: "'a \<Rightarrow> nat \<Rightarrow> 'a list \<Rightarrow> 'a list" where
  "grow d n xs = (if length xs < n then resize d n xs else xs)"

lemma length_resize [simp]: "length (resize d n xs) = n"
  by (simp add: resize_def)

lemma length_grow [simp]: "length (grow d n xs) = max n (length xs)"
  by (simp add: grow_def resize_def)

lemma nth_grow: "i < length xs \<Longrightarrow> grow d n xs ! i = xs ! i"
  by (simp add: grow_def resize_def nth_append)

lemma nth_grow_new: "length xs \<le> i \<Longrightarrow> i < n \<Longrightarrow> grow d n xs ! i = d"
  by (simp add: grow_def resize_def nth_append)

lemma grow_grow_le: "n \<le> length xs \<Longrightarrow> grow d n xs = xs"
  by (simp add: grow_def)

section \<open>The last elements of a list\<close>

definition lastn :: "nat \<Rightarrow> 'a list \<Rightarrow> 'a list" where
  "lastn n xs = drop (length xs - n) xs"

lemma length_lastn [simp]: "length (lastn n xs) = min n (length xs)"
  by (simp add: lastn_def)

lemma lastn_all [simp]: "length xs \<le> n \<Longrightarrow> lastn n xs = xs"
  by (simp add: lastn_def)

lemma lastn_0 [simp]: "lastn 0 xs = []"
  by (simp add: lastn_def)

lemma lastn_map: "lastn n (map f xs) = map f (lastn n xs)"
  by (simp add: lastn_def drop_map)

lemma lastn_zip: "length xs = length ys \<Longrightarrow> lastn n (zip xs ys) = zip (lastn n xs) (lastn n ys)"
  by (simp add: lastn_def drop_zip)

lemma set_lastn: "set (lastn n xs) = {xs ! i |i. length xs - n \<le> i \<and> i < length xs}"
proof -
  have "xs ! i \<in> set (drop k xs)" if "k \<le> i" "i < length xs" for i k
  proof -
    from that have "drop k xs ! (i - k) = xs ! i" "i - k < length (drop k xs)" by auto
    then show ?thesis by (metis nth_mem)
  qed
  then have "{xs ! i |i. length xs - n \<le> i \<and> i < length xs} \<subseteq> set (lastn n xs)"
    by (auto simp: lastn_def)
  moreover have "set (lastn n xs) \<subseteq> {xs ! i |i. length xs - n \<le> i \<and> i < length xs}"
  proof
    fix x assume "x \<in> set (lastn n xs)"
    then obtain i where "i < length (drop (length xs - n) xs)" "x = drop (length xs - n) xs ! i"
      by (auto simp: lastn_def in_set_conv_nth)
    then have "x = xs ! (length xs - n + i)" "length xs - n + i < length xs" by auto
    then show "x \<in> {xs ! i |i. length xs - n \<le> i \<and> i < length xs}" using le_add1 by blast
  qed
  ultimately show ?thesis by (rule equalityI [rotated])
qed

lemma set_lastn_subset: "set (lastn n xs) \<subseteq> set xs"
  by (simp add: lastn_def set_drop_subset)

lemma lastn_snoc: "0 < n \<Longrightarrow> lastn n (xs @ [x]) = lastn (n - 1) xs @ [x]"
  by (cases "length xs < n") (auto simp: lastn_def Suc_diff_le)

lemma lastn_lastn_snoc: "lastn n (lastn n xs @ [x]) = lastn n (xs @ [x])"
  by (cases "length xs < n") (auto simp: lastn_def drop_append Suc_diff_le not_less)

lemma nth_lastn: "i < min n (length xs) \<Longrightarrow> lastn n xs ! i = xs ! (length xs - min n (length xs) + i)"
  by (auto simp: lastn_def min_def)

end
