(* ===== verification/Machine_Float.thy ===== *)
theory Machine_Float
  imports Jit_Prelude
begin

text \<open>
  The arithmetic of the program. The source computes with \<^verbatim>\<open>double\<close> and, in the
  rolling accumulators, with the 80-bit \<^verbatim>\<open>long double\<close> of the x86-64 System V ABI.
  Every definition of the development takes a \<open>machine\<close>, a record of the operations of both
  formats over one carrier: converting a double to a long double is then the identity, and
  the conversion back is the field \<open>narrow\<close>.

  Two machines are given. \<open>ieee\<close> is IEEE-754 binary64 together with the x87 extended
  format, round to nearest even, on a carrier of NaN, signed infinities, signed zeros and the
  non-zero rationals: all operations are exact rational operations followed by one rounding,
  so they execute; only the natural logarithm of the C library is a parameter. \<open>exact\<close> is
  real arithmetic in which an undefined result is NaN: the ideal the accumulators approximate.
  The locale \<open>machine_order\<close> states what the code relies on about comparisons and is
  interpreted for both.
\<close>

section \<open>The operations of a machine\<close>

record 'f arith =
  fadd :: "'f \<Rightarrow> 'f \<Rightarrow> 'f"
  fsub :: "'f \<Rightarrow> 'f \<Rightarrow> 'f"
  fmul :: "'f \<Rightarrow> 'f \<Rightarrow> 'f"
  fdiv :: "'f \<Rightarrow> 'f \<Rightarrow> 'f"
  fsqrt :: "'f \<Rightarrow> 'f"
  of_rational :: "rat \<Rightarrow> 'f"

record 'f machine =
  dbl :: "'f arith"
  ext :: "'f arith"
  narrow :: "'f \<Rightarrow> 'f"
  fneg :: "'f \<Rightarrow> 'f"
  fabs :: "'f \<Rightarrow> 'f"
  flog :: "'f \<Rightarrow> 'f"
  flt :: "'f \<Rightarrow> 'f \<Rightarrow> bool"
  fle :: "'f \<Rightarrow> 'f \<Rightarrow> bool"
  feq :: "'f \<Rightarrow> 'f \<Rightarrow> bool"
  isnan :: "'f \<Rightarrow> bool"
  qnan :: "'f"
  trunc :: "'f \<Rightarrow> int option"

abbreviation dadd :: "'f machine \<Rightarrow> 'f \<Rightarrow> 'f \<Rightarrow> 'f" where "dadd M \<equiv> fadd (dbl M)"
abbreviation dsub :: "'f machine \<Rightarrow> 'f \<Rightarrow> 'f \<Rightarrow> 'f" where "dsub M \<equiv> fsub (dbl M)"
abbreviation dmul :: "'f machine \<Rightarrow> 'f \<Rightarrow> 'f \<Rightarrow> 'f" where "dmul M \<equiv> fmul (dbl M)"
abbreviation ddiv :: "'f machine \<Rightarrow> 'f \<Rightarrow> 'f \<Rightarrow> 'f" where "ddiv M \<equiv> fdiv (dbl M)"
abbreviation dsqrt :: "'f machine \<Rightarrow> 'f \<Rightarrow> 'f" where "dsqrt M \<equiv> fsqrt (dbl M)"
abbreviation dlit :: "'f machine \<Rightarrow> rat \<Rightarrow> 'f" where "dlit M \<equiv> of_rational (dbl M)"
abbreviation ladd :: "'f machine \<Rightarrow> 'f \<Rightarrow> 'f \<Rightarrow> 'f" where "ladd M \<equiv> fadd (ext M)"
abbreviation lsub :: "'f machine \<Rightarrow> 'f \<Rightarrow> 'f \<Rightarrow> 'f" where "lsub M \<equiv> fsub (ext M)"
abbreviation lmul :: "'f machine \<Rightarrow> 'f \<Rightarrow> 'f \<Rightarrow> 'f" where "lmul M \<equiv> fmul (ext M)"
abbreviation ldiv :: "'f machine \<Rightarrow> 'f \<Rightarrow> 'f \<Rightarrow> 'f" where "ldiv M \<equiv> fdiv (ext M)"
abbreviation lsqrt :: "'f machine \<Rightarrow> 'f \<Rightarrow> 'f" where "lsqrt M \<equiv> fsqrt (ext M)"
abbreviation llit :: "'f machine \<Rightarrow> rat \<Rightarrow> 'f" where "llit M \<equiv> of_rational (ext M)"

text \<open>Conversions of an unsigned integer to the two formats.\<close>

abbreviation dnat :: "'f machine \<Rightarrow> nat \<Rightarrow> 'f" where "dnat M n \<equiv> dlit M (of_nat n)"
abbreviation lnat :: "'f machine \<Rightarrow> nat \<Rightarrow> 'f" where "lnat M n \<equiv> llit M (of_nat n)"

text \<open>The double a comparison or a logical operator of the DSL evaluates to.\<close>

definition dbool :: "'f machine \<Rightarrow> bool \<Rightarrow> 'f" where
  "dbool M b = (if b then dlit M 1 else dlit M 0)"

section \<open>IEEE-754\<close>

datatype fp = NaN | Inf bool | Zero bool | Fin rat

record fmt =
  precision :: nat
  min_exp :: int
  max_exp :: int

text \<open>\<open>min_exp\<close> is the exponent of the least subnormal and \<open>max_exp\<close> the exponent of the
  unit in the last place of the largest finite number.\<close>

definition binary64 :: fmt where
  "binary64 = \<lparr>precision = 53, min_exp = -1074, max_exp = 971\<rparr>"

definition extended80 :: fmt where
  "extended80 = \<lparr>precision = 64, min_exp = -16445, max_exp = 16320\<rparr>"

fun bits :: "nat \<Rightarrow> nat" where
  "bits n = (if n = 0 then 0 else Suc (bits (n div 2)))"

declare bits.simps [simp del]

definition pow2 :: "int \<Rightarrow> rat" where
  "pow2 e = (if 0 \<le> e then of_int (2 ^ nat e) else 1 / of_int (2 ^ nat (- e)))"

definition ilog2 :: "rat \<Rightarrow> int" where
  "ilog2 a = (case quotient_of a of (n, d) \<Rightarrow>
     let k = int (bits (nat n)) - int (bits (nat d))
     in if pow2 k \<le> a then k else k - 1)"

definition round_half_even :: "rat \<Rightarrow> int" where
  "round_half_even q =
     (let n = \<lfloor>q\<rfloor>; r = q - of_int n
      in if r < 1 / 2 then n else if 1 / 2 < r then n + 1 else if even n then n else n + 1)"

text \<open>A rounded significand of at most \<open>2 ^ precision\<close> and its exponent make a number, or
  overflow: beyond the largest exponent, or at it when rounding reached the next power of two.\<close>

definition pack :: "fmt \<Rightarrow> bool \<Rightarrow> int \<Rightarrow> int \<Rightarrow> fp" where
  "pack f s m e =
     (if m = 0 then Zero s
      else if max_exp f < e \<or> e = max_exp f \<and> m = 2 ^ precision f then Inf s
      else Fin (if s then - (of_int m * pow2 e) else of_int m * pow2 e))"

definition round_to :: "fmt \<Rightarrow> rat \<Rightarrow> fp" where
  "round_to f q =
     (if q = 0 then Zero False
      else let a = \<bar>q\<bar>; e = max (min_exp f) (ilog2 a - int (precision f) + 1)
           in pack f (q < 0) (round_half_even (a / pow2 e)) e)"

fun fp_isnan :: "fp \<Rightarrow> bool" where
  "fp_isnan NaN = True"
| "fp_isnan _ = False"

fun fp_sign :: "fp \<Rightarrow> bool" where
  "fp_sign NaN = False"
| "fp_sign (Inf s) = s"
| "fp_sign (Zero s) = s"
| "fp_sign (Fin q) = (q < 0)"

fun fp_class :: "fp \<Rightarrow> int" where
  "fp_class (Inf s) = (if s then -1 else 1)"
| "fp_class _ = 0"

fun fp_val :: "fp \<Rightarrow> rat" where
  "fp_val (Fin q) = q"
| "fp_val _ = 0"

fun fp_neg :: "fp \<Rightarrow> fp" where
  "fp_neg NaN = NaN"
| "fp_neg (Inf s) = Inf (\<not> s)"
| "fp_neg (Zero s) = Zero (\<not> s)"
| "fp_neg (Fin q) = Fin (- q)"

fun fp_abs :: "fp \<Rightarrow> fp" where
  "fp_abs NaN = NaN"
| "fp_abs (Inf s) = Inf False"
| "fp_abs (Zero s) = Zero False"
| "fp_abs (Fin q) = Fin \<bar>q\<bar>"

fun ieee_add :: "fmt \<Rightarrow> fp \<Rightarrow> fp \<Rightarrow> fp" where
  "ieee_add f NaN y = NaN"
| "ieee_add f x NaN = NaN"
| "ieee_add f (Inf s) (Inf t) = (if s = t then Inf s else NaN)"
| "ieee_add f (Inf s) y = Inf s"
| "ieee_add f x (Inf t) = Inf t"
| "ieee_add f (Zero s) (Zero t) = Zero (s \<and> t)"
| "ieee_add f x y = round_to f (fp_val x + fp_val y)"

definition ieee_sub :: "fmt \<Rightarrow> fp \<Rightarrow> fp \<Rightarrow> fp" where
  "ieee_sub f x y = ieee_add f x (fp_neg y)"

fun ieee_mul :: "fmt \<Rightarrow> fp \<Rightarrow> fp \<Rightarrow> fp" where
  "ieee_mul f NaN y = NaN"
| "ieee_mul f x NaN = NaN"
| "ieee_mul f (Inf s) (Zero t) = NaN"
| "ieee_mul f (Zero s) (Inf t) = NaN"
| "ieee_mul f (Fin p) (Fin q) = round_to f (p * q)"
| "ieee_mul f (Zero s) y = Zero (s \<noteq> fp_sign y)"
| "ieee_mul f x (Zero t) = Zero (fp_sign x \<noteq> t)"
| "ieee_mul f x y = Inf (fp_sign x \<noteq> fp_sign y)"

fun ieee_div :: "fmt \<Rightarrow> fp \<Rightarrow> fp \<Rightarrow> fp" where
  "ieee_div f NaN y = NaN"
| "ieee_div f x NaN = NaN"
| "ieee_div f (Inf s) (Inf t) = NaN"
| "ieee_div f (Zero s) (Zero t) = NaN"
| "ieee_div f (Fin p) (Fin q) = round_to f (p / q)"
| "ieee_div f (Inf s) y = Inf (s \<noteq> fp_sign y)"
| "ieee_div f x (Zero t) = Inf (fp_sign x \<noteq> t)"
| "ieee_div f x y = Zero (fp_sign x \<noteq> fp_sign y)"

fun isqrt :: "nat \<Rightarrow> nat" where
  "isqrt n =
     (if n = 0 then 0
      else let r = 2 * isqrt (n div 4) in if (r + 1) * (r + 1) \<le> n then r + 1 else r)"

declare isqrt.simps [simp del]

text \<open>The square root is correctly rounded: the scaled radicand \<open>x\<close> has the root
  \<open>isqrt \<lfloor>x\<rfloor>\<close> plus a fraction, which is compared with one half by squaring.\<close>

definition round_sqrt :: "rat \<Rightarrow> int" where
  "round_sqrt x =
     (let r = int (isqrt (nat \<lfloor>x\<rfloor>)); h = (of_int r + 1 / 2) * (of_int r + 1 / 2)
      in if x < h then r else if h < x then r + 1 else if even r then r else r + 1)"

fun ieee_sqrt :: "fmt \<Rightarrow> fp \<Rightarrow> fp" where
  "ieee_sqrt f NaN = NaN"
| "ieee_sqrt f (Inf s) = (if s then NaN else Inf False)"
| "ieee_sqrt f (Zero s) = Zero s"
| "ieee_sqrt f (Fin q) =
     (if q < 0 then NaN
      else let e = max (min_exp f) (ilog2 q div 2 - int (precision f) + 1)
           in pack f False (round_sqrt (q / pow2 (2 * e))) e)"

definition fp_le :: "fp \<Rightarrow> fp \<Rightarrow> bool" where
  "fp_le x y \<longleftrightarrow> \<not> fp_isnan x \<and> \<not> fp_isnan y \<and>
     (fp_class x < fp_class y \<or> fp_class x = fp_class y \<and> fp_val x \<le> fp_val y)"

definition fp_lt :: "fp \<Rightarrow> fp \<Rightarrow> bool" where
  "fp_lt x y \<longleftrightarrow> \<not> fp_isnan x \<and> \<not> fp_isnan y \<and>
     (fp_class x < fp_class y \<or> fp_class x = fp_class y \<and> fp_val x < fp_val y)"

definition fp_eq :: "fp \<Rightarrow> fp \<Rightarrow> bool" where
  "fp_eq x y \<longleftrightarrow> \<not> fp_isnan x \<and> \<not> fp_isnan y \<and> fp_class x = fp_class y \<and> fp_val x = fp_val y"

fun fp_trunc :: "fp \<Rightarrow> int option" where
  "fp_trunc (Fin q) = Some (if q < 0 then \<lceil>q\<rceil> else \<lfloor>q\<rfloor>)"
| "fp_trunc (Zero s) = Some 0"
| "fp_trunc _ = None"

fun fp_narrow :: "fmt \<Rightarrow> fp \<Rightarrow> fp" where
  "fp_narrow f (Fin q) = round_to f q"
| "fp_narrow f x = x"

definition ieee_arith :: "fmt \<Rightarrow> fp arith" where
  "ieee_arith f = \<lparr>fadd = ieee_add f, fsub = ieee_sub f, fmul = ieee_mul f, fdiv = ieee_div f,
     fsqrt = ieee_sqrt f, of_rational = round_to f\<rparr>"

definition ieee :: "(fp \<Rightarrow> fp) \<Rightarrow> fp machine" where
  "ieee lg = \<lparr>dbl = ieee_arith binary64, ext = ieee_arith extended80,
     narrow = fp_narrow binary64, fneg = fp_neg, fabs = fp_abs, flog = lg,
     flt = fp_lt, fle = fp_le, feq = fp_eq, isnan = fp_isnan, qnan = NaN, trunc = fp_trunc\<rparr>"

section \<open>Exact real arithmetic\<close>

type_synonym xreal = "real option"

fun lift2 :: "(real \<Rightarrow> real \<Rightarrow> real) \<Rightarrow> xreal \<Rightarrow> xreal \<Rightarrow> xreal" where
  "lift2 f (Some x) (Some y) = Some (f x y)"
| "lift2 f _ _ = None"

fun xdiv :: "xreal \<Rightarrow> xreal \<Rightarrow> xreal" where
  "xdiv (Some x) (Some y) = (if y = 0 then None else Some (x / y))"
| "xdiv _ _ = None"

fun xsqrt :: "xreal \<Rightarrow> xreal" where
  "xsqrt (Some x) = (if x < 0 then None else Some (sqrt x))"
| "xsqrt None = None"

fun xlog :: "xreal \<Rightarrow> xreal" where
  "xlog (Some x) = (if 0 < x then Some (ln x) else None)"
| "xlog None = None"

fun xrel :: "(real \<Rightarrow> real \<Rightarrow> bool) \<Rightarrow> xreal \<Rightarrow> xreal \<Rightarrow> bool" where
  "xrel r (Some x) (Some y) = r x y"
| "xrel r _ _ = False"

definition exact_arith :: "xreal arith" where
  "exact_arith = \<lparr>fadd = lift2 (+), fsub = lift2 (-), fmul = lift2 (*), fdiv = xdiv,
     fsqrt = xsqrt, of_rational = (\<lambda>q. Some (of_rat q))\<rparr>"

definition exact :: "xreal machine" where
  "exact = \<lparr>dbl = exact_arith, ext = exact_arith, narrow = id,
     fneg = map_option uminus, fabs = map_option abs, flog = xlog,
     flt = xrel (<), fle = xrel (\<le>), feq = xrel (=), isnan = (\<lambda>x. x = None), qnan = None,
     trunc = map_option (\<lambda>x. if x < 0 then \<lceil>x\<rceil> else \<lfloor>x\<rfloor>)\<rparr>"

lemmas exact_simps = exact_def exact_arith_def

lemmas ieee_simps = ieee_def ieee_arith_def

section \<open>What the code relies on about comparisons\<close>

text \<open>
  Comparisons are false when an operand is NaN, and total, reflexive and transitive on the
  other values; \<^verbatim>\<open>0.0\<close> and \<^verbatim>\<open>1.0\<close> are distinct numbers.
\<close>

locale machine_order =
  fixes M :: "'f machine"
  assumes le_not_nan: "fle M x y \<Longrightarrow> \<not> isnan M x \<and> \<not> isnan M y"
    and le_refl: "\<not> isnan M x \<Longrightarrow> fle M x x"
    and le_total: "\<not> isnan M x \<Longrightarrow> \<not> isnan M y \<Longrightarrow> fle M x y \<or> fle M y x"
    and le_trans: "fle M x y \<Longrightarrow> fle M y z \<Longrightarrow> fle M x z"
    and lt_iff: "flt M x y \<longleftrightarrow> fle M x y \<and> \<not> fle M y x"
    and eq_iff: "feq M x y \<longleftrightarrow> fle M x y \<and> fle M y x"
    and nan_qnan: "isnan M (qnan M)"
    and zero_less_one: "flt M (dlit M 0) (dlit M 1)"
begin

lemma not_le_imp_lt: "\<not> isnan M x \<Longrightarrow> \<not> isnan M y \<Longrightarrow> \<not> fle M x y \<Longrightarrow> flt M y x"
  using le_total [of x y] by (auto simp: lt_iff)

lemma lt_imp_le: "flt M x y \<Longrightarrow> fle M x y"
  by (simp add: lt_iff)

lemma lt_le_trans: "flt M x y \<Longrightarrow> fle M y z \<Longrightarrow> flt M x z"
  by (meson le_trans lt_iff)

lemma zero_one_not_nan: "\<not> isnan M (dlit M 0)" "\<not> isnan M (dlit M 1)"
  using zero_less_one le_not_nan by (auto simp: lt_iff)

lemma dbool_not_nan: "\<not> isnan M (dbool M b)"
  by (simp add: dbool_def zero_one_not_nan)

lemma dbool_truth: "feq M (dbool M b) (dlit M 0) \<longleftrightarrow> \<not> b"
  using zero_less_one zero_one_not_nan by (auto simp: dbool_def eq_iff lt_iff le_refl)

lemma dbool_inj: "dbool M b = dbool M c \<longleftrightarrow> b = c"
proof
  assume "dbool M b = dbool M c"
  then have "feq M (dbool M b) (dlit M 0) = feq M (dbool M c) (dlit M 0)" by (rule arg_cong)
  then show "b = c" unfolding dbool_truth by blast
qed simp

end

lemma round_to_zero: "round_to f 0 = Zero False"
  by (simp add: round_to_def)

lemma dlit_ieee_one: "round_to binary64 1 = Fin 1"
  by code_simp

lemma fp_le_not_nan: "fp_le x y \<Longrightarrow> \<not> fp_isnan x \<and> \<not> fp_isnan y"
  by (simp add: fp_le_def)

interpretation ieee: machine_order "ieee lg" for lg
proof (unfold_locales, goal_cases)
  case (1 x y) then show ?case by (simp add: ieee_simps fp_le_def)
next
  case (2 x) then show ?case by (simp add: ieee_simps fp_le_def)
next
  case (3 x y) then show ?case by (auto simp: ieee_simps fp_le_def)
next
  case (4 x y z) then show ?case by (auto simp: ieee_simps fp_le_def)
next
  case (5 x y) then show ?case by (auto simp: ieee_simps fp_le_def fp_lt_def)
next
  case (6 x y) then show ?case by (auto simp: ieee_simps fp_le_def fp_eq_def)
next
  case 7 then show ?case by (simp add: ieee_simps)
next
  case 8 then show ?case
    by (simp add: ieee_simps fp_lt_def round_to_zero dlit_ieee_one)
qed

interpretation exact: machine_order exact
proof (unfold_locales, goal_cases)
  case (1 x y) then show ?case by (cases x; cases y) (auto simp: exact_simps)
next
  case (2 x) then show ?case by (cases x) (auto simp: exact_simps)
next
  case (3 x y) then show ?case by (cases x; cases y) (auto simp: exact_simps)
next
  case (4 x y z) then show ?case by (cases x; cases y; cases z) (auto simp: exact_simps)
next
  case (5 x y) then show ?case by (cases x; cases y) (auto simp: exact_simps)
next
  case (6 x y) then show ?case by (cases x; cases y) (auto simp: exact_simps)
next
  case 7 then show ?case by (simp add: exact_simps)
next
  case 8 then show ?case by (simp add: exact_simps)
qed

lemma exact_ops [simp]:
  "ladd exact (Some a) (Some b) = Some (a + b)" "lsub exact (Some a) (Some b) = Some (a - b)"
  "lmul exact (Some a) (Some b) = Some (a * b)"
  "ldiv exact (Some a) (Some b) = (if b = 0 then None else Some (a / b))"
  "dadd exact (Some a) (Some b) = Some (a + b)" "dsub exact (Some a) (Some b) = Some (a - b)"
  "dmul exact (Some a) (Some b) = Some (a * b)"
  "ddiv exact (Some a) (Some b) = (if b = 0 then None else Some (a / b))"
  "llit exact q = Some (of_rat q)" "dlit exact q = Some (of_rat q)"
  "flt exact (Some a) (Some b) \<longleftrightarrow> a < b" "fle exact (Some a) (Some b) \<longleftrightarrow> a \<le> b"
  "feq exact (Some a) (Some b) \<longleftrightarrow> a = b"
  "narrow exact y = y" "fabs exact (Some a) = Some \<bar>a\<bar>" "fneg exact (Some a) = Some (- a)"
  "dsqrt exact (Some a) = (if a < 0 then None else Some (sqrt a))"
  "lsqrt exact (Some a) = (if a < 0 then None else Some (sqrt a))"
  "isnan exact y \<longleftrightarrow> y = None" "qnan exact = None"
  by (simp_all add: exact_simps)

end
