(* ===== verification/Ast.thy ===== *)
theory Ast
  imports Machine_Float
begin

text \<open>
  The syntax trees of the DSL (\<^verbatim>\<open>src/ast.h\<close>) and the passes that only read or copy
  them: \<^verbatim>\<open>CloneExpr\<close> and \<^verbatim>\<open>AstEquals\<close> (\<^verbatim>\<open>src/ast_clone.cpp\<close>),
  \<^verbatim>\<open>CollectTickerSymbols\<close> (\<^verbatim>\<open>src/ast_utils.cpp\<close>). A node carries its
  source location first; a call carries the two mutable annotations \<^verbatim>\<open>node_id\<close>
  and \<^verbatim>\<open>symbol_id\<close> last, -1 when unset. A pass that mutates nodes through a pointer
  returns the new tree. \<open>erase\<close> forgets what \<^verbatim>\<open>AstEquals\<close> ignores, so that
  structural equality is equality of erased trees.
\<close>

section \<open>Syntax\<close>

datatype BinaryOpKind =
  Add | Sub | Mul | Div | Gt | Lt | Gte | Lte | Eq | NotEq | And | Or

datatype UnaryOpKind = Plus | Minus

datatype 'f expr =
    NumberLiteral SourceLoc 'f
  | IdentifierExpr SourceLoc string
  | ParameterExpr SourceLoc string int
  | UnaryOp SourceLoc UnaryOpKind "'f expr"
  | BinaryOp SourceLoc BinaryOpKind "'f expr" "'f expr"
  | FunctionCall SourceLoc string "'f expr list" int int
  | Conditional SourceLoc "'f expr" "'f expr" "'f expr"

record 'f SignalDef =
  sig_name :: string
  body :: "'f expr"

record 'f ParamDef =
  param_name :: string
  default_value :: 'f
  param_id :: int
  param_loc :: SourceLoc

record 'f ProgramDef =
  params_of :: "'f ParamDef list"
  signals_of :: "'f SignalDef list"

primrec loc_of :: "'f expr \<Rightarrow> SourceLoc" where
  "loc_of (NumberLiteral l v) = l"
| "loc_of (IdentifierExpr l n) = l"
| "loc_of (ParameterExpr l n i) = l"
| "loc_of (UnaryOp l k e) = l"
| "loc_of (BinaryOp l k a b) = l"
| "loc_of (FunctionCall l n as i s) = l"
| "loc_of (Conditional l c t e) = l"

primrec set_loc :: "SourceLoc \<Rightarrow> 'f expr \<Rightarrow> 'f expr" where
  "set_loc l' (NumberLiteral l v) = NumberLiteral l' v"
| "set_loc l' (IdentifierExpr l n) = IdentifierExpr l' n"
| "set_loc l' (ParameterExpr l n i) = ParameterExpr l' n i"
| "set_loc l' (UnaryOp l k e) = UnaryOp l' k e"
| "set_loc l' (BinaryOp l k a b) = BinaryOp l' k a b"
| "set_loc l' (FunctionCall l n as i s) = FunctionCall l' n as i s"
| "set_loc l' (Conditional l c t e) = Conditional l' c t e"

text \<open>The list of calls whose first argument is a ticker, which several passes spell out.\<close>

definition ticker_first_arg :: "string \<Rightarrow> bool" where
  "ticker_first_arg n \<longleftrightarrow>
     n = ''mid'' \<or> n = ''bid'' \<or> n = ''ask'' \<or> n = ''spread'' \<or> n = ''vwap''"

section \<open>Copying and comparing trees\<close>

fun CloneExpr :: "'f expr \<Rightarrow> 'f expr" where
  "CloneExpr (NumberLiteral l v) = NumberLiteral l v"
| "CloneExpr (IdentifierExpr l n) = IdentifierExpr l n"
| "CloneExpr (ParameterExpr l n i) = ParameterExpr l n i"
| "CloneExpr (UnaryOp l k e) = UnaryOp l k (CloneExpr e)"
| "CloneExpr (BinaryOp l k a b) = BinaryOp l k (CloneExpr a) (CloneExpr b)"
| "CloneExpr (Conditional l c t e) = Conditional l (CloneExpr c) (CloneExpr t) (CloneExpr e)"
| "CloneExpr (FunctionCall l n as i s) = FunctionCall l n (map CloneExpr as) (-1) (-1)"

text \<open>
  The comparison of two literals is the comparison of their bits; the carrier has one NaN, so
  bit equality is equality on it (two NaNs of different payload are identified).
\<close>

lemma size_zip_fst [termination_simp]:
  "(a, b) \<in> set (zip as bs) \<Longrightarrow> size a < Suc (size_list size as)"
  by (drule set_zip_leftD) (simp add: less_Suc_eq_le size_list_estimation')

fun AstEquals :: "'f expr \<Rightarrow> 'f expr \<Rightarrow> bool" where
  "AstEquals (NumberLiteral _ v) b = (case b of NumberLiteral _ w \<Rightarrow> v = w | _ \<Rightarrow> False)"
| "AstEquals (IdentifierExpr _ n) b = (case b of IdentifierExpr _ m \<Rightarrow> n = m | _ \<Rightarrow> False)"
| "AstEquals (ParameterExpr _ n i) b =
     (case b of ParameterExpr _ m j \<Rightarrow> n = m \<and> i = j | _ \<Rightarrow> False)"
| "AstEquals (UnaryOp _ k e) b =
     (case b of UnaryOp _ k' e' \<Rightarrow> k = k' \<and> AstEquals e e' | _ \<Rightarrow> False)"
| "AstEquals (BinaryOp _ k l r) b =
     (case b of BinaryOp _ k' l' r' \<Rightarrow> k = k' \<and> AstEquals l l' \<and> AstEquals r r' | _ \<Rightarrow> False)"
| "AstEquals (Conditional _ c t e) b =
     (case b of Conditional _ c' t' e' \<Rightarrow>
        AstEquals c c' \<and> AstEquals t t' \<and> AstEquals e e' | _ \<Rightarrow> False)"
| "AstEquals (FunctionCall _ n as _ _) b =
     (case b of FunctionCall _ m bs _ _ \<Rightarrow>
        n = m \<and> length as = length bs \<and> list_all (\<lambda>(x, y). AstEquals x y) (zip as bs)
      | _ \<Rightarrow> False)"

fun erase :: "'f expr \<Rightarrow> 'f expr" where
  "erase (NumberLiteral l v) = NumberLiteral no_loc v"
| "erase (IdentifierExpr l n) = IdentifierExpr no_loc n"
| "erase (ParameterExpr l n i) = ParameterExpr no_loc n i"
| "erase (UnaryOp l k e) = UnaryOp no_loc k (erase e)"
| "erase (BinaryOp l k a b) = BinaryOp no_loc k (erase a) (erase b)"
| "erase (Conditional l c t e) = Conditional no_loc (erase c) (erase t) (erase e)"
| "erase (FunctionCall l n as i s) = FunctionCall no_loc n (map erase as) (-1) (-1)"

lemma list_all_zip_map_eq:
  assumes "length as = length bs"
    and "\<And>x y. (x, y) \<in> set (zip as bs) \<Longrightarrow> R x y \<longleftrightarrow> f x = f y"
  shows "list_all (\<lambda>(x, y). R x y) (zip as bs) \<longleftrightarrow> map f as = map f bs"
  using assms by (induction as bs rule: list_induct2) auto

lemma AstEquals_erase: "AstEquals a b \<longleftrightarrow> erase a = erase b"
proof (induction a b rule: AstEquals.induct)
  case (7 l n as i s b)
  show ?case
  proof (cases b)
    case (FunctionCall l' m bs i' s')
    have "length as = length bs \<Longrightarrow>
        list_all (\<lambda>(x, y). AstEquals x y) (zip as bs) \<longleftrightarrow> map erase as = map erase bs"
      by (rule list_all_zip_map_eq) (use 7 FunctionCall in auto)
    then show ?thesis
      using FunctionCall by (auto dest: map_eq_imp_length_eq)
  qed auto
qed (auto split: expr.splits)

lemma erase_CloneExpr [simp]: "erase (CloneExpr e) = erase e"
  by (induction e) auto

lemma loc_of_CloneExpr [simp]: "loc_of (CloneExpr e) = loc_of e"
  by (cases e) auto

lemma erase_set_loc [simp]: "erase (set_loc l e) = erase e"
  by (cases e) auto

section \<open>Every annotation of a tree\<close>

text \<open>The calls of a tree in the order a preorder walk meets them.\<close>

fun calls :: "'f expr \<Rightarrow> (string \<times> 'f expr list \<times> int \<times> int) list" where
  "calls (UnaryOp l k e) = calls e"
| "calls (BinaryOp l k a b) = calls a @ calls b"
| "calls (Conditional l c t e) = calls c @ calls t @ calls e"
| "calls (FunctionCall l n as i s) = (n, as, i, s) # concat (map calls as)"
| "calls _ = []"

lemma calls_CloneExpr: "(n, as, i, s) \<in> set (calls (CloneExpr e)) \<Longrightarrow> i = -1 \<and> s = -1"
  by (induction e) auto

section \<open>Ticker symbols\<close>

fun call_ticker :: "string \<times> 'f expr list \<times> int \<times> int \<Rightarrow> string set" where
  "call_ticker (n, as, i, s) =
     (if ticker_first_arg n
      then (case as of IdentifierExpr _ t # _ \<Rightarrow> {t} | _ \<Rightarrow> {}) else {})"

fun CollectTickerSymbols :: "'f expr \<Rightarrow> string set" where
  "CollectTickerSymbols (UnaryOp l k e) = CollectTickerSymbols e"
| "CollectTickerSymbols (BinaryOp l k a b) = CollectTickerSymbols a \<union> CollectTickerSymbols b"
| "CollectTickerSymbols (Conditional l c t e) =
     CollectTickerSymbols c \<union> CollectTickerSymbols t \<union> CollectTickerSymbols e"
| "CollectTickerSymbols (FunctionCall l n as i s) =
     call_ticker (n, as, i, s) \<union> \<Union> (set (map CollectTickerSymbols as))"
| "CollectTickerSymbols _ = {}"

lemma CollectTickerSymbols_calls: "CollectTickerSymbols e = \<Union> (call_ticker ` set (calls e))"
  by (induction e) (auto simp del: call_ticker.simps)

lemma CollectTickerSymbols_mem:
  "(n, IdentifierExpr l t # as, i, s) \<in> set (calls e) \<Longrightarrow> ticker_first_arg n \<Longrightarrow>
     t \<in> CollectTickerSymbols e"
  by (force simp: CollectTickerSymbols_calls)

lemma finite_CollectTickerSymbols: "finite (CollectTickerSymbols e)"
  by (induction e) (auto split: list.splits expr.splits)

text \<open>A clone is structurally equal to exactly the trees the original is equal to: those that
  differ from it in locations and annotations only.\<close>

theorem AstEquals_CloneExpr:
  "AstEquals (CloneExpr a) b \<longleftrightarrow> erase a = erase b"
  by (simp add: AstEquals_erase)

end
