(* ===== verification/Ring_Buffer.thy ===== *)
theory Ring_Buffer
  imports Jit_Prelude "HOL-Library.Multiset"
begin

text \<open>
  What the rolling operators of \<^verbatim>\<open>src/runtime.cpp\<close> share: a vector of \<open>cap\<close> slots
  written at \<open>head\<close>, of which the last \<open>count\<close> hold the window. \<open>ring_window\<close> reads
  the window in order of arrival. The locale \<open>sliding_window\<close> is the contract of an
  operator state with a push: the window of a state fed with a stream is the last \<open>period\<close>
  samples of the stream, whatever the state was before when its capacity differs.
\<close>

section \<open>Reading a ring in order of arrival\<close>

definition ring_window :: "'a list \<Rightarrow> nat \<Rightarrow> nat \<Rightarrow> nat \<Rightarrow> 'a list" where
  "ring_window buf cap h cnt = map (\<lambda>i. buf ! ((h + cap - cnt + i) mod cap)) [0..<cnt]"

definition ring_wf :: "'a list \<Rightarrow> nat \<Rightarrow> nat \<Rightarrow> nat \<Rightarrow> bool" where
  "ring_wf buf cap h cnt \<longleftrightarrow>
     length buf = cap \<and> cnt \<le> cap \<and> (0 < cap \<longrightarrow> h < cap) \<and> (cnt < cap \<longrightarrow> h = cnt)"

lemma length_ring_window [simp]: "length (ring_window buf cap h cnt) = cnt"
  by (simp add: ring_window_def)

lemma ring_wf_empty [simp]: "ring_wf (replicate p d) p 0 0"
  by (simp add: ring_wf_def)

lemma ring_window_0 [simp]: "ring_window buf cap h 0 = []"
  by (simp add: ring_window_def)

lemma mod_add_cap: "(h::nat) < cap \<Longrightarrow> (h + cap) mod cap = h"
  by simp

text \<open>A write at the head into a ring with room extends the window.\<close>

lemma ring_window_fill:
  assumes "ring_wf buf cap h cnt" and "cnt < cap"
  shows "ring_window (buf[h := x]) cap ((h + 1) mod cap) (Suc cnt) = ring_window buf cap h cnt @ [x]"
proof -
  from assms have h: "h = cnt" and len: "length buf = cap" by (auto simp: ring_wf_def)
  have start: "(Suc cnt mod cap + cap - Suc cnt + i) mod cap = i" if "i < Suc cnt" for i
  proof (cases "Suc cnt = cap")
    case True
    with that show ?thesis by simp
  next
    case False
    with assms(2) that have "Suc cnt mod cap = Suc cnt" by simp
    then have "Suc cnt mod cap + cap - Suc cnt + i = i + cap" by simp
    with that assms(2) show ?thesis by simp
  qed
  have old: "i mod cap = i" if "i < cnt" for i
    using that assms(2) by simp
  show ?thesis
    by (rule nth_equalityI)
      (auto simp: ring_window_def h nth_append start old less_Suc_eq len assms(2))
qed

text \<open>A write at the head of a full ring drops the oldest element, which is the one under the
  head.\<close>

lemma ring_window_full:
  assumes "ring_wf buf cap h cap" and "0 < cap"
  shows "ring_window buf cap h cap = buf ! h # tl (ring_window buf cap h cap)"
    and "ring_window (buf[h := x]) cap ((h + 1) mod cap) cap =
      tl (ring_window buf cap h cap) @ [x]"
proof -
  from assms have h: "h < cap" and len: "length buf = cap" by (auto simp: ring_wf_def)
  have "ring_window buf cap h cap ! 0 = buf ! h"
    using assms(2) h by (simp add: ring_window_def)
  moreover have "ring_window buf cap h cap \<noteq> []"
    using assms(2) by (metis length_ring_window list.size(3) less_not_refl)
  ultimately show "ring_window buf cap h cap = buf ! h # tl (ring_window buf cap h cap)"
    by (metis hd_conv_nth list.collapse)
  show "ring_window (buf[h := x]) cap ((h + 1) mod cap) cap =
      tl (ring_window buf cap h cap) @ [x]"
  proof (rule nth_equalityI)
    show "length (ring_window (buf[h := x]) cap ((h + 1) mod cap) cap) =
        length (tl (ring_window buf cap h cap) @ [x])"
      using assms(2) by simp
    fix i assume "i < length (ring_window (buf[h := x]) cap ((h + 1) mod cap) cap)"
    then have i: "i < cap" by simp
    have idx: "((h + 1) mod cap + i) mod cap = (h + Suc i) mod cap"
      by (simp add: mod_add_left_eq)
    have ne: "(h + Suc i) mod cap \<noteq> h" if "Suc i < cap"
    proof
      assume "(h + Suc i) mod cap = h"
      then have "(h + Suc i) mod cap = (h + 0) mod cap" using h by simp
      then have "cap dvd Suc i" by (metis add_diff_cancel_left' add.right_neutral le_add1 mod_eq_dvd_iff_nat)
      with that show False by (simp add: nat_dvd_not_less)
    qed
    have last: "(h + cap) mod cap = h" using h by simp
    show "ring_window (buf[h := x]) cap ((h + 1) mod cap) cap ! i =
        (tl (ring_window buf cap h cap) @ [x]) ! i"
    proof (cases "Suc i < cap")
      case True
      with i idx ne show ?thesis
        by (auto simp: ring_window_def nth_append nth_tl)
    next
      case False
      with i have "Suc i = cap" by simp
      with i idx last len h show ?thesis
        by (auto simp: ring_window_def nth_append nth_tl)
    qed
  qed
qed

lemma ring_wf_push:
  assumes "ring_wf buf cap h cnt" and "0 < cap"
  shows "ring_wf (buf[h := x]) cap ((h + 1) mod cap) (if cnt = cap then cap else Suc cnt)"
  using assms by (auto simp: ring_wf_def)

lemma ring_window_push:
  assumes "ring_wf buf cap h cnt" and "0 < cap"
  shows "ring_window (buf[h := x]) cap ((h + 1) mod cap) (if cnt = cap then cap else Suc cnt) =
    lastn cap (ring_window buf cap h cnt @ [x])"
proof (cases "cnt = cap")
  case True
  with ring_window_full(2) [of buf cap h x] assms show ?thesis
    by (simp add: lastn_def drop_Suc)
next
  case False
  with assms have "cnt < cap" by (simp add: ring_wf_def)
  with ring_window_fill [OF assms(1), of x] show ?thesis by simp
qed

text \<open>The slots in index order hold the same values as the window.\<close>

lemma ring_window_not_full:
  assumes "ring_wf buf cap h cnt" and "cnt < cap"
  shows "ring_window buf cap h cnt = take cnt buf"
  using assms by (intro nth_equalityI) (auto simp: ring_window_def ring_wf_def)

lemma ring_window_rotate:
  assumes "ring_wf buf cap h cap"
  shows "ring_window buf cap h cap = rotate h buf"
  using assms
  by (intro nth_equalityI) (auto simp: ring_window_def ring_wf_def nth_rotate)

lemma mset_rotate: "mset (rotate n xs) = mset xs"
  by (metis append_take_drop_id mset_append rotate_drop_take union_commute)

lemma mset_ring_window:
  assumes "ring_wf buf cap h cnt"
  shows "mset (ring_window buf cap h cnt) = mset (take cnt buf)"
proof (cases "cnt = cap")
  case True
  with assms show ?thesis by (simp add: ring_window_rotate ring_wf_def mset_rotate)
next
  case False
  with assms have "cnt < cap" by (simp add: ring_wf_def)
  with assms show ?thesis by (simp add: ring_window_not_full)
qed

section \<open>The contract of a sliding window\<close>

primrec push_all :: "('s \<Rightarrow> nat \<Rightarrow> 'a \<Rightarrow> 's result) \<Rightarrow> nat \<Rightarrow> 'a list \<Rightarrow> 's \<Rightarrow> 's result" where
  "push_all push p [] s = Inr s"
| "push_all push p (x # xs) s = rbind (push s p x) (push_all push p xs)"

lemma push_all_append:
  "push_all push p (xs @ ys) s = rbind (push_all push p xs s) (push_all push p ys)"
proof (induction xs arbitrary: s)
  case (Cons x xs)
  then show ?case by (cases "push s p x") auto
qed simp

locale sliding_window =
  fixes push :: "'s \<Rightarrow> nat \<Rightarrow> 'a \<Rightarrow> 's result"
    and wf :: "'s \<Rightarrow> bool" and cap :: "'s \<Rightarrow> nat" and window :: "'s \<Rightarrow> 'a list"
  assumes push_step: "wf s \<Longrightarrow> 0 < p \<Longrightarrow>
      \<exists>s'. push s p x = Inr s' \<and> wf s' \<and> cap s' = p \<and>
        window s' = lastn p ((if cap s = p then window s else []) @ [x])"
    and push_zero: "\<exists>e. push s 0 x = Inl e"
begin

lemma push_all_same:
  assumes "0 < p" and "wf s" and "cap s = p" and "window s = lastn p ys"
  shows "\<exists>s'. push_all push p xs s = Inr s' \<and> wf s' \<and> cap s' = p \<and> window s' = lastn p (ys @ xs)"
  using assms(2-)
proof (induction xs arbitrary: s ys)
  case (Cons x xs)
  from push_step [OF Cons.prems(1) assms(1), of x] Cons.prems
  obtain s' where s': "push s p x = Inr s'" "wf s'" "cap s' = p" "window s' = lastn p (ys @ [x])"
    by (auto simp: lastn_lastn_snoc)
  from Cons.IH [OF s'(2-4)] s'(1) show ?case by simp
qed auto

text \<open>A state of another capacity is reset by the first sample of the new stream.\<close>

lemma push_all_fresh:
  assumes "0 < p" and "wf s" and "cap s \<noteq> p" and "xs \<noteq> []"
  shows "\<exists>s'. push_all push p xs s = Inr s' \<and> wf s' \<and> cap s' = p \<and> window s' = lastn p xs"
proof -
  from assms(4) obtain x ys where xs: "xs = x # ys" by (cases xs) auto
  from push_step [OF assms(2,1), of x] assms(3)
  obtain s' where s': "push s p x = Inr s'" "wf s'" "cap s' = p" "window s' = lastn p [x]"
    by auto
  from push_all_same [OF assms(1) s'(2-4), of ys] s'(1) xs show ?thesis by simp
qed

end

text \<open>
  An operator whose readings keep an invariant \<open>inv\<close> between the state and the samples of the
  window (the accumulators are the sums of the window, say), for samples \<open>inj x\<close>. The
  invariant then holds of the last \<open>p\<close> samples after any stream.
\<close>

locale accumulating_window = sliding_window push wf cap window
  for push :: "'s \<Rightarrow> nat \<Rightarrow> 'a \<Rightarrow> 's result" and wf cap and window :: "'s \<Rightarrow> 'a list" +
  fixes inv :: "'s \<Rightarrow> 'b list \<Rightarrow> bool" and inj :: "'b \<Rightarrow> 'a"
  assumes inv_step: "wf s \<Longrightarrow> 0 < p \<Longrightarrow> (cap s = p \<Longrightarrow> inv s ws) \<Longrightarrow> push s p (inj x) = Inr s' \<Longrightarrow>
      inv s' (lastn p ((if cap s = p then ws else []) @ [x]))"
begin

lemma inv_pushes:
  assumes "0 < p" and "wf s" and "cap s = p" and "inv s (lastn p ys)"
  shows "\<exists>s'. push_all push p (map inj xs) s = Inr s' \<and> wf s' \<and> cap s' = p \<and> inv s' (lastn p (ys @ xs))"
  using assms(2-)
proof (induction xs arbitrary: s ys)
  case (Cons x xs)
  from push_step [OF Cons.prems(1) assms(1)]
  obtain s' where s': "push s p (inj x) = Inr s'" "wf s'" "cap s' = p" by metis
  with inv_step [OF Cons.prems(1) assms(1) Cons.prems(3) s'(1)] Cons.prems(2)
  have "inv s' (lastn p (ys @ [x]))" by (simp add: lastn_lastn_snoc)
  from Cons.IH [OF s'(2,3) this] s'(1) show ?case by simp
qed auto

lemma inv_fresh:
  assumes "0 < p" and "wf s" and "cap s \<noteq> p" and "xs \<noteq> []"
  shows "\<exists>s'. push_all push p (map inj xs) s = Inr s' \<and> wf s' \<and> cap s' = p \<and> inv s' (lastn p xs)"
proof -
  from assms(4) obtain x ys where xs: "xs = x # ys" by (cases xs) auto
  from push_step [OF assms(2,1)]
  obtain s' where s': "push s p (inj x) = Inr s'" "wf s'" "cap s' = p" by metis
  with inv_step [OF assms(2,1) _ s'(1)] assms(3) have "inv s' (lastn p [x])" by auto
  from inv_pushes [OF assms(1) s'(2,3) this, of ys] s'(1) xs show ?thesis by simp
qed

end

text \<open>What a push does to a sum over the window.\<close>

lemma sum_list_push:
  fixes f :: "'a \<Rightarrow> 'b::ab_group_add"
  shows "0 < p \<Longrightarrow> length ws \<le> p \<Longrightarrow> (\<Sum>w\<leftarrow>lastn p (ws @ [x]). f w) =
     (\<Sum>w\<leftarrow>ws. f w) - (if length ws = p then f (hd ws) else 0) + f x"
  by (cases ws) (auto simp: lastn_def)

end
