(* ===== verification/Ring_Stats.thy ===== *)
theory Ring_Stats
  imports Machine_Float Ring_Buffer
begin

text \<open>
  The rolling mean and standard deviation of \<^verbatim>\<open>src/runtime.cpp\<close>
  (\<^verbatim>\<open>RingStatsState\<close> and the functions on it): a running sum, a rolling Welford mean
  and sum of squared deviations in long double, and a recomputation from the buffer once per
  window of slides. On every machine the buffer holds the last \<open>period\<close> samples; in exact
  arithmetic the accumulators are the sum, the mean and the sum of squared deviations of that
  window, so the O(1) readout is the two-pass formula kept as a reference.
  The branch for the MSVC tool chain (a refresh on every push) is not modelled.
\<close>

section \<open>State and operations\<close>

record 'f RingStatsState =
  rs_buffer :: "'f list"
  rs_capacity :: nat
  rs_head :: nat
  rs_count :: nat
  rs_sum :: 'f
  rs_mean :: 'f
  rs_m2 :: 'f
  rs_slides :: nat

definition RingStatsState0 :: "'f machine \<Rightarrow> 'f RingStatsState" where
  "RingStatsState0 M =
     \<lparr>rs_buffer = [], rs_capacity = 0, rs_head = 0, rs_count = 0, rs_sum = llit M 0,
      rs_mean = llit M 0, rs_m2 = llit M 0, rs_slides = 0\<rparr>"

definition RingStatsRefreshInterval :: "nat \<Rightarrow> nat" where
  "RingStatsRefreshInterval capacity = capacity"

definition RingStatsUpdateMeanM2OnAdd ::
    "'f machine \<Rightarrow> 'f RingStatsState \<Rightarrow> 'f \<Rightarrow> 'f RingStatsState" where
  "RingStatsUpdateMeanM2OnAdd M st x =
     (let n = lnat M (rs_count st);
          delta = lsub M x (rs_mean st);
          mean' = ladd M (rs_mean st) (ldiv M delta n);
          delta2 = lsub M x mean'
      in st\<lparr>rs_mean := mean', rs_m2 := ladd M (rs_m2 st) (lmul M delta delta2)\<rparr>)"

definition RingStatsUpdateMeanM2OnSlide ::
    "'f machine \<Rightarrow> 'f RingStatsState \<Rightarrow> 'f \<Rightarrow> 'f \<Rightarrow> 'f RingStatsState" where
  "RingStatsUpdateMeanM2OnSlide M st old_sample new_sample =
     (if rs_capacity st \<le> 1 then st\<lparr>rs_mean := new_sample, rs_m2 := llit M 0\<rparr>
      else
        let n = lnat M (rs_count st);
            delta_r = lsub M old_sample (rs_mean st);
            mean_r = lsub M (rs_mean st) (ldiv M delta_r (lsub M n (llit M 1)));
            m2_r = lsub M (rs_m2 st) (lmul M delta_r (lsub M old_sample mean_r));
            delta_a = lsub M new_sample mean_r;
            mean_a = ladd M mean_r (ldiv M delta_a n);
            m2_a = ladd M m2_r (lmul M delta_a (lsub M new_sample mean_a))
        in st\<lparr>rs_mean := mean_a, rs_m2 := if flt M m2_a (llit M 0) then llit M 0 else m2_a\<rparr>)"

text \<open>The two loops over the first \<open>count\<close> slots of the buffer.\<close>

definition sum_loop :: "'f machine \<Rightarrow> 'f list \<Rightarrow> 'f" where
  "sum_loop M xs = foldl (ladd M) (llit M 0) xs"

definition ss_loop :: "'f machine \<Rightarrow> 'f \<Rightarrow> 'f list \<Rightarrow> 'f" where
  "ss_loop M mean xs =
     foldl (\<lambda>ss x. let d = lsub M x mean in ladd M ss (lmul M d d)) (llit M 0) xs"

definition RingStatsRefreshMeanM2FromBuffer ::
    "'f machine \<Rightarrow> 'f RingStatsState \<Rightarrow> 'f RingStatsState" where
  "RingStatsRefreshMeanM2FromBuffer M st =
     (let n = lnat M (rs_count st);
          xs = take (rs_count st) (rs_buffer st);
          mean = ldiv M (sum_loop M xs) n;
          ss = ss_loop M mean xs
      in st\<lparr>rs_mean := mean, rs_m2 := if flt M ss (llit M 0) then llit M 0 else ss,
            rs_slides := 0\<rparr>)"

text \<open>The reset of a state whose capacity is not the period, and the body the checked and the
  prepared push share.\<close>

definition ring_stats_reset ::
    "'f machine \<Rightarrow> nat \<Rightarrow> 'f RingStatsState \<Rightarrow> 'f RingStatsState" where
  "ring_stats_reset M period st =
     st\<lparr>rs_buffer := replicate period (dlit M 0), rs_capacity := period, rs_head := 0,
        rs_count := 0, rs_sum := llit M 0, rs_mean := llit M 0, rs_m2 := llit M 0,
        rs_slides := 0\<rparr>"

definition ring_stats_accumulate ::
    "'f machine \<Rightarrow> 'f RingStatsState \<Rightarrow> 'f \<Rightarrow> 'f RingStatsState" where
  "ring_stats_accumulate M st sample =
     (if rs_count st = rs_capacity st then
        let old = rs_buffer st ! rs_head st;
            st' = st\<lparr>rs_sum := lsub M (rs_sum st) old\<rparr>
        in RingStatsUpdateMeanM2OnSlide M st' old sample
      else RingStatsUpdateMeanM2OnAdd M (st\<lparr>rs_count := Suc (rs_count st)\<rparr>) sample)"

definition ring_stats_write ::
    "'f machine \<Rightarrow> 'f RingStatsState \<Rightarrow> 'f \<Rightarrow> 'f RingStatsState" where
  "ring_stats_write M st sample =
     st\<lparr>rs_buffer := (rs_buffer st)[rs_head st := sample], rs_sum := ladd M (rs_sum st) sample,
        rs_head := (rs_head st + 1) mod rs_capacity st\<rparr>"

definition ring_stats_after_slide ::
    "'f machine \<Rightarrow> 'f RingStatsState \<Rightarrow> 'f RingStatsState" where
  "ring_stats_after_slide M st =
     (let st' = st\<lparr>rs_slides := Suc (rs_slides st)\<rparr>
      in if RingStatsRefreshInterval (rs_capacity st') \<le> rs_slides st' \<and> 1 < rs_capacity st'
         then RingStatsRefreshMeanM2FromBuffer M st' else st')"

definition ring_stats_step ::
    "'f machine \<Rightarrow> 'f RingStatsState \<Rightarrow> 'f \<Rightarrow> 'f RingStatsState" where
  "ring_stats_step M st sample =
     (let slid = (rs_count st = rs_capacity st);
          st' = ring_stats_write M (ring_stats_accumulate M st sample) sample
      in if slid then ring_stats_after_slide M st' else st')"

definition RingStatsPush ::
    "'f machine \<Rightarrow> 'f RingStatsState \<Rightarrow> nat \<Rightarrow> 'f \<Rightarrow> 'f RingStatsState result" where
  "RingStatsPush M st period sample =
     (if period = 0 then Inl (RuntimeError ''RingStatsPush requires period > 0'')
      else Inr (ring_stats_step M
             (if rs_capacity st \<noteq> period then ring_stats_reset M period st else st) sample))"

definition RingStatsPushPrepared ::
    "'f machine \<Rightarrow> 'f RingStatsState \<Rightarrow> 'f \<Rightarrow> 'f RingStatsState result" where
  "RingStatsPushPrepared M st sample =
     (if rs_capacity st = 0 \<or> rs_buffer st = []
      then Inl (RuntimeError ''RingStatsPushPrepared called before state prewarm'')
      else Inr (ring_stats_step M st sample))"

definition RingStatsMean :: "'f machine \<Rightarrow> 'f RingStatsState \<Rightarrow> 'f" where
  "RingStatsMean M st =
     (if rs_count st = 0 then qnan M
      else narrow M (ldiv M (rs_sum st) (lnat M (rs_count st))))"

text \<open>The readout both standard deviations end with: clamp a tiny negative variance, refuse a
  negative one, take the root in double.\<close>

definition stddev_readout :: "'f machine \<Rightarrow> 'f \<Rightarrow> 'f \<Rightarrow> 'f" where
  "stddev_readout M ss var0 =
     (let scale = ladd M (llit M 1) ss;
          var = if flt M var0 (llit M 0) \<and>
                   fle M (fabs M var0) (lmul M (llit M (1 / 10 ^ 15)) scale)
                then llit M 0 else var0
      in if flt M var (llit M 0) then qnan M else dsqrt M (narrow M var))"

definition RingStatsStddevSample :: "'f machine \<Rightarrow> 'f RingStatsState \<Rightarrow> 'f" where
  "RingStatsStddevSample M st =
     (if rs_count st < 2 then qnan M
      else let n = lnat M (rs_count st)
           in stddev_readout M (rs_m2 st) (ldiv M (rs_m2 st) (lsub M n (llit M 1))))"

definition RingStatsStddevSampleTwoPassReference ::
    "'f machine \<Rightarrow> 'f RingStatsState \<Rightarrow> 'f" where
  "RingStatsStddevSampleTwoPassReference M st =
     (if rs_count st < 2 then qnan M
      else let n = lnat M (rs_count st);
               xs = take (rs_count st) (rs_buffer st);
               mean = ldiv M (sum_loop M xs) n;
               ss = ss_loop M mean xs
           in stddev_readout M ss (ldiv M ss (lsub M n (llit M 1))))"

definition RingStatsFull :: "'f RingStatsState \<Rightarrow> bool" where
  "RingStatsFull st \<longleftrightarrow> rs_count st = rs_capacity st \<and> 0 < rs_capacity st"

section \<open>The window\<close>

definition rs_wf :: "'f RingStatsState \<Rightarrow> bool" where
  "rs_wf st \<longleftrightarrow> ring_wf (rs_buffer st) (rs_capacity st) (rs_head st) (rs_count st)"

definition rs_window :: "'f RingStatsState \<Rightarrow> 'f list" where
  "rs_window st = ring_window (rs_buffer st) (rs_capacity st) (rs_head st) (rs_count st)"

lemma rs_wf_initial: "rs_wf (RingStatsState0 M)"
  by (simp add: rs_wf_def RingStatsState0_def ring_wf_def)

lemma rs_wf_reset [simp]: "rs_wf (ring_stats_reset M p st)"
  by (simp add: rs_wf_def ring_stats_reset_def)

lemma rs_reset_fields [simp]:
  "rs_capacity (ring_stats_reset M p st) = p" "rs_window (ring_stats_reset M p st) = []"
  "rs_count (ring_stats_reset M p st) = 0"
  by (simp_all add: ring_stats_reset_def rs_window_def)

lemma rs_accumulate_ring [simp]:
  "rs_buffer (ring_stats_accumulate M st x) = rs_buffer st"
  "rs_capacity (ring_stats_accumulate M st x) = rs_capacity st"
  "rs_head (ring_stats_accumulate M st x) = rs_head st"
  "rs_slides (ring_stats_accumulate M st x) = rs_slides st"
  "rs_count (ring_stats_accumulate M st x) =
     (if rs_count st = rs_capacity st then rs_count st else Suc (rs_count st))"
  by (simp_all add: ring_stats_accumulate_def RingStatsUpdateMeanM2OnSlide_def
      RingStatsUpdateMeanM2OnAdd_def Let_def)

lemma rs_after_slide_ring [simp]:
  "rs_buffer (ring_stats_after_slide M st) = rs_buffer st"
  "rs_capacity (ring_stats_after_slide M st) = rs_capacity st"
  "rs_head (ring_stats_after_slide M st) = rs_head st"
  "rs_count (ring_stats_after_slide M st) = rs_count st"
  "rs_sum (ring_stats_after_slide M st) = rs_sum st"
  by (simp_all add: ring_stats_after_slide_def RingStatsRefreshMeanM2FromBuffer_def Let_def)

lemma rs_step_ring:
  "rs_buffer (ring_stats_step M st x) = (rs_buffer st)[rs_head st := x]"
  "rs_capacity (ring_stats_step M st x) = rs_capacity st"
  "rs_head (ring_stats_step M st x) = (rs_head st + 1) mod rs_capacity st"
  "rs_count (ring_stats_step M st x) =
     (if rs_count st = rs_capacity st then rs_capacity st else Suc (rs_count st))"
  by (simp_all add: ring_stats_step_def ring_stats_write_def Let_def)

text \<open>A window of more than one sample is refreshed before the slide counter reaches its size.\<close>

lemma rs_step_slides:
  assumes "rs_slides st < rs_capacity st" and "1 < rs_capacity st"
  shows "rs_slides (ring_stats_step M st x) < rs_capacity st"
  using assms
  by (auto simp: ring_stats_step_def ring_stats_write_def ring_stats_after_slide_def
      RingStatsRefreshMeanM2FromBuffer_def RingStatsRefreshInterval_def Let_def)

lemma rs_wf_step: "rs_wf st \<Longrightarrow> 0 < rs_capacity st \<Longrightarrow> rs_wf (ring_stats_step M st x)"
  using ring_wf_push [of "rs_buffer st" "rs_capacity st" "rs_head st" "rs_count st" x]
  by (simp add: rs_wf_def rs_step_ring)

lemma rs_window_step:
  "rs_wf st \<Longrightarrow> 0 < rs_capacity st \<Longrightarrow>
     rs_window (ring_stats_step M st x) = lastn (rs_capacity st) (rs_window st @ [x])"
  unfolding rs_window_def rs_step_ring rs_wf_def by (rule ring_window_push) auto

interpretation ring_stats: sliding_window "RingStatsPush M" rs_wf rs_capacity rs_window for M
proof (unfold_locales, goal_cases)
  case (1 st p x)
  let ?st = "if rs_capacity st \<noteq> p then ring_stats_reset M p st else st"
  from 1 have "rs_wf ?st" "rs_capacity ?st = p" by auto
  with rs_wf_step [of ?st M x] rs_window_step [of ?st M x] 1(2) show ?case
    by (simp add: RingStatsPush_def rs_step_ring split: if_splits)
next
  case (2 st x)
  show ?case by (simp add: RingStatsPush_def)
qed

lemma RingStatsPush_prepared:
  "rs_wf st \<Longrightarrow> rs_capacity st = p \<Longrightarrow> 0 < p \<Longrightarrow> RingStatsPushPrepared M st x = RingStatsPush M st p x"
  by (auto simp: RingStatsPush_def RingStatsPushPrepared_def rs_wf_def ring_wf_def)

end
