(* ===== verification/Exact_Stats.thy ===== *)
theory Exact_Stats
  imports Ring_Stats
begin

text \<open>
  The rolling mean and standard deviation in exact arithmetic: the running sum, the rolling
  Welford mean and the sum of squared deviations are those of the window after every push, the
  periodic refresh changes nothing, and the O(1) readouts are the mean and the sample standard
  deviation of the last \<open>period\<close> samples, the value of the two-pass reference.
\<close>

section \<open>Mean and squared deviations of a list\<close>

definition avg :: "real list \<Rightarrow> real" where
  "avg xs = sum_list xs / real (length xs)"

text \<open>The sum of squared deviations from the mean.\<close>

definition ssd :: "real list \<Rightarrow> real" where
  "ssd xs = (\<Sum>x\<leftarrow>xs. (x - avg xs)\<^sup>2)"

lemma sum_list_squared_deviations:
  fixes c :: real
  shows "(\<Sum>x\<leftarrow>xs. (x - c)\<^sup>2) = (\<Sum>x\<leftarrow>xs. x\<^sup>2) - 2 * c * sum_list xs + real (length xs) * c\<^sup>2"
  by (induction xs) (auto simp: power2_eq_square algebra_simps)

lemma ssd_alt: "ssd xs = (\<Sum>x\<leftarrow>xs. x\<^sup>2) - (sum_list xs)\<^sup>2 / real (length xs)"
  unfolding ssd_def sum_list_squared_deviations avg_def
  by (cases "xs = []") (auto simp: power2_eq_square field_simps)

lemma ssd_nonneg: "0 \<le> ssd xs"
  unfolding ssd_def by (rule sum_list_nonneg) auto

lemma avg_mset: "mset xs = mset ys \<Longrightarrow> avg xs = avg ys"
  by (metis avg_def mset_eq_length sum_mset_sum_list)

lemma ssd_mset:
  assumes "mset xs = mset ys"
  shows "ssd xs = ssd ys"
proof -
  have "mset (map (\<lambda>x. (x - avg xs)\<^sup>2) xs) = mset (map (\<lambda>x. (x - avg xs)\<^sup>2) ys)"
    using assms by simp
  then show ?thesis
    unfolding ssd_def avg_mset [OF assms, symmetric] by (metis sum_mset_sum_list)
qed

text \<open>Welford's step: the mean and the sum of squared deviations after one more sample.\<close>

lemma avg_snoc: "avg (xs @ [x]) = avg xs + (x - avg xs) / real (Suc (length xs))"
proof (cases "xs = []")
  case False
  define n where "n = real (length xs)"
  from False have "0 < n" by (simp add: n_def)
  then have "(sum_list xs + x) / (n + 1) = sum_list xs / n + (x - sum_list xs / n) / (n + 1)"
    by (simp add: divide_simps) (simp add: algebra_simps)
  then show ?thesis by (simp add: avg_def n_def add.commute)
qed (simp add: avg_def)

lemma ssd_snoc: "ssd (xs @ [x]) = ssd xs + (x - avg xs) * (x - avg (xs @ [x]))"
proof (cases "xs = []")
  case False
  define n where "n = real (length xs)"
  define S where "S = sum_list xs"
  from False have n: "0 < n" by (simp add: n_def)
  have "ssd (xs @ [x]) - ssd xs = x\<^sup>2 + S\<^sup>2 / n - (S + x)\<^sup>2 / (n + 1)"
    by (simp add: ssd_alt n_def S_def algebra_simps)
  also have "\<dots> = (x - S / n) * (x - (S + x) / (n + 1))"
    using n by (simp add: field_simps power2_eq_square)
  also have "\<dots> = (x - avg xs) * (x - avg (xs @ [x]))"
    by (simp add: avg_def n_def S_def)
  finally show ?thesis by simp
qed (simp add: ssd_def avg_def)

text \<open>The step backwards: removing the oldest sample of a window of at least two.\<close>

lemma avg_remove:
  assumes "ys \<noteq> []"
  shows "avg ys = avg (y # ys) - (y - avg (y # ys)) / (real (Suc (length ys)) - 1)"
proof -
  define n where "n = real (length ys)"
  from assms have "0 < n" by (simp add: n_def)
  then have "sum_list ys / n = (y + sum_list ys) / (n + 1) - (y - (y + sum_list ys) / (n + 1)) / n"
    by (simp add: divide_simps) (simp add: algebra_simps)
  then show ?thesis by (simp add: avg_def n_def add.commute)
qed

lemma ssd_remove: "ssd ys = ssd (y # ys) - (y - avg (y # ys)) * (y - avg ys)"
proof -
  have p: "mset (y # ys) = mset (ys @ [y])" by simp
  have "ssd (y # ys) = ssd ys + (y - avg ys) * (y - avg (ys @ [y]))"
    unfolding ssd_mset [OF p] by (rule ssd_snoc)
  then show ?thesis by (simp add: avg_mset [OF p, symmetric] algebra_simps)
qed

text \<open>The accumulators of a state are exact for the window \<open>ws\<close>.\<close>

definition rs_exact :: "xreal RingStatsState \<Rightarrow> real list \<Rightarrow> bool" where
  "rs_exact st ws \<longleftrightarrow> rs_window st = map Some ws \<and> rs_sum st = Some (sum_list ws) \<and>
     rs_mean st = Some (avg ws) \<and> rs_m2 st = Some (ssd ws)"

lemma rs_exact_length: "rs_exact st ws \<Longrightarrow> length ws = rs_count st"
  unfolding rs_exact_def rs_window_def by (metis length_map length_ring_window)

lemma rs_exact_reset: "rs_exact (ring_stats_reset exact p st) []"
  by (simp add: rs_exact_def ring_stats_reset_def avg_def ssd_def rs_window_def)

lemma exact_add:
  assumes "rs_exact st ws" and "rs_count st \<noteq> rs_capacity st"
  shows "rs_mean (ring_stats_accumulate exact st (Some x)) = Some (avg (ws @ [x]))"
    and "rs_m2 (ring_stats_accumulate exact st (Some x)) = Some (ssd (ws @ [x]))"
    and "rs_sum (ring_stats_accumulate exact st (Some x)) = Some (sum_list ws)"
  using assms rs_exact_length [OF assms(1)]
  by (simp_all add: ring_stats_accumulate_def RingStatsUpdateMeanM2OnAdd_def Let_def rs_exact_def
      avg_snoc ssd_snoc of_rat_add)

lemma rs_full_window:
  assumes "rs_wf st" and "rs_exact st ws" and "rs_count st = rs_capacity st" and "0 < rs_capacity st"
  obtains y ys where "ws = y # ys" and "rs_buffer st ! rs_head st = Some y"
proof -
  from assms ring_window_full(1) [of "rs_buffer st" "rs_capacity st" "rs_head st"]
  have "map Some ws = rs_buffer st ! rs_head st # tl (map Some ws)"
    by (simp add: rs_wf_def rs_exact_def rs_window_def)
  then show ?thesis by (cases ws) (auto intro: that)
qed

lemma exact_slide:
  assumes "rs_exact st (y # ys)" and "rs_count st = rs_capacity st"
    and "rs_buffer st ! rs_head st = Some y"
  shows "rs_mean (ring_stats_accumulate exact st (Some x)) = Some (avg (ys @ [x]))"
    and "rs_m2 (ring_stats_accumulate exact st (Some x)) = Some (ssd (ys @ [x]))"
    and "rs_sum (ring_stats_accumulate exact st (Some x)) = Some (sum_list ys)"
proof -
  from rs_exact_length [OF assms(1)] assms(2) have cap: "rs_capacity st = Suc (length ys)" by simp
  have m2: "ssd ys + (x - avg ys) * (x - (avg ys + (x - avg ys) / (real (length ys) + 1))) = ssd (ys @ [x])"
    unfolding ssd_snoc avg_snoc by (simp add: add.commute)
  note facts = assms cap ring_stats_accumulate_def RingStatsUpdateMeanM2OnSlide_def rs_exact_def
  show "rs_sum (ring_stats_accumulate exact st (Some x)) = Some (sum_list ys)"
    using assms by (simp add: facts Let_def)
  show "rs_mean (ring_stats_accumulate exact st (Some x)) = Some (avg (ys @ [x]))"
  proof (cases "ys = []")
    case False
    with assms show ?thesis
      by (simp add: facts Let_def avg_remove [OF False, of y, symmetric, simplified] avg_snoc add.commute of_rat_add)
  qed (use assms in \<open>simp add: facts avg_def Let_def\<close>)
  show "rs_m2 (ring_stats_accumulate exact st (Some x)) = Some (ssd (ys @ [x]))"
  proof (cases "ys = []")
    case False
    with assms m2 show ?thesis
      by (simp add: facts Let_def avg_remove [OF False, of y, symmetric, simplified]
          ssd_remove [of ys y, symmetric] add.commute of_rat_add ssd_nonneg not_less)
  qed (use assms in \<open>simp add: facts avg_def ssd_def Let_def\<close>)
qed

lemma sum_loop_exact: "sum_loop exact (map Some xs) = Some (sum_list xs)"
proof -
  have "foldl (ladd exact) (Some a) (map Some xs) = Some (a + sum_list xs)" for a
    by (induction xs arbitrary: a) (auto simp: add.assoc)
  from this [of 0] show ?thesis by (simp add: sum_loop_def)
qed

lemma ss_loop_exact: "ss_loop exact (Some c) (map Some xs) = Some (\<Sum>x\<leftarrow>xs. (x - c)\<^sup>2)"
proof -
  have "foldl (\<lambda>ss x. let d = lsub exact x (Some c) in ladd exact ss (lmul exact d d)) (Some a)
      (map Some xs) = Some (a + (\<Sum>x\<leftarrow>xs. (x - c)\<^sup>2))" for a
    by (induction xs arbitrary: a) (auto simp: add.assoc Let_def power2_eq_square)
  from this [of 0] show ?thesis by (simp add: ss_loop_def)
qed

lemma mset_map_Some:
  assumes "mset xs = mset (map Some ws)"
  obtains us where "xs = map Some us" and "mset us = mset ws"
proof
  have "\<forall>x\<in>set xs. x \<noteq> None"
    using mset_eq_setD [OF assms] by auto
  then show *: "xs = map Some (map the xs)" by (induction xs) auto
  have "image_mset the (mset xs) = image_mset the (mset (map Some ws))" using assms by simp
  then show "mset (map the xs) = mset ws" by (simp add: multiset.map_comp comp_def)
qed

text \<open>The two loops over the slots compute the mean and the deviations of the window.\<close>

lemma buffer_slots_exact:
  assumes "ring_wf (rs_buffer st) (rs_capacity st) (rs_head st) (rs_count st)"
    and "rs_window st = map Some ws" and "0 < rs_count st"
  shows "ldiv exact (sum_loop exact (take (rs_count st) (rs_buffer st))) (lnat exact (rs_count st)) = Some (avg ws)"
    and "ss_loop exact (Some (avg ws)) (take (rs_count st) (rs_buffer st)) = Some (ssd ws)"
proof -
  from mset_ring_window [of "rs_buffer st" "rs_capacity st" "rs_head st" "rs_count st"] assms(1,2)
  have mset: "mset (take (rs_count st) (rs_buffer st)) = mset (map Some ws)"
    by (simp add: rs_wf_def rs_window_def)
  then obtain us where us: "take (rs_count st) (rs_buffer st) = map Some us" "mset us = mset ws"
    by (metis mset_map_Some)
  from assms(2) have len: "rs_count st = length ws"
    by (metis length_map length_ring_window rs_window_def)
  have "length us = length ws" using us(2) by (metis size_mset)
  then show "ldiv exact (sum_loop exact (take (rs_count st) (rs_buffer st))) (lnat exact (rs_count st)) = Some (avg ws)"
    using assms(3) len us(1) avg_mset [OF us(2)] by (simp add: sum_loop_exact avg_def)
  show "ss_loop exact (Some (avg ws)) (take (rs_count st) (rs_buffer st)) = Some (ssd ws)"
    unfolding us(1) ss_loop_exact ssd_mset [OF us(2), symmetric] avg_mset [OF us(2), symmetric]
    by (simp add: ssd_def)
qed

section \<open>The accumulators follow the window\<close>

lemma rs_exact_refresh:
  assumes "ring_wf (rs_buffer st) (rs_capacity st) (rs_head st) (rs_count st)"
    and "rs_window st = map Some ws" and "0 < rs_count st" and "rs_sum st = Some (sum_list ws)"
  shows "rs_exact (RingStatsRefreshMeanM2FromBuffer exact st) ws"
  using assms buffer_slots_exact [OF assms(1-3)] ssd_nonneg [of ws]
  by (simp add: rs_exact_def RingStatsRefreshMeanM2FromBuffer_def Let_def rs_window_def not_less)

lemma exact_accumulate:
  fixes x :: real
  assumes "rs_wf st" and "rs_exact st ws" and "0 < rs_capacity st"
  defines "ws' \<equiv> lastn (rs_capacity st) (ws @ [x])"
  defines "st' \<equiv> ring_stats_accumulate exact st (Some x)"
  shows "rs_mean st' = Some (avg ws') \<and> rs_m2 st' = Some (ssd ws') \<and>
    ladd exact (rs_sum st') (Some x) = Some (sum_list ws')"
proof (cases "rs_count st = rs_capacity st")
  case True
  then obtain y ys where y: "ws = y # ys" "rs_buffer st ! rs_head st = Some y"
    using rs_full_window [OF assms(1,2) True assms(3)] by metis
  with True rs_exact_length [OF assms(2)] have "ws' = ys @ [x]" by (simp add: ws'_def lastn_def)
  with exact_slide [OF assms(2) [unfolded y(1)] True y(2), of x] show ?thesis by (simp add: st'_def)
next
  case False
  with assms rs_exact_length [OF assms(2)] have "length ws < rs_capacity st"
    by (simp add: rs_wf_def ring_wf_def)
  with exact_add [OF assms(2) False, of x] show ?thesis by (simp add: st'_def ws'_def)
qed

lemma rs_exact_step:
  assumes "rs_wf st" and "rs_exact st ws" and "0 < rs_capacity st"
  shows "rs_exact (ring_stats_step exact st (Some x)) (lastn (rs_capacity st) (ws @ [x]))"
proof -
  let ?ws = "lastn (rs_capacity st) (ws @ [x])"
  let ?st = "ring_stats_write exact (ring_stats_accumulate exact st (Some x)) (Some x)"
  from rs_window_step [OF assms(1,3), of exact "Some x"] assms(2)
  have window: "rs_window (ring_stats_step exact st (Some x)) = map Some ?ws"
    by (simp add: rs_exact_def flip: lastn_map)
  have written: "rs_exact ?st ?ws"
    using exact_accumulate [OF assms, of x] window
    by (simp add: rs_exact_def rs_window_def rs_step_ring ring_stats_write_def split: if_splits)
  show ?thesis
  proof (cases "rs_count st = rs_capacity st")
    case True
    define st1 where "st1 = ?st\<lparr>rs_slides := Suc (rs_slides ?st)\<rparr>"
    have st1: "rs_exact st1 ?ws" using written by (simp add: rs_exact_def rs_window_def st1_def)
    have "ring_wf (rs_buffer st1) (rs_capacity st1) (rs_head st1) (rs_count st1)"
      using rs_wf_step [OF assms(1,3), of exact "Some x"]
      by (simp add: rs_wf_def rs_step_ring st1_def ring_stats_write_def True)
    then have "rs_exact (RingStatsRefreshMeanM2FromBuffer exact st1) ?ws"
      using st1 assms(3) True
      by (intro rs_exact_refresh) (auto simp: rs_exact_def st1_def ring_stats_write_def)
    with st1 True show ?thesis
      by (simp add: ring_stats_step_def ring_stats_after_slide_def Let_def st1_def)
  qed (use written in \<open>simp add: ring_stats_step_def Let_def\<close>)
qed

interpretation ring_stats_exact:
  accumulating_window "RingStatsPush exact" rs_wf rs_capacity rs_window rs_exact Some
proof (unfold_locales, goal_cases)
  case (1 st p ws x st')
  let ?st = "if rs_capacity st \<noteq> p then ring_stats_reset exact p st else st"
  let ?ws = "if rs_capacity st = p then ws else []"
  from 1 have st: "rs_wf ?st" "rs_capacity ?st = p" "rs_exact ?st ?ws"
    by (auto simp: rs_exact_reset)
  from rs_exact_step [OF st(1,3), of x] 1(2,4) st(2) show ?case
    by (auto simp: RingStatsPush_def)
qed

section \<open>The readouts\<close>

lemma RingStatsMean_exact:
  "rs_exact st ws \<Longrightarrow> ws \<noteq> [] \<Longrightarrow> RingStatsMean exact st = Some (avg ws)"
  using rs_exact_length [of st ws] by (cases ws) (auto simp: RingStatsMean_def rs_exact_def avg_def)

lemma stddev_readout_exact:
  "0 \<le> v \<Longrightarrow> stddev_readout exact (Some ss) (Some v) = Some (sqrt v)"
  by (simp add: stddev_readout_def Let_def)

lemma RingStatsStddevSample_exact:
  assumes "rs_exact st ws" and "2 \<le> length ws"
  shows "RingStatsStddevSample exact st = Some (sqrt (ssd ws / real (length ws - 1)))"
proof -
  from assms(2) have "0 \<le> ssd ws / (real (length ws) - 1)" by (simp add: ssd_nonneg)
  then show ?thesis
    using assms rs_exact_length [OF assms(1)]
    by (simp add: RingStatsStddevSample_def rs_exact_def stddev_readout_exact of_nat_diff)
qed

lemma TwoPassReference_exact:
  assumes "rs_wf st" and "rs_exact st ws" and "2 \<le> length ws"
  shows "RingStatsStddevSampleTwoPassReference exact st = Some (sqrt (ssd ws / real (length ws - 1)))"
proof -
  from assms(3) have nonneg: "0 \<le> ssd ws / (real (length ws) - 1)" by (simp add: ssd_nonneg)
  from assms(3) rs_exact_length [OF assms(2)] have "0 < rs_count st" by simp
  from buffer_slots_exact [OF _ _ this, of ws] assms(1,2) nonneg assms(3) rs_exact_length [OF assms(2)]
  show ?thesis
    by (simp add: RingStatsStddevSampleTwoPassReference_def rs_exact_def rs_wf_def Let_def
        stddev_readout_exact of_nat_diff)
qed

end
