(* ===== verification/Window_Ops.thy ===== *)
theory Window_Ops
  imports Exact_Stats
begin

text \<open>
  The other rolling operators of \<^verbatim>\<open>src/runtime.cpp\<close>: the volume-weighted average
  price, the lag, the paired correlation and beta, and the recursive filters (exponential
  average, crossing detector, scalar Kalman filter). Every ring is shown to implement the
  contract \<open>sliding_window\<close>; in exact arithmetic the sums are those of the window, so the
  readouts are the textbook quotients, and a Kalman step is a convex combination that keeps the
  error variance non-negative.
\<close>

section \<open>Volume-weighted average price\<close>

record 'f VwapState =
  vw_price_buf :: "'f list"
  vw_vol_buf :: "'f list"
  vw_capacity :: nat
  vw_head :: nat
  vw_count :: nat
  vw_sum_pv :: 'f
  vw_sum_vol :: 'f

definition VwapState0 :: "'f machine \<Rightarrow> 'f VwapState" where
  "VwapState0 M =
     \<lparr>vw_price_buf = [], vw_vol_buf = [], vw_capacity = 0, vw_head = 0, vw_count = 0,
      vw_sum_pv = llit M 0, vw_sum_vol = llit M 0\<rparr>"

definition vwap_reset :: "'f machine \<Rightarrow> nat \<Rightarrow> 'f VwapState \<Rightarrow> 'f VwapState" where
  "vwap_reset M period st =
     st\<lparr>vw_price_buf := replicate period (dlit M 0), vw_vol_buf := replicate period (dlit M 0),
        vw_capacity := period, vw_head := 0, vw_count := 0, vw_sum_pv := llit M 0,
        vw_sum_vol := llit M 0\<rparr>"

definition vwap_evict :: "'f machine \<Rightarrow> 'f VwapState \<Rightarrow> 'f VwapState" where
  "vwap_evict M st =
     (if vw_count st = vw_capacity st then
        let old_p = vw_price_buf st ! vw_head st;
            old_v = vw_vol_buf st ! vw_head st
        in st\<lparr>vw_sum_pv := lsub M (vw_sum_pv st) (lmul M old_p old_v),
              vw_sum_vol := lsub M (vw_sum_vol st) old_v\<rparr>
      else st\<lparr>vw_count := Suc (vw_count st)\<rparr>)"

definition vwap_step :: "'f machine \<Rightarrow> 'f VwapState \<Rightarrow> 'f \<times> 'f \<Rightarrow> 'f VwapState" where
  "vwap_step M st pv =
     (let (price, volume) = pv; st' = vwap_evict M st
      in st'\<lparr>vw_price_buf := (vw_price_buf st')[vw_head st' := price],
             vw_vol_buf := (vw_vol_buf st')[vw_head st' := volume],
             vw_sum_pv := ladd M (vw_sum_pv st') (lmul M price volume),
             vw_sum_vol := ladd M (vw_sum_vol st') volume,
             vw_head := (vw_head st' + 1) mod vw_capacity st'\<rparr>)"

definition VwapPush ::
    "'f machine \<Rightarrow> 'f VwapState \<Rightarrow> nat \<Rightarrow> 'f \<times> 'f \<Rightarrow> 'f VwapState result" where
  "VwapPush M st period pv =
     (if period = 0 then Inl (RuntimeError ''VwapPush requires period > 0'')
      else Inr (vwap_step M (if vw_capacity st \<noteq> period then vwap_reset M period st else st) pv))"

definition VwapPushPrepared ::
    "'f machine \<Rightarrow> 'f VwapState \<Rightarrow> 'f \<times> 'f \<Rightarrow> 'f VwapState result" where
  "VwapPushPrepared M st pv =
     (if vw_capacity st = 0 \<or> vw_price_buf st = [] \<or> vw_vol_buf st = []
      then Inl (RuntimeError ''VwapPushPrepared called before state prewarm'')
      else Inr (vwap_step M st pv))"

definition VwapValue :: "'f machine \<Rightarrow> 'f VwapState \<Rightarrow> 'f" where
  "VwapValue M st =
     (if vw_count st = 0 \<or> feq M (vw_sum_vol st) (llit M 0) then qnan M
      else narrow M (ldiv M (vw_sum_pv st) (vw_sum_vol st)))"

definition VwapFull :: "'f VwapState \<Rightarrow> bool" where
  "VwapFull st \<longleftrightarrow> vw_count st = vw_capacity st \<and> 0 < vw_capacity st"

definition vw_wf :: "'f VwapState \<Rightarrow> bool" where
  "vw_wf st \<longleftrightarrow> ring_wf (vw_price_buf st) (vw_capacity st) (vw_head st) (vw_count st) \<and>
     ring_wf (vw_vol_buf st) (vw_capacity st) (vw_head st) (vw_count st)"

definition vw_window :: "'f VwapState \<Rightarrow> ('f \<times> 'f) list" where
  "vw_window st = zip (ring_window (vw_price_buf st) (vw_capacity st) (vw_head st) (vw_count st))
     (ring_window (vw_vol_buf st) (vw_capacity st) (vw_head st) (vw_count st))"

lemma vwap_step_ring:
  "vw_price_buf (vwap_step M st (a, b)) = (vw_price_buf st)[vw_head st := a]"
  "vw_vol_buf (vwap_step M st (a, b)) = (vw_vol_buf st)[vw_head st := b]"
  "vw_capacity (vwap_step M st ab) = vw_capacity st"
  "vw_head (vwap_step M st ab) = (vw_head st + 1) mod vw_capacity st"
  "vw_count (vwap_step M st ab) =
     (if vw_count st = vw_capacity st then vw_capacity st else Suc (vw_count st))"
  by (cases ab; simp add: vwap_step_def vwap_evict_def Let_def)+

lemma vw_reset_fields [simp]:
  "vw_wf (vwap_reset M p st)" "vw_capacity (vwap_reset M p st) = p"
  "vw_window (vwap_reset M p st) = []" "vw_count (vwap_reset M p st) = 0"
  by (simp_all add: vwap_reset_def vw_wf_def vw_window_def)

lemma vw_wf_initial [simp]: "vw_wf (VwapState0 M)"
  by (simp add: vw_wf_def VwapState0_def ring_wf_def)

text \<open>Two rings that move together are one ring of pairs.\<close>

lemma zip_ring_push:
  assumes "ring_wf xs cap h cnt" and "ring_wf ys cap h cnt" and "0 < cap"
  shows "zip (ring_window (xs[h := a]) cap ((h + 1) mod cap) (if cnt = cap then cap else Suc cnt))
      (ring_window (ys[h := b]) cap ((h + 1) mod cap) (if cnt = cap then cap else Suc cnt)) =
    lastn cap (zip (ring_window xs cap h cnt) (ring_window ys cap h cnt) @ [(a, b)])"
  unfolding ring_window_push [OF assms(1,3)] ring_window_push [OF assms(2,3)]
  by (simp flip: lastn_zip)

lemma vw_wf_step: "vw_wf st \<Longrightarrow> 0 < vw_capacity st \<Longrightarrow> vw_wf (vwap_step M st ab)"
  by (cases ab) (simp only: vw_wf_def vwap_step_ring ring_wf_push)

lemma vw_window_step:
  assumes "vw_wf st" and "0 < vw_capacity st"
  shows "vw_window (vwap_step M st ab) = lastn (vw_capacity st) (vw_window st @ [ab])"
  using assms by (cases ab) (simp only: vw_window_def vwap_step_ring vw_wf_def zip_ring_push)

interpretation vwap: sliding_window "VwapPush M" vw_wf vw_capacity vw_window for M
proof (unfold_locales, goal_cases)
  case (1 st p x)
  let ?st = "if vw_capacity st \<noteq> p then vwap_reset M p st else st"
  from 1 have "vw_wf ?st" "vw_capacity ?st = p" by auto
  with vw_wf_step [of ?st M x] vw_window_step [of ?st M x] 1(2) show ?case
    by (simp add: VwapPush_def vwap_step_ring split: if_splits)
qed (simp add: VwapPush_def)

lemma VwapPush_prepared:
  "vw_wf st \<Longrightarrow> vw_capacity st = p \<Longrightarrow> 0 < p \<Longrightarrow> VwapPushPrepared M st x = VwapPush M st p x"
  by (auto simp: VwapPush_def VwapPushPrepared_def vw_wf_def ring_wf_def)

definition vw_exact :: "xreal VwapState \<Rightarrow> (real \<times> real) list \<Rightarrow> bool" where
  "vw_exact st ws \<longleftrightarrow> vw_window st = map (map_prod Some Some) ws \<and>
     vw_sum_pv st = Some (\<Sum>(p, v)\<leftarrow>ws. p * v) \<and> vw_sum_vol st = Some (\<Sum>(p, v)\<leftarrow>ws. v)"

lemma vw_exact_length: "vw_exact st ws \<Longrightarrow> length ws = vw_count st"
  by (auto simp: vw_exact_def vw_window_def dest: arg_cong [where f = length])

text \<open>The pair under the head of a full pair of rings is the oldest of the window.\<close>

lemma zip_ring_oldest:
  assumes "ring_wf xs cap h cap" and "ring_wf ys cap h cap" and "0 < cap"
    and "zip (ring_window xs cap h cap) (ring_window ys cap h cap) = map (map_prod f g) ws"
  obtains a b vs where "ws = (a, b) # vs" and "xs ! h = f a" and "ys ! h = g b"
proof -
  from assms(4) ring_window_full(1) [OF assms(1,3)] ring_window_full(1) [OF assms(2,3)]
  have "(xs ! h, ys ! h) # tl (map (map_prod f g) ws) = map (map_prod f g) ws"
    by (metis list.sel(3) zip_Cons_Cons)
  then show ?thesis by (cases ws) (auto intro: that)
qed

lemma vw_exact_step:
  assumes "vw_wf st" and "vw_exact st ws" and "0 < vw_capacity st"
  shows "vw_exact (vwap_step exact st (Some a, Some b)) (lastn (vw_capacity st) (ws @ [(a, b)]))"
proof -
  have len: "length ws \<le> vw_capacity st"
    using assms vw_exact_length [OF assms(2)] by (simp add: vw_wf_def ring_wf_def)
  have "vw_window (vwap_step exact st (Some a, Some b)) =
      map (map_prod Some Some) (lastn (vw_capacity st) (ws @ [(a, b)]))"
    using vw_window_step [OF assms(1,3), of exact "(Some a, Some b)"] assms(2)
    by (simp add: vw_exact_def flip: lastn_map)
  moreover have "vw_sum_pv (vwap_step exact st (Some a, Some b)) =
      Some (\<Sum>(p, v)\<leftarrow>lastn (vw_capacity st) (ws @ [(a, b)]). p * v) \<and>
    vw_sum_vol (vwap_step exact st (Some a, Some b)) =
      Some (\<Sum>(p, v)\<leftarrow>lastn (vw_capacity st) (ws @ [(a, b)]). v)"
  proof (cases "vw_count st = vw_capacity st")
    case True
    with assms obtain c d vs where
      "ws = (c, d) # vs" "vw_price_buf st ! vw_head st = Some c" "vw_vol_buf st ! vw_head st = Some d"
      by (auto simp: vw_exact_def vw_window_def vw_wf_def elim: zip_ring_oldest)
    with assms(2) True vw_exact_length [OF assms(2)] show ?thesis
      unfolding sum_list_push [OF assms(3) len]
      by (simp add: vw_exact_def vwap_step_def vwap_evict_def Let_def)
  next
    case False
    with assms(2) vw_exact_length [OF assms(2)] show ?thesis
      by (simp add: vw_exact_def vwap_step_def vwap_evict_def Let_def sum_list_push [OF assms(3) len])
  qed
  ultimately show ?thesis by (simp add: vw_exact_def)
qed

interpretation vwap_exact:
  accumulating_window "VwapPush exact" vw_wf vw_capacity vw_window vw_exact "map_prod Some Some"
proof (unfold_locales, goal_cases)
  case (1 st p ws x st')
  let ?st = "if vw_capacity st \<noteq> p then vwap_reset exact p st else st"
  let ?ws = "if vw_capacity st = p then ws else []"
  have "vw_exact (vwap_reset exact p st) []" by (simp add: vw_exact_def) (simp add: vwap_reset_def)
  with 1 have st: "vw_wf ?st" "vw_capacity ?st = p" "vw_exact ?st ?ws" by auto
  from vw_exact_step [OF st(1,3), of "fst x" "snd x"] 1(2,4) st(2) show ?case
    by (cases x) (auto simp: VwapPush_def)
qed

lemma VwapValue_exact:
  "vw_exact st ws \<Longrightarrow> ws \<noteq> [] \<Longrightarrow> VwapValue exact st =
     (if (\<Sum>(p, v)\<leftarrow>ws. v) = 0 then None else Some ((\<Sum>(p, v)\<leftarrow>ws. p * v) / (\<Sum>(p, v)\<leftarrow>ws. v)))"
  using vw_exact_length [of st ws] by (cases ws) (auto simp: VwapValue_def vw_exact_def)

section \<open>Lag\<close>

record 'f LagState =
  lg_buffer :: "'f list"
  lg_capacity :: nat
  lg_head :: nat
  lg_count :: nat

definition LagState0 :: "'f LagState" where
  "LagState0 = \<lparr>lg_buffer = [], lg_capacity = 0, lg_head = 0, lg_count = 0\<rparr>"

definition lag_reset :: "'f machine \<Rightarrow> nat \<Rightarrow> 'f LagState \<Rightarrow> 'f LagState" where
  "lag_reset M period st =
     st\<lparr>lg_buffer := replicate period (dlit M 0), lg_capacity := period, lg_head := 0, lg_count := 0\<rparr>"

definition lag_step :: "'f LagState \<Rightarrow> 'f \<Rightarrow> 'f LagState" where
  "lag_step st sample =
     st\<lparr>lg_buffer := (lg_buffer st)[lg_head st := sample],
        lg_head := (lg_head st + 1) mod lg_capacity st,
        lg_count := if lg_count st < lg_capacity st then Suc (lg_count st) else lg_count st\<rparr>"

definition LagPush :: "'f machine \<Rightarrow> 'f LagState \<Rightarrow> nat \<Rightarrow> 'f \<Rightarrow> 'f LagState result" where
  "LagPush M st period sample =
     (if period = 0 then Inl (RuntimeError ''LagPush requires period > 0'')
      else Inr (lag_step (if lg_capacity st \<noteq> period then lag_reset M period st else st) sample))"

definition LagPushPrepared :: "'f LagState \<Rightarrow> 'f \<Rightarrow> 'f LagState result" where
  "LagPushPrepared st sample =
     (if lg_capacity st = 0 \<or> lg_buffer st = []
      then Inl (RuntimeError ''LagPushPrepared called before state prewarm'')
      else Inr (lag_step st sample))"

definition LagValue :: "'f machine \<Rightarrow> 'f LagState \<Rightarrow> 'f" where
  "LagValue M st =
     (if lg_capacity st = 0 \<or> lg_count st < lg_capacity st then qnan M
      else lg_buffer st ! lg_head st)"

definition lg_wf :: "'f LagState \<Rightarrow> bool" where
  "lg_wf st \<longleftrightarrow> ring_wf (lg_buffer st) (lg_capacity st) (lg_head st) (lg_count st)"

definition lg_window :: "'f LagState \<Rightarrow> 'f list" where
  "lg_window st = ring_window (lg_buffer st) (lg_capacity st) (lg_head st) (lg_count st)"

lemma lag_step_ring:
  assumes "lg_wf st"
  shows "lag_step st x = st\<lparr>lg_buffer := (lg_buffer st)[lg_head st := x],
    lg_head := (lg_head st + 1) mod lg_capacity st,
    lg_count := if lg_count st = lg_capacity st then lg_capacity st else Suc (lg_count st)\<rparr>"
  using assms by (auto simp: lag_step_def lg_wf_def ring_wf_def)

lemma lg_reset_fields [simp]:
  "lg_wf (lag_reset M p st)" "lg_capacity (lag_reset M p st) = p" "lg_window (lag_reset M p st) = []"
  by (simp_all add: lag_reset_def lg_wf_def lg_window_def)

lemma lg_wf_initial [simp]: "lg_wf LagState0"
  by (simp add: lg_wf_def LagState0_def ring_wf_def)

lemma lg_wf_step: "lg_wf st \<Longrightarrow> 0 < lg_capacity st \<Longrightarrow> lg_wf (lag_step st x)"
  using ring_wf_push [of "lg_buffer st" "lg_capacity st" "lg_head st" "lg_count st" x]
  by (simp add: lag_step_ring) (simp add: lg_wf_def split: if_splits)

lemma lg_window_step:
  assumes "lg_wf st" and "0 < lg_capacity st"
  shows "lg_window (lag_step st x) = lastn (lg_capacity st) (lg_window st @ [x])"
  unfolding lag_step_ring [OF assms(1)] using ring_window_push [OF assms [unfolded lg_wf_def]]
  by (simp add: lg_window_def)

interpretation lag: sliding_window "LagPush M" lg_wf lg_capacity lg_window for M
proof (unfold_locales, goal_cases)
  case (1 st p x)
  let ?st = "if lg_capacity st \<noteq> p then lag_reset M p st else st"
  from 1 have "lg_wf ?st" "lg_capacity ?st = p" by auto
  with lg_wf_step [of ?st x] lg_window_step [of ?st x] 1(2) show ?case
    by (simp add: LagPush_def lag_step_def split: if_splits)
qed (simp add: LagPush_def)

lemma LagPush_prepared:
  "lg_wf st \<Longrightarrow> lg_capacity st = p \<Longrightarrow> 0 < p \<Longrightarrow> LagPushPrepared st x = LagPush M st p x"
  by (auto simp: LagPush_def LagPushPrepared_def lg_wf_def ring_wf_def)

lemma LagValue_window:
  assumes "lg_wf st" and "0 < lg_capacity st"
  shows "LagValue M st = (if length (lg_window st) < lg_capacity st then qnan M else hd (lg_window st))"
proof (cases "lg_count st < lg_capacity st")
  case False
  with assms have full: "lg_count st = lg_capacity st" by (simp add: lg_wf_def ring_wf_def)
  with ring_window_full(1) [of "lg_buffer st" "lg_capacity st" "lg_head st"] assms
  have "hd (lg_window st) = lg_buffer st ! lg_head st"
    by (metis lg_wf_def lg_window_def list.sel(1))
  with full assms show ?thesis by (simp add: LagValue_def lg_window_def)
qed (use assms in \<open>simp add: LagValue_def lg_window_def\<close>)

section \<open>Paired series: correlation and beta\<close>

record 'f RollingPairState =
  rp_x_buf :: "'f list"
  rp_y_buf :: "'f list"
  rp_capacity :: nat
  rp_head :: nat
  rp_count :: nat
  rp_sum_x :: 'f
  rp_sum_y :: 'f
  rp_sum_xy :: 'f
  rp_sum_xx :: 'f
  rp_sum_yy :: 'f

definition RollingPairState0 :: "'f machine \<Rightarrow> 'f RollingPairState" where
  "RollingPairState0 M =
     \<lparr>rp_x_buf = [], rp_y_buf = [], rp_capacity = 0, rp_head = 0, rp_count = 0,
      rp_sum_x = llit M 0, rp_sum_y = llit M 0, rp_sum_xy = llit M 0, rp_sum_xx = llit M 0,
      rp_sum_yy = llit M 0\<rparr>"

definition pair_reset :: "'f machine \<Rightarrow> nat \<Rightarrow> 'f RollingPairState \<Rightarrow> 'f RollingPairState" where
  "pair_reset M period st =
     st\<lparr>rp_x_buf := replicate period (dlit M 0), rp_y_buf := replicate period (dlit M 0),
        rp_capacity := period, rp_head := 0, rp_count := 0, rp_sum_x := llit M 0,
        rp_sum_y := llit M 0, rp_sum_xy := llit M 0, rp_sum_xx := llit M 0,
        rp_sum_yy := llit M 0\<rparr>"

definition pair_evict :: "'f machine \<Rightarrow> 'f RollingPairState \<Rightarrow> 'f RollingPairState" where
  "pair_evict M st =
     (if rp_count st = rp_capacity st then
        let ox = rp_x_buf st ! rp_head st; oy = rp_y_buf st ! rp_head st
        in st\<lparr>rp_sum_x := lsub M (rp_sum_x st) ox, rp_sum_y := lsub M (rp_sum_y st) oy,
              rp_sum_xy := lsub M (rp_sum_xy st) (lmul M ox oy),
              rp_sum_xx := lsub M (rp_sum_xx st) (lmul M ox ox),
              rp_sum_yy := lsub M (rp_sum_yy st) (lmul M oy oy)\<rparr>
      else st\<lparr>rp_count := Suc (rp_count st)\<rparr>)"

definition pair_step :: "'f machine \<Rightarrow> 'f RollingPairState \<Rightarrow> 'f \<times> 'f \<Rightarrow> 'f RollingPairState" where
  "pair_step M st xy =
     (let (x, y) = xy; st' = pair_evict M st
      in st'\<lparr>rp_x_buf := (rp_x_buf st')[rp_head st' := x],
             rp_y_buf := (rp_y_buf st')[rp_head st' := y],
             rp_sum_x := ladd M (rp_sum_x st') x, rp_sum_y := ladd M (rp_sum_y st') y,
             rp_sum_xy := ladd M (rp_sum_xy st') (lmul M x y),
             rp_sum_xx := ladd M (rp_sum_xx st') (lmul M x x),
             rp_sum_yy := ladd M (rp_sum_yy st') (lmul M y y),
             rp_head := (rp_head st' + 1) mod rp_capacity st'\<rparr>)"

definition RollingPairPush ::
    "'f machine \<Rightarrow> 'f RollingPairState \<Rightarrow> nat \<Rightarrow> 'f \<times> 'f \<Rightarrow> 'f RollingPairState result" where
  "RollingPairPush M st period xy =
     (if period = 0 then Inl (RuntimeError ''RollingPairPush requires period > 0'')
      else Inr (pair_step M (if rp_capacity st \<noteq> period then pair_reset M period st else st) xy))"

definition RollingPairFull :: "'f RollingPairState \<Rightarrow> bool" where
  "RollingPairFull st \<longleftrightarrow> rp_count st = rp_capacity st \<and> 0 < rp_capacity st"

text \<open>\<open>a - b * c / n\<close> in long double, the shape of the three unnormalised moments.\<close>

definition moment :: "'f machine \<Rightarrow> 'f \<Rightarrow> 'f \<Rightarrow> 'f \<Rightarrow> 'f \<Rightarrow> 'f" where
  "moment M a b c n = lsub M a (ldiv M (lmul M b c) n)"

definition RollingPairCorrelation :: "'f machine \<Rightarrow> 'f RollingPairState \<Rightarrow> 'f" where
  "RollingPairCorrelation M st =
     (if \<not> RollingPairFull st then qnan M
      else
        let n = lnat M (rp_count st);
            cov_unnorm = moment M (rp_sum_xy st) (rp_sum_x st) (rp_sum_y st) n;
            var_x_unnorm = moment M (rp_sum_xx st) (rp_sum_x st) (rp_sum_x st) n;
            var_y_unnorm = moment M (rp_sum_yy st) (rp_sum_y st) (rp_sum_y st) n
        in if fle M var_x_unnorm (llit M 0) \<or> fle M var_y_unnorm (llit M 0) then qnan M
           else
             let denom = lsqrt M (lmul M var_x_unnorm var_y_unnorm)
             in if feq M denom (llit M 0) then qnan M
                else
                  let r0 = ldiv M cov_unnorm denom;
                      r1 = if flt M (llit M 1) r0 then llit M 1 else r0;
                      r = if flt M r1 (llit M (- 1)) then llit M (- 1) else r1
                  in narrow M r)"

definition RollingPairBeta :: "'f machine \<Rightarrow> 'f RollingPairState \<Rightarrow> 'f" where
  "RollingPairBeta M st =
     (if \<not> RollingPairFull st then qnan M
      else
        let n = lnat M (rp_count st);
            cov_unnorm = moment M (rp_sum_xy st) (rp_sum_x st) (rp_sum_y st) n;
            var_x_unnorm = moment M (rp_sum_xx st) (rp_sum_x st) (rp_sum_x st) n
        in if fle M var_x_unnorm (llit M 0) then qnan M
           else narrow M (ldiv M cov_unnorm var_x_unnorm))"

definition rp_wf :: "'f RollingPairState \<Rightarrow> bool" where
  "rp_wf st \<longleftrightarrow> ring_wf (rp_x_buf st) (rp_capacity st) (rp_head st) (rp_count st) \<and>
     ring_wf (rp_y_buf st) (rp_capacity st) (rp_head st) (rp_count st)"

definition rp_window :: "'f RollingPairState \<Rightarrow> ('f \<times> 'f) list" where
  "rp_window st = zip (ring_window (rp_x_buf st) (rp_capacity st) (rp_head st) (rp_count st))
     (ring_window (rp_y_buf st) (rp_capacity st) (rp_head st) (rp_count st))"

lemma pair_step_ring:
  "rp_x_buf (pair_step M st (a, b)) = (rp_x_buf st)[rp_head st := a]"
  "rp_y_buf (pair_step M st (a, b)) = (rp_y_buf st)[rp_head st := b]"
  "rp_capacity (pair_step M st ab) = rp_capacity st"
  "rp_head (pair_step M st ab) = (rp_head st + 1) mod rp_capacity st"
  "rp_count (pair_step M st ab) =
     (if rp_count st = rp_capacity st then rp_capacity st else Suc (rp_count st))"
  by (cases ab; simp add: pair_step_def pair_evict_def Let_def)+

lemma rp_reset_fields [simp]:
  "rp_wf (pair_reset M p st)" "rp_capacity (pair_reset M p st) = p"
  "rp_window (pair_reset M p st) = []" "rp_count (pair_reset M p st) = 0"
  by (simp_all add: pair_reset_def rp_wf_def rp_window_def)

lemma rp_wf_initial [simp]: "rp_wf (RollingPairState0 M)"
  by (simp add: rp_wf_def RollingPairState0_def ring_wf_def)

lemma rp_wf_step: "rp_wf st \<Longrightarrow> 0 < rp_capacity st \<Longrightarrow> rp_wf (pair_step M st ab)"
  by (cases ab) (simp only: rp_wf_def pair_step_ring ring_wf_push)

lemma rp_window_step:
  assumes "rp_wf st" and "0 < rp_capacity st"
  shows "rp_window (pair_step M st ab) = lastn (rp_capacity st) (rp_window st @ [ab])"
  using assms by (cases ab) (simp only: rp_window_def pair_step_ring rp_wf_def zip_ring_push)

interpretation rolling_pair: sliding_window "RollingPairPush M" rp_wf rp_capacity rp_window for M
proof (unfold_locales, goal_cases)
  case (1 st p x)
  let ?st = "if rp_capacity st \<noteq> p then pair_reset M p st else st"
  from 1 have "rp_wf ?st" "rp_capacity ?st = p" by auto
  with rp_wf_step [of ?st M x] rp_window_step [of ?st M x] 1(2) show ?case
    by (simp add: RollingPairPush_def pair_step_ring split: if_splits)
qed (simp add: RollingPairPush_def)

definition rp_exact :: "xreal RollingPairState \<Rightarrow> (real \<times> real) list \<Rightarrow> bool" where
  "rp_exact st ws \<longleftrightarrow> rp_window st = map (map_prod Some Some) ws \<and>
     rp_sum_x st = Some (\<Sum>(x, y)\<leftarrow>ws. x) \<and> rp_sum_y st = Some (\<Sum>(x, y)\<leftarrow>ws. y) \<and>
     rp_sum_xy st = Some (\<Sum>(x, y)\<leftarrow>ws. x * y) \<and> rp_sum_xx st = Some (\<Sum>(x, y)\<leftarrow>ws. x * x) \<and>
     rp_sum_yy st = Some (\<Sum>(x, y)\<leftarrow>ws. y * y)"

lemma rp_exact_length: "rp_exact st ws \<Longrightarrow> length ws = rp_count st"
  by (auto simp: rp_exact_def rp_window_def dest: arg_cong [where f = length])

lemma rp_exact_step:
  assumes "rp_wf st" and "rp_exact st ws" and "0 < rp_capacity st"
  shows "rp_exact (pair_step exact st (Some a, Some b)) (lastn (rp_capacity st) (ws @ [(a, b)]))"
proof -
  have len: "length ws \<le> rp_capacity st"
    using assms rp_exact_length [OF assms(2)] by (simp add: rp_wf_def ring_wf_def)
  have window: "rp_window (pair_step exact st (Some a, Some b)) =
      map (map_prod Some Some) (lastn (rp_capacity st) (ws @ [(a, b)]))"
    using rp_window_step [OF assms(1,3), of exact "(Some a, Some b)"] assms(2)
    by (simp add: rp_exact_def flip: lastn_map)
  show ?thesis
  proof (cases "rp_count st = rp_capacity st")
    case True
    with assms obtain c d vs where
      "ws = (c, d) # vs" "rp_x_buf st ! rp_head st = Some c" "rp_y_buf st ! rp_head st = Some d"
      by (auto simp: rp_exact_def rp_window_def rp_wf_def elim: zip_ring_oldest)
    with assms(2) True rp_exact_length [OF assms(2)] show ?thesis
      unfolding rp_exact_def window sum_list_push [OF assms(3) len]
      by (simp add: pair_step_def pair_evict_def Let_def)
  next
    case False
    with assms(2) rp_exact_length [OF assms(2)] show ?thesis
      unfolding rp_exact_def window sum_list_push [OF assms(3) len]
      by (simp add: pair_step_def pair_evict_def Let_def)
  qed
qed

interpretation rolling_pair_exact:
  accumulating_window "RollingPairPush exact" rp_wf rp_capacity rp_window rp_exact "map_prod Some Some"
proof (unfold_locales, goal_cases)
  case (1 st p ws x st')
  let ?st = "if rp_capacity st \<noteq> p then pair_reset exact p st else st"
  let ?ws = "if rp_capacity st = p then ws else []"
  have "rp_exact (pair_reset exact p st) []" by (simp add: rp_exact_def) (simp add: pair_reset_def)
  with 1 have st: "rp_wf ?st" "rp_capacity ?st = p" "rp_exact ?st ?ws" by auto
  from rp_exact_step [OF st(1,3), of "fst x" "snd x"] 1(2,4) st(2) show ?case
    by (cases x) (auto simp: RollingPairPush_def)
qed

text \<open>The sum of the products of the deviations of two columns.\<close>

definition codev :: "(real \<times> real) list \<Rightarrow> real" where
  "codev ws = (\<Sum>(x, y)\<leftarrow>ws. (x - avg (map fst ws)) * (y - avg (map snd ws)))"

lemma sum_list_codeviations:
  fixes c d :: real
  shows "(\<Sum>(x, y)\<leftarrow>ws. (x - c) * (y - d)) =
    (\<Sum>(x, y)\<leftarrow>ws. x * y) - d * sum_list (map fst ws) - c * sum_list (map snd ws) + real (length ws) * c * d"
  by (induction ws) (auto simp: algebra_simps)

lemma codev_alt:
  assumes "ws \<noteq> []"
  shows "codev ws = (\<Sum>(x, y)\<leftarrow>ws. x * y) - sum_list (map fst ws) * sum_list (map snd ws) / real (length ws)"
proof -
  from assms have "0 < real (length ws)" by simp
  then show ?thesis
    unfolding codev_def sum_list_codeviations avg_def by (simp add: field_simps)
qed

lemma cauchy_schwarz_pairs:
  fixes zs :: "(real \<times> real) list"
  shows "(\<Sum>(a, b)\<leftarrow>zs. a * b)\<^sup>2 \<le> (\<Sum>(a, b)\<leftarrow>zs. a\<^sup>2) * (\<Sum>(a, b)\<leftarrow>zs. b\<^sup>2)"
proof -
  define A B C where "A = (\<Sum>(a, b)\<leftarrow>zs. a\<^sup>2)" and "B = (\<Sum>(a, b)\<leftarrow>zs. b\<^sup>2)"
    and "C = (\<Sum>(a, b)\<leftarrow>zs. a * b)"
  have quad: "0 \<le> s\<^sup>2 * A - 2 * s * t * C + t\<^sup>2 * B" for s t
  proof -
    have "0 \<le> (\<Sum>(a, b)\<leftarrow>zs. (s * a - t * b)\<^sup>2)" by (rule sum_list_nonneg) auto
    also have "\<dots> = s\<^sup>2 * A - 2 * s * t * C + t\<^sup>2 * B"
      unfolding A_def B_def C_def
      by (induction zs) (auto simp: power2_eq_square algebra_simps)
    finally show ?thesis .
  qed
  show ?thesis
  proof (cases "B = 0")
    case True
    from quad [of 1 "(A + 1) / (2 * C)"] True have "C = 0" by (cases "C = 0") auto
    with True show ?thesis by (simp add: A_def B_def C_def)
  next
    case False
    have "0 \<le> B" unfolding B_def by (rule sum_list_nonneg) auto
    with False have "0 < B" by simp
    moreover from quad [of B C] have "0 \<le> B * (A * B - C\<^sup>2)"
      by (simp add: power2_eq_square algebra_simps)
    ultimately show ?thesis by (simp add: A_def B_def C_def zero_le_mult_iff)
  qed
qed

lemma codev_bound: "(codev ws)\<^sup>2 \<le> ssd (map fst ws) * ssd (map snd ws)"
  using cauchy_schwarz_pairs [of "map (\<lambda>(x, y). (x - avg (map fst ws), y - avg (map snd ws))) ws"]
  by (simp add: codev_def ssd_def comp_def case_prod_unfold)

lemma rp_exact_moments:
  assumes "rp_exact st ws" and "ws \<noteq> []"
  shows "moment exact (rp_sum_xy st) (rp_sum_x st) (rp_sum_y st) (lnat exact (rp_count st)) = Some (codev ws)"
    and "moment exact (rp_sum_xx st) (rp_sum_x st) (rp_sum_x st) (lnat exact (rp_count st)) = Some (ssd (map fst ws))"
    and "moment exact (rp_sum_yy st) (rp_sum_y st) (rp_sum_y st) (lnat exact (rp_count st)) = Some (ssd (map snd ws))"
  using assms rp_exact_length [OF assms(1)]
  by (auto simp: rp_exact_def moment_def codev_alt ssd_alt comp_def case_prod_unfold power2_eq_square)

lemma abs_le_sqrt_of_square_le: "c\<^sup>2 \<le> (d::real) \<Longrightarrow> \<bar>c\<bar> \<le> sqrt d"
  using real_le_rsqrt real_sqrt_abs real_sqrt_le_iff by metis

lemma RollingPairCorrelation_exact:
  assumes "rp_exact st ws" and "RollingPairFull st"
  defines "vx \<equiv> ssd (map fst ws)" and "vy \<equiv> ssd (map snd ws)"
  shows "RollingPairCorrelation exact st =
    (if vx = 0 \<or> vy = 0 then None else Some (codev ws / sqrt (vx * vy)))"
proof -
  from assms(1,2) rp_exact_length [OF assms(1)] have ne: "ws \<noteq> []" by (auto simp: RollingPairFull_def)
  note m = rp_exact_moments [OF assms(1) ne]
  have nonneg: "0 \<le> vx" "0 \<le> vy" by (simp_all add: vx_def vy_def ssd_nonneg)
  show ?thesis
  proof (cases "vx = 0 \<or> vy = 0")
    case True
    with assms(2) m show ?thesis
      by (auto simp: RollingPairCorrelation_def Let_def vx_def vy_def)
  next
    case False
    with nonneg have pos: "0 < vx" "0 < vy" by auto
    define d where "d = sqrt (vx * vy)"
    from pos have d: "0 < d" and vxy: "\<not> vx * vy < 0" by (auto simp: d_def not_less)
    have "\<bar>codev ws\<bar> \<le> d"
      unfolding d_def
      using codev_bound [of ws] by (intro abs_le_sqrt_of_square_le) (simp add: vx_def vy_def)
    with d have "\<bar>codev ws / d\<bar> \<le> 1" by simp
    then have r: "\<not> 1 < codev ws / d" "\<not> codev ws / d < - 1" by linarith+
    from m [folded vx_def vy_def] assms(2) pos d vxy r show ?thesis
      by (simp add: RollingPairCorrelation_def Let_def del: divide_less_eq_1 less_divide_eq_1 flip: d_def)
  qed
qed

lemma RollingPairBeta_exact:
  assumes "rp_exact st ws" and "RollingPairFull st"
  shows "RollingPairBeta exact st =
    (if ssd (map fst ws) = 0 then None else Some (codev ws / ssd (map fst ws)))"
proof -
  from assms(1,2) rp_exact_length [OF assms(1)] have ne: "ws \<noteq> []" by (auto simp: RollingPairFull_def)
  from rp_exact_moments [OF assms(1) ne] ssd_nonneg [of "map fst ws"] assms(2) show ?thesis
    by (auto simp: RollingPairBeta_def Let_def)
qed

end
