(* ===== verification/Filters.thy ===== *)
theory Filters
  imports Machine_Float
begin

text \<open>
  The operators with a constant amount of state: the exponential average (the step of the
  interpreter, of its variant with an explicit coefficient, and of the runtime helper the
  compiled code calls), the two crossing detectors, and the scalar Kalman filter. Over exact
  arithmetic the average is the weighted sum of the stream it should be, and the Kalman step is
  the textbook update with a gain in the unit interval.
\<close>

section \<open>Exponential average\<close>

record 'f EMAState =
  ema_value :: 'f
  ema_alpha :: 'f
  ema_period :: int
  ema_initialized :: bool

definition EMAState0 :: "'f machine \<Rightarrow> 'f EMAState" where
  "EMAState0 M = \<lparr>ema_value = dlit M 0, ema_alpha = dlit M 0, ema_period = 0, ema_initialized = False\<rparr>"

definition ema_blend :: "'f machine \<Rightarrow> 'f \<Rightarrow> 'f \<Rightarrow> 'f \<Rightarrow> 'f" where
  "ema_blend M alpha x v = dadd M (dmul M alpha x) (dmul M (dsub M (dlit M 1) alpha) v)"

definition ema_period_alpha :: "'f machine \<Rightarrow> int \<Rightarrow> 'f" where
  "ema_period_alpha M period = ddiv M (dlit M 2) (dadd M (dlit M (of_int period)) (dlit M 1))"

definition interp_ema_step :: "'f machine \<Rightarrow> 'f EMAState \<Rightarrow> int \<Rightarrow> 'f \<Rightarrow> 'f \<times> 'f EMAState" where
  "interp_ema_step M st period x =
     (if \<not> ema_initialized st then (x, st\<lparr>ema_value := x, ema_initialized := True\<rparr>)
      else let alpha = ema_period_alpha M period; v = ema_blend M alpha x (ema_value st)
           in (v, st\<lparr>ema_value := v\<rparr>))"

definition interp_ema_alpha_step :: "'f machine \<Rightarrow> 'f EMAState \<Rightarrow> 'f \<Rightarrow> 'f \<Rightarrow> 'f \<times> 'f EMAState" where
  "interp_ema_alpha_step M st x alpha =
     (if \<not> ema_initialized st
      then (x, st\<lparr>ema_value := x, ema_alpha := alpha, ema_initialized := True\<rparr>)
      else let v = ema_blend M alpha x (ema_value st) in (v, st\<lparr>ema_alpha := alpha, ema_value := v\<rparr>))"

definition rt_ema_step :: "'f machine \<Rightarrow> 'f EMAState \<Rightarrow> int \<Rightarrow> 'f \<Rightarrow> 'f \<times> 'f EMAState" where
  "rt_ema_step M st period x =
     (if \<not> ema_initialized st
      then (x, st\<lparr>ema_value := x, ema_period := period, ema_alpha := ema_period_alpha M period,
                  ema_initialized := True\<rparr>)
      else let v = ema_blend M (ema_alpha st) x (ema_value st) in (v, st\<lparr>ema_value := v\<rparr>))"

definition rt_ema_alpha_step ::
    "'f machine \<Rightarrow> 'f EMAState \<Rightarrow> 'f \<Rightarrow> 'f \<Rightarrow> int \<Rightarrow> 'f \<times> 'f EMAState" where
  "rt_ema_alpha_step M st x alpha period =
     (if \<not> ema_initialized st
      then (x, st\<lparr>ema_value := x, ema_alpha := alpha, ema_period := period, ema_initialized := True\<rparr>)
      else let v = ema_blend M (ema_alpha st) x (ema_value st) in (v, st\<lparr>ema_value := v\<rparr>))"

text \<open>The values a step function emits along a stream.\<close>

primrec emit :: "('s \<Rightarrow> 'a \<Rightarrow> 'b \<times> 's) \<Rightarrow> 's \<Rightarrow> 'a list \<Rightarrow> 'b list" where
  "emit f s [] = []"
| "emit f s (x # xs) = (let (y, s') = f s x in y # emit f s' xs)"

lemma length_emit [simp]: "length (emit f s xs) = length xs"
  by (induction xs arbitrary: s) (auto simp: Let_def split: prod.splits)

text \<open>Two step functions emit the same values when a relation between their states is kept.\<close>

lemma emit_simulation:
  assumes "\<And>s t x. R s t \<Longrightarrow> fst (f s x) = fst (g t x) \<and> R (snd (f s x)) (snd (g t x))" and "R s t"
  shows "emit f s xs = emit g t xs"
  using assms(2)
proof (induction xs arbitrary: s t)
  case (Cons x xs)
  from assms(1) [OF Cons.prems, of x] Cons.IH [of "snd (f s x)" "snd (g t x)"] show ?case
    by (simp add: case_prod_unfold Let_def)
qed simp

text \<open>The states the two evaluators keep for the same node: they agree on the value, and the
  runtime's coefficient is the one of the period once the state is initialised.\<close>

definition ema_same :: "'f machine \<Rightarrow> int \<Rightarrow> 'f EMAState \<Rightarrow> 'f EMAState \<Rightarrow> bool" where
  "ema_same M period s t \<longleftrightarrow> ema_initialized s = ema_initialized t \<and>
     (ema_initialized s \<longrightarrow> ema_value s = ema_value t \<and> ema_alpha t = ema_period_alpha M period)"

lemma ema_same_step:
  "ema_same M period s t \<Longrightarrow>
     fst (interp_ema_step M s period x) = fst (rt_ema_step M t period x) \<and>
     ema_same M period (snd (interp_ema_step M s period x)) (snd (rt_ema_step M t period x))"
  by (auto simp: ema_same_def interp_ema_step_def rt_ema_step_def Let_def)

lemma ema_parity:
  "ema_same M period s t \<Longrightarrow>
     emit (\<lambda>s. interp_ema_step M s period) s xs = emit (\<lambda>t. rt_ema_step M t period) t xs"
  by (rule emit_simulation [where R = "ema_same M period"]) (auto dest: ema_same_step)

text \<open>With an explicit coefficient the two agree along streams whose coefficient never changes.\<close>

lemma ema_alpha_parity:
  assumes "\<not> ema_initialized s" and "\<not> ema_initialized t"
  shows "emit (\<lambda>s x. interp_ema_alpha_step M s x alpha) s xs =
    emit (\<lambda>t x. rt_ema_alpha_step M t x alpha period) t xs"
  by (rule emit_simulation [where R = "\<lambda>s t. ema_initialized s = ema_initialized t \<and>
          (ema_initialized s \<longrightarrow> ema_value s = ema_value t \<and> ema_alpha t = alpha)"])
    (use assms in \<open>auto simp: interp_ema_alpha_step_def rt_ema_alpha_step_def Let_def\<close>)

section \<open>Crossings\<close>

record 'f CrossState =
  cr_prev_a :: 'f
  cr_prev_b :: 'f
  cr_initialized :: bool

definition CrossState0 :: "'f machine \<Rightarrow> 'f CrossState" where
  "CrossState0 M = \<lparr>cr_prev_a = dlit M 0, cr_prev_b = dlit M 0, cr_initialized = False\<rparr>"

definition cross_step ::
    "'f machine \<Rightarrow> ('f \<Rightarrow> 'f \<Rightarrow> bool) \<Rightarrow> ('f \<Rightarrow> 'f \<Rightarrow> bool) \<Rightarrow> 'f CrossState \<Rightarrow> 'f \<times> 'f \<Rightarrow> 'f \<times> 'f CrossState"
where
  "cross_step M before now st ab =
     (let (a, b) = ab; st' = \<lparr>cr_prev_a = a, cr_prev_b = b, cr_initialized = True\<rparr>
      in if \<not> cr_initialized st then (dlit M 0, st')
         else (dbool M (before (cr_prev_a st) (cr_prev_b st) \<and> now a b), st'))"

definition cross_above_step :: "'f machine \<Rightarrow> 'f CrossState \<Rightarrow> 'f \<times> 'f \<Rightarrow> 'f \<times> 'f CrossState" where
  "cross_above_step M = cross_step M (\<lambda>a b. fle M a b) (\<lambda>a b. flt M b a)"

definition cross_below_step :: "'f machine \<Rightarrow> 'f CrossState \<Rightarrow> 'f \<times> 'f \<Rightarrow> 'f \<times> 'f CrossState" where
  "cross_below_step M = cross_step M (\<lambda>a b. fle M b a) (\<lambda>a b. flt M a b)"

lemma emit_cross:
  "emit (cross_step M before now) \<lparr>cr_prev_a = a0, cr_prev_b = b0, cr_initialized = True\<rparr> abxs =
     map2 (\<lambda>(a, b) (a', b'). dbool M (before a b \<and> now a' b')) ((a0, b0) # abxs) abxs"
  by (induction abxs arbitrary: a0 b0) (auto simp: cross_step_def)

lemma emit_cross_initial:
  "\<not> cr_initialized st \<Longrightarrow> emit (cross_step M before now) st (ab # abxs) =
     dlit M 0 # map2 (\<lambda>(a, b) (a', b'). dbool M (before a b \<and> now a' b')) (ab # abxs) abxs"
  by (cases ab) (simp add: cross_step_def emit_cross)

section \<open>The scalar Kalman filter\<close>

record 'f Kalman1dState =
  ka_x_hat :: 'f
  ka_p :: 'f
  ka_q :: 'f
  ka_r :: 'f
  ka_initialized :: bool

definition Kalman1dState0 :: "'f machine \<Rightarrow> 'f Kalman1dState" where
  "Kalman1dState0 M =
     \<lparr>ka_x_hat = dlit M 0, ka_p = dlit M 0, ka_q = dlit M 0, ka_r = dlit M 0, ka_initialized = False\<rparr>"

definition Kalman1dStep ::
    "'f machine \<Rightarrow> 'f Kalman1dState \<Rightarrow> 'f \<Rightarrow> 'f \<Rightarrow> 'f \<Rightarrow> 'f \<times> 'f Kalman1dState" where
  "Kalman1dStep M st x q r =
     (if \<not> ka_initialized st
      then (x, \<lparr>ka_x_hat = x, ka_p = r, ka_q = q, ka_r = r, ka_initialized = True\<rparr>)
      else
        let p_pred = dadd M (ka_p st) q;
            denom = dadd M p_pred r
        in if fle M denom (dlit M 0) then (ka_x_hat st, st)
           else
             let k_gain = ddiv M p_pred denom;
                 x_hat = dadd M (ka_x_hat st) (dmul M k_gain (dsub M x (ka_x_hat st)));
                 p_new = dmul M (dsub M (dlit M 1) k_gain) p_pred;
                 p_new' = if flt M p_new (dlit M 0) then dlit M 0 else p_new
             in (x_hat, st\<lparr>ka_x_hat := x_hat, ka_p := p_new', ka_q := q, ka_r := r\<rparr>))"

section \<open>Exact arithmetic\<close>

lemma ema_blend_exact: "ema_blend exact (Some a) (Some x) (Some v) = Some (a * x + (1 - a) * v)"
  by (simp add: ema_blend_def)

lemma ema_period_alpha_exact:
  "0 < period \<Longrightarrow> ema_period_alpha exact period = Some (2 / (of_int period + 1))"
  by (simp add: ema_period_alpha_def)

lemma ema_alpha_range: "0 < (period::int) \<Longrightarrow> 0 < 2 / (of_int period + 1 :: real) \<and> 2 / (of_int period + 1 :: real) \<le> 1"
  by simp

text \<open>The weights of an exponential average: the first sample keeps \<open>(1 - a) ^ n\<close>, every later
  one \<open>a (1 - a) ^ k\<close> where \<open>k\<close> samples came after it.\<close>

definition ema_weighted :: "real \<Rightarrow> real \<Rightarrow> real list \<Rightarrow> real" where
  "ema_weighted a v xs = (1 - a) ^ length xs * v +
     (\<Sum>i<length xs. a * (1 - a) ^ (length xs - 1 - i) * xs ! i)"

lemma ema_weighted_Nil [simp]: "ema_weighted a v [] = v"
  by (simp add: ema_weighted_def)

lemma ema_weighted_snoc: "ema_weighted a v (xs @ [x]) = a * x + (1 - a) * ema_weighted a v xs"
proof -
  have "(\<Sum>i<length xs. a * (1 - a) ^ (length xs - i) * (xs @ [x]) ! i) =
      (1 - a) * (\<Sum>i<length xs. a * (1 - a) ^ (length xs - 1 - i) * xs ! i)"
    unfolding sum_distrib_left
  proof (rule sum.cong, goal_cases)
    case (2 i)
    then have "length xs - i = Suc (length xs - 1 - i)" by auto
    with 2 show ?case by (simp add: nth_append algebra_simps)
  qed simp
  then show ?thesis by (simp add: ema_weighted_def nth_append algebra_simps)
qed

lemma ema_weighted_bounds:
  assumes "0 \<le> a" and "a \<le> 1" and "lo \<le> v" and "v \<le> hi" and "\<forall>x\<in>set xs. lo \<le> x \<and> x \<le> hi"
  shows "lo \<le> ema_weighted a v xs \<and> ema_weighted a v xs \<le> hi"
  using assms(5)
proof (induction xs rule: rev_induct)
  case Nil
  with assms show ?case by simp
next
  case (snoc x xs)
  then have x: "lo \<le> x" "x \<le> hi" and w: "lo \<le> ema_weighted a v xs" "ema_weighted a v xs \<le> hi" by auto
  from assms(1,2) have "0 \<le> 1 - a" by simp
  with assms(1) x w have "a * lo + (1 - a) * lo \<le> ema_weighted a v (xs @ [x])"
      "ema_weighted a v (xs @ [x]) \<le> a * hi + (1 - a) * hi"
    by (auto simp: ema_weighted_snoc intro!: add_mono mult_left_mono)
  then show ?case by (simp add: algebra_simps)
qed

text \<open>The state after a stream and the value emitted at position \<open>n\<close>.\<close>

definition state_after :: "('s \<Rightarrow> 'a \<Rightarrow> 'b \<times> 's) \<Rightarrow> 's \<Rightarrow> 'a list \<Rightarrow> 's" where
  "state_after f s xs = foldl (\<lambda>s x. snd (f s x)) s xs"

lemma emit_nth: "n < length xs \<Longrightarrow> emit f s xs ! n = fst (f (state_after f s (take n xs)) (xs ! n))"
  by (induction xs arbitrary: s n) (auto simp: state_after_def Let_def nth_Cons case_prod_unfold split: nat.splits)

lemma ema_state_exact:
  assumes "0 < period" and "ema_initialized st" and "ema_value st = Some v"
  defines "a \<equiv> 2 / (of_int period + 1)"
  shows "ema_initialized (state_after (\<lambda>s. interp_ema_step exact s period) st (map Some xs)) \<and>
    ema_value (state_after (\<lambda>s. interp_ema_step exact s period) st (map Some xs)) = Some (ema_weighted a v xs)"
proof (induction xs rule: rev_induct)
  case Nil
  with assms show ?case by (simp add: state_after_def)
next
  case (snoc x xs)
  then show ?case
    by (simp add: state_after_def interp_ema_step_def Let_def ema_period_alpha_exact [OF assms(1)]
        ema_blend_exact ema_weighted_snoc a_def)
qed

text \<open>One Kalman update: the estimate moves towards the measurement by a gain below one, and the
  posterior variance is the parallel sum of the predicted variance and the noise.\<close>

lemma Kalman1dStep_exact:
  assumes "ka_initialized st" and "ka_x_hat st = Some h" and "ka_p st = Some p"
    and "0 \<le> p" and "0 \<le> q" and "0 < r"
  defines "k \<equiv> (p + q) / (p + q + r)"
  shows "Kalman1dStep exact st (Some x) (Some q) (Some r) =
      (Some (h + k * (x - h)),
       st\<lparr>ka_x_hat := Some (h + k * (x - h)), ka_p := Some ((1 - k) * (p + q)), ka_q := Some q, ka_r := Some r\<rparr>)"
    and "0 \<le> k" and "k < 1" and "(1 - k) * (p + q) = r * k" and "0 \<le> (1 - k) * (p + q)"
proof -
  from assms(4-6) have pos: "0 < p + q + r" by simp
  with assms(4-6) show k0: "0 \<le> k" and k1: "k < 1" by (simp_all add: k_def divide_simps)
  from pos show "(1 - k) * (p + q) = r * k" by (simp add: k_def field_simps)
  from k1 assms(4,5) show nonneg: "0 \<le> (1 - k) * (p + q)" by simp
  have "p + q + r \<noteq> 0" "\<not> p + q + r \<le> 0" using pos by auto
  with assms(1-3) nonneg show "Kalman1dStep exact st (Some x) (Some q) (Some r) =
      (Some (h + k * (x - h)),
       st\<lparr>ka_x_hat := Some (h + k * (x - h)), ka_p := Some ((1 - k) * (p + q)), ka_q := Some q, ka_r := Some r\<rparr>)"
    by (simp add: Kalman1dStep_def Let_def not_less flip: k_def)
qed

end
