(* ===== verification/Mono_Deque.thy ===== *)
theory Mono_Deque
  imports Filters Ring_Buffer
begin

text \<open>
  Rolling minimum and maximum of \<^verbatim>\<open>src/runtime.cpp\<close>: a ring of \<open>period + 1\<close> pairs
  of a tick index and a value, used as a deque from which the values beaten by a new sample are
  dropped at the back and the expired ones at the front. On every machine the deque never holds
  more than \<open>period\<close> pairs between updates, so the ring is never overrun; when no sample is
  NaN it holds exactly the samples of the window no later sample beats, and its front is the
  extremum of the window.
\<close>

section \<open>State and operations\<close>

record 'f MonoDequeState =
  md_buf :: "(nat \<times> 'f) list"
  md_head :: nat
  md_count :: nat
  md_cap :: nat

definition MonoDequeState0 :: "'f MonoDequeState" where
  "MonoDequeState0 = \<lparr>md_buf = [], md_head = 0, md_count = 0, md_cap = 0\<rparr>"

definition MonoInit :: "'f machine \<Rightarrow> 'f MonoDequeState \<Rightarrow> nat \<Rightarrow> 'f MonoDequeState" where
  "MonoInit M st period =
     (let needed_cap = period + 1
      in if md_cap st = needed_cap then st
         else \<lparr>md_buf = replicate needed_cap (0, dlit M 0), md_head = 0, md_count = 0, md_cap = needed_cap\<rparr>)"

definition MonoEmpty :: "'f MonoDequeState \<Rightarrow> bool" where
  "MonoEmpty st \<longleftrightarrow> md_count st = 0"

definition MonoTailIndex :: "'f MonoDequeState \<Rightarrow> nat" where
  "MonoTailIndex st = (md_head st + md_count st - 1) mod md_cap st"

definition MonoFront :: "'f MonoDequeState \<Rightarrow> nat \<times> 'f" where
  "MonoFront st = md_buf st ! md_head st"

definition MonoBack :: "'f MonoDequeState \<Rightarrow> nat \<times> 'f" where
  "MonoBack st = md_buf st ! MonoTailIndex st"

definition MonoPopFront :: "'f MonoDequeState \<Rightarrow> 'f MonoDequeState" where
  "MonoPopFront st = st\<lparr>md_head := (md_head st + 1) mod md_cap st, md_count := md_count st - 1\<rparr>"

definition MonoPopBack :: "'f MonoDequeState \<Rightarrow> 'f MonoDequeState" where
  "MonoPopBack st = st\<lparr>md_count := md_count st - 1\<rparr>"

definition MonoPushBack :: "'f MonoDequeState \<Rightarrow> nat \<times> 'f \<Rightarrow> 'f MonoDequeState" where
  "MonoPushBack st v =
     (let write_idx = (md_head st + md_count st) mod md_cap st
      in st\<lparr>md_buf := (md_buf st)[write_idx := v], md_count := Suc (md_count st)\<rparr>)"

text \<open>The two loops, with the condition on the pair as an argument.\<close>

function mono_drop_back :: "(nat \<times> 'f \<Rightarrow> bool) \<Rightarrow> 'f MonoDequeState \<Rightarrow> 'f MonoDequeState" where
  "mono_drop_back P st =
     (if \<not> MonoEmpty st \<and> P (MonoBack st) then mono_drop_back P (MonoPopBack st) else st)"
  by auto
termination by (relation "measure (md_count \<circ> snd)") (auto simp: MonoEmpty_def MonoPopBack_def)

function mono_drop_front :: "(nat \<times> 'f \<Rightarrow> bool) \<Rightarrow> 'f MonoDequeState \<Rightarrow> 'f MonoDequeState" where
  "mono_drop_front P st =
     (if \<not> MonoEmpty st \<and> P (MonoFront st) then mono_drop_front P (MonoPopFront st) else st)"
  by auto
termination by (relation "measure (md_count \<circ> snd)") (auto simp: MonoEmpty_def MonoPopFront_def)

declare mono_drop_back.simps [simp del] mono_drop_front.simps [simp del]

text \<open>Subtraction of two 64-bit sizes.\<close>

definition size_sub :: "nat \<Rightarrow> nat \<Rightarrow> nat" where
  "size_sub a b = (if b \<le> a then a - b else 2 ^ 64 + a - b)"

definition mono_update ::
    "('f \<Rightarrow> 'f \<Rightarrow> bool) \<Rightarrow> 'f MonoDequeState \<Rightarrow> nat \<Rightarrow> nat \<Rightarrow> 'f \<Rightarrow> 'f \<times> 'f MonoDequeState \<times> nat" where
  "mono_update beaten dq idx period sample =
     (let dq1 = mono_drop_back (\<lambda>e. beaten (snd e) sample) dq;
          dq2 = MonoPushBack dq1 (idx, sample);
          dq3 = mono_drop_front (\<lambda>e. size_sub (idx + 1) (fst e) > period) dq2
      in (snd (MonoFront dq3), dq3, Suc idx))"

definition UpdateRollingMin ::
    "'f machine \<Rightarrow> 'f MonoDequeState \<Rightarrow> nat \<Rightarrow> nat \<Rightarrow> 'f \<Rightarrow> 'f \<times> 'f MonoDequeState \<times> nat" where
  "UpdateRollingMin M dq idx period sample =
     mono_update (\<lambda>b s. fle M s b) (MonoInit M dq period) idx period sample"

definition UpdateRollingMax ::
    "'f machine \<Rightarrow> 'f MonoDequeState \<Rightarrow> nat \<Rightarrow> nat \<Rightarrow> 'f \<Rightarrow> 'f \<times> 'f MonoDequeState \<times> nat" where
  "UpdateRollingMax M dq idx period sample =
     mono_update (\<lambda>b s. fle M b s) (MonoInit M dq period) idx period sample"

definition UpdateRollingMinPrepared ::
    "'f machine \<Rightarrow> 'f MonoDequeState \<Rightarrow> nat \<Rightarrow> 'f \<Rightarrow> ('f \<times> 'f MonoDequeState \<times> nat) result" where
  "UpdateRollingMinPrepared M dq idx sample =
     (if md_cap dq = 0 then Inl (RuntimeError ''UpdateRollingMinPrepared called before state prewarm'')
      else Inr (mono_update (\<lambda>b s. fle M s b) dq idx (md_cap dq - 1) sample))"

definition UpdateRollingMaxPrepared ::
    "'f machine \<Rightarrow> 'f MonoDequeState \<Rightarrow> nat \<Rightarrow> 'f \<Rightarrow> ('f \<times> 'f MonoDequeState \<times> nat) result" where
  "UpdateRollingMaxPrepared M dq idx sample =
     (if md_cap dq = 0 then Inl (RuntimeError ''UpdateRollingMaxPrepared called before state prewarm'')
      else Inr (mono_update (\<lambda>b s. fle M b s) dq idx (md_cap dq - 1) sample))"

section \<open>The deque as a list\<close>

definition md_wf :: "'f MonoDequeState \<Rightarrow> bool" where
  "md_wf st \<longleftrightarrow> length (md_buf st) = md_cap st \<and> md_count st \<le> md_cap st \<and> md_head st < md_cap st"

definition md_list :: "'f MonoDequeState \<Rightarrow> (nat \<times> 'f) list" where
  "md_list st = map (\<lambda>i. md_buf st ! ((md_head st + i) mod md_cap st)) [0..<md_count st]"

lemma length_md_list [simp]: "length (md_list st) = md_count st"
  by (simp add: md_list_def)

lemma md_list_MonoInit [simp]: "md_cap st \<noteq> p + 1 \<Longrightarrow> md_list (MonoInit M st p) = []"
  by (simp add: md_list_def MonoInit_def)

lemma md_wf_MonoInit: "md_wf st \<or> md_cap st \<noteq> p + 1 \<Longrightarrow> md_wf (MonoInit M st p)"
  by (auto simp: md_wf_def MonoInit_def Let_def)

lemma md_cap_MonoInit [simp]: "md_cap (MonoInit M st p) = p + 1"
  by (simp add: MonoInit_def Let_def)

lemma MonoFront_hd: "md_wf st \<Longrightarrow> 0 < md_count st \<Longrightarrow> MonoFront st = hd (md_list st)"
  by (simp add: MonoFront_def md_list_def hd_map md_wf_def upt_conv_Cons)

lemma MonoBack_last: "0 < md_count st \<Longrightarrow> MonoBack st = last (md_list st)"
  by (simp add: MonoBack_def MonoTailIndex_def md_list_def last_map)

lemma MonoPopBack_list: "md_list (MonoPopBack st) = butlast (md_list st)"
  by (cases "md_count st") (auto simp: MonoPopBack_def md_list_def)

lemma MonoPopFront_list: "md_wf st \<Longrightarrow> md_list (MonoPopFront st) = tl (md_list st)"
  by (intro nth_equalityI) (auto simp: MonoPopFront_def md_list_def nth_tl md_wf_def mod_add_left_eq)

lemma md_wf_pops:
  "md_wf st \<Longrightarrow> md_wf (MonoPopBack st)" "md_wf st \<Longrightarrow> md_wf (MonoPopFront st)"
  by (auto simp: md_wf_def MonoPopBack_def MonoPopFront_def)

lemma MonoPushBack_list:
  assumes "md_wf st" and "md_count st < md_cap st"
  shows "md_wf (MonoPushBack st v)" and "md_list (MonoPushBack st v) = md_list st @ [v]"
proof -
  from assms show "md_wf (MonoPushBack st v)" by (simp add: md_wf_def MonoPushBack_def Let_def)
  have ne: "(md_head st + i) mod md_cap st \<noteq> (md_head st + md_count st) mod md_cap st"
    if "i < md_count st" for i
  proof
    assume "(md_head st + i) mod md_cap st = (md_head st + md_count st) mod md_cap st"
    then have "md_cap st dvd md_count st - i"
      using that by (metis add_diff_cancel_left mod_eq_dvd_iff_nat nat_add_left_cancel_le order_less_imp_le)
    with that assms show False by (auto dest!: dvd_imp_le)
  qed
  show "md_list (MonoPushBack st v) = md_list st @ [v]"
    using assms by (intro nth_equalityI)
      (auto simp: MonoPushBack_def md_list_def Let_def nth_append md_wf_def less_Suc_eq nth_list_update dest: ne)
qed

text \<open>The loops drop a suffix and a prefix.\<close>

definition drop_back :: "('a \<Rightarrow> bool) \<Rightarrow> 'a list \<Rightarrow> 'a list" where
  "drop_back P xs = rev (dropWhile P (rev xs))"

lemma drop_back_step: "drop_back P xs = (if xs \<noteq> [] \<and> P (last xs) then drop_back P (butlast xs) else xs)"
  by (cases xs rule: rev_cases) (auto simp: drop_back_def)

lemma mono_drop_back_list:
  "md_wf st \<Longrightarrow> md_wf (mono_drop_back P st) \<and> md_cap (mono_drop_back P st) = md_cap st \<and>
     md_list (mono_drop_back P st) = drop_back P (md_list st)"
proof (induction P st rule: mono_drop_back.induct)
  case (1 P st)
  have "0 < md_count st \<longleftrightarrow> md_list st \<noteq> []" by (metis length_greater_0_conv length_md_list)
  with 1 MonoBack_last [of st] md_wf_pops(1) [of st] show ?case
    by (subst (1 2 3) mono_drop_back.simps, subst drop_back_step)
      (auto simp: MonoEmpty_def MonoPopBack_list, simp_all add: MonoPopBack_def)
qed

lemma mono_drop_front_list:
  "md_wf st \<Longrightarrow> md_wf (mono_drop_front P st) \<and> md_cap (mono_drop_front P st) = md_cap st \<and>
     md_list (mono_drop_front P st) = dropWhile P (md_list st)"
proof (induction P st rule: mono_drop_front.induct)
  case (1 P st)
  show ?case
  proof (cases "md_list st")
    case Nil
    then have "md_count st = 0" by (metis length_md_list list.size(3))
    with 1 Nil show ?thesis by (subst (1 2 3) mono_drop_front.simps) (simp add: MonoEmpty_def)
  next
    case (Cons e es)
    then have "0 < md_count st" by (metis length_greater_0_conv length_md_list list.discI)
    with 1 Cons MonoFront_hd [of st] MonoPopFront_list [of st] md_wf_pops(2) [of st] show ?thesis
      by (subst (1 2 3) mono_drop_front.simps) (auto simp: MonoEmpty_def, simp_all add: MonoPopFront_def)
  qed
qed

section \<open>The ring is never overrun\<close>

definition md_inv :: "nat \<Rightarrow> nat \<Rightarrow> 'f MonoDequeState \<Rightarrow> bool" where
  "md_inv p idx st \<longleftrightarrow> md_wf st \<and> md_cap st = p + 1 \<and> sorted_wrt (<) (map fst (md_list st)) \<and>
     (\<forall>e\<in>set (md_list st). fst e < idx \<and> idx \<le> fst e + p)"

lemma md_inv_count:
  assumes "md_inv p idx st"
  shows "md_count st \<le> p"
proof -
  have "distinct (map fst (md_list st))"
    using assms by (simp add: md_inv_def strict_sorted_iff)
  then have "md_count st = card (set (map fst (md_list st)))"
    by (simp add: distinct_card del: set_map)
  also have "\<dots> \<le> card {idx - p..<idx}"
    using assms by (intro card_mono) (auto simp: md_inv_def)
  also have "\<dots> \<le> p" by simp
  finally show ?thesis .
qed

lemma md_inv_MonoInit:
  "md_cap st \<noteq> p + 1 \<or> md_inv p idx st \<Longrightarrow> md_inv p idx (MonoInit M st p)"
  by (cases "md_cap st = p + 1") (auto simp: md_inv_def md_wf_MonoInit, auto simp: MonoInit_def Let_def)

lemma dropWhile_filter:
  "sorted_wrt (\<lambda>a b. P b \<longrightarrow> P a) xs \<Longrightarrow> dropWhile P xs = filter (\<lambda>x. \<not> P x) xs"
  by (induction xs) (auto simp: filter_True)

lemma drop_back_filter:
  "sorted_wrt (\<lambda>a b. P a \<longrightarrow> P b) xs \<Longrightarrow> drop_back P xs = filter (\<lambda>x. \<not> P x) xs"
  using dropWhile_filter [of P "rev xs"] by (simp add: drop_back_def sorted_wrt_rev rev_filter)

lemma drop_back_prefix: "\<exists>ys. xs = drop_back P xs @ ys"
  by (metis drop_back_def rev_append rev_rev_ident takeWhile_dropWhile_id)

text \<open>One update, on lists: drop what the sample beats, append, drop what has expired.\<close>

lemma mono_update_list:
  assumes "md_inv p idx dq" and "0 < p" and "mono_update beaten dq idx p x = (v, dq', idx')"
  defines "l \<equiv> drop_back (\<lambda>e. beaten (snd e) x) (md_list dq) @ [(idx, x)]"
  shows "idx' = Suc idx" and "md_inv p idx' dq'"
    and "md_list dq' = filter (\<lambda>e. idx' \<le> fst e + p) l" and "v = snd (hd (md_list dq'))"
    and "md_list dq' \<noteq> []"
proof -
  let ?dq1 = "mono_drop_back (\<lambda>e. beaten (snd e) x) dq"
  let ?expired = "\<lambda>e. size_sub (idx + 1) (fst e) > p"
  obtain ys where ys: "md_list dq = drop_back (\<lambda>e. beaten (snd e) x) (md_list dq) @ ys"
    using drop_back_prefix by blast
  have wf: "md_wf dq" and cap: "md_cap dq = p + 1" using assms(1) by (auto simp: md_inv_def)
  have dq1: "md_wf ?dq1" "md_cap ?dq1 = p + 1" "md_list ?dq1 = drop_back (\<lambda>e. beaten (snd e) x) (md_list dq)"
    using mono_drop_back_list [OF wf] cap by auto
  have "md_count ?dq1 \<le> md_count dq" using ys dq1(3) by (metis le_add1 length_append length_md_list)
  with md_inv_count [OF assms(1)] dq1 have room: "md_count ?dq1 < md_cap ?dq1" by simp
  have dq2: "md_wf (MonoPushBack ?dq1 (idx, x))" "md_list (MonoPushBack ?dq1 (idx, x)) = l"
      "md_cap (MonoPushBack ?dq1 (idx, x)) = p + 1"
    using MonoPushBack_list [OF dq1(1) room] dq1 by (auto simp: l_def MonoPushBack_def Let_def)
  from assms(3) have idx': "idx' = Suc idx" and v: "v = snd (MonoFront dq')"
    and dq': "dq' = mono_drop_front ?expired (MonoPushBack ?dq1 (idx, x))"
    by (auto simp: mono_update_def Let_def)
  show "idx' = Suc idx" by (rule idx')
  define d where "d = drop_back (\<lambda>e. beaten (snd e) x) (md_list dq)"
  from assms(1) ys have "sorted_wrt (<) (map fst (d @ ys))" and "\<forall>e\<in>set (d @ ys). fst e < idx"
    unfolding md_inv_def d_def by metis+
  then have sorted: "sorted_wrt (<) (map fst l)" and bound: "\<forall>e\<in>set l. fst e \<le> idx"
    by (auto simp: sorted_wrt_append l_def dest: bspec less_imp_le simp flip: d_def)
  have "md_list dq' = dropWhile ?expired l"
    using mono_drop_front_list [OF dq2(1)] dq2(2) dq' by simp
  also have "\<dots> = filter (\<lambda>e. \<not> ?expired e) l"
    using sorted bound
    by (intro dropWhile_filter) (auto simp: sorted_wrt_map size_sub_def elim!: sorted_wrt_mono_rel [rotated])
  also have "\<dots> = filter (\<lambda>e. idx' \<le> fst e + p) l"
    using bound idx' by (intro filter_cong) (auto simp: size_sub_def)
  finally show list: "md_list dq' = filter (\<lambda>e. idx' \<le> fst e + p) l" .
  show ne: "md_list dq' \<noteq> []" unfolding list l_def idx' using assms(2) by simp
  have "md_wf dq'" "md_cap dq' = p + 1" using mono_drop_front_list [OF dq2(1)] dq2(3) dq' by auto
  with sorted bound list idx' show "md_inv p idx' dq'"
    by (auto simp: md_inv_def sorted_wrt_map sorted_wrt_filter)
  from ne \<open>md_wf dq'\<close> v show "v = snd (hd (md_list dq'))"
    by (metis MonoFront_hd length_greater_0_conv length_md_list)
qed

section \<open>The front is the extremum of the window\<close>

text \<open>
  \<open>beaten b s\<close> is the test on which a value \<open>b\<close> is dropped when \<open>s\<close> arrives; on the
  values that are not NaN it is a total preorder.
\<close>

locale dominance =
  fixes ok :: "'f \<Rightarrow> bool" and beaten :: "'f \<Rightarrow> 'f \<Rightarrow> bool"
  assumes beaten_refl: "ok a \<Longrightarrow> beaten a a"
    and beaten_total: "ok a \<Longrightarrow> ok b \<Longrightarrow> beaten a b \<or> beaten b a"
    and beaten_trans: "beaten a b \<Longrightarrow> beaten b c \<Longrightarrow> beaten a c"
begin

text \<open>The pairs of the window that no later sample beats.\<close>

definition survivors :: "nat \<Rightarrow> 'f list \<Rightarrow> (nat \<times> 'f) list" where
  "survivors p xs = map (\<lambda>i. (i, xs ! i))
     (filter (\<lambda>i. \<forall>j\<in>{i<..<length xs}. \<not> beaten (xs ! i) (xs ! j)) [length xs - p..<length xs])"

lemma survivors_Nil [simp]: "survivors p [] = []"
  by (simp add: survivors_def)

lemma survivors_drop:
  assumes "\<forall>x\<in>set xs. ok x" and "ok x"
  shows "drop_back (\<lambda>e. beaten (snd e) x) (survivors p xs) = filter (\<lambda>e. \<not> beaten (snd e) x) (survivors p xs)"
proof (rule drop_back_filter)
  let ?is = "filter (\<lambda>i. \<forall>j\<in>{i<..<length xs}. \<not> beaten (xs ! i) (xs ! j)) [length xs - p..<length xs]"
  have "sorted_wrt (<) ?is" by (intro sorted_wrt_filter) simp
  then have "sorted_wrt (\<lambda>i j. beaten (xs ! i) x \<longrightarrow> beaten (xs ! j) x) ?is"
  proof (rule sorted_wrt_mono_rel [rotated])
    fix i j assume i: "i \<in> set ?is" and j: "j \<in> set ?is" and ij: "i < j"
    from i j ij have "\<not> beaten (xs ! i) (xs ! j)" by auto
    with assms i j have "beaten (xs ! j) (xs ! i)" using beaten_total [of "xs ! i" "xs ! j"] by auto
    then show "beaten (xs ! i) x \<longrightarrow> beaten (xs ! j) x" using beaten_trans by blast
  qed
  then show "sorted_wrt (\<lambda>a b. beaten (snd a) x \<longrightarrow> beaten (snd b) x) (survivors p xs)"
    by (simp add: survivors_def sorted_wrt_map)
qed

lemma survivors_snoc:
  assumes "0 < p"
  shows "survivors p (xs @ [x]) =
    filter (\<lambda>e. Suc (length xs) \<le> fst e + p) (filter (\<lambda>e. \<not> beaten (snd e) x) (survivors p xs) @ [(length xs, x)])"
proof -
  let ?n = "length xs"
  have upt: "[Suc ?n - p..<Suc ?n] = filter (\<lambda>i. Suc ?n \<le> i + p) [?n - p..<?n] @ [?n]"
  proof -
    have "filter (\<lambda>i. Suc ?n \<le> i + p) [?n - p..<?n] = [Suc ?n - p..<?n]"
      using assms by (intro sorted_distinct_set_unique) (auto intro: sorted_wrt_filter)
    with assms show ?thesis by (simp add: upt_Suc_append)
  qed
  have split: "(\<forall>j\<in>{i<..<Suc ?n}. \<not> beaten (xs ! i) ((xs @ [x]) ! j)) \<longleftrightarrow>
      (\<forall>j\<in>{i<..<?n}. \<not> beaten (xs ! i) (xs ! j)) \<and> \<not> beaten (xs ! i) x" if "i < ?n" for i
  proof -
    from that have "{i<..<Suc ?n} = insert ?n {i<..<?n}" by auto
    then show ?thesis by (auto simp: nth_append)
  qed
  let ?Q = "\<lambda>i. \<forall>j\<in>{i<..<Suc ?n}. \<not> beaten ((xs @ [x]) ! i) ((xs @ [x]) ! j)"
  let ?old = "filter (\<lambda>i. (\<forall>j\<in>{i<..<?n}. \<not> beaten (xs ! i) (xs ! j)) \<and>
      \<not> beaten (xs ! i) x \<and> Suc ?n \<le> i + p) [?n - p..<?n]"
  have "filter ?Q (filter (\<lambda>i. Suc ?n \<le> i + p) [?n - p..<?n]) = ?old"
    unfolding filter_filter
    by (intro filter_cong refl) (auto simp: split nth_append [of xs "[x]" i for i] simp del: Ball_def)
  then have "survivors p (xs @ [x]) = map (\<lambda>i. (i, (xs @ [x]) ! i)) ?old @ [(?n, x)]"
    unfolding survivors_def length_append_singleton upt filter_append map_append by auto
  also have "map (\<lambda>i. (i, (xs @ [x]) ! i)) ?old = map (\<lambda>i. (i, xs ! i)) ?old"
    by (intro map_cong refl) (auto simp: nth_append)
  also have "\<dots> @ [(?n, x)] =
      filter (\<lambda>e. Suc ?n \<le> fst e + p) (filter (\<lambda>e. \<not> beaten (snd e) x) (survivors p xs) @ [(?n, x)])"
    using assms by (simp add: survivors_def filter_map comp_def)
  finally show ?thesis .
qed

text \<open>Every sample of the window is beaten by a survivor at or after it.\<close>

lemma survivor_above:
  assumes "\<forall>x\<in>set xs. ok x" and "j < length xs" and "length xs - p \<le> j"
  shows "\<exists>k\<ge>j. (k, xs ! k) \<in> set (survivors p xs) \<and> beaten (xs ! j) (xs ! k)"
proof -
  let ?K = "{k. j \<le> k \<and> k < length xs \<and> beaten (xs ! j) (xs ! k)}"
  define k where "k = Max ?K"
  from assms beaten_refl [of "xs ! j"] have "j \<in> ?K" by auto
  then have k: "k \<in> ?K" unfolding k_def by (intro Max_in) auto
  have "\<not> beaten (xs ! k) (xs ! m)" if "m \<in> {k<..<length xs}" for m
  proof
    assume "beaten (xs ! k) (xs ! m)"
    with k that have "m \<in> ?K" using beaten_trans by fastforce
    then have "m \<le> k" unfolding k_def by (intro Max_ge) auto
    with that show False by simp
  qed
  with k assms(3) have "(k, xs ! k) \<in> set (survivors p xs)" by (auto simp: survivors_def)
  with k show ?thesis by auto
qed

lemma survivors_head:
  assumes "\<forall>x\<in>set xs. ok x" and "xs \<noteq> []" and "0 < p"
  shows "snd (hd (survivors p xs)) \<in> set (lastn p xs)"
    and "\<forall>x\<in>set (lastn p xs). beaten x (snd (hd (survivors p xs)))"
proof -
  let ?n = "length xs"
  let ?is = "filter (\<lambda>i. \<forall>j\<in>{i<..<?n}. \<not> beaten (xs ! i) (xs ! j)) [?n - p..<?n]"
  note window = set_lastn [of p xs]
  have "survivors p xs \<noteq> []"
    using survivor_above [OF assms(1), of "?n - 1" p] assms(2,3) by force
  then obtain i ks where i: "?is = i # ks" by (cases ?is) (auto simp: survivors_def)
  then have hd: "hd (survivors p xs) = (i, xs ! i)" by (simp add: survivors_def)
  from i have i_in: "i \<in> set ?is" by simp
  then show "snd (hd (survivors p xs)) \<in> set (lastn p xs)" by (auto simp: hd window)
  have first: "i \<le> k" if "k \<in> set ?is" for k
  proof -
    have "sorted ?is" by (intro sorted_wrt_filter) simp
    with i that show ?thesis by auto
  qed
  have "beaten (xs ! j) (xs ! i)" if j: "?n - p \<le> j" "j < ?n" for j
  proof -
    obtain k where k: "(k, xs ! k) \<in> set (survivors p xs)" "beaten (xs ! j) (xs ! k)"
      using survivor_above [OF assms(1) j(2,1)] by blast
    then have k': "k \<in> set ?is" by (auto simp: survivors_def)
    with first have "i \<le> k" by simp
    show ?thesis
    proof (cases "i = k")
      case False
      with \<open>i \<le> k\<close> i_in k' have "\<not> beaten (xs ! i) (xs ! k)" by auto
      with assms(1) i_in k' have "beaten (xs ! k) (xs ! i)" using beaten_total [of "xs ! i" "xs ! k"] by auto
      with k(2) show ?thesis using beaten_trans by blast
    qed (use k in simp)
  qed
  then show "\<forall>x\<in>set (lastn p xs). beaten x (snd (hd (survivors p xs)))"
    by (auto simp: window hd)
qed

text \<open>An update turns the survivors of a stream into those of the stream with one more sample.\<close>

lemma mono_update_survivors:
  assumes "md_inv p (length xs) dq" and "md_list dq = survivors p xs" and "0 < p"
    and "\<forall>x\<in>set xs. ok x" and "ok x" and "mono_update beaten dq (length xs) p x = (v, dq', idx')"
  shows "idx' = Suc (length xs)" and "md_inv p idx' dq'" and "md_list dq' = survivors p (xs @ [x])"
    and "v = snd (hd (survivors p (xs @ [x])))"
proof -
  note upd = mono_update_list [OF assms(1,3,6)]
  show "idx' = Suc (length xs)" and "md_inv p idx' dq'" by (fact upd)+
  have "md_list dq' = survivors p (xs @ [x])"
    using upd(1,3) by (simp add: survivors_snoc [OF assms(3)] survivors_drop [OF assms(4,5)] assms(2))
  with upd(4) show "md_list dq' = survivors p (xs @ [x])" and "v = snd (hd (survivors p (xs @ [x])))"
    by auto
qed

end

sublocale machine_order \<subseteq> rolling_min: dominance "\<lambda>x. \<not> isnan M x" "\<lambda>b s. fle M s b"
  by unfold_locales (use le_refl le_total le_trans in blast)+

sublocale machine_order \<subseteq> rolling_max: dominance "\<lambda>x. \<not> isnan M x" "\<lambda>b s. fle M b s"
  by unfold_locales (use le_refl le_total le_trans in blast)+

section \<open>Streams\<close>

text \<open>The two updates as step functions on the deque and the tick counter of a node.\<close>

definition rolling_min_step ::
    "'f machine \<Rightarrow> nat \<Rightarrow> 'f MonoDequeState \<times> nat \<Rightarrow> 'f \<Rightarrow> 'f \<times> 'f MonoDequeState \<times> nat" where
  "rolling_min_step M p st x = UpdateRollingMin M (fst st) (snd st) p x"

definition rolling_max_step ::
    "'f machine \<Rightarrow> nat \<Rightarrow> 'f MonoDequeState \<times> nat \<Rightarrow> 'f \<Rightarrow> 'f \<times> 'f MonoDequeState \<times> nat" where
  "rolling_max_step M p st x = UpdateRollingMax M (fst st) (snd st) p x"

lemma state_after_snoc: "state_after f s (xs @ [x]) = snd (f (state_after f s xs) x)"
  by (simp add: state_after_def)

lemma MonoInit_idem: "md_cap dq = p + 1 \<Longrightarrow> MonoInit M dq p = dq"
  by (simp add: MonoInit_def)

context dominance
begin

text \<open>The state of a node after a stream without NaN, for any step that updates as the loops do.\<close>

lemma stream_state:
  assumes step: "\<And>st x. f st x = mono_update beaten (MonoInit M (fst st) p) (snd st) p x" and "0 < p"
    and "\<forall>x\<in>set xs. ok x" and "md_cap dq \<noteq> p + 1"
  shows "case state_after f (dq, 0) xs of (dq', idx) \<Rightarrow>
    idx = length xs \<and> md_inv p idx (MonoInit M dq' p) \<and> md_list (MonoInit M dq' p) = survivors p xs"
  using assms(3)
proof (induction xs rule: rev_induct)
  case Nil
  with assms(4) show ?case by (simp add: state_after_def md_inv_MonoInit)
next
  case (snoc x xs)
  obtain dq1 idx1 where s1: "state_after f (dq, 0) xs = (dq1, idx1)" by force
  obtain v dq2 idx2 where s2: "mono_update beaten (MonoInit M dq1 p) idx1 p x = (v, dq2, idx2)"
    by (metis prod_cases3)
  from snoc s1 have "idx1 = length xs" "md_inv p idx1 (MonoInit M dq1 p)"
      "md_list (MonoInit M dq1 p) = survivors p xs" by auto
  with mono_update_survivors [of p xs "MonoInit M dq1 p" x v dq2 idx2] snoc.prems s2 assms(2)
  have "idx2 = length (xs @ [x])" "md_inv p idx2 dq2" "md_list dq2 = survivors p (xs @ [x])" by auto
  moreover from this have "MonoInit M dq2 p = dq2" by (simp add: md_inv_def MonoInit_idem)
  moreover have "f (dq1, idx1) x = (v, dq2, idx2)" using s2 by (simp add: step)
  ultimately show ?case by (simp add: state_after_snoc s1)
qed

lemma stream_extremum:
  assumes step: "\<And>st x. f st x = mono_update beaten (MonoInit M (fst st) p) (snd st) p x" and "0 < p"
    and "\<forall>x\<in>set xs. ok x" and "md_cap dq \<noteq> p + 1" and "n < length xs"
  shows "emit f (dq, 0) xs ! n \<in> set (lastn p (take (Suc n) xs)) \<and>
    (\<forall>x\<in>set (lastn p (take (Suc n) xs)). beaten x (emit f (dq, 0) xs ! n))"
proof -
  let ?ys = "take n xs"
  obtain dq1 idx1 where s1: "state_after f (dq, 0) ?ys = (dq1, idx1)" by force
  obtain v dq2 idx2 where s2: "mono_update beaten (MonoInit M dq1 p) idx1 p (xs ! n) = (v, dq2, idx2)"
    by (metis prod_cases3)
  have ok: "\<forall>x\<in>set ?ys. ok x" "ok (xs ! n)" using assms(3,5) by (auto dest: in_set_takeD)
  from stream_state [OF step assms(2) ok(1) assms(4)] s1
  have "idx1 = length ?ys" "md_inv p idx1 (MonoInit M dq1 p)" "md_list (MonoInit M dq1 p) = survivors p ?ys"
    by auto
  with mono_update_survivors [of p ?ys "MonoInit M dq1 p" "xs ! n" v dq2 idx2] s2 assms(2) ok
  have "v = snd (hd (survivors p (?ys @ [xs ! n])))" by simp
  moreover have "?ys @ [xs ! n] = take (Suc n) xs" using assms(5) by (simp add: take_Suc_conv_app_nth)
  moreover have "f (dq1, idx1) (xs ! n) = (v, dq2, idx2)" using s2 by (simp add: step)
  then have "emit f (dq, 0) xs ! n = v" using assms(5) by (simp add: emit_nth s1)
  moreover have "\<forall>x\<in>set (take (Suc n) xs). ok x" "take (Suc n) xs \<noteq> []"
    using assms(3,5) by (auto dest: in_set_takeD)
  ultimately show ?thesis
    using survivors_head [of "take (Suc n) xs" p] assms(2) by metis
qed

end

context machine_order
begin

lemma rolling_min_stream:
  assumes "0 < p" and "\<forall>x\<in>set xs. \<not> isnan M x" and "md_cap dq \<noteq> p + 1" and "n < length xs"
  shows "emit (rolling_min_step M p) (dq, 0) xs ! n \<in> set (lastn p (take (Suc n) xs)) \<and>
    (\<forall>x\<in>set (lastn p (take (Suc n) xs)). fle M (emit (rolling_min_step M p) (dq, 0) xs ! n) x)"
  by (rule rolling_min.stream_extremum [OF _ assms]) (simp add: rolling_min_step_def UpdateRollingMin_def)

lemma rolling_max_stream:
  assumes "0 < p" and "\<forall>x\<in>set xs. \<not> isnan M x" and "md_cap dq \<noteq> p + 1" and "n < length xs"
  shows "emit (rolling_max_step M p) (dq, 0) xs ! n \<in> set (lastn p (take (Suc n) xs)) \<and>
    (\<forall>x\<in>set (lastn p (take (Suc n) xs)). fle M x (emit (rolling_max_step M p) (dq, 0) xs ! n))"
  by (rule rolling_max.stream_extremum [OF _ assms]) (simp add: rolling_max_step_def UpdateRollingMax_def)

end

text \<open>The ring is not overrun, whatever the samples.\<close>

lemma UpdateRollingMin_inv:
  assumes "md_cap dq \<noteq> p + 1 \<or> md_inv p idx dq" and "0 < p" and "UpdateRollingMin M dq idx p x = (v, dq', idx')"
  shows "md_inv p idx' dq' \<and> idx' = Suc idx"
  using mono_update_list(1,2) [OF md_inv_MonoInit [OF assms(1)] assms(2) assms(3) [unfolded UpdateRollingMin_def]]
  by simp

lemma UpdateRollingMax_inv:
  assumes "md_cap dq \<noteq> p + 1 \<or> md_inv p idx dq" and "0 < p" and "UpdateRollingMax M dq idx p x = (v, dq', idx')"
  shows "md_inv p idx' dq' \<and> idx' = Suc idx"
  using mono_update_list(1,2) [OF md_inv_MonoInit [OF assms(1)] assms(2) assms(3) [unfolded UpdateRollingMax_def]]
  by simp

lemma UpdateRollingPrepared:
  assumes "md_cap dq = p + 1"
  shows "UpdateRollingMinPrepared M dq idx x = Inr (UpdateRollingMin M dq idx p x)"
    and "UpdateRollingMaxPrepared M dq idx x = Inr (UpdateRollingMax M dq idx p x)"
  using assms
  by (simp_all add: UpdateRollingMinPrepared_def UpdateRollingMin_def UpdateRollingMaxPrepared_def
      UpdateRollingMax_def MonoInit_idem)

end
