(* ===== verification/Runtime_State.thy ===== *)
theory Runtime_State
  imports Ast Window_Ops Mono_Deque
begin

text \<open>
  The state of the engine (\<^verbatim>\<open>src/runtime.h\<close>): instruments and market, the symbol
  table, the per-node operator states of a \<^verbatim>\<open>SignalContext\<close> (primal, sensitivity and
  lowered), the arena of one context per symbol, and the functions that size, reset and prewarm
  them. A pointer of a lowered slot into the buffer that owns its storage is the index of that
  buffer; a base pointer of a lowered array is the size the array had when the pointer was taken,
  so that a pointer is valid exactly when that is still the size of the array.
\<close>

section \<open>Market and symbols\<close>

definition kMaxInstruments :: nat where
  "kMaxInstruments = 1024"

record 'f InstrumentState =
  ins_bid :: 'f
  ins_ask :: 'f
  ins_last_price :: 'f
  ins_volume :: 'f
  ins_last_update_ns :: "64 word"

record 'f MarketState =
  instruments :: "'f InstrumentState list"
  current_time_ns :: "64 word"

text \<open>The instruments are a fixed array of \<open>kMaxInstruments\<close> slots.\<close>

definition market_wf :: "'f MarketState \<Rightarrow> bool" where
  "market_wf m \<longleftrightarrow> length (instruments m) = kMaxInstruments"

record SymbolTable =
  symbol_to_id :: "string \<rightharpoonup> nat"
  next_id :: nat

definition SymbolTable0 :: SymbolTable where
  "SymbolTable0 = \<lparr>symbol_to_id = Map.empty, next_id = 0\<rparr>"

definition RegisterOrGetId :: "string \<Rightarrow> (SymbolTable, nat) prog" where
  "RegisterOrGetId symbol t =
     (case symbol_to_id t symbol of
        Some i \<Rightarrow> (Inr i, t)
      | None \<Rightarrow>
          if next_id t \<ge> kMaxInstruments
          then (Inl (RuntimeError ''Symbol table exceeded kMaxInstruments''), t)
          else (Inr (next_id t),
                t\<lparr>symbol_to_id := (symbol_to_id t)(symbol \<mapsto> next_id t), next_id := Suc (next_id t)\<rparr>))"

definition LookupId :: "SymbolTable \<Rightarrow> string \<Rightarrow> nat result" where
  "LookupId t symbol =
     (case symbol_to_id t symbol of
        None \<Rightarrow> Inl (RuntimeError (''Unknown symbol: '' @ symbol))
      | Some i \<Rightarrow> Inr i)"

definition symbols_wf :: "SymbolTable \<Rightarrow> bool" where
  "symbols_wf t \<longleftrightarrow> next_id t \<le> kMaxInstruments \<and> inj_on (symbol_to_id t) (dom (symbol_to_id t)) \<and>
     ran (symbol_to_id t) = {..<next_id t}"

lemma symbols_wf_initial: "symbols_wf SymbolTable0"
  by (simp add: symbols_wf_def SymbolTable0_def)

lemma RegisterOrGetId_wf:
  assumes "symbols_wf t" and "RegisterOrGetId s t = (r, t')"
  shows "symbols_wf t'"
proof (cases "symbol_to_id t s = None \<and> next_id t < kMaxInstruments")
  case True
  then have t': "t' = t\<lparr>symbol_to_id := (symbol_to_id t)(s \<mapsto> next_id t), next_id := Suc (next_id t)\<rparr>"
    and fresh: "symbol_to_id t s = None" using assms(2) by (auto simp: RegisterOrGetId_def)
  have ran: "ran (symbol_to_id t') = {..<Suc (next_id t)}"
    using assms(1) fresh by (simp add: t' symbols_wf_def lessThan_Suc)
  have "symbol_to_id t x \<noteq> Some (next_id t)" for x
    using assms(1) ranI [of "symbol_to_id t" x "next_id t"] by (auto simp: symbols_wf_def)
  then have "inj_on (symbol_to_id t') (dom (symbol_to_id t'))"
    using assms(1) fresh by (simp add: t' symbols_wf_def inj_on_def dom_def) metis
  with ran True show ?thesis by (auto simp: symbols_wf_def t')
next
  case False
  with assms show ?thesis by (auto simp: RegisterOrGetId_def split: option.splits if_splits)
qed

lemma LookupId_register:
  assumes "RegisterOrGetId s t = (Inr i, t')"
  shows "LookupId t' s = Inr i"
    and "s' \<noteq> s \<Longrightarrow> LookupId t' s' = LookupId t s'"
  using assms by (auto simp: RegisterOrGetId_def LookupId_def split: option.splits if_splits)

lemma LookupId_bound: "symbols_wf t \<Longrightarrow> LookupId t s = Inr i \<Longrightarrow> i < next_id t \<and> i < kMaxInstruments"
  using ranI [of "symbol_to_id t" s i] by (auto simp: symbols_wf_def LookupId_def split: option.splits)

lemma LookupId_inj:
  "symbols_wf t \<Longrightarrow> LookupId t s = Inr i \<Longrightarrow> LookupId t s' = Inr i \<Longrightarrow> s = s'"
  by (auto simp: symbols_wf_def LookupId_def dom_def inj_on_def split: option.splits)

text \<open>Registering a symbol returns the id that looking it up returns from then on, below the
  number of instruments; other symbols keep their ids, and no two symbols share one.\<close>

theorem RegisterOrGetId_lookup:
  assumes "symbols_wf t" and "RegisterOrGetId s t = (Inr i, t')"
  shows "symbols_wf t' \<and> LookupId t' s = Inr i \<and> i < kMaxInstruments \<and>
    (\<forall>s'. if LookupId t' s' = Inr i then s' = s else LookupId t' s' = LookupId t s')"
proof -
  note wf = RegisterOrGetId_wf [OF assms] and look = LookupId_register [OF assms(2)]
  from look LookupId_inj [OF wf _ look(1)] LookupId_bound [OF wf look(1)] wf show ?thesis by metis
qed

theorem RegisterOrGetId_lookup_witness:
  "LookupId (snd (RegisterOrGetId ''A'' SymbolTable0)) ''A'' = Inr 0"
  using RegisterOrGetId_lookup [OF symbols_wf_initial, of "''A''" 0]
  by (simp add: RegisterOrGetId_def SymbolTable0_def kMaxInstruments_def)

section \<open>Sensitivity and lowered states\<close>

record 'f RollingStdSensitivityState =
  ss_buffer :: "'f list"
  ss_capacity :: nat
  ss_head :: nat
  ss_count :: nat
  ss_mean :: 'f
  ss_m2 :: 'f
  ss_slides :: nat

definition RollingStdSensitivityState0 :: "'f machine \<Rightarrow> 'f RollingStdSensitivityState" where
  "RollingStdSensitivityState0 M =
     \<lparr>ss_buffer = [], ss_capacity = 0, ss_head = 0, ss_count = 0, ss_mean = llit M 0,
      ss_m2 = llit M 0, ss_slides = 0\<rparr>"

record 'f RollingPairSensitivityState =
  ps_x_buf :: "'f list"
  ps_y_buf :: "'f list"
  ps_capacity :: nat
  ps_head :: nat
  ps_count :: nat
  ps_sum_x :: 'f
  ps_sum_y :: 'f
  ps_sum_xy :: 'f
  ps_sum_xx :: 'f
  ps_sum_yy :: 'f

definition RollingPairSensitivityState0 :: "'f machine \<Rightarrow> 'f RollingPairSensitivityState" where
  "RollingPairSensitivityState0 M =
     \<lparr>ps_x_buf = [], ps_y_buf = [], ps_capacity = 0, ps_head = 0, ps_count = 0,
      ps_sum_x = llit M 0, ps_sum_y = llit M 0, ps_sum_xy = llit M 0, ps_sum_xx = llit M 0,
      ps_sum_yy = llit M 0\<rparr>"

record 'f Kalman1dSensitivityState =
  ks_x_hat :: 'f
  ks_p :: 'f

definition Kalman1dSensitivityState0 :: "'f machine \<Rightarrow> 'f Kalman1dSensitivityState" where
  "Kalman1dSensitivityState0 M = \<lparr>ks_x_hat = dlit M 0, ks_p = dlit M 0\<rparr>"

text \<open>The lowered slots; a pointer is the index of the owning buffer, or none.\<close>

record 'f SmaStateLowered =
  sl_buffer :: "nat option"
  sl_sum :: 'f
  sl_head :: int
  sl_count :: int
  sl_capacity :: int

record 'f EmaStateLowered =
  el_value :: 'f
  el_initialized :: int

record LagStateLowered =
  ll_buffer :: "nat option"
  ll_head :: int
  ll_count :: int
  ll_capacity :: int

record 'f RollingStdStateLowered =
  rl_buffer :: "nat option"
  rl_capacity :: int
  rl_head :: int
  rl_count :: int
  rl_sum :: 'f
  rl_mean :: 'f
  rl_m2 :: 'f
  rl_slides :: int

record RollingMinMaxStateLowered =
  ml_buf :: "nat option"
  ml_head :: int
  ml_count :: int
  ml_cap :: int
  ml_idx :: int

record 'f CrossStateLowered =
  cl_prev_a :: 'f
  cl_prev_b :: 'f
  cl_initialized :: int

record 'f Kalman1dStateLowered =
  kl_x_hat :: 'f
  kl_p :: 'f
  kl_initialized :: int

record 'f VwapStateLowered =
  vl_price_buf :: "nat option"
  vl_vol_buf :: "nat option"
  vl_head :: int
  vl_count :: int
  vl_capacity :: int
  vl_sum_pv :: 'f
  vl_sum_vol :: 'f

record 'f RollingPairStateLowered =
  pl_x_buf :: "nat option"
  pl_y_buf :: "nat option"
  pl_head :: int
  pl_count :: int
  pl_capacity :: int
  pl_sum_x :: 'f
  pl_sum_y :: 'f
  pl_sum_xy :: 'f
  pl_sum_xx :: 'f
  pl_sum_yy :: 'f

text \<open>Value initialisation of the lowered slots.\<close>

definition SmaStateLowered0 :: "'f machine \<Rightarrow> 'f SmaStateLowered" where
  "SmaStateLowered0 M =
     \<lparr>sl_buffer = None, sl_sum = dlit M 0, sl_head = 0, sl_count = 0, sl_capacity = 0\<rparr>"

definition EmaStateLowered0 :: "'f machine \<Rightarrow> 'f EmaStateLowered" where
  "EmaStateLowered0 M = \<lparr>el_value = dlit M 0, el_initialized = 0\<rparr>"

definition LagStateLowered0 :: LagStateLowered where
  "LagStateLowered0 = \<lparr>ll_buffer = None, ll_head = 0, ll_count = 0, ll_capacity = 0\<rparr>"

definition RollingStdStateLowered0 :: "'f machine \<Rightarrow> 'f RollingStdStateLowered" where
  "RollingStdStateLowered0 M =
     \<lparr>rl_buffer = None, rl_capacity = 0, rl_head = 0, rl_count = 0, rl_sum = llit M 0,
      rl_mean = llit M 0, rl_m2 = llit M 0, rl_slides = 0\<rparr>"

definition RollingMinMaxStateLowered0 :: RollingMinMaxStateLowered where
  "RollingMinMaxStateLowered0 = \<lparr>ml_buf = None, ml_head = 0, ml_count = 0, ml_cap = 0, ml_idx = 0\<rparr>"

definition CrossStateLowered0 :: "'f machine \<Rightarrow> 'f CrossStateLowered" where
  "CrossStateLowered0 M = \<lparr>cl_prev_a = dlit M 0, cl_prev_b = dlit M 0, cl_initialized = 0\<rparr>"

definition Kalman1dStateLowered0 :: "'f machine \<Rightarrow> 'f Kalman1dStateLowered" where
  "Kalman1dStateLowered0 M = \<lparr>kl_x_hat = dlit M 0, kl_p = dlit M 0, kl_initialized = 0\<rparr>"

definition VwapStateLowered0 :: "'f machine \<Rightarrow> 'f VwapStateLowered" where
  "VwapStateLowered0 M =
     \<lparr>vl_price_buf = None, vl_vol_buf = None, vl_head = 0, vl_count = 0, vl_capacity = 0,
      vl_sum_pv = dlit M 0, vl_sum_vol = dlit M 0\<rparr>"

definition RollingPairStateLowered0 :: "'f machine \<Rightarrow> 'f RollingPairStateLowered" where
  "RollingPairStateLowered0 M =
     \<lparr>pl_x_buf = None, pl_y_buf = None, pl_head = 0, pl_count = 0, pl_capacity = 0,
      pl_sum_x = dlit M 0, pl_sum_y = dlit M 0, pl_sum_xy = dlit M 0, pl_sum_xx = dlit M 0,
      pl_sum_yy = dlit M 0\<rparr>"

end
