(* ===== verification/Signal_Context.thy ===== *)
theory Signal_Context
  imports Runtime_State
begin

text \<open>
  \<^verbatim>\<open>SignalContext\<close> and the functions of \<^verbatim>\<open>src/runtime.cpp\<close> that size, reset and
  prewarm it, and the arena of contexts, one per symbol. The lemmas show that
  \<^verbatim>\<open>EnsureNodeCapacity\<close> makes every array long enough and disturbs no slot, and that
  prewarming a signal gives every operator node a well-formed state of the period the evaluators
  use.
\<close>

section \<open>The context\<close>

record 'f PrimalStates =
  ema_states :: "'f EMAState list"
  sma_states :: "'f RingStatsState list"
  rolling_std_states :: "'f RingStatsState list"
  zscore_states :: "'f RingStatsState list"
  vwap_states :: "'f VwapState list"
  lag_states :: "'f LagState list"
  cross_states :: "'f CrossState list"
  rolling_min_deques :: "'f MonoDequeState list"
  rolling_max_deques :: "'f MonoDequeState list"
  rolling_min_indices :: "nat list"
  rolling_max_indices :: "nat list"
  rolling_corr_states :: "'f RollingPairState list"
  rolling_beta_states :: "'f RollingPairState list"
  kalman1d_states :: "'f Kalman1dState list"

record 'f SensitivityStates =
  ema_sens :: "'f list"
  sma_sens :: "'f RingStatsState list"
  lag_sens :: "'f LagState list"
  rolling_std_sens :: "'f RollingStdSensitivityState list"
  zscore_sens :: "'f RollingStdSensitivityState list"
  rolling_corr_sens :: "'f RollingPairSensitivityState list"
  rolling_beta_sens :: "'f RollingPairSensitivityState list"
  kalman1d_sens :: "'f Kalman1dSensitivityState list"
  rolling_min_sens :: "'f LagState list"
  rolling_max_sens :: "'f LagState list"

record 'f LoweredStates =
  sma_lowered :: "'f SmaStateLowered list"
  sma_lowered_buffers :: "'f list list"
  ema_lowered :: "'f EmaStateLowered list"
  lag_lowered :: "LagStateLowered list"
  lag_lowered_buffers :: "'f list list"
  rolling_std_lowered :: "'f RollingStdStateLowered list"
  rolling_std_lowered_buffers :: "'f list list"
  zscore_lowered :: "'f RollingStdStateLowered list"
  zscore_lowered_buffers :: "'f list list"
  rolling_min_lowered :: "RollingMinMaxStateLowered list"
  rolling_min_lowered_buffers :: "(int \<times> 'f) list list"
  rolling_max_lowered :: "RollingMinMaxStateLowered list"
  rolling_max_lowered_buffers :: "(int \<times> 'f) list list"
  cross_lowered :: "'f CrossStateLowered list"
  kalman1d_lowered :: "'f Kalman1dStateLowered list"
  vwap_lowered :: "'f VwapStateLowered list"
  vwap_price_lowered_buffers :: "'f list list"
  vwap_vol_lowered_buffers :: "'f list list"
  rolling_corr_lowered :: "'f RollingPairStateLowered list"
  rolling_corr_x_lowered_buffers :: "'f list list"
  rolling_corr_y_lowered_buffers :: "'f list list"
  rolling_beta_lowered :: "'f RollingPairStateLowered list"
  rolling_beta_x_lowered_buffers :: "'f list list"
  rolling_beta_y_lowered_buffers :: "'f list list"

record LoweredStateBases =
  base_sma :: "nat option"
  base_ema :: "nat option"
  base_lag :: "nat option"
  base_rolling_std :: "nat option"
  base_zscore :: "nat option"
  base_rolling_min :: "nat option"
  base_rolling_max :: "nat option"
  base_cross :: "nat option"
  base_kalman1d :: "nat option"
  base_vwap :: "nat option"
  base_rolling_corr :: "nat option"
  base_rolling_beta :: "nat option"

text \<open>\<open>params\<close> is the storage the pointer \<^verbatim>\<open>params\<close> refers to, or none for the null
  pointer.\<close>

record 'f SignalContext =
  lowered_bases :: LoweredStateBases
  owned_params :: "'f list"
  params :: "'f list option"
  num_params :: nat
  gradient_param_count :: nat
  primal :: "'f PrimalStates"
  sens :: "'f SensitivityStates"
  lowered :: "'f LoweredStates"

definition SignalContext0 :: "'f SignalContext" where
  "SignalContext0 =
     \<lparr>lowered_bases =
        \<lparr>base_sma = None, base_ema = None, base_lag = None, base_rolling_std = None,
         base_zscore = None, base_rolling_min = None, base_rolling_max = None, base_cross = None,
         base_kalman1d = None, base_vwap = None, base_rolling_corr = None, base_rolling_beta = None\<rparr>,
      owned_params = [], params = None, num_params = 0, gradient_param_count = 0,
      primal =
        \<lparr>ema_states = [], sma_states = [], rolling_std_states = [], zscore_states = [],
         vwap_states = [], lag_states = [], cross_states = [], rolling_min_deques = [],
         rolling_max_deques = [], rolling_min_indices = [], rolling_max_indices = [],
         rolling_corr_states = [], rolling_beta_states = [], kalman1d_states = []\<rparr>,
      sens =
        \<lparr>ema_sens = [], sma_sens = [], lag_sens = [], rolling_std_sens = [], zscore_sens = [],
         rolling_corr_sens = [], rolling_beta_sens = [], kalman1d_sens = [], rolling_min_sens = [],
         rolling_max_sens = []\<rparr>,
      lowered =
        \<lparr>sma_lowered = [], sma_lowered_buffers = [], ema_lowered = [], lag_lowered = [],
         lag_lowered_buffers = [], rolling_std_lowered = [], rolling_std_lowered_buffers = [],
         zscore_lowered = [], zscore_lowered_buffers = [], rolling_min_lowered = [],
         rolling_min_lowered_buffers = [], rolling_max_lowered = [],
         rolling_max_lowered_buffers = [], cross_lowered = [], kalman1d_lowered = [],
         vwap_lowered = [], vwap_price_lowered_buffers = [], vwap_vol_lowered_buffers = [],
         rolling_corr_lowered = [], rolling_corr_x_lowered_buffers = [],
         rolling_corr_y_lowered_buffers = [], rolling_beta_lowered = [],
         rolling_beta_x_lowered_buffers = [], rolling_beta_y_lowered_buffers = []\<rparr>\<rparr>"

section \<open>Sizing\<close>

definition CurrentNodeCapacity :: "'f SignalContext \<Rightarrow> nat" where
  "CurrentNodeCapacity ctx =
     (let s = primal ctx
      in fold max
           [length (sma_states s), length (rolling_std_states s), length (zscore_states s),
            length (vwap_states s), length (lag_states s), length (cross_states s),
            length (rolling_min_deques s), length (rolling_max_deques s),
            length (rolling_corr_states s), length (rolling_beta_states s),
            length (kalman1d_states s)]
           (length (ema_states s)))"

definition ResizeSensitivityStorage ::
    "'f machine \<Rightarrow> nat \<Rightarrow> nat \<Rightarrow> 'f SignalContext \<Rightarrow> 'f SignalContext" where
  "ResizeSensitivityStorage M node_capacity param_count ctx =
     (let total = node_capacity * param_count; s = sens ctx
      in ctx\<lparr>gradient_param_count := param_count,
             sens :=
               \<lparr>ema_sens = resize (dlit M 0) total (ema_sens s),
                sma_sens = resize (RingStatsState0 M) total (sma_sens s),
                lag_sens = resize LagState0 total (lag_sens s),
                rolling_std_sens = resize (RollingStdSensitivityState0 M) total (rolling_std_sens s),
                zscore_sens = resize (RollingStdSensitivityState0 M) total (zscore_sens s),
                rolling_corr_sens = resize (RollingPairSensitivityState0 M) total (rolling_corr_sens s),
                rolling_beta_sens = resize (RollingPairSensitivityState0 M) total (rolling_beta_sens s),
                kalman1d_sens = resize (Kalman1dSensitivityState0 M) total (kalman1d_sens s),
                rolling_min_sens = resize LagState0 total (rolling_min_sens s),
                rolling_max_sens = resize LagState0 total (rolling_max_sens s)\<rparr>\<rparr>)"

definition ResetSensitivityStorage :: "'f machine \<Rightarrow> 'f SignalContext \<Rightarrow> 'f SignalContext" where
  "ResetSensitivityStorage M ctx =
     (let s = sens ctx
      in ctx\<lparr>sens :=
           \<lparr>ema_sens = map (\<lambda>_. dlit M 0) (ema_sens s),
            sma_sens = map (\<lambda>_. RingStatsState0 M) (sma_sens s),
            lag_sens = map (\<lambda>_. LagState0) (lag_sens s),
            rolling_std_sens = map (\<lambda>_. RollingStdSensitivityState0 M) (rolling_std_sens s),
            zscore_sens = map (\<lambda>_. RollingStdSensitivityState0 M) (zscore_sens s),
            rolling_corr_sens = map (\<lambda>_. RollingPairSensitivityState0 M) (rolling_corr_sens s),
            rolling_beta_sens = map (\<lambda>_. RollingPairSensitivityState0 M) (rolling_beta_sens s),
            kalman1d_sens = map (\<lambda>_. Kalman1dSensitivityState0 M) (kalman1d_sens s),
            rolling_min_sens = map (\<lambda>_. LagState0) (rolling_min_sens s),
            rolling_max_sens = map (\<lambda>_. LagState0) (rolling_max_sens s)\<rparr>\<rparr>)"

definition GradientSlot :: "'f SignalContext \<Rightarrow> nat \<Rightarrow> nat \<Rightarrow> nat result" where
  "GradientSlot ctx node_id pid =
     (if gradient_param_count ctx = 0
      then Inl (RuntimeError ''Gradient slot access without initialized parameter storage'')
      else Inr (node_id * gradient_param_count ctx + pid))"

definition CheckedGradientParam :: "'f SignalContext \<Rightarrow> int \<Rightarrow> nat result" where
  "CheckedGradientParam ctx pid =
     (if pid < 0 \<or> nat pid \<ge> gradient_param_count ctx
      then Inl (RuntimeError ''Gradient param_id out of range'')
      else Inr (nat pid))"

definition base_of :: "'a list \<Rightarrow> nat option" where
  "base_of xs = (if xs = [] then None else Some (length xs))"

definition RefreshLoweredStateBases :: "'f SignalContext \<Rightarrow> 'f SignalContext" where
  "RefreshLoweredStateBases ctx =
     (let l = lowered ctx
      in ctx\<lparr>lowered_bases :=
           \<lparr>base_sma = base_of (sma_lowered l), base_ema = base_of (ema_lowered l),
            base_lag = base_of (lag_lowered l), base_rolling_std = base_of (rolling_std_lowered l),
            base_zscore = base_of (zscore_lowered l),
            base_rolling_min = base_of (rolling_min_lowered l),
            base_rolling_max = base_of (rolling_max_lowered l),
            base_cross = base_of (cross_lowered l), base_kalman1d = base_of (kalman1d_lowered l),
            base_vwap = base_of (vwap_lowered l),
            base_rolling_corr = base_of (rolling_corr_lowered l),
            base_rolling_beta = base_of (rolling_beta_lowered l)\<rparr>\<rparr>)"

definition grow_primal :: "'f machine \<Rightarrow> nat \<Rightarrow> 'f PrimalStates \<Rightarrow> 'f PrimalStates" where
  "grow_primal M needed s =
     \<lparr>ema_states = grow (EMAState0 M) needed (ema_states s),
      sma_states = grow (RingStatsState0 M) needed (sma_states s),
      rolling_std_states = grow (RingStatsState0 M) needed (rolling_std_states s),
      zscore_states = grow (RingStatsState0 M) needed (zscore_states s),
      vwap_states = grow (VwapState0 M) needed (vwap_states s),
      lag_states = grow LagState0 needed (lag_states s),
      cross_states = grow (CrossState0 M) needed (cross_states s),
      rolling_min_deques = grow MonoDequeState0 needed (rolling_min_deques s),
      rolling_max_deques = grow MonoDequeState0 needed (rolling_max_deques s),
      rolling_min_indices = grow 0 needed (rolling_min_indices s),
      rolling_max_indices = grow 0 needed (rolling_max_indices s),
      rolling_corr_states = grow (RollingPairState0 M) needed (rolling_corr_states s),
      rolling_beta_states = grow (RollingPairState0 M) needed (rolling_beta_states s),
      kalman1d_states = grow (Kalman1dState0 M) needed (kalman1d_states s)\<rparr>"

definition grow_lowered :: "'f machine \<Rightarrow> nat \<Rightarrow> 'f LoweredStates \<Rightarrow> 'f LoweredStates" where
  "grow_lowered M needed l =
     \<lparr>sma_lowered = grow (SmaStateLowered0 M) needed (sma_lowered l),
      sma_lowered_buffers = grow [] needed (sma_lowered_buffers l),
      ema_lowered = grow (EmaStateLowered0 M) needed (ema_lowered l),
      lag_lowered = grow LagStateLowered0 needed (lag_lowered l),
      lag_lowered_buffers = grow [] needed (lag_lowered_buffers l),
      rolling_std_lowered = grow (RollingStdStateLowered0 M) needed (rolling_std_lowered l),
      rolling_std_lowered_buffers = grow [] needed (rolling_std_lowered_buffers l),
      zscore_lowered = grow (RollingStdStateLowered0 M) needed (zscore_lowered l),
      zscore_lowered_buffers = grow [] needed (zscore_lowered_buffers l),
      rolling_min_lowered = grow RollingMinMaxStateLowered0 needed (rolling_min_lowered l),
      rolling_min_lowered_buffers = grow [] needed (rolling_min_lowered_buffers l),
      rolling_max_lowered = grow RollingMinMaxStateLowered0 needed (rolling_max_lowered l),
      rolling_max_lowered_buffers = grow [] needed (rolling_max_lowered_buffers l),
      cross_lowered = grow (CrossStateLowered0 M) needed (cross_lowered l),
      kalman1d_lowered = grow (Kalman1dStateLowered0 M) needed (kalman1d_lowered l),
      vwap_lowered = grow (VwapStateLowered0 M) needed (vwap_lowered l),
      vwap_price_lowered_buffers = grow [] needed (vwap_price_lowered_buffers l),
      vwap_vol_lowered_buffers = grow [] needed (vwap_vol_lowered_buffers l),
      rolling_corr_lowered = grow (RollingPairStateLowered0 M) needed (rolling_corr_lowered l),
      rolling_corr_x_lowered_buffers = grow [] needed (rolling_corr_x_lowered_buffers l),
      rolling_corr_y_lowered_buffers = grow [] needed (rolling_corr_y_lowered_buffers l),
      rolling_beta_lowered = grow (RollingPairStateLowered0 M) needed (rolling_beta_lowered l),
      rolling_beta_x_lowered_buffers = grow [] needed (rolling_beta_x_lowered_buffers l),
      rolling_beta_y_lowered_buffers = grow [] needed (rolling_beta_y_lowered_buffers l)\<rparr>"

definition EnsureNodeCapacity :: "'f machine \<Rightarrow> nat \<Rightarrow> 'f SignalContext \<Rightarrow> 'f SignalContext" where
  "EnsureNodeCapacity M node_id ctx =
     (let needed = node_id + 1;
          ctx1 = ctx\<lparr>primal := grow_primal M needed (primal ctx), lowered := grow_lowered M needed (lowered ctx)\<rparr>;
          ctx2 = if gradient_param_count ctx1 > 0
                 then ResizeSensitivityStorage M needed (gradient_param_count ctx1) ctx1 else ctx1
      in RefreshLoweredStateBases ctx2)"

definition SetStandaloneParameters ::
    "'f machine \<Rightarrow> 'f list \<Rightarrow> 'f SignalContext \<Rightarrow> 'f SignalContext" where
  "SetStandaloneParameters M ps ctx =
     (let ctx1 = ctx\<lparr>owned_params := ps, params := if ps = [] then None else Some ps,
                    num_params := length ps\<rparr>
      in ResetSensitivityStorage M
           (ResizeSensitivityStorage M (CurrentNodeCapacity ctx1) (num_params ctx1) ctx1))"

section \<open>Prewarming\<close>

text \<open>The conversion of a double to a 32-bit int: truncation, undefined out of range.\<close>

definition to_int32 :: "'f machine \<Rightarrow> 'f \<Rightarrow> int result" where
  "to_int32 M v =
     (case trunc M v of
        None \<Rightarrow> Inl (Undefined ''conversion to int'')
      | Some i \<Rightarrow> if - (2 ^ 31) \<le> i \<and> i < 2 ^ 31 then Inr i else Inl (Undefined ''conversion to int''))"

text \<open>The tolerance of the integrality tests, \<open>1e-12\<close>.\<close>

definition tol :: "'f machine \<Rightarrow> 'f" where
  "tol M = dlit M (1 / 10 ^ 12)"

definition off_integer :: "'f machine \<Rightarrow> 'f \<Rightarrow> int \<Rightarrow> 'f" where
  "off_integer M v i = fabs M (dsub M v (dlit M (of_int i)))"

definition ParsePreparedPeriod :: "'f machine \<Rightarrow> 'f expr list \<Rightarrow> nat result" where
  "ParsePreparedPeriod M as =
     (if length as < 2 then Inr 0
      else case as ! 1 of
        NumberLiteral _ v \<Rightarrow>
          rbind (to_int32 M v) (\<lambda>period.
            if period \<le> 0 \<or> flt M (tol M) (off_integer M v period) then Inr 0 else Inr (nat period))
      | _ \<Rightarrow> Inr 0)"

definition map_primal :: "('f PrimalStates \<Rightarrow> 'f PrimalStates) \<Rightarrow> 'f SignalContext \<Rightarrow> 'f SignalContext" where
  "map_primal f ctx = ctx\<lparr>primal := f (primal ctx)\<rparr>"

definition map_lowered :: "('f LoweredStates \<Rightarrow> 'f LoweredStates) \<Rightarrow> 'f SignalContext \<Rightarrow> 'f SignalContext" where
  "map_lowered f ctx = ctx\<lparr>lowered := f (lowered ctx)\<rparr>"

text \<open>Element update through a reference into a vector.\<close>

definition upd :: "nat \<Rightarrow> ('a \<Rightarrow> 'a) \<Rightarrow> 'a list \<Rightarrow> 'a list" where
  "upd i f xs = xs[i := f (xs ! i)]"

definition zeros :: "'f machine \<Rightarrow> nat \<Rightarrow> 'f list" where
  "zeros M n = replicate n (dlit M 0)"

definition prewarm_ema :: "'f machine \<Rightarrow> nat \<Rightarrow> nat \<Rightarrow> 'f SignalContext \<Rightarrow> 'f SignalContext" where
  "prewarm_ema M node_id period ctx =
     map_lowered (\<lambda>l. l\<lparr>ema_lowered := (ema_lowered l)[node_id := EmaStateLowered0 M]\<rparr>)
       (map_primal (\<lambda>s. s\<lparr>ema_states := upd node_id
             (\<lambda>st. st\<lparr>ema_period := int period, ema_alpha := ema_period_alpha M (int period)\<rparr>)
             (ema_states s)\<rparr>) ctx)"

text \<open>The reset of a ring by the prewarm, which leaves the slide counter as it is.\<close>

definition prewarm_ring :: "'f machine \<Rightarrow> nat \<Rightarrow> 'f RingStatsState \<Rightarrow> 'f RingStatsState" where
  "prewarm_ring M period st =
     (if rs_capacity st \<noteq> period
      then st\<lparr>rs_buffer := zeros M period, rs_capacity := period, rs_head := 0, rs_count := 0,
              rs_sum := llit M 0, rs_mean := llit M 0, rs_m2 := llit M 0\<rparr>
      else st)"

definition prewarm_sma :: "'f machine \<Rightarrow> nat \<Rightarrow> nat \<Rightarrow> 'f SignalContext \<Rightarrow> 'f SignalContext" where
  "prewarm_sma M node_id period ctx =
     map_lowered (\<lambda>l. l\<lparr>
         sma_lowered_buffers := (sma_lowered_buffers l)[node_id := zeros M period],
         sma_lowered := (sma_lowered l)[node_id :=
           \<lparr>sl_buffer = Some node_id, sl_sum = dlit M 0, sl_head = 0, sl_count = 0,
            sl_capacity = int period\<rparr>]\<rparr>)
       (map_primal (\<lambda>s. s\<lparr>sma_states := upd node_id (prewarm_ring M period) (sma_states s)\<rparr>) ctx)"

definition ring_lowered :: "'f machine \<Rightarrow> nat \<Rightarrow> nat \<Rightarrow> 'f RollingStdStateLowered" where
  "ring_lowered M node_id period =
     \<lparr>rl_buffer = Some node_id, rl_capacity = int period, rl_head = 0, rl_count = 0,
      rl_sum = llit M 0, rl_mean = llit M 0, rl_m2 = llit M 0, rl_slides = 0\<rparr>"

definition prewarm_rolling_std :: "'f machine \<Rightarrow> nat \<Rightarrow> nat \<Rightarrow> 'f SignalContext \<Rightarrow> 'f SignalContext" where
  "prewarm_rolling_std M node_id period ctx =
     map_lowered (\<lambda>l. l\<lparr>
         rolling_std_lowered_buffers := (rolling_std_lowered_buffers l)[node_id := zeros M period],
         rolling_std_lowered := (rolling_std_lowered l)[node_id := ring_lowered M node_id period]\<rparr>)
       (map_primal (\<lambda>s. s\<lparr>rolling_std_states :=
           upd node_id (prewarm_ring M period) (rolling_std_states s)\<rparr>) ctx)"

definition prewarm_zscore :: "'f machine \<Rightarrow> nat \<Rightarrow> nat \<Rightarrow> 'f SignalContext \<Rightarrow> 'f SignalContext" where
  "prewarm_zscore M node_id period ctx =
     map_lowered (\<lambda>l. l\<lparr>
         zscore_lowered_buffers := (zscore_lowered_buffers l)[node_id := zeros M period],
         zscore_lowered := (zscore_lowered l)[node_id := ring_lowered M node_id period]\<rparr>)
       (map_primal (\<lambda>s. s\<lparr>zscore_states := upd node_id (prewarm_ring M period) (zscore_states s)\<rparr>) ctx)"

definition prewarm_vwap :: "'f machine \<Rightarrow> nat \<Rightarrow> nat \<Rightarrow> 'f SignalContext \<Rightarrow> 'f SignalContext" where
  "prewarm_vwap M node_id period ctx =
     map_lowered (\<lambda>l. l\<lparr>
         vwap_price_lowered_buffers := (vwap_price_lowered_buffers l)[node_id := zeros M period],
         vwap_vol_lowered_buffers := (vwap_vol_lowered_buffers l)[node_id := zeros M period],
         vwap_lowered := (vwap_lowered l)[node_id :=
           \<lparr>vl_price_buf = Some node_id, vl_vol_buf = Some node_id, vl_head = 0, vl_count = 0,
            vl_capacity = int period, vl_sum_pv = dlit M 0, vl_sum_vol = dlit M 0\<rparr>]\<rparr>)
       (map_primal (\<lambda>s. s\<lparr>vwap_states := upd node_id
           (\<lambda>st. if vw_capacity st \<noteq> period then vwap_reset M period st else st) (vwap_states s)\<rparr>) ctx)"

definition prewarm_lag :: "'f machine \<Rightarrow> nat \<Rightarrow> nat \<Rightarrow> 'f SignalContext \<Rightarrow> 'f SignalContext" where
  "prewarm_lag M node_id period ctx =
     map_lowered (\<lambda>l. l\<lparr>
         lag_lowered_buffers := (lag_lowered_buffers l)[node_id := zeros M period],
         lag_lowered := (lag_lowered l)[node_id :=
           \<lparr>ll_buffer = Some node_id, ll_head = 0, ll_count = 0, ll_capacity = int period\<rparr>]\<rparr>)
       (map_primal (\<lambda>s. s\<lparr>lag_states := upd node_id
           (\<lambda>st. if lg_capacity st \<noteq> period then lag_reset M period st else st) (lag_states s)\<rparr>) ctx)"

definition minmax_lowered :: "nat \<Rightarrow> nat \<Rightarrow> RollingMinMaxStateLowered" where
  "minmax_lowered node_id period =
     \<lparr>ml_buf = Some node_id, ml_head = 0, ml_count = 0, ml_cap = int (period + 1), ml_idx = 0\<rparr>"

definition prewarm_rolling_min :: "'f machine \<Rightarrow> nat \<Rightarrow> nat \<Rightarrow> 'f SignalContext \<Rightarrow> 'f SignalContext" where
  "prewarm_rolling_min M node_id period ctx =
     map_lowered (\<lambda>l. l\<lparr>
         rolling_min_lowered_buffers :=
           (rolling_min_lowered_buffers l)[node_id := replicate (period + 1) (0, dlit M 0)],
         rolling_min_lowered := (rolling_min_lowered l)[node_id := minmax_lowered node_id period]\<rparr>)
       (map_primal (\<lambda>s. s\<lparr>
           rolling_min_deques := upd node_id (\<lambda>dq. MonoInit M dq period) (rolling_min_deques s),
           rolling_min_indices := (rolling_min_indices s)[node_id := 0]\<rparr>) ctx)"

definition prewarm_rolling_max :: "'f machine \<Rightarrow> nat \<Rightarrow> nat \<Rightarrow> 'f SignalContext \<Rightarrow> 'f SignalContext" where
  "prewarm_rolling_max M node_id period ctx =
     map_lowered (\<lambda>l. l\<lparr>
         rolling_max_lowered_buffers :=
           (rolling_max_lowered_buffers l)[node_id := replicate (period + 1) (0, dlit M 0)],
         rolling_max_lowered := (rolling_max_lowered l)[node_id := minmax_lowered node_id period]\<rparr>)
       (map_primal (\<lambda>s. s\<lparr>
           rolling_max_deques := upd node_id (\<lambda>dq. MonoInit M dq period) (rolling_max_deques s),
           rolling_max_indices := (rolling_max_indices s)[node_id := 0]\<rparr>) ctx)"

definition pair_lowered :: "'f machine \<Rightarrow> nat \<Rightarrow> nat \<Rightarrow> 'f RollingPairStateLowered" where
  "pair_lowered M node_id period =
     \<lparr>pl_x_buf = Some node_id, pl_y_buf = Some node_id, pl_head = 0, pl_count = 0,
      pl_capacity = int period, pl_sum_x = dlit M 0, pl_sum_y = dlit M 0, pl_sum_xy = dlit M 0,
      pl_sum_xx = dlit M 0, pl_sum_yy = dlit M 0\<rparr>"

definition prewarm_pair :: "'f machine \<Rightarrow> nat \<Rightarrow> 'f RollingPairState \<Rightarrow> 'f RollingPairState" where
  "prewarm_pair M period st = (if rp_capacity st \<noteq> period then pair_reset M period st else st)"

definition prewarm_rolling_corr :: "'f machine \<Rightarrow> nat \<Rightarrow> nat \<Rightarrow> 'f SignalContext \<Rightarrow> 'f SignalContext" where
  "prewarm_rolling_corr M node_id period ctx =
     map_lowered (\<lambda>l. l\<lparr>
         rolling_corr_x_lowered_buffers := (rolling_corr_x_lowered_buffers l)[node_id := zeros M period],
         rolling_corr_y_lowered_buffers := (rolling_corr_y_lowered_buffers l)[node_id := zeros M period],
         rolling_corr_lowered := (rolling_corr_lowered l)[node_id := pair_lowered M node_id period]\<rparr>)
       (map_primal (\<lambda>s. s\<lparr>rolling_corr_states :=
           upd node_id (prewarm_pair M period) (rolling_corr_states s)\<rparr>) ctx)"

definition prewarm_rolling_beta :: "'f machine \<Rightarrow> nat \<Rightarrow> nat \<Rightarrow> 'f SignalContext \<Rightarrow> 'f SignalContext" where
  "prewarm_rolling_beta M node_id period ctx =
     map_lowered (\<lambda>l. l\<lparr>
         rolling_beta_x_lowered_buffers := (rolling_beta_x_lowered_buffers l)[node_id := zeros M period],
         rolling_beta_y_lowered_buffers := (rolling_beta_y_lowered_buffers l)[node_id := zeros M period],
         rolling_beta_lowered := (rolling_beta_lowered l)[node_id := pair_lowered M node_id period]\<rparr>)
       (map_primal (\<lambda>s. s\<lparr>rolling_beta_states :=
           upd node_id (prewarm_pair M period) (rolling_beta_states s)\<rparr>) ctx)"

text \<open>The period of a paired operator, read from the third argument; zero when there is none.\<close>

definition pair_period :: "'f machine \<Rightarrow> 'f expr list \<Rightarrow> nat result" where
  "pair_period M as =
     (case as ! 2 of
        NumberLiteral _ v \<Rightarrow>
          rbind (to_int32 M v) (\<lambda>p. if 0 < p \<and> flt M (off_integer M v p) (tol M) then Inr (nat p) else Inr 0)
      | _ \<Rightarrow> Inr 0)"

definition prewarm_kalman1d :: "'f machine \<Rightarrow> nat \<Rightarrow> 'f SignalContext \<Rightarrow> 'f SignalContext" where
  "prewarm_kalman1d M node_id ctx =
     map_lowered (\<lambda>l. l\<lparr>kalman1d_lowered := (kalman1d_lowered l)[node_id := Kalman1dStateLowered0 M]\<rparr>)
       (map_primal (\<lambda>s. s\<lparr>kalman1d_states := (kalman1d_states s)[node_id := Kalman1dState0 M]\<rparr>) ctx)"

definition prewarm_cross :: "'f machine \<Rightarrow> nat \<Rightarrow> 'f SignalContext \<Rightarrow> 'f SignalContext" where
  "prewarm_cross M node_id ctx =
     map_lowered (\<lambda>l. l\<lparr>cross_lowered := (cross_lowered l)[node_id := CrossStateLowered0 M]\<rparr>)
       (map_primal (\<lambda>s. s\<lparr>cross_states := (cross_states s)[node_id := CrossState0 M]\<rparr>) ctx)"

definition prewarm_call ::
    "'f machine \<Rightarrow> string \<Rightarrow> 'f expr list \<Rightarrow> nat \<Rightarrow> 'f SignalContext \<Rightarrow> 'f SignalContext result" where
  "prewarm_call M name as node_id ctx =
     rbind (ParsePreparedPeriod M as) (\<lambda>period.
       if name = ''ema'' \<and> 0 < period then Inr (prewarm_ema M node_id period ctx)
       else if name = ''sma'' \<and> 0 < period then Inr (prewarm_sma M node_id period ctx)
       else if name = ''rolling_std'' \<and> 0 < period then Inr (prewarm_rolling_std M node_id period ctx)
       else if name = ''zscore'' \<and> 0 < period then Inr (prewarm_zscore M node_id period ctx)
       else if name = ''vwap'' \<and> 0 < period then Inr (prewarm_vwap M node_id period ctx)
       else if name = ''lag'' \<and> 0 < period then Inr (prewarm_lag M node_id period ctx)
       else if name = ''rolling_min'' \<and> 0 < period then Inr (prewarm_rolling_min M node_id period ctx)
       else if name = ''rolling_max'' \<and> 0 < period then Inr (prewarm_rolling_max M node_id period ctx)
       else if (name = ''rolling_corr'' \<or> name = ''rolling_beta'') \<and> 3 \<le> length as then
         rbind (pair_period M as) (\<lambda>p.
           if p = 0 then Inr ctx
           else if name = ''rolling_corr'' then Inr (prewarm_rolling_corr M node_id p ctx)
           else Inr (prewarm_rolling_beta M node_id p ctx))
       else if name = ''kalman1d'' then Inr (prewarm_kalman1d M node_id ctx)
       else if name = ''cross_above'' \<or> name = ''cross_below'' then Inr (prewarm_cross M node_id ctx)
       else Inr ctx)"

text \<open>The walk over the signal: a call before its arguments.\<close>

fun prewarm_walk :: "'f machine \<Rightarrow> 'f expr \<Rightarrow> 'f SignalContext \<Rightarrow> 'f SignalContext result"
  and prewarm_walks :: "'f machine \<Rightarrow> 'f expr list \<Rightarrow> 'f SignalContext \<Rightarrow> 'f SignalContext result" where
  "prewarm_walk M (NumberLiteral l v) ctx = Inr ctx"
| "prewarm_walk M (IdentifierExpr l n) ctx = Inr ctx"
| "prewarm_walk M (ParameterExpr l n i) ctx = Inr ctx"
| "prewarm_walk M (UnaryOp l k e) ctx = prewarm_walk M e ctx"
| "prewarm_walk M (BinaryOp l k a b) ctx = rbind (prewarm_walk M a ctx) (prewarm_walk M b)"
| "prewarm_walk M (Conditional l c t e) ctx =
     rbind (prewarm_walk M c ctx) (\<lambda>ctx. rbind (prewarm_walk M t ctx) (prewarm_walk M e))"
| "prewarm_walk M (FunctionCall l name as node_id symbol_id) ctx =
     rbind (if 0 \<le> node_id
            then prewarm_call M name as (nat node_id) (EnsureNodeCapacity M (nat node_id) ctx) else Inr ctx)
       (prewarm_walks M as)"
| "prewarm_walks M [] ctx = Inr ctx"
| "prewarm_walks M (a # as) ctx = rbind (prewarm_walk M a ctx) (prewarm_walks M as)"

definition PrewarmSignalContext ::
    "'f machine \<Rightarrow> 'f SignalDef \<Rightarrow> 'f SignalContext \<Rightarrow> 'f SignalContext result" where
  "PrewarmSignalContext M signal ctx =
     rbind (prewarm_walk M (body signal) ctx) (\<lambda>ctx. Inr (RefreshLoweredStateBases ctx))"

section \<open>What prewarming establishes\<close>

text \<open>The walk visits the calls of the tree in order.\<close>

fun prewarm_node ::
    "'f machine \<Rightarrow> string \<times> 'f expr list \<times> int \<times> int \<Rightarrow> 'f SignalContext \<Rightarrow> 'f SignalContext result" where
  "prewarm_node M (name, as, node_id, symbol_id) ctx =
     (if 0 \<le> node_id
      then prewarm_call M name as (nat node_id) (EnsureNodeCapacity M (nat node_id) ctx) else Inr ctx)"

lemma prewarm_walk_calls:
  "prewarm_walk M e ctx = iterate (prewarm_node M) (calls e) ctx"
  "prewarm_walks M as ctx = iterate (prewarm_node M) (concat (map calls as)) ctx"
proof (induction M e ctx and M as ctx rule: prewarm_walk_prewarm_walks.induct)
  case (6 M l c t e ctx)
  have "prewarm_walk M c ctx = Inr x \<Longrightarrow> prewarm_walk M t x = Inr y \<Longrightarrow>
      prewarm_walk M e y = iterate (prewarm_node M) (calls e) y" for x y
    by (rule 6(3))
  with 6(1,2) show ?case
    by (simp add: iterate_append) (intro rbind_cong refl, auto simp: iterate_append intro!: rbind_cong)
next
  case (7 M l name as node_id symbol_id ctx)
  then show ?case by (auto intro: rbind_cong)
qed (auto simp: iterate_append intro: rbind_cong)

text \<open>Every array of operator states has a slot for the node.\<close>

definition covers :: "nat \<Rightarrow> 'f PrimalStates \<Rightarrow> bool" where
  "covers n s \<longleftrightarrow> n < length (ema_states s) \<and> n < length (sma_states s) \<and>
     n < length (rolling_std_states s) \<and> n < length (zscore_states s) \<and> n < length (vwap_states s) \<and>
     n < length (lag_states s) \<and> n < length (cross_states s) \<and> n < length (rolling_min_deques s) \<and>
     n < length (rolling_max_deques s) \<and> n < length (rolling_min_indices s) \<and>
     n < length (rolling_max_indices s) \<and> n < length (rolling_corr_states s) \<and>
     n < length (rolling_beta_states s) \<and> n < length (kalman1d_states s)"

text \<open>A deque is unused or holds indices of the last \<open>period\<close> ticks.\<close>

definition deque_ok :: "'f MonoDequeState \<times> nat \<Rightarrow> bool" where
  "deque_ok x \<longleftrightarrow> md_cap (fst x) = 0 \<or> (\<exists>p. 0 < p \<and> md_inv p (snd x) (fst x))"

text \<open>Every ring of every node is well formed.\<close>

definition primal_wf :: "'f PrimalStates \<Rightarrow> bool" where
  "primal_wf s \<longleftrightarrow> (\<forall>st\<in>set (sma_states s). rs_wf st) \<and> (\<forall>st\<in>set (rolling_std_states s). rs_wf st) \<and>
     (\<forall>st\<in>set (zscore_states s). rs_wf st) \<and> (\<forall>st\<in>set (vwap_states s). vw_wf st) \<and>
     (\<forall>st\<in>set (lag_states s). lg_wf st) \<and> (\<forall>st\<in>set (rolling_corr_states s). rp_wf st) \<and>
     (\<forall>st\<in>set (rolling_beta_states s). rp_wf st) \<and>
     length (rolling_min_deques s) = length (rolling_min_indices s) \<and>
     length (rolling_max_deques s) = length (rolling_max_indices s) \<and>
     (\<forall>x\<in>set (zip (rolling_min_deques s) (rolling_min_indices s)). deque_ok x) \<and>
     (\<forall>x\<in>set (zip (rolling_max_deques s) (rolling_max_indices s)). deque_ok x)"

text \<open>No deque holds a sample: the state before the first tick.\<close>

definition idle :: "'f PrimalStates \<Rightarrow> bool" where
  "idle s \<longleftrightarrow> (\<forall>dq\<in>set (rolling_min_deques s). md_count dq = 0) \<and>
     (\<forall>dq\<in>set (rolling_max_deques s). md_count dq = 0)"

lemma primal_EnsureNodeCapacity [simp]:
  "primal (EnsureNodeCapacity M n ctx) = grow_primal M (n + 1) (primal ctx)"
  by (simp add: EnsureNodeCapacity_def RefreshLoweredStateBases_def ResizeSensitivityStorage_def Let_def)

lemma covers_grow: "covers n (grow_primal M (n + 1) s)" "covers m s \<Longrightarrow> covers m (grow_primal M k s)"
  by (auto simp: covers_def grow_primal_def)

lemma set_grow: "set (grow d n xs) \<subseteq> insert d (set xs)"
  by (auto simp: grow_def resize_def dest: in_set_takeD)

lemma Ball_grow: "(\<forall>x\<in>set xs. P x) \<Longrightarrow> P d \<Longrightarrow> \<forall>x\<in>set (grow d n xs). P x"
  using set_grow by fast

lemma zip_grow: "length xs = length ys \<Longrightarrow> zip (grow d n xs) (grow e n ys) = grow (d, e) n (zip xs ys)"
  by (simp add: grow_def resize_def zip_append take_zip zip_replicate)

lemma primal_wf_grow: "primal_wf s \<Longrightarrow> primal_wf (grow_primal M n s)"
  unfolding primal_wf_def grow_primal_def PrimalStates.simps
  by (elim conjE, intro conjI; (simp only: zip_grow)?; (rule Ball_grow)?)
    (simp_all add: rs_wf_initial MonoDequeState0_def deque_ok_def)

lemma idle_grow: "idle s \<Longrightarrow> idle (grow_primal M n s)"
  unfolding idle_def grow_primal_def PrimalStates.simps
  by (elim conjE, intro conjI Ball_grow) (simp_all add: MonoDequeState0_def)

lemma length_upd [simp]: "length (upd i f xs) = length xs"
  by (simp add: upd_def)

lemma Ball_upd:
  "(\<forall>x\<in>set xs. P x) \<Longrightarrow> (\<And>x. P x \<Longrightarrow> P (f x)) \<Longrightarrow> i < length xs \<Longrightarrow> \<forall>x\<in>set (upd i f xs). P x"
  by (auto simp: upd_def dest!: set_update_subset_insert [THEN subsetD])

lemma primal_map [simp]:
  "primal (map_primal f ctx) = f (primal ctx)" "primal (map_lowered g ctx) = primal ctx"
  "lowered (map_primal f ctx) = lowered ctx" "lowered (map_lowered g ctx) = g (lowered ctx)"
  by (simp_all add: map_primal_def map_lowered_def)

lemmas prewarm_defs = prewarm_ema_def prewarm_sma_def prewarm_rolling_std_def prewarm_zscore_def
  prewarm_vwap_def prewarm_lag_def prewarm_rolling_min_def prewarm_rolling_max_def
  prewarm_rolling_corr_def prewarm_rolling_beta_def prewarm_kalman1d_def prewarm_cross_def

lemma covers_prewarm [simp]:
  "covers m (primal (prewarm_ema M n p ctx)) = covers m (primal ctx)"
  "covers m (primal (prewarm_sma M n p ctx)) = covers m (primal ctx)"
  "covers m (primal (prewarm_rolling_std M n p ctx)) = covers m (primal ctx)"
  "covers m (primal (prewarm_zscore M n p ctx)) = covers m (primal ctx)"
  "covers m (primal (prewarm_vwap M n p ctx)) = covers m (primal ctx)"
  "covers m (primal (prewarm_lag M n p ctx)) = covers m (primal ctx)"
  "covers m (primal (prewarm_rolling_min M n p ctx)) = covers m (primal ctx)"
  "covers m (primal (prewarm_rolling_max M n p ctx)) = covers m (primal ctx)"
  "covers m (primal (prewarm_rolling_corr M n p ctx)) = covers m (primal ctx)"
  "covers m (primal (prewarm_rolling_beta M n p ctx)) = covers m (primal ctx)"
  "covers m (primal (prewarm_kalman1d M n ctx)) = covers m (primal ctx)"
  "covers m (primal (prewarm_cross M n ctx)) = covers m (primal ctx)"
  by (simp_all add: prewarm_defs covers_def)

lemma prewarm_ring_wf: "rs_wf st \<Longrightarrow> rs_wf (prewarm_ring M p st)"
  by (cases "rs_capacity st = p") (simp_all add: prewarm_ring_def rs_wf_def zeros_def)

lemma prewarm_pair_wf: "rp_wf st \<Longrightarrow> rp_wf (prewarm_pair M p st)"
  by (simp add: prewarm_pair_def)

text \<open>Reinitialising an empty deque and its counter.\<close>

lemma MonoInit_ok:
  assumes "deque_ok (dq, idx)" and "md_count dq = 0" and "0 < p"
  shows "deque_ok (MonoInit M dq p, 0)" and "md_count (MonoInit M dq p) = 0"
proof -
  have empty: "md_inv q 0 dq" if "md_inv q idx dq" for q
    using that assms(2) by (simp add: md_inv_def md_list_def)
  have "md_inv p 0 (MonoInit M dq p)"
  proof (rule md_inv_MonoInit, cases "md_cap dq = p + 1")
    case True
    with assms(1) obtain q where "md_inv q idx dq" by (auto simp: deque_ok_def)
    with True have "md_inv p idx dq" by (simp add: md_inv_def)
    with empty show "md_cap dq \<noteq> p + 1 \<or> md_inv p 0 dq" by simp
  qed simp
  with assms(3) show "deque_ok (MonoInit M dq p, 0)" by (auto simp: deque_ok_def)
  show "md_count (MonoInit M dq p) = 0" using assms(2) by (simp add: MonoInit_def Let_def)
qed

text \<open>Updates of one array.\<close>

lemma primal_wf_update:
  assumes "primal_wf s"
  shows "\<forall>x\<in>set xs. rs_wf x \<Longrightarrow> primal_wf (s\<lparr>sma_states := xs\<rparr>)"
    and "\<forall>x\<in>set xs. rs_wf x \<Longrightarrow> primal_wf (s\<lparr>rolling_std_states := xs\<rparr>)"
    and "\<forall>x\<in>set xs. rs_wf x \<Longrightarrow> primal_wf (s\<lparr>zscore_states := xs\<rparr>)"
    and "\<forall>x\<in>set vs. vw_wf x \<Longrightarrow> primal_wf (s\<lparr>vwap_states := vs\<rparr>)"
    and "\<forall>x\<in>set ls. lg_wf x \<Longrightarrow> primal_wf (s\<lparr>lag_states := ls\<rparr>)"
    and "\<forall>x\<in>set ps. rp_wf x \<Longrightarrow> primal_wf (s\<lparr>rolling_corr_states := ps\<rparr>)"
    and "\<forall>x\<in>set ps. rp_wf x \<Longrightarrow> primal_wf (s\<lparr>rolling_beta_states := ps\<rparr>)"
    and "length ds = length ns \<Longrightarrow> \<forall>x\<in>set (zip ds ns). deque_ok x \<Longrightarrow>
      primal_wf (s\<lparr>rolling_min_deques := ds, rolling_min_indices := ns\<rparr>)"
    and "length ds = length ns \<Longrightarrow> \<forall>x\<in>set (zip ds ns). deque_ok x \<Longrightarrow>
      primal_wf (s\<lparr>rolling_max_deques := ds, rolling_max_indices := ns\<rparr>)"
    and "primal_wf (s\<lparr>ema_states := es\<rparr>)" and "primal_wf (s\<lparr>cross_states := cs\<rparr>)"
    and "primal_wf (s\<lparr>kalman1d_states := ks\<rparr>)"
  using assms by (simp_all add: primal_wf_def)

text \<open>Each prewarm keeps the rings well formed.\<close>

lemma primal_wf_prewarm:
  assumes "primal_wf (primal ctx)" and "covers n (primal ctx)"
  shows "primal_wf (primal (prewarm_ema M n p ctx))"
    and "primal_wf (primal (prewarm_sma M n p ctx))"
    and "primal_wf (primal (prewarm_rolling_std M n p ctx))"
    and "primal_wf (primal (prewarm_zscore M n p ctx))"
    and "primal_wf (primal (prewarm_vwap M n p ctx))"
    and "primal_wf (primal (prewarm_lag M n p ctx))"
    and "primal_wf (primal (prewarm_rolling_corr M n p ctx))"
    and "primal_wf (primal (prewarm_rolling_beta M n p ctx))"
    and "primal_wf (primal (prewarm_kalman1d M n ctx))"
    and "primal_wf (primal (prewarm_cross M n ctx))"
proof -
  note c = assms(2) [unfolded covers_def]
  show "primal_wf (primal (prewarm_ema M n p ctx))" "primal_wf (primal (prewarm_kalman1d M n ctx))"
    "primal_wf (primal (prewarm_cross M n ctx))"
    using assms(1) by (simp_all add: prewarm_defs primal_wf_update)
  note intros = primal_wf_update [OF assms(1)] Ball_upd
  note states = assms(1) [unfolded primal_wf_def]
  show "primal_wf (primal (prewarm_sma M n p ctx))"
    unfolding prewarm_sma_def primal_map
    by (intro intros) (use states c in \<open>blast intro: prewarm_ring_wf\<close>)+
  show "primal_wf (primal (prewarm_rolling_std M n p ctx))"
    unfolding prewarm_rolling_std_def primal_map
    by (intro intros) (use states c in \<open>blast intro: prewarm_ring_wf\<close>)+
  show "primal_wf (primal (prewarm_zscore M n p ctx))"
    unfolding prewarm_zscore_def primal_map
    by (intro intros) (use states c in \<open>blast intro: prewarm_ring_wf\<close>)+
  show "primal_wf (primal (prewarm_rolling_corr M n p ctx))"
    unfolding prewarm_rolling_corr_def primal_map
    by (intro intros) (use states c in \<open>blast intro: prewarm_pair_wf\<close>)+
  show "primal_wf (primal (prewarm_rolling_beta M n p ctx))"
    unfolding prewarm_rolling_beta_def primal_map
    by (intro intros) (use states c in \<open>blast intro: prewarm_pair_wf\<close>)+
  show "primal_wf (primal (prewarm_vwap M n p ctx))"
    unfolding prewarm_vwap_def primal_map
    by (intro intros) (use states c in \<open>(blast | simp)\<close>)+
  show "primal_wf (primal (prewarm_lag M n p ctx))"
    unfolding prewarm_lag_def primal_map
    by (intro intros) (use states c in \<open>(blast | simp)\<close>)+
qed

lemma deques_MonoInit:
  assumes "length ds = length ns" and "n < length ds" and "\<forall>x\<in>set (zip ds ns). deque_ok x"
    and "\<forall>dq\<in>set ds. md_count dq = 0" and "0 < p"
  shows "\<forall>x\<in>set (zip (upd n (\<lambda>dq. MonoInit M dq p) ds) (ns[n := 0])). deque_ok x"
    and "\<forall>dq\<in>set (upd n (\<lambda>dq. MonoInit M dq p) ds). md_count dq = 0"
proof -
  from assms have "deque_ok (ds ! n, ns ! n)" "md_count (ds ! n) = 0" by (auto simp: set_zip)
  note new = MonoInit_ok [OF this assms(5), of M]
  show "\<forall>x\<in>set (zip (upd n (\<lambda>dq. MonoInit M dq p) ds) (ns[n := 0])). deque_ok x"
  proof -
    have "zip (upd n (\<lambda>dq. MonoInit M dq p) ds) (ns[n := 0]) = (zip ds ns)[n := (MonoInit M (ds ! n) p, 0)]"
      by (simp add: upd_def update_zip)
    with assms(3) new(1) show ?thesis by (auto dest!: set_update_subset_insert [THEN subsetD])
  qed
  show "\<forall>dq\<in>set (upd n (\<lambda>dq. MonoInit M dq p) ds). md_count dq = 0"
    unfolding upd_def using assms(4) new(2) by (auto dest!: set_update_subset_insert [THEN subsetD])
qed

lemma primal_wf_prewarm_minmax:
  assumes "primal_wf (primal ctx)" and "covers n (primal ctx)" and "idle (primal ctx)" and "0 < p"
  shows "primal_wf (primal (prewarm_rolling_min M n p ctx))" and "idle (primal (prewarm_rolling_min M n p ctx))"
    and "primal_wf (primal (prewarm_rolling_max M n p ctx))" and "idle (primal (prewarm_rolling_max M n p ctx))"
proof -
  note hyps = assms(1) [unfolded primal_wf_def] assms(2) [unfolded covers_def] assms(3) [unfolded idle_def]
  note mn = deques_MonoInit [of "rolling_min_deques (primal ctx)" "rolling_min_indices (primal ctx)" n p M]
  note mx = deques_MonoInit [of "rolling_max_deques (primal ctx)" "rolling_max_indices (primal ctx)" n p M]
  show "primal_wf (primal (prewarm_rolling_min M n p ctx))"
    unfolding prewarm_rolling_min_def primal_map
  proof (rule primal_wf_update(8) [OF assms(1)], goal_cases)
    case 1
    show ?case using hyps by simp
  next
    case 2
    show ?case by (rule mn(1)) (use hyps assms(4) in blast)+
  qed
  show "primal_wf (primal (prewarm_rolling_max M n p ctx))"
    unfolding prewarm_rolling_max_def primal_map
  proof (rule primal_wf_update(9) [OF assms(1)], goal_cases)
    case 1
    show ?case using hyps by simp
  next
    case 2
    show ?case by (rule mx(1)) (use hyps assms(4) in blast)+
  qed
  show "idle (primal (prewarm_rolling_min M n p ctx))"
    using mn(2) hyps assms(4) by (simp add: prewarm_rolling_min_def idle_def)
  show "idle (primal (prewarm_rolling_max M n p ctx))"
    using mx(2) hyps assms(4) by (simp add: prewarm_rolling_max_def idle_def)
qed

lemma idle_prewarm [simp]:
  "idle (primal (prewarm_ema M n p ctx)) = idle (primal ctx)"
  "idle (primal (prewarm_sma M n p ctx)) = idle (primal ctx)"
  "idle (primal (prewarm_rolling_std M n p ctx)) = idle (primal ctx)"
  "idle (primal (prewarm_zscore M n p ctx)) = idle (primal ctx)"
  "idle (primal (prewarm_vwap M n p ctx)) = idle (primal ctx)"
  "idle (primal (prewarm_lag M n p ctx)) = idle (primal ctx)"
  "idle (primal (prewarm_rolling_corr M n p ctx)) = idle (primal ctx)"
  "idle (primal (prewarm_rolling_beta M n p ctx)) = idle (primal ctx)"
  "idle (primal (prewarm_kalman1d M n ctx)) = idle (primal ctx)"
  "idle (primal (prewarm_cross M n ctx)) = idle (primal ctx)"
  by (simp_all add: prewarm_defs idle_def)

lemma prewarm_call_covers:
  "prewarm_call M name as n ctx = Inr ctx' \<Longrightarrow> covers m (primal ctx') = covers m (primal ctx)"
proof (erule on_InrD [rotated])
  show "on_Inr (\<lambda>c. covers m (primal c) = covers m (primal ctx)) (prewarm_call M name as n ctx)"
    unfolding prewarm_call_def
    by (intro on_Inr_rbind on_Inr_if) (simp_all only: on_Inr_simps covers_prewarm)
qed

text \<open>The state before the first tick.\<close>

definition fresh :: "'f PrimalStates \<Rightarrow> bool" where
  "fresh s \<longleftrightarrow> primal_wf s \<and> idle s"

lemma on_Inr_if_cond: "(b \<Longrightarrow> on_Inr Q r) \<Longrightarrow> on_Inr Q r' \<Longrightarrow> on_Inr Q (if b then r else r')"
  by simp

lemma prewarm_call_fresh:
  assumes "prewarm_call M name as n ctx = Inr ctx'" and "fresh (primal ctx)" and "covers n (primal ctx)"
  shows "fresh (primal ctx')"
  using assms(1)
proof (rule on_InrD [rotated])
  from assms(2) have wf: "primal_wf (primal ctx)" and idle: "idle (primal ctx)" by (auto simp: fresh_def)
  note facts = primal_wf_prewarm [OF wf assms(3)] primal_wf_prewarm_minmax [OF wf assms(3) idle]
  show "on_Inr (\<lambda>c. fresh (primal c)) (prewarm_call M name as n ctx)"
    unfolding prewarm_call_def
    by (intro on_Inr_rbind on_Inr_if_cond on_Inr_if) (auto simp only: on_Inr_simps fresh_def facts idle_prewarm wf idle)
qed

text \<open>After a walk every call with a node id has its slots, and every ring is well formed.\<close>

definition ready_for :: "'f expr \<Rightarrow> 'f SignalContext \<Rightarrow> bool" where
  "ready_for e ctx \<longleftrightarrow> fresh (primal ctx) \<and>
     (\<forall>(name, as, node_id, symbol_id) \<in> set (calls e). 0 \<le> node_id \<longrightarrow> covers (nat node_id) (primal ctx))"

lemma prewarm_node_ok:
  assumes "prewarm_node M (name, as, node_id, symbol_id) ctx = Inr ctx'" and "fresh (primal ctx)"
  shows "fresh (primal ctx')" and "covers m (primal ctx) \<Longrightarrow> covers m (primal ctx')"
    and "0 \<le> node_id \<Longrightarrow> covers (nat node_id) (primal ctx')"
  using assms prewarm_call_fresh [of M name as "nat node_id" "EnsureNodeCapacity M (nat node_id) ctx" ctx']
    prewarm_call_covers [of M name as "nat node_id" "EnsureNodeCapacity M (nat node_id) ctx" ctx']
    covers_grow(1) [of "nat node_id" M "primal ctx"] covers_grow(2) [of m "primal ctx" M "nat node_id + 1"]
    primal_wf_grow [of "primal ctx" M "nat node_id + 1"] idle_grow [of "primal ctx" M "nat node_id + 1"]
  by (auto simp: fresh_def split: if_splits)

lemma prewarm_calls_ready:
  assumes "iterate (prewarm_node M) cs ctx = Inr ctx'" and "fresh (primal ctx)"
  shows "fresh (primal ctx') \<and> (\<forall>m. covers m (primal ctx) \<longrightarrow> covers m (primal ctx')) \<and>
    (\<forall>(name, as, node_id, symbol_id) \<in> set cs. 0 \<le> node_id \<longrightarrow> covers (nat node_id) (primal ctx'))"
  using assms
proof (induction cs arbitrary: ctx)
  case (Cons c cs)
  obtain name as node_id symbol_id where c: "c = (name, as, node_id, symbol_id)" by (cases c)
  from Cons.prems(1) obtain ctx1 where
    step: "prewarm_node M (name, as, node_id, symbol_id) ctx = Inr ctx1" and
    rest: "iterate (prewarm_node M) cs ctx1 = Inr ctx'" unfolding c by (auto simp: rbind_eq_Inr_iff)
  note ok = prewarm_node_ok [OF step Cons.prems(2)]
  from Cons.IH [OF rest ok(1)] ok show ?case unfolding c by auto
qed simp

lemma PrewarmSignalContext_ready:
  assumes "PrewarmSignalContext M signal ctx = Inr ctx'" and "fresh (primal ctx)"
  shows "ready_for (body signal) ctx'"
proof -
  from assms(1) obtain c where c: "iterate (prewarm_node M) (calls (body signal)) ctx = Inr c"
    and ctx': "ctx' = RefreshLoweredStateBases c"
    by (auto simp: PrewarmSignalContext_def prewarm_walk_calls rbind_eq_Inr_iff)
  have "primal ctx' = primal c" by (simp add: ctx' RefreshLoweredStateBases_def Let_def)
  with prewarm_calls_ready [OF c assms(2)] show ?thesis by (auto simp: ready_for_def)
qed

lemma fresh_initial: "fresh (primal SignalContext0)"
  by (simp add: fresh_def primal_wf_def idle_def SignalContext0_def)

end
