(* ===== verification/Jit_Runtime.thy ===== *)
theory Jit_Runtime
  imports Signal_Context
begin

text \<open>
  The \<^verbatim>\<open>jit_rt_*\<close> helpers of \<^verbatim>\<open>src/runtime.cpp\<close>, which compiled code calls with a
  context and a node id: each reads its operator slot, steps it and returns a value. A slot
  outside its array (an assertion in debug builds, undefined behaviour otherwise) is the error
  \<open>Undefined\<close>. The gradient helpers step the primal slot and the slot of one parameter
  together and return the value with its derivative.
\<close>

section \<open>Access to slots\<close>

text \<open>A program over one element, run on slot \<open>i\<close> of an array of the context.\<close>

definition on_primal ::
    "('f PrimalStates \<Rightarrow> 'a list) \<Rightarrow> (('a list \<Rightarrow> 'a list) \<Rightarrow> 'f PrimalStates \<Rightarrow> 'f PrimalStates) \<Rightarrow>
       int \<Rightarrow> ('a, 'b) prog \<Rightarrow> ('f SignalContext, 'b) prog" where
  "on_primal get put i f ctx =
     (if 0 \<le> i \<and> nat i < length (get (primal ctx))
      then let (r, st) = f (get (primal ctx) ! nat i)
           in (r, map_primal (put (\<lambda>xs. xs[nat i := st])) ctx)
      else (Inl (Undefined ''operator slot''), ctx))"

text \<open>The step of a state by a push that may fail, followed by a readout.\<close>

definition pushing :: "('s \<Rightarrow> 's result) \<Rightarrow> ('s \<Rightarrow> 'b) \<Rightarrow> ('s, 'b) prog" where
  "pushing push readout st = (case push st of Inl e \<Rightarrow> (Inl e, st) | Inr st' \<Rightarrow> (Inr (readout st'), st'))"

definition instrument :: "'f MarketState \<Rightarrow> int \<Rightarrow> 'f InstrumentState result" where
  "instrument m symbol_id =
     (if 0 \<le> symbol_id \<and> nat symbol_id < length (instruments m) then Inr (instruments m ! nat symbol_id)
      else Inl (Undefined ''instrument''))"

section \<open>Market data and parameters\<close>

definition mid_of :: "'f machine \<Rightarrow> 'f InstrumentState \<Rightarrow> 'f" where
  "mid_of M ins = dmul M (dadd M (ins_bid ins) (ins_ask ins)) (dlit M (1 / 2))"

definition jit_rt_mid :: "'f machine \<Rightarrow> 'f MarketState \<Rightarrow> int \<Rightarrow> 'f result" where
  "jit_rt_mid M m symbol_id = rbind (instrument m symbol_id) (\<lambda>ins. Inr (mid_of M ins))"

definition jit_rt_bid :: "'f MarketState \<Rightarrow> int \<Rightarrow> 'f result" where
  "jit_rt_bid m symbol_id = rbind (instrument m symbol_id) (\<lambda>ins. Inr (ins_bid ins))"

definition jit_rt_ask :: "'f MarketState \<Rightarrow> int \<Rightarrow> 'f result" where
  "jit_rt_ask m symbol_id = rbind (instrument m symbol_id) (\<lambda>ins. Inr (ins_ask ins))"

definition jit_rt_spread :: "'f machine \<Rightarrow> 'f MarketState \<Rightarrow> int \<Rightarrow> 'f result" where
  "jit_rt_spread M m symbol_id = rbind (instrument m symbol_id) (\<lambda>ins. Inr (dsub M (ins_ask ins) (ins_bid ins)))"

definition jit_rt_param :: "'f SignalContext \<Rightarrow> int \<Rightarrow> 'f result" where
  "jit_rt_param ctx pid =
     (case params ctx of
        None \<Rightarrow> Inl (RuntimeError ''Parameter id out of range or parameters not initialized'')
      | Some ps \<Rightarrow>
          if pid < 0 \<or> nat pid \<ge> num_params ctx
          then Inl (RuntimeError ''Parameter id out of range or parameters not initialized'')
          else if nat pid < length ps then Inr (ps ! nat pid) else Inl (Undefined ''parameter''))"

section \<open>Stateful operators\<close>

definition jit_rt_ema :: "'f machine \<Rightarrow> int \<Rightarrow> 'f \<Rightarrow> int \<Rightarrow> ('f SignalContext, 'f) prog" where
  "jit_rt_ema M node_id x period =
     on_primal ema_states ema_states_update node_id
       (\<lambda>st. let (v, st') = rt_ema_step M st period x in (Inr v, st'))"

definition jit_rt_ema_alpha :: "'f machine \<Rightarrow> int \<Rightarrow> 'f \<Rightarrow> 'f \<Rightarrow> int \<Rightarrow> ('f SignalContext, 'f) prog" where
  "jit_rt_ema_alpha M node_id x alpha period =
     on_primal ema_states ema_states_update node_id
       (\<lambda>st. let (v, st') = rt_ema_alpha_step M st x alpha period in (Inr v, st'))"

definition sma_value :: "'f machine \<Rightarrow> 'f RingStatsState \<Rightarrow> 'f" where
  "sma_value M st = (if \<not> RingStatsFull st then qnan M else RingStatsMean M st)"

definition rolling_std_value :: "'f machine \<Rightarrow> 'f RingStatsState \<Rightarrow> 'f" where
  "rolling_std_value M st = (if \<not> RingStatsFull st then qnan M else RingStatsStddevSample M st)"

definition zscore_value :: "'f machine \<Rightarrow> 'f \<Rightarrow> 'f RingStatsState \<Rightarrow> 'f" where
  "zscore_value M x st =
     (if \<not> RingStatsFull st then qnan M
      else let mean = RingStatsMean M st; stddev = RingStatsStddevSample M st
           in if isnan M stddev \<or> flt M (fabs M stddev) (dlit M (1 / 10 ^ 18)) then qnan M
              else ddiv M (dsub M x mean) stddev)"

definition jit_rt_sma :: "'f machine \<Rightarrow> int \<Rightarrow> 'f \<Rightarrow> int \<Rightarrow> ('f SignalContext, 'f) prog" where
  "jit_rt_sma M node_id x period =
     on_primal sma_states sma_states_update node_id
       (pushing (\<lambda>st. RingStatsPushPrepared M st x) (sma_value M))"

text \<open>The variant that hands the buffer out: none when the window is not full.\<close>

definition jit_rt_sma_prepare ::
    "'f machine \<Rightarrow> int \<Rightarrow> 'f \<Rightarrow> int \<Rightarrow> ('f SignalContext, ('f list \<times> int) option) prog" where
  "jit_rt_sma_prepare M node_id x period =
     on_primal sma_states sma_states_update node_id
       (pushing (\<lambda>st. RingStatsPushPrepared M st x)
         (\<lambda>st. if \<not> RingStatsFull st then None else Some (rs_buffer st, int (rs_capacity st))))"

definition jit_rt_rolling_std :: "'f machine \<Rightarrow> int \<Rightarrow> 'f \<Rightarrow> int \<Rightarrow> ('f SignalContext, 'f) prog" where
  "jit_rt_rolling_std M node_id x period =
     on_primal rolling_std_states rolling_std_states_update node_id
       (pushing (\<lambda>st. RingStatsPushPrepared M st x) (rolling_std_value M))"

definition jit_rt_zscore :: "'f machine \<Rightarrow> int \<Rightarrow> 'f \<Rightarrow> int \<Rightarrow> ('f SignalContext, 'f) prog" where
  "jit_rt_zscore M node_id x period =
     on_primal zscore_states zscore_states_update node_id
       (pushing (\<lambda>st. RingStatsPushPrepared M st x) (zscore_value M x))"

text \<open>A deque and the tick counter beside it.\<close>

definition on_deque ::
    "('f PrimalStates \<Rightarrow> 'f MonoDequeState list) \<Rightarrow>
     (('f MonoDequeState list \<Rightarrow> 'f MonoDequeState list) \<Rightarrow> 'f PrimalStates \<Rightarrow> 'f PrimalStates) \<Rightarrow>
     ('f PrimalStates \<Rightarrow> nat list) \<Rightarrow> ((nat list \<Rightarrow> nat list) \<Rightarrow> 'f PrimalStates \<Rightarrow> 'f PrimalStates) \<Rightarrow>
     int \<Rightarrow> ('f MonoDequeState \<times> nat, 'b) prog \<Rightarrow> ('f SignalContext, 'b) prog" where
  "on_deque get put get_idx put_idx i f ctx =
     (if 0 \<le> i \<and> nat i < length (get (primal ctx)) \<and> nat i < length (get_idx (primal ctx))
      then let (r, dq, idx) = f (get (primal ctx) ! nat i, get_idx (primal ctx) ! nat i)
           in (r, map_primal (put (\<lambda>xs. xs[nat i := dq]) \<circ> put_idx (\<lambda>xs. xs[nat i := idx])) ctx)
      else (Inl (Undefined ''operator slot''), ctx))"

definition minmax_value :: "'f machine \<Rightarrow> nat \<Rightarrow> 'f \<times> 'f MonoDequeState \<times> nat \<Rightarrow> 'f" where
  "minmax_value M period res = (if snd (snd res) < period then qnan M else fst res)"

definition rt_minmax ::
    "'f machine \<Rightarrow> nat \<Rightarrow> ('f MonoDequeState \<Rightarrow> nat \<Rightarrow> ('f \<times> 'f MonoDequeState \<times> nat) result) \<Rightarrow>
       ('f MonoDequeState \<times> nat, 'f) prog" where
  "rt_minmax M period update st =
     (case update (fst st) (snd st) of
        Inl e \<Rightarrow> (Inl e, st)
      | Inr res \<Rightarrow> (Inr (minmax_value M period res), snd res))"

definition jit_rt_rolling_min :: "'f machine \<Rightarrow> int \<Rightarrow> 'f \<Rightarrow> int \<Rightarrow> ('f SignalContext, 'f) prog" where
  "jit_rt_rolling_min M node_id x period =
     on_deque rolling_min_deques rolling_min_deques_update rolling_min_indices rolling_min_indices_update
       node_id (rt_minmax M (nat period) (\<lambda>dq idx. UpdateRollingMinPrepared M dq idx x))"

definition jit_rt_rolling_max :: "'f machine \<Rightarrow> int \<Rightarrow> 'f \<Rightarrow> int \<Rightarrow> ('f SignalContext, 'f) prog" where
  "jit_rt_rolling_max M node_id x period =
     on_deque rolling_max_deques rolling_max_deques_update rolling_max_indices rolling_max_indices_update
       node_id (rt_minmax M (nat period) (\<lambda>dq idx. UpdateRollingMaxPrepared M dq idx x))"

definition vwap_sample :: "'f machine \<Rightarrow> 'f InstrumentState \<Rightarrow> 'f \<times> 'f" where
  "vwap_sample M ins =
     (mid_of M ins, if flt M (dlit M 0) (ins_volume ins) then ins_volume ins else dlit M 1)"

definition vwap_value :: "'f machine \<Rightarrow> 'f VwapState \<Rightarrow> 'f" where
  "vwap_value M st = (if \<not> VwapFull st then qnan M else VwapValue M st)"

definition jit_rt_vwap ::
    "'f machine \<Rightarrow> 'f MarketState \<Rightarrow> int \<Rightarrow> int \<Rightarrow> int \<Rightarrow> ('f SignalContext, 'f) prog" where
  "jit_rt_vwap M m node_id symbol_id period =
     bindm (lift_result (instrument m symbol_id)) (\<lambda>ins.
       on_primal vwap_states vwap_states_update node_id
         (pushing (\<lambda>st. VwapPushPrepared M st (vwap_sample M ins)) (vwap_value M)))"

definition lagging :: "'f machine \<Rightarrow> ('f LagState \<Rightarrow> 'f LagState result) \<Rightarrow> ('f LagState, 'f) prog" where
  "lagging M push st = (case push st of Inl e \<Rightarrow> (Inl e, st) | Inr st' \<Rightarrow> (Inr (LagValue M st), st'))"

definition jit_rt_lag :: "'f machine \<Rightarrow> int \<Rightarrow> 'f \<Rightarrow> int \<Rightarrow> ('f SignalContext, 'f) prog" where
  "jit_rt_lag M node_id x period =
     on_primal lag_states lag_states_update node_id (lagging M (\<lambda>st. LagPushPrepared st x))"

definition jit_rt_cross_above :: "'f machine \<Rightarrow> int \<Rightarrow> 'f \<Rightarrow> 'f \<Rightarrow> ('f SignalContext, 'f) prog" where
  "jit_rt_cross_above M node_id a b =
     on_primal cross_states cross_states_update node_id
       (\<lambda>st. let (v, st') = cross_above_step M st (a, b) in (Inr v, st'))"

definition jit_rt_cross_below :: "'f machine \<Rightarrow> int \<Rightarrow> 'f \<Rightarrow> 'f \<Rightarrow> ('f SignalContext, 'f) prog" where
  "jit_rt_cross_below M node_id a b =
     on_primal cross_states cross_states_update node_id
       (\<lambda>st. let (v, st') = cross_below_step M st (a, b) in (Inr v, st'))"

definition jit_rt_rolling_corr :: "'f machine \<Rightarrow> int \<Rightarrow> 'f \<Rightarrow> 'f \<Rightarrow> int \<Rightarrow> ('f SignalContext, 'f) prog" where
  "jit_rt_rolling_corr M node_id x y period =
     on_primal rolling_corr_states rolling_corr_states_update node_id
       (pushing (\<lambda>st. RollingPairPush M st (nat period) (x, y)) (RollingPairCorrelation M))"

definition jit_rt_rolling_beta :: "'f machine \<Rightarrow> int \<Rightarrow> 'f \<Rightarrow> 'f \<Rightarrow> int \<Rightarrow> ('f SignalContext, 'f) prog" where
  "jit_rt_rolling_beta M node_id x y period =
     on_primal rolling_beta_states rolling_beta_states_update node_id
       (pushing (\<lambda>st. RollingPairPush M st (nat period) (x, y)) (RollingPairBeta M))"

definition jit_rt_kalman1d :: "'f machine \<Rightarrow> int \<Rightarrow> 'f \<Rightarrow> 'f \<Rightarrow> 'f \<Rightarrow> ('f SignalContext, 'f) prog" where
  "jit_rt_kalman1d M node_id x q r =
     on_primal kalman1d_states kalman1d_states_update node_id
       (\<lambda>st. let (v, st') = Kalman1dStep M st x q r in (Inr v, st'))"

end
