(* ===== verification/Interpreter.thy ===== *)
theory Interpreter
  imports Jit_Runtime
begin

text \<open>
  The tree-walking interpreter of \<^verbatim>\<open>src/interpreter.cpp\<close>: one definition per
  \<^verbatim>\<open>Eval\<close> method, the visitor over expressions, and the cache that evaluates an
  operator at most once per tick. The state is the context the operators update together with
  that cache; an exception keeps the updates made before it. The methods take the evaluator of
  their arguments as a parameter, and \<open>Visit\<close> ties the knot.
\<close>

type_synonym 'f eval_state = "'f SignalContext \<times> (int \<rightharpoonup> 'f)"

section \<open>Arguments\<close>

definition ResolveSymbolSlot ::
    "SymbolTable \<Rightarrow> string \<Rightarrow> 'f expr list \<Rightarrow> int \<Rightarrow> int result" where
  "ResolveSymbolSlot symbols fn_name as symbol_id =
     (if 0 \<le> symbol_id then Inr symbol_id
      else if length as \<noteq> 1 \<and> fn_name \<noteq> ''vwap''
        then Inl (RuntimeError (fn_name @ ''() expects exactly one argument''))
      else if as = [] then Inl (RuntimeError (fn_name @ ''() requires ticker identifier''))
      else case as ! 0 of
        IdentifierExpr _ n \<Rightarrow> rbind (LookupId symbols n) (\<lambda>i. Inr (int i))
      | _ \<Rightarrow> Inl (RuntimeError (fn_name @ ''() argument must be ticker identifier'')))"

definition ParsePositiveIntegerPeriod :: "'f machine \<Rightarrow> 'f expr \<Rightarrow> string \<Rightarrow> int result" where
  "ParsePositiveIntegerPeriod M e fn_name =
     (case e of
        NumberLiteral _ v \<Rightarrow>
          rbind (to_int32 M v) (\<lambda>period.
            if period \<le> 0 \<or> flt M (tol M) (off_integer M v period)
            then Inl (RuntimeError (fn_name @ '' period must be a positive integer''))
            else Inr period)
      | _ \<Rightarrow> Inl (RuntimeError (fn_name @ '' period must be a numeric literal in pre-LLVM stage'')))"

definition lift_ctx :: "('f SignalContext, 'b) prog \<Rightarrow> ('f eval_state, 'b) prog" where
  "lift_ctx m s = (let (r, ctx) = m (fst s) in (r, (ctx, snd s)))"

text \<open>The check of the node id every stateful method makes before it touches its slot.\<close>

definition at_node :: "string \<Rightarrow> int \<Rightarrow> ('f SignalContext, 'b) prog \<Rightarrow> ('f eval_state, 'b) prog" where
  "at_node fn_name node_id m =
     (if node_id < 0 then throw (RuntimeError (fn_name @ '' node_id not allocated'')) else lift_ctx m)"

section \<open>The methods\<close>

definition EvalMid ::
    "'f machine \<Rightarrow> SymbolTable \<Rightarrow> 'f MarketState \<Rightarrow> 'f expr list \<Rightarrow> int \<Rightarrow> 'f result" where
  "EvalMid M symbols m as symbol_id =
     (if length as \<noteq> 1 then Inl (RuntimeError ''mid() expects exactly one argument'')
      else rbind (ResolveSymbolSlot symbols ''mid'' as symbol_id) (\<lambda>i.
        rbind (instrument m i) (\<lambda>ins. Inr (mid_of M ins))))"

definition EvalBid ::
    "SymbolTable \<Rightarrow> 'f MarketState \<Rightarrow> 'f expr list \<Rightarrow> int \<Rightarrow> 'f result" where
  "EvalBid symbols m as symbol_id =
     (if length as \<noteq> 1 then Inl (RuntimeError ''bid() expects exactly one argument'')
      else rbind (ResolveSymbolSlot symbols ''bid'' as symbol_id) (\<lambda>i.
        rbind (instrument m i) (\<lambda>ins. Inr (ins_bid ins))))"

definition EvalAsk ::
    "SymbolTable \<Rightarrow> 'f MarketState \<Rightarrow> 'f expr list \<Rightarrow> int \<Rightarrow> 'f result" where
  "EvalAsk symbols m as symbol_id =
     (if length as \<noteq> 1 then Inl (RuntimeError ''ask() expects exactly one argument'')
      else rbind (ResolveSymbolSlot symbols ''ask'' as symbol_id) (\<lambda>i.
        rbind (instrument m i) (\<lambda>ins. Inr (ins_ask ins))))"

definition EvalSpread ::
    "'f machine \<Rightarrow> SymbolTable \<Rightarrow> 'f MarketState \<Rightarrow> 'f expr list \<Rightarrow> int \<Rightarrow> 'f result" where
  "EvalSpread M symbols m as symbol_id =
     (if length as \<noteq> 1 then Inl (RuntimeError ''spread() expects exactly one argument'')
      else rbind (ResolveSymbolSlot symbols ''spread'' as symbol_id) (\<lambda>i.
        rbind (instrument m i) (\<lambda>ins. Inr (dsub M (ins_ask ins) (ins_bid ins)))))"

type_synonym 'f child = "'f expr \<Rightarrow> ('f eval_state, 'f) prog"

definition EvalEma :: "'f machine \<Rightarrow> 'f child \<Rightarrow> 'f expr list \<Rightarrow> int \<Rightarrow> ('f eval_state, 'f) prog" where
  "EvalEma M ec as node_id =
     (if length as \<noteq> 2 then throw (RuntimeError ''ema() expects two arguments: ema(expr, period)'')
      else bindm (lift_result (ParsePositiveIntegerPeriod M (as ! 1) ''ema()'')) (\<lambda>period.
        bindm (ec (as ! 0)) (\<lambda>x.
          at_node ''ema()'' node_id
            (on_primal ema_states ema_states_update node_id
              (\<lambda>st. let (v, st') = interp_ema_step M st period x in (Inr v, st'))))))"

definition EvalEmaAlpha :: "'f machine \<Rightarrow> 'f child \<Rightarrow> 'f expr list \<Rightarrow> int \<Rightarrow> ('f eval_state, 'f) prog" where
  "EvalEmaAlpha M ec as node_id =
     (if length as \<noteq> 2 then throw (RuntimeError ''ema_alpha() expects two arguments: ema_alpha(expr, alpha)'')
      else bindm (ec (as ! 0)) (\<lambda>x.
        bindm (ec (as ! 1)) (\<lambda>alpha.
          if flt M alpha (dlit M 0) \<or> flt M (dlit M 1) alpha
          then throw (RuntimeError ''ema_alpha() requires alpha in [0, 1]'')
          else at_node ''ema_alpha()'' node_id
            (on_primal ema_states ema_states_update node_id
              (\<lambda>st. let (v, st') = interp_ema_alpha_step M st x alpha in (Inr v, st'))))))"

definition EvalSma :: "'f machine \<Rightarrow> 'f child \<Rightarrow> 'f expr list \<Rightarrow> int \<Rightarrow> ('f eval_state, 'f) prog" where
  "EvalSma M ec as node_id =
     (if length as \<noteq> 2 then throw (RuntimeError ''sma() expects two arguments: sma(expr, period)'')
      else bindm (lift_result (ParsePositiveIntegerPeriod M (as ! 1) ''sma()'')) (\<lambda>period.
        bindm (ec (as ! 0)) (\<lambda>x.
          at_node ''sma()'' node_id
            (on_primal sma_states sma_states_update node_id
              (pushing (\<lambda>st. RingStatsPush M st (nat period) x) (sma_value M))))))"

definition EvalRollingStd :: "'f machine \<Rightarrow> 'f child \<Rightarrow> 'f expr list \<Rightarrow> int \<Rightarrow> ('f eval_state, 'f) prog" where
  "EvalRollingStd M ec as node_id =
     (if length as \<noteq> 2
      then throw (RuntimeError ''rolling_std() expects two arguments: rolling_std(expr, period)'')
      else bindm (lift_result (ParsePositiveIntegerPeriod M (as ! 1) ''rolling_std()'')) (\<lambda>period.
        if period < 2
        then throw (RuntimeError ''rolling_std() requires period >= 2 (sample standard deviation of one sample is mathematically undefined)'')
        else bindm (ec (as ! 0)) (\<lambda>x.
          at_node ''rolling_std()'' node_id
            (on_primal rolling_std_states rolling_std_states_update node_id
              (pushing (\<lambda>st. RingStatsPush M st (nat period) x) (rolling_std_value M))))))"

definition EvalZscore :: "'f machine \<Rightarrow> 'f child \<Rightarrow> 'f expr list \<Rightarrow> int \<Rightarrow> ('f eval_state, 'f) prog" where
  "EvalZscore M ec as node_id =
     (if length as \<noteq> 2 then throw (RuntimeError ''zscore() expects two arguments: zscore(expr, period)'')
      else bindm (lift_result (ParsePositiveIntegerPeriod M (as ! 1) ''zscore()'')) (\<lambda>period.
        if period < 2
        then throw (RuntimeError ''zscore() requires period >= 2 (sample standard deviation of one sample is mathematically undefined)'')
        else bindm (ec (as ! 0)) (\<lambda>x.
          at_node ''zscore()'' node_id
            (on_primal zscore_states zscore_states_update node_id
              (pushing (\<lambda>st. RingStatsPush M st (nat period) x) (zscore_value M x))))))"

definition EvalVwap ::
    "'f machine \<Rightarrow> SymbolTable \<Rightarrow> 'f MarketState \<Rightarrow> 'f expr list \<Rightarrow> int \<Rightarrow> int \<Rightarrow> ('f eval_state, 'f) prog" where
  "EvalVwap M symbols m as node_id symbol_id =
     (if length as \<noteq> 2 then throw (RuntimeError ''vwap() expects two arguments: vwap(symbol, period)'')
      else bindm (lift_result (ParsePositiveIntegerPeriod M (as ! 1) ''vwap()'')) (\<lambda>period.
        bindm (lift_result (rbind (ResolveSymbolSlot symbols ''vwap'' as symbol_id) (instrument m))) (\<lambda>ins.
          at_node ''vwap()'' node_id
            (on_primal vwap_states vwap_states_update node_id
              (pushing (\<lambda>st. VwapPush M st (nat period) (vwap_sample M ins)) (vwap_value M))))))"

definition interp_minmax ::
    "'f machine \<Rightarrow> nat \<Rightarrow> ('f MonoDequeState \<Rightarrow> nat \<Rightarrow> 'f \<times> 'f MonoDequeState \<times> nat) \<Rightarrow>
       ('f MonoDequeState \<times> nat, 'f) prog" where
  "interp_minmax M period update st =
     (let res = update (fst st) (snd st) in (Inr (minmax_value M period res), snd res))"

definition EvalRollingMin :: "'f machine \<Rightarrow> 'f child \<Rightarrow> 'f expr list \<Rightarrow> int \<Rightarrow> ('f eval_state, 'f) prog" where
  "EvalRollingMin M ec as node_id =
     (if length as \<noteq> 2
      then throw (RuntimeError ''rolling_min() expects two arguments: rolling_min(expr, period)'')
      else bindm (lift_result (ParsePositiveIntegerPeriod M (as ! 1) ''rolling_min()'')) (\<lambda>period.
        bindm (ec (as ! 0)) (\<lambda>x.
          at_node ''rolling_min()'' node_id
            (on_deque rolling_min_deques rolling_min_deques_update rolling_min_indices
              rolling_min_indices_update node_id
              (interp_minmax M (nat period) (\<lambda>dq idx. UpdateRollingMin M dq idx (nat period) x))))))"

definition EvalRollingMax :: "'f machine \<Rightarrow> 'f child \<Rightarrow> 'f expr list \<Rightarrow> int \<Rightarrow> ('f eval_state, 'f) prog" where
  "EvalRollingMax M ec as node_id =
     (if length as \<noteq> 2
      then throw (RuntimeError ''rolling_max() expects two arguments: rolling_max(expr, period)'')
      else bindm (lift_result (ParsePositiveIntegerPeriod M (as ! 1) ''rolling_max()'')) (\<lambda>period.
        bindm (ec (as ! 0)) (\<lambda>x.
          at_node ''rolling_max()'' node_id
            (on_deque rolling_max_deques rolling_max_deques_update rolling_max_indices
              rolling_max_indices_update node_id
              (interp_minmax M (nat period) (\<lambda>dq idx. UpdateRollingMax M dq idx (nat period) x))))))"

definition EvalLag :: "'f machine \<Rightarrow> 'f child \<Rightarrow> 'f expr list \<Rightarrow> int \<Rightarrow> ('f eval_state, 'f) prog" where
  "EvalLag M ec as node_id =
     (if length as \<noteq> 2 then throw (RuntimeError ''lag() expects two arguments: lag(expr, period)'')
      else bindm (lift_result (ParsePositiveIntegerPeriod M (as ! 1) ''lag()'')) (\<lambda>period.
        bindm (ec (as ! 0)) (\<lambda>x.
          at_node ''lag()'' node_id
            (on_primal lag_states lag_states_update node_id
              (lagging M (\<lambda>st. LagPush M st (nat period) x))))))"

definition EvalCrossAbove :: "'f machine \<Rightarrow> 'f child \<Rightarrow> 'f expr list \<Rightarrow> int \<Rightarrow> ('f eval_state, 'f) prog" where
  "EvalCrossAbove M ec as node_id =
     (if length as \<noteq> 2 then throw (RuntimeError ''cross_above() expects two arguments'')
      else bindm (ec (as ! 0)) (\<lambda>a. bindm (ec (as ! 1)) (\<lambda>b.
        at_node ''cross_above()'' node_id
          (on_primal cross_states cross_states_update node_id
            (\<lambda>st. let (v, st') = cross_above_step M st (a, b) in (Inr v, st'))))))"

definition EvalCrossBelow :: "'f machine \<Rightarrow> 'f child \<Rightarrow> 'f expr list \<Rightarrow> int \<Rightarrow> ('f eval_state, 'f) prog" where
  "EvalCrossBelow M ec as node_id =
     (if length as \<noteq> 2 then throw (RuntimeError ''cross_below() expects two arguments'')
      else bindm (ec (as ! 0)) (\<lambda>a. bindm (ec (as ! 1)) (\<lambda>b.
        at_node ''cross_below()'' node_id
          (on_primal cross_states cross_states_update node_id
            (\<lambda>st. let (v, st') = cross_below_step M st (a, b) in (Inr v, st'))))))"

definition EvalRollingCorr :: "'f machine \<Rightarrow> 'f child \<Rightarrow> 'f expr list \<Rightarrow> int \<Rightarrow> ('f eval_state, 'f) prog" where
  "EvalRollingCorr M ec as node_id =
     (if length as \<noteq> 3
      then throw (RuntimeError ''rolling_corr() expects three arguments: rolling_corr(x, y, period)'')
      else bindm (lift_result (ParsePositiveIntegerPeriod M (as ! 2) ''rolling_corr()'')) (\<lambda>period.
        bindm (ec (as ! 0)) (\<lambda>x. bindm (ec (as ! 1)) (\<lambda>y.
          at_node ''rolling_corr()'' node_id
            (on_primal rolling_corr_states rolling_corr_states_update node_id
              (pushing (\<lambda>st. RollingPairPush M st (nat period) (x, y)) (RollingPairCorrelation M)))))))"

definition EvalRollingBeta :: "'f machine \<Rightarrow> 'f child \<Rightarrow> 'f expr list \<Rightarrow> int \<Rightarrow> ('f eval_state, 'f) prog" where
  "EvalRollingBeta M ec as node_id =
     (if length as \<noteq> 3
      then throw (RuntimeError ''rolling_beta() expects three arguments: rolling_beta(x, y, period)'')
      else bindm (lift_result (ParsePositiveIntegerPeriod M (as ! 2) ''rolling_beta()'')) (\<lambda>period.
        bindm (ec (as ! 0)) (\<lambda>x. bindm (ec (as ! 1)) (\<lambda>y.
          at_node ''rolling_beta()'' node_id
            (on_primal rolling_beta_states rolling_beta_states_update node_id
              (pushing (\<lambda>st. RollingPairPush M st (nat period) (x, y)) (RollingPairBeta M)))))))"

definition EvalKalman1d :: "'f machine \<Rightarrow> 'f child \<Rightarrow> 'f expr list \<Rightarrow> int \<Rightarrow> ('f eval_state, 'f) prog" where
  "EvalKalman1d M ec as node_id =
     (if length as \<noteq> 3 then throw (RuntimeError ''kalman1d() expects three arguments: kalman1d(x, q, r)'')
      else bindm (ec (as ! 1)) (\<lambda>q. bindm (ec (as ! 2)) (\<lambda>r.
        if flt M q (dlit M 0) \<or> fle M r (dlit M 0)
        then throw (RuntimeError ''kalman1d() requires q >= 0 and r > 0'')
        else bindm (ec (as ! 0)) (\<lambda>x.
          at_node ''kalman1d()'' node_id
            (on_primal kalman1d_states kalman1d_states_update node_id
              (\<lambda>st. let (v, st') = Kalman1dStep M st x q r in (Inr v, st')))))))"

text \<open>The pure functions of one argument.\<close>

definition eval_unary_fn :: "string \<Rightarrow> ('f \<Rightarrow> 'f) \<Rightarrow> 'f child \<Rightarrow> 'f expr list \<Rightarrow> ('f eval_state, 'f) prog" where
  "eval_unary_fn fn_name f ec as =
     (if length as \<noteq> 1 then throw (RuntimeError (fn_name @ ''() expects one argument''))
      else bindm (ec (as ! 0)) (\<lambda>v. ret (f v)))"

section \<open>The visitor\<close>

definition cache_and_return :: "int \<Rightarrow> ('f eval_state, 'f) prog \<Rightarrow> ('f eval_state, 'f) prog" where
  "cache_and_return node_id m =
     bindm m (\<lambda>v s. (Inr v, (fst s, if 0 < node_id then (snd s)(node_id \<mapsto> v) else snd s)))"

definition dispatch ::
    "'f machine \<Rightarrow> SymbolTable \<Rightarrow> 'f MarketState \<Rightarrow> 'f child \<Rightarrow> string \<Rightarrow> 'f expr list \<Rightarrow> int \<Rightarrow> int \<Rightarrow>
       ('f eval_state, 'f) prog" where
  "dispatch M symbols m ec name as node_id symbol_id =
     (if name = ''mid'' then lift_result (EvalMid M symbols m as symbol_id)
      else if name = ''bid'' then lift_result (EvalBid symbols m as symbol_id)
      else if name = ''ask'' then lift_result (EvalAsk symbols m as symbol_id)
      else if name = ''spread'' then lift_result (EvalSpread M symbols m as symbol_id)
      else if name = ''ema'' then cache_and_return node_id (EvalEma M ec as node_id)
      else if name = ''ema_alpha'' then cache_and_return node_id (EvalEmaAlpha M ec as node_id)
      else if name = ''sma'' then cache_and_return node_id (EvalSma M ec as node_id)
      else if name = ''rolling_std'' then cache_and_return node_id (EvalRollingStd M ec as node_id)
      else if name = ''zscore'' then cache_and_return node_id (EvalZscore M ec as node_id)
      else if name = ''vwap'' then cache_and_return node_id (EvalVwap M symbols m as node_id symbol_id)
      else if name = ''lag'' then cache_and_return node_id (EvalLag M ec as node_id)
      else if name = ''cross_above'' then cache_and_return node_id (EvalCrossAbove M ec as node_id)
      else if name = ''cross_below'' then cache_and_return node_id (EvalCrossBelow M ec as node_id)
      else if name = ''rolling_min'' then cache_and_return node_id (EvalRollingMin M ec as node_id)
      else if name = ''rolling_max'' then cache_and_return node_id (EvalRollingMax M ec as node_id)
      else if name = ''rolling_corr'' then cache_and_return node_id (EvalRollingCorr M ec as node_id)
      else if name = ''rolling_beta'' then cache_and_return node_id (EvalRollingBeta M ec as node_id)
      else if name = ''kalman1d'' then cache_and_return node_id (EvalKalman1d M ec as node_id)
      else if name = ''abs'' then eval_unary_fn name (fabs M) ec as
      else if name = ''log'' then eval_unary_fn name (flog M) ec as
      else if name = ''sqrt'' then eval_unary_fn name (dsqrt M) ec as
      else throw (RuntimeError (''Unsupported function in pre-LLVM stage: '' @ name)))"

definition visit_call ::
    "'f machine \<Rightarrow> SymbolTable \<Rightarrow> 'f MarketState \<Rightarrow> 'f child \<Rightarrow> string \<Rightarrow> 'f expr list \<Rightarrow> int \<Rightarrow> int \<Rightarrow>
       ('f eval_state, 'f) prog" where
  "visit_call M symbols m ec name as node_id symbol_id s =
     (case (if 0 < node_id then snd s node_id else None) of
        Some v \<Rightarrow> (Inr v, s)
      | None \<Rightarrow> dispatch M symbols m ec name as node_id symbol_id s)"

definition visit_param :: "string \<Rightarrow> int \<Rightarrow> ('f eval_state, 'f) prog" where
  "visit_param name pid s =
     (case params (fst s) of
        None \<Rightarrow> (Inl (RuntimeError ''Parameter access requires initialized parameter storage''), s)
      | Some ps \<Rightarrow>
          if pid < 0 \<or> nat pid \<ge> num_params (fst s)
          then (Inl (RuntimeError (''Parameter id out of range: '' @ name)), s)
          else if nat pid < length ps then (Inr (ps ! nat pid), s)
          else (Inl (Undefined ''parameter''), s))"

fun eval_binary :: "'f machine \<Rightarrow> BinaryOpKind \<Rightarrow> 'f \<Rightarrow> 'f \<Rightarrow> 'f" where
  "eval_binary M Add l r = dadd M l r"
| "eval_binary M Sub l r = dsub M l r"
| "eval_binary M Mul l r = dmul M l r"
| "eval_binary M Div l r = ddiv M l r"
| "eval_binary M Gt l r = dbool M (flt M r l)"
| "eval_binary M Lt l r = dbool M (flt M l r)"
| "eval_binary M Gte l r = dbool M (fle M r l)"
| "eval_binary M Lte l r = dbool M (fle M l r)"
| "eval_binary M Eq l r = dbool M (flt M (fabs M (dsub M l r)) (tol M))"
| "eval_binary M NotEq l r = dbool M (fle M (tol M) (fabs M (dsub M l r)))"
| "eval_binary M And l r = dbool M (\<not> feq M l (dlit M 0) \<and> \<not> feq M r (dlit M 0))"
| "eval_binary M Or l r = dbool M (\<not> feq M l (dlit M 0) \<or> \<not> feq M r (dlit M 0))"

text \<open>The methods depend on the evaluator only through the arguments of the call.\<close>

lemmas method_defs = EvalEma_def EvalEmaAlpha_def EvalSma_def EvalRollingStd_def EvalZscore_def
  EvalLag_def EvalCrossAbove_def EvalCrossBelow_def EvalRollingMin_def EvalRollingMax_def
  EvalRollingCorr_def EvalRollingBeta_def EvalKalman1d_def eval_unary_fn_def

lemma method_cong:
  assumes "\<And>a. a \<in> set as \<Longrightarrow> ec a = ec' a"
  shows "EvalEma M ec as i = EvalEma M ec' as i" "EvalEmaAlpha M ec as i = EvalEmaAlpha M ec' as i"
    "EvalSma M ec as i = EvalSma M ec' as i" "EvalRollingStd M ec as i = EvalRollingStd M ec' as i"
    "EvalZscore M ec as i = EvalZscore M ec' as i" "EvalLag M ec as i = EvalLag M ec' as i"
    "EvalCrossAbove M ec as i = EvalCrossAbove M ec' as i"
    "EvalCrossBelow M ec as i = EvalCrossBelow M ec' as i"
    "EvalRollingMin M ec as i = EvalRollingMin M ec' as i"
    "EvalRollingMax M ec as i = EvalRollingMax M ec' as i"
    "EvalRollingCorr M ec as i = EvalRollingCorr M ec' as i"
    "EvalRollingBeta M ec as i = EvalRollingBeta M ec' as i"
    "EvalKalman1d M ec as i = EvalKalman1d M ec' as i"
    "eval_unary_fn n f ec as = eval_unary_fn n f ec' as"
proof -
  have "i < length as \<Longrightarrow> ec (as ! i) = ec' (as ! i)" for i by (simp add: assms)
  then show "EvalEma M ec as i = EvalEma M ec' as i" "EvalEmaAlpha M ec as i = EvalEmaAlpha M ec' as i"
    "EvalSma M ec as i = EvalSma M ec' as i" "EvalRollingStd M ec as i = EvalRollingStd M ec' as i"
    "EvalZscore M ec as i = EvalZscore M ec' as i" "EvalLag M ec as i = EvalLag M ec' as i"
    "EvalCrossAbove M ec as i = EvalCrossAbove M ec' as i"
    "EvalCrossBelow M ec as i = EvalCrossBelow M ec' as i"
    "EvalRollingMin M ec as i = EvalRollingMin M ec' as i"
    "EvalRollingMax M ec as i = EvalRollingMax M ec' as i"
    "EvalRollingCorr M ec as i = EvalRollingCorr M ec' as i"
    "EvalRollingBeta M ec as i = EvalRollingBeta M ec' as i"
    "EvalKalman1d M ec as i = EvalKalman1d M ec' as i"
    "eval_unary_fn n f ec as = eval_unary_fn n f ec' as"
    by (simp_all add: method_defs cong: if_cong)
qed

lemma visit_call_cong [fundef_cong]:
  assumes "as = as'" and "\<And>a. a \<in> set as' \<Longrightarrow> ec a = ec' a"
  shows "visit_call M syms m ec n as i s = visit_call M syms m ec' n as' i s"
proof -
  have "dispatch M syms m ec n as' i s = dispatch M syms m ec' n as' i s"
    by (simp only: dispatch_def method_cong [of as' ec ec', OF assms(2)])
  then show ?thesis by (simp only: visit_call_def fun_eq_iff assms(1) simp_thms)
qed

fun Visit ::
    "'f machine \<Rightarrow> SymbolTable \<Rightarrow> 'f MarketState \<Rightarrow> 'f expr \<Rightarrow> ('f eval_state, 'f) prog" where
  "Visit M symbols m (NumberLiteral l v) = ret v"
| "Visit M symbols m (IdentifierExpr l n) =
     throw (RuntimeError ''Bare identifiers are not valid expressions in MVP'')"
| "Visit M symbols m (ParameterExpr l n pid) = visit_param n pid"
| "Visit M symbols m (UnaryOp l k e) =
     bindm (Visit M symbols m e) (\<lambda>v. ret (if k = Plus then v else fneg M v))"
| "Visit M symbols m (BinaryOp l k a b) =
     bindm (Visit M symbols m a) (\<lambda>x. bindm (Visit M symbols m b) (\<lambda>y. ret (eval_binary M k x y)))"
| "Visit M symbols m (FunctionCall l name as node_id symbol_id) =
     visit_call M symbols m (\<lambda>a. Visit M symbols m a) name as node_id symbol_id"
| "Visit M symbols m (Conditional l c t e) =
     bindm (Visit M symbols m c) (\<lambda>v.
       if \<not> feq M v (dlit M 0) then Visit M symbols m t else Visit M symbols m e)"

definition Evaluate ::
    "'f machine \<Rightarrow> SymbolTable \<Rightarrow> 'f SignalDef \<Rightarrow> 'f MarketState \<Rightarrow> ('f SignalContext, 'f) prog" where
  "Evaluate M symbols signal m ctx =
     (let (r, s) = Visit M symbols m (body signal) (ctx, Map.empty) in (r, fst s))"

end
