(* ===== verification/Type_Check.thy ===== *)
theory Type_Check
  imports Ast
begin

text \<open>
  The two-type checker (\<^verbatim>\<open>src/type_check.cpp\<close>). A violation is a located
  \<^verbatim>\<open>ParseError\<close>; the checker stops at the first one. \<open>has_type\<close> is the declarative
  type system of the header comment of \<^verbatim>\<open>src/type_check.h\<close>, and the checker decides it.
\<close>

datatype StaticType = Number | Bool

primrec TypeName :: "StaticType \<Rightarrow> string" where
  "TypeName Number = ''number''"
| "TypeName Bool = ''bool''"

definition IsTickerFirstArgFn :: "string \<Rightarrow> bool" where
  "IsTickerFirstArgFn n \<longleftrightarrow>
     n = ''mid'' \<or> n = ''bid'' \<or> n = ''ask'' \<or> n = ''spread'' \<or> n = ''vwap''"

definition RequireType ::
    "'f expr \<Rightarrow> StaticType \<Rightarrow> StaticType \<Rightarrow> string \<Rightarrow> unit result" where
  "RequireType e actual want context_name =
     (if actual = want then Inr ()
      else Inl (ParseError
        (''type error: '' @ context_name @ '' requires `'' @ TypeName want @ ''`, got `'' @
         TypeName actual @ ''`'') (loc_of e) []))"

fun is_identifier :: "'f expr \<Rightarrow> bool" where
  "is_identifier (IdentifierExpr l n) = True"
| "is_identifier _ = False"

definition is_arith :: "BinaryOpKind \<Rightarrow> bool" where
  "is_arith k \<longleftrightarrow> k \<in> {Add, Sub, Mul, Div}"

definition is_logical :: "BinaryOpKind \<Rightarrow> bool" where
  "is_logical k \<longleftrightarrow> k \<in> {And, Or}"

fun TypeCheckExpr :: "'f expr \<Rightarrow> StaticType result"
  and TypeCheckArgs :: "string \<Rightarrow> bool \<Rightarrow> 'f expr list \<Rightarrow> unit result" where
  "TypeCheckExpr (NumberLiteral l v) = Inr Number"
| "TypeCheckExpr (IdentifierExpr l n) = Inr Number"
| "TypeCheckExpr (ParameterExpr l n i) = Inr Number"
| "TypeCheckExpr (UnaryOp l k e) =
     rbind (TypeCheckExpr e) (\<lambda>inner.
     rbind (RequireType e inner Number ''unary +/-'') (\<lambda>_. Inr Number))"
| "TypeCheckExpr (BinaryOp l k a b) =
     rbind (TypeCheckExpr a) (\<lambda>lt.
     rbind (TypeCheckExpr b) (\<lambda>rt.
       if is_arith k then
         rbind (RequireType a lt Number ''arithmetic operator'') (\<lambda>_.
         rbind (RequireType b rt Number ''arithmetic operator'') (\<lambda>_. Inr Number))
       else if is_logical k then
         rbind (RequireType a lt Bool ''logical && / ||'') (\<lambda>_.
         rbind (RequireType b rt Bool ''logical && / ||'') (\<lambda>_. Inr Bool))
       else
         rbind (RequireType a lt Number ''comparison operator'') (\<lambda>_.
         rbind (RequireType b rt Number ''comparison operator'') (\<lambda>_. Inr Bool))))"
| "TypeCheckExpr (Conditional l c t e) =
     rbind (TypeCheckExpr c) (\<lambda>ct.
     rbind (RequireType c ct Bool ''if-condition'') (\<lambda>_.
     rbind (TypeCheckExpr t) (\<lambda>tt.
     rbind (TypeCheckExpr e) (\<lambda>et.
     rbind (RequireType t tt Number ''then-branch'') (\<lambda>_.
     rbind (RequireType e et Number ''else-branch'') (\<lambda>_. Inr Number))))))"
| "TypeCheckExpr (FunctionCall l n as i s) =
     rbind (TypeCheckArgs n (IsTickerFirstArgFn n) as) (\<lambda>_. Inr Number)"
| "TypeCheckArgs n ticker_here [] = Inr ()"
| "TypeCheckArgs n ticker_here (a # as) =
     (if ticker_here then
        (if is_identifier a then TypeCheckArgs n False as
         else Inl (ParseError (n @ ''() first argument must be a ticker identifier'')
                     (loc_of a) []))
      else
        rbind (TypeCheckExpr a) (\<lambda>t.
        rbind (RequireType a t Number ''function-call argument'') (\<lambda>_.
          TypeCheckArgs n False as)))"

definition TypeCheckSignal :: "'f SignalDef \<Rightarrow> unit result" where
  "TypeCheckSignal sg =
     rbind (TypeCheckExpr (body sg)) (\<lambda>bt.
       if bt \<noteq> Number
       then Inl (ParseError (''type error: signal `'' @ sig_name sg @
              ''` body must be `number`, but evaluates to `bool` (wrap it in an if/then/else or use 1.0/0.0)'')
              (loc_of (body sg)) [])
       else Inr ())"

section \<open>The type system the checker decides\<close>

inductive has_type :: "'f expr \<Rightarrow> StaticType \<Rightarrow> bool" where
  ht_literal: "has_type (NumberLiteral l v) Number"
| ht_identifier: "has_type (IdentifierExpr l n) Number"
| ht_parameter: "has_type (ParameterExpr l n i) Number"
| ht_unary: "has_type e Number \<Longrightarrow> has_type (UnaryOp l k e) Number"
| ht_arith: "is_arith k \<Longrightarrow> has_type a Number \<Longrightarrow> has_type b Number \<Longrightarrow>
    has_type (BinaryOp l k a b) Number"
| ht_logical: "is_logical k \<Longrightarrow> has_type a Bool \<Longrightarrow> has_type b Bool \<Longrightarrow>
    has_type (BinaryOp l k a b) Bool"
| ht_comparison: "\<not> is_arith k \<Longrightarrow> \<not> is_logical k \<Longrightarrow> has_type a Number \<Longrightarrow> has_type b Number \<Longrightarrow>
    has_type (BinaryOp l k a b) Bool"
| ht_conditional: "has_type c Bool \<Longrightarrow> has_type t Number \<Longrightarrow> has_type e Number \<Longrightarrow>
    has_type (Conditional l c t e) Number"
| ht_ticker_call: "IsTickerFirstArgFn n \<Longrightarrow> is_identifier a \<Longrightarrow> (\<And>x. x \<in> set as \<Longrightarrow> has_type x Number) \<Longrightarrow>
    has_type (FunctionCall l n (a # as) i s) Number"
| ht_call: "\<not> IsTickerFirstArgFn n \<or> as = [] \<Longrightarrow> (\<And>x. x \<in> set as \<Longrightarrow> has_type x Number) \<Longrightarrow>
    has_type (FunctionCall l n as i s) Number"

inductive_cases has_type_UnaryOpE [elim!]: "has_type (UnaryOp l k e) t"
inductive_cases has_type_BinaryOpE [elim!]: "has_type (BinaryOp l k a b) t"
inductive_cases has_type_ConditionalE [elim!]: "has_type (Conditional l c x y) t"
inductive_cases has_type_CallE [elim!]: "has_type (FunctionCall l n as i s) t"
inductive_simps has_type_leaf_simps [simp]:
  "has_type (NumberLiteral l v) t" "has_type (IdentifierExpr l n) t"
  "has_type (ParameterExpr l n i) t"

lemma RequireType_Inr [simp]: "RequireType e a w c = Inr u \<longleftrightarrow> a = w"
  by (simp add: RequireType_def)

lemma RequireType_same [simp]: "RequireType e t t c = Inr ()"
  by (simp add: RequireType_def)

lemma TypeCheck_sound:
  fixes e :: "'f expr" and as :: "'f expr list"
  shows "TypeCheckExpr e = Inr t \<Longrightarrow> has_type e t"
    and "TypeCheckArgs n tick as = Inr u \<Longrightarrow>
      (if tick then (case as of [] \<Rightarrow> True
         | a # bs \<Rightarrow> is_identifier a \<and> (\<forall>x \<in> set bs. has_type x Number))
       else (\<forall>x \<in> set as. has_type x Number))"
proof (induction e and n tick as arbitrary: t and u rule: TypeCheckExpr_TypeCheckArgs.induct)
  case (7 l n as i s)
  show ?case
  proof (cases "IsTickerFirstArgFn n \<and> as \<noteq> []")
    case True
    with 7 show ?thesis
      by (cases as) (auto simp: rbind_eq_Inr_iff intro!: ht_ticker_call split: if_splits)
  next
    case False
    with 7 show ?thesis
      by (cases as) (auto simp: rbind_eq_Inr_iff intro!: ht_call split: if_splits)
  qed
next
  case (9 n tick a as)
  then show ?case by (auto simp: rbind_eq_Inr_iff split: if_splits)
qed (auto simp: rbind_eq_Inr_iff intro: has_type.intros split: if_splits)

lemma TypeCheckArgs_numbers:
  "(\<And>x. x \<in> set as \<Longrightarrow> TypeCheckExpr x = Inr Number) \<Longrightarrow> TypeCheckArgs n False as = Inr ()"
  by (induction as) auto

lemma TypeCheck_complete: "has_type e t \<Longrightarrow> TypeCheckExpr e = Inr t"
proof (induction rule: has_type.induct)
  case (ht_ticker_call n a as l i s)
  then show ?case by (simp add: TypeCheckArgs_numbers)
next
  case (ht_call n as l i s)
  then show ?case by (cases as) (auto simp: TypeCheckArgs_numbers)
qed (auto simp: RequireType_def is_arith_def is_logical_def)

lemma TypeCheckExpr_iff: "TypeCheckExpr e = Inr t \<longleftrightarrow> has_type e t"
  using TypeCheck_sound(1) TypeCheck_complete by blast

lemma has_type_unique: "has_type e t \<Longrightarrow> has_type e u \<Longrightarrow> t = u"
  by (metis TypeCheckExpr_iff Inr_inject)

text \<open>Every rejection is a located error, never another failure.\<close>

lemma TypeCheck_error:
  fixes e :: "'f expr" and as :: "'f expr list"
  shows "TypeCheckExpr e = Inl x \<Longrightarrow> \<exists>m l. x = ParseError m l []"
    and "TypeCheckArgs n tick as = Inl x \<Longrightarrow> \<exists>m l. x = ParseError m l []"
  by (induction e and n tick as rule: TypeCheckExpr_TypeCheckArgs.induct)
    (auto simp: rbind_eq_Inl_iff RequireType_def split: if_splits)

lemma TypeCheckSignal_iff: "TypeCheckSignal sg = Inr () \<longleftrightarrow> has_type (body sg) Number"
  by (auto simp: TypeCheckSignal_def rbind_eq_Inr_iff TypeCheckExpr_iff)

text \<open>C10: The checker decides the declarative type system: it accepts a signal exactly when its body
  has type number, and rejects every other signal with a located error.\<close>

theorem TypeCheckSignal_decides:
  "if has_type (body sg) Number then TypeCheckSignal sg = Inr ()
   else \<exists>m l. TypeCheckSignal sg = Inl (ParseError m l [])"
proof (cases "TypeCheckSignal sg")
  case (Inl x)
  then have "\<exists>m l. x = ParseError m l []"
    by (auto simp: TypeCheckSignal_def rbind_eq_Inl_iff dest: TypeCheck_error(1) split: if_splits)
  with Inl TypeCheckSignal_iff [of sg] show ?thesis by auto
next
  case (Inr u)
  with TypeCheckSignal_iff [of sg] show ?thesis by simp
qed

end
