(* ===== verification/Constant_Fold.thy ===== *)
theory Constant_Fold
  imports Type_Check
begin

text \<open>
  Constant folding on the syntax tree (\<^verbatim>\<open>src/constant_fold.cpp\<close>): bottom-up, with the
  arithmetic of the machine, and never folding a call. That folding preserves what the
  interpreter computes is proved with the interpreter.
\<close>

fun AsNumber :: "'f expr \<Rightarrow> 'f option" where
  "AsNumber (NumberLiteral l v) = Some v"
| "AsNumber _ = None"

text \<open>The \<^verbatim>\<open>switch\<close> over two literals. \<^verbatim>\<open>l != 0.0\<close> is \<open>\<not> feq\<close>,
  true for NaN.\<close>

fun fold_binary :: "'f machine \<Rightarrow> BinaryOpKind \<Rightarrow> 'f \<Rightarrow> 'f \<Rightarrow> 'f" where
  "fold_binary M Add l r = dadd M l r"
| "fold_binary M Sub l r = dsub M l r"
| "fold_binary M Mul l r = dmul M l r"
| "fold_binary M Div l r = ddiv M l r"
| "fold_binary M Gt l r = dbool M (flt M r l)"
| "fold_binary M Lt l r = dbool M (flt M l r)"
| "fold_binary M Gte l r = dbool M (fle M r l)"
| "fold_binary M Lte l r = dbool M (fle M l r)"
| "fold_binary M Eq l r = dbool M (feq M l r)"
| "fold_binary M NotEq l r = dbool M (\<not> feq M l r)"
| "fold_binary M And l r = dbool M (\<not> feq M l (dlit M 0) \<and> \<not> feq M r (dlit M 0))"
| "fold_binary M Or l r = dbool M (\<not> feq M l (dlit M 0) \<or> \<not> feq M r (dlit M 0))"

fun FoldConstants :: "'f machine \<Rightarrow> 'f expr \<Rightarrow> 'f expr" where
  "FoldConstants M (UnaryOp l k e) =
     (let e' = FoldConstants M e
      in case AsNumber e' of
           Some v \<Rightarrow> NumberLiteral l (if k = Minus then fneg M v else v)
         | None \<Rightarrow> UnaryOp l k e')"
| "FoldConstants M (BinaryOp l k a b) =
     (let a' = FoldConstants M a; b' = FoldConstants M b
      in case (AsNumber a', AsNumber b') of
           (Some x, Some y) \<Rightarrow> NumberLiteral l (fold_binary M k x y)
         | _ \<Rightarrow> BinaryOp l k a' b')"
| "FoldConstants M (Conditional l c t e) =
     (let c' = FoldConstants M c; t' = FoldConstants M t; e' = FoldConstants M e
      in case AsNumber c' of
           Some v \<Rightarrow> set_loc l (if \<not> feq M v (dlit M 0) then t' else e')
         | None \<Rightarrow> Conditional l c' t' e')"
| "FoldConstants M (FunctionCall l n as i s) = FunctionCall l n (map (FoldConstants M) as) i s"
| "FoldConstants M e = e"

definition FoldConstantsInPlace :: "'f machine \<Rightarrow> 'f SignalDef \<Rightarrow> 'f SignalDef" where
  "FoldConstantsInPlace M sg = sg\<lparr>body := FoldConstants M (body sg)\<rparr>"

lemma AsNumber_Some: "AsNumber e = Some v \<longleftrightarrow> (\<exists>l. e = NumberLiteral l v)"
  by (cases e) auto

lemma loc_of_set_loc [simp]: "loc_of (set_loc l e) = l"
  by (cases e) auto

lemma AsNumber_set_loc [simp]: "AsNumber (set_loc l e) = AsNumber e"
  by (cases e) auto

text \<open>The location of the folded node is kept, so a diagnostic points at the source.\<close>

lemma loc_of_FoldConstants [simp]: "loc_of (FoldConstants M e) = loc_of e"
  by (cases e) (auto simp: Let_def split: option.splits)

text \<open>What a fully folded tree looks like: no operator is applied to literals only.\<close>

fun folded :: "'f expr \<Rightarrow> bool" where
  "folded (UnaryOp l k e) \<longleftrightarrow> AsNumber e = None \<and> folded e"
| "folded (BinaryOp l k a b) \<longleftrightarrow> \<not> (AsNumber a \<noteq> None \<and> AsNumber b \<noteq> None) \<and> folded a \<and> folded b"
| "folded (Conditional l c t e) \<longleftrightarrow> AsNumber c = None \<and> folded c \<and> folded t \<and> folded e"
| "folded (FunctionCall l n as i s) \<longleftrightarrow> list_all folded as"
| "folded _ \<longleftrightarrow> True"

lemma folded_set_loc [simp]: "folded (set_loc l e) = folded e"
  by (cases e) auto

lemma folded_FoldConstants: "folded (FoldConstants M e)"
  by (induction e) (auto simp: Let_def list_all_iff split: option.splits)

lemma set_loc_same [simp]: "set_loc (loc_of e) e = e"
  by (cases e) auto

lemma FoldConstants_folded: "folded e \<Longrightarrow> FoldConstants M e = e"
  by (induction e) (auto simp: Let_def list_all_iff map_idI split: option.splits)

lemma FoldConstants_idem: "FoldConstants M (FoldConstants M e) = FoldConstants M e"
  by (rule FoldConstants_folded [OF folded_FoldConstants])

text \<open>C31: Folding reaches a normal form in one pass: no operator is left applied to literals only,
  and folding again changes nothing.\<close>

theorem FoldConstants_normal_form:
  "folded (FoldConstants M e) \<and> FoldConstants M (FoldConstants M e) = FoldConstants M e"
  by (simp add: folded_FoldConstants FoldConstants_idem)

end
