(* ===== verification/Interpreter_Facts.thy ===== *)
theory Interpreter_Facts
  imports Interpreter Constant_Fold
begin

text \<open>
  What the interpreter guarantees: Boolean expressions evaluate to the literals zero and one,
  constant folding refines evaluation, a cached operator is never stepped again in the same
  tick, and a prewarmed context is never accessed out of bounds. The last two are instances of
  one induction over the visitor, stated as a locale of the closure conditions it needs.
\<close>

section \<open>Boolean values\<close>

lemma eval_binary_bool: "\<not> is_arith k \<Longrightarrow> \<exists>b. eval_binary M k x y = dbool M b"
  by (cases k) (auto simp: is_arith_def)

lemma Visit_bool:
  assumes "has_type e Bool" and "Visit M symbols m e s = (Inr v, s')"
  shows "\<exists>b. v = dbool M b"
  using assms
  by (cases e) (auto simp: bindm_eq_Inr_iff is_logical_def is_arith_def intro!: eval_binary_bool)

section \<open>Folding refines evaluation\<close>

text \<open>Every comparison that folding decides is decided as the interpreter would.\<close>

fun folds_agree :: "'f machine \<Rightarrow> 'f expr \<Rightarrow> bool" where
  "folds_agree M (UnaryOp l k e) \<longleftrightarrow> folds_agree M e"
| "folds_agree M (BinaryOp l k a b) \<longleftrightarrow> folds_agree M a \<and> folds_agree M b \<and>
     (case (AsNumber (FoldConstants M a), AsNumber (FoldConstants M b)) of
        (Some x, Some y) \<Rightarrow> fold_binary M k x y = eval_binary M k x y
      | _ \<Rightarrow> True)"
| "folds_agree M (Conditional l c t e) \<longleftrightarrow> folds_agree M c \<and> folds_agree M t \<and> folds_agree M e"
| "folds_agree M (FunctionCall l n as i s) \<longleftrightarrow> list_all (folds_agree M) as"
| "folds_agree M e \<longleftrightarrow> True"

lemma fold_binary_eval: "k \<noteq> Eq \<Longrightarrow> k \<noteq> NotEq \<Longrightarrow> fold_binary M k x y = eval_binary M k x y"
  by (cases k) auto

fun equality_free :: "'f expr \<Rightarrow> bool" where
  "equality_free (UnaryOp l k e) \<longleftrightarrow> equality_free e"
| "equality_free (BinaryOp l k a b) \<longleftrightarrow> k \<noteq> Eq \<and> k \<noteq> NotEq \<and> equality_free a \<and> equality_free b"
| "equality_free (Conditional l c t e) \<longleftrightarrow> equality_free c \<and> equality_free t \<and> equality_free e"
| "equality_free (FunctionCall l n as i s) \<longleftrightarrow> list_all equality_free as"
| "equality_free e \<longleftrightarrow> True"

lemma equality_free_agree: "equality_free e \<Longrightarrow> folds_agree M e"
  by (induction e) (auto simp: list_all_iff fold_binary_eval split: option.splits)

lemma Visit_set_loc [simp]: "Visit M symbols m (set_loc l e) = Visit M symbols m e"
  by (cases e) auto

lemma period_fold:
  "ParsePositiveIntegerPeriod M a n = Inr x \<Longrightarrow> ParsePositiveIntegerPeriod M (FoldConstants M a) n = Inr x"
  by (cases a) (simp_all add: ParsePositiveIntegerPeriod_def)

lemma refines_period:
  "refines (lift_result (ParsePositiveIntegerPeriod M a n))
     (lift_result (ParsePositiveIntegerPeriod M (FoldConstants M a) n))"
  by (cases a) (simp_all add: ParsePositiveIntegerPeriod_def refines_def)

lemma refines_if [refines_intro]:
  "(b \<Longrightarrow> refines p p') \<Longrightarrow> (\<not> b \<Longrightarrow> refines q q') \<Longrightarrow> refines (if b then p else q) (if b then p' else q')"
  by simp

lemma refines_lift: "(\<And>x. r = Inr x \<Longrightarrow> r' = Inr x) \<Longrightarrow> refines (lift_result r) (lift_result r')"
  by (auto simp: refines_def)

lemma ResolveSymbolSlot_fold:
  "ResolveSymbolSlot symbols n as i = Inr x \<Longrightarrow> ResolveSymbolSlot symbols n (map (FoldConstants M) as) i = Inr x"
  by (cases as) (auto simp: ResolveSymbolSlot_def split: if_splits expr.splits)

lemma method_refines:
  assumes "\<And>a. a \<in> set as \<Longrightarrow> refines (ec a) (ec (FoldConstants M a))"
  defines "bs \<equiv> map (FoldConstants M) as"
  shows "refines (EvalEma M ec as i) (EvalEma M ec bs i)"
    "refines (EvalEmaAlpha M ec as i) (EvalEmaAlpha M ec bs i)"
    "refines (EvalSma M ec as i) (EvalSma M ec bs i)"
    "refines (EvalRollingStd M ec as i) (EvalRollingStd M ec bs i)"
    "refines (EvalZscore M ec as i) (EvalZscore M ec bs i)"
    "refines (EvalLag M ec as i) (EvalLag M ec bs i)"
    "refines (EvalCrossAbove M ec as i) (EvalCrossAbove M ec bs i)"
    "refines (EvalCrossBelow M ec as i) (EvalCrossBelow M ec bs i)"
    "refines (EvalRollingMin M ec as i) (EvalRollingMin M ec bs i)"
    "refines (EvalRollingMax M ec as i) (EvalRollingMax M ec bs i)"
    "refines (EvalRollingCorr M ec as i) (EvalRollingCorr M ec bs i)"
    "refines (EvalRollingBeta M ec as i) (EvalRollingBeta M ec bs i)"
    "refines (EvalKalman1d M ec as i) (EvalKalman1d M ec bs i)"
    "refines (eval_unary_fn n f ec as) (eval_unary_fn n f ec bs)"
proof -
  have arg: "k < length as \<Longrightarrow> refines (ec (as ! k)) (ec (bs ! k))" for k
    by (simp add: bs_def assms(1))
  have per: "k < length as \<Longrightarrow> refines (lift_result (ParsePositiveIntegerPeriod M (as ! k) nm))
      (lift_result (ParsePositiveIntegerPeriod M (bs ! k) nm))" for k nm
    by (simp add: bs_def refines_period)
  have len: "length bs = length as" by (simp add: bs_def)
  show "refines (EvalEma M ec as i) (EvalEma M ec bs i)"
    "refines (EvalEmaAlpha M ec as i) (EvalEmaAlpha M ec bs i)"
    "refines (EvalSma M ec as i) (EvalSma M ec bs i)"
    "refines (EvalRollingStd M ec as i) (EvalRollingStd M ec bs i)"
    "refines (EvalZscore M ec as i) (EvalZscore M ec bs i)"
    "refines (EvalLag M ec as i) (EvalLag M ec bs i)"
    "refines (EvalCrossAbove M ec as i) (EvalCrossAbove M ec bs i)"
    "refines (EvalCrossBelow M ec as i) (EvalCrossBelow M ec bs i)"
    "refines (EvalRollingMin M ec as i) (EvalRollingMin M ec bs i)"
    "refines (EvalRollingMax M ec as i) (EvalRollingMax M ec bs i)"
    "refines (EvalRollingCorr M ec as i) (EvalRollingCorr M ec bs i)"
    "refines (EvalRollingBeta M ec as i) (EvalRollingBeta M ec bs i)"
    "refines (EvalKalman1d M ec as i) (EvalKalman1d M ec bs i)"
    "refines (eval_unary_fn n f ec as) (eval_unary_fn n f ec bs)"
    unfolding method_defs len
    by (intro refines_intro arg per; simp)+
qed

lemma cache_and_return_refines [refines_intro]:
  "refines p p' \<Longrightarrow> refines (cache_and_return i p) (cache_and_return i p')"
  unfolding cache_and_return_def by (intro refines_bindm refines_refl)

lemma EvalVwap_refines:
  "refines (EvalVwap M symbols m as i sy) (EvalVwap M symbols m (map (FoldConstants M) as) i sy)"
  unfolding EvalVwap_def length_map
  by (intro refines_intro refines_lift; simp add: refines_period)
    (auto simp: rbind_eq_Inr_iff dest: ResolveSymbolSlot_fold period_fold)

lemma market_refines:
  "refines (lift_result (EvalMid M symbols m as sy)) (lift_result (EvalMid M symbols m (map (FoldConstants M) as) sy))"
  "refines (lift_result (EvalBid symbols m as sy)) (lift_result (EvalBid symbols m (map (FoldConstants M) as) sy))"
  "refines (lift_result (EvalAsk symbols m as sy)) (lift_result (EvalAsk symbols m (map (FoldConstants M) as) sy))"
  "refines (lift_result (EvalSpread M symbols m as sy)) (lift_result (EvalSpread M symbols m (map (FoldConstants M) as) sy))"
  by (rule refines_lift, force simp: EvalMid_def EvalBid_def EvalAsk_def EvalSpread_def
      rbind_eq_Inr_iff dest: ResolveSymbolSlot_fold split: if_splits)+

lemma dispatch_refines:
  assumes "\<And>a. a \<in> set as \<Longrightarrow> refines (ec a) (ec (FoldConstants M a))"
  shows "refines (dispatch M symbols m ec n as i sy) (dispatch M symbols m ec n (map (FoldConstants M) as) i sy)"
  unfolding dispatch_def
  by (intro refines_intro method_refines [of as ec M, OF assms] EvalVwap_refines market_refines)

lemma visit_call_refines:
  assumes "\<And>a. a \<in> set as \<Longrightarrow> refines (ec a) (ec (FoldConstants M a))"
  shows "refines (visit_call M symbols m ec n as i sy) (visit_call M symbols m ec n (map (FoldConstants M) as) i sy)"
  using dispatch_refines [of as ec M symbols m n i sy, OF assms]
  by (auto simp: refines_def visit_call_def split: option.splits)

lemma Visit_FoldConstants:
  "folds_agree M e \<Longrightarrow> refines (Visit M symbols m e) (Visit M symbols m (FoldConstants M e))"
proof (induction e)
  case (UnaryOp l k e)
  then have IH: "refines (Visit M symbols m e) (Visit M symbols m (FoldConstants M e))" by simp
  note step = refines_bindm [OF IH, of "\<lambda>v. ret (if k = Plus then v else fneg M v)", OF refines_refl]
  show ?case
  proof (cases "AsNumber (FoldConstants M e)")
    case None
    with step show ?thesis by simp
  next
    case (Some v)
    then obtain l' where "FoldConstants M e = NumberLiteral l' v" by (auto simp: AsNumber_Some)
    with step show ?thesis by (cases k) simp_all
  qed
next
  case (BinaryOp l k a b)
  then have IH: "refines (Visit M symbols m a) (Visit M symbols m (FoldConstants M a))"
      "refines (Visit M symbols m b) (Visit M symbols m (FoldConstants M b))" by auto
  have step: "refines (Visit M symbols m (BinaryOp l k a b))
      (Visit M symbols m (BinaryOp l k (FoldConstants M a) (FoldConstants M b)))"
    unfolding Visit.simps by (intro refines_intro IH)
  show ?case
  proof (cases "\<exists>x y. AsNumber (FoldConstants M a) = Some x \<and> AsNumber (FoldConstants M b) = Some y")
    case True
    then obtain x y l1 l2 where "FoldConstants M a = NumberLiteral l1 x" "FoldConstants M b = NumberLiteral l2 y"
      by (auto simp: AsNumber_Some)
    with step BinaryOp.prems show ?thesis by simp
  next
    case False
    then have "FoldConstants M (BinaryOp l k a b) = BinaryOp l k (FoldConstants M a) (FoldConstants M b)"
      by (auto simp: Let_def split: option.splits)
    with step show ?thesis by simp
  qed
next
  case (Conditional l c t e)
  then have IH: "refines (Visit M symbols m c) (Visit M symbols m (FoldConstants M c))"
      "refines (Visit M symbols m t) (Visit M symbols m (FoldConstants M t))"
      "refines (Visit M symbols m e) (Visit M symbols m (FoldConstants M e))" by auto
  have step: "refines (Visit M symbols m (Conditional l c t e))
      (Visit M symbols m (Conditional l (FoldConstants M c) (FoldConstants M t) (FoldConstants M e)))"
    unfolding Visit.simps by (intro refines_intro IH)
  show ?case
  proof (cases "AsNumber (FoldConstants M c)")
    case None
    then have "FoldConstants M (Conditional l c t e) =
        Conditional l (FoldConstants M c) (FoldConstants M t) (FoldConstants M e)" by (simp add: Let_def)
    with step show ?thesis by simp
  next
    case (Some v)
    then obtain l' where "FoldConstants M c = NumberLiteral l' v" by (auto simp: AsNumber_Some)
    with step show ?thesis by (cases "feq M v (dlit M 0)") (simp_all add: Let_def)
  qed
next
  case (FunctionCall l n as i s)
  then show ?case by (simp add: list_all_iff visit_call_refines)
qed auto

section \<open>One induction over the visitor\<close>

text \<open>The steps the methods make on the slots of node \<open>i\<close>.\<close>

inductive node_step :: "'f machine \<Rightarrow> int \<Rightarrow> ('f SignalContext, 'f) prog \<Rightarrow> bool" for M i where
  ns_ema: "node_step M i (on_primal ema_states ema_states_update i (\<lambda>st. let (v, st') = f st in (Inr v, st')))"
| ns_cross: "node_step M i (on_primal cross_states cross_states_update i (\<lambda>st. let (v, st') = g st in (Inr v, st')))"
| ns_kalman1d: "node_step M i (on_primal kalman1d_states kalman1d_states_update i (\<lambda>st. let (v, st') = h st in (Inr v, st')))"
| ns_sma: "node_step M i (on_primal sma_states sma_states_update i (pushing (\<lambda>st. RingStatsPush M st p x) k))"
| ns_rolling_std: "node_step M i (on_primal rolling_std_states rolling_std_states_update i (pushing (\<lambda>st. RingStatsPush M st p x) k))"
| ns_zscore: "node_step M i (on_primal zscore_states zscore_states_update i (pushing (\<lambda>st. RingStatsPush M st p x) k))"
| ns_vwap: "node_step M i (on_primal vwap_states vwap_states_update i (pushing (\<lambda>st. VwapPush M st p xy) k'))"
| ns_lag: "node_step M i (on_primal lag_states lag_states_update i (lagging M (\<lambda>st. LagPush M st p x)))"
| ns_corr: "node_step M i (on_primal rolling_corr_states rolling_corr_states_update i (pushing (\<lambda>st. RollingPairPush M st p xy) k''))"
| ns_beta: "node_step M i (on_primal rolling_beta_states rolling_beta_states_update i (pushing (\<lambda>st. RollingPairPush M st p xy) k''))"
| ns_min: "0 < p \<Longrightarrow> node_step M i (on_deque rolling_min_deques rolling_min_deques_update rolling_min_indices
    rolling_min_indices_update i (interp_minmax M p (\<lambda>dq idx. UpdateRollingMin M dq idx p x)))"
| ns_max: "0 < p \<Longrightarrow> node_step M i (on_deque rolling_max_deques rolling_max_deques_update rolling_max_indices
    rolling_max_indices_update i (interp_minmax M p (\<lambda>dq idx. UpdateRollingMax M dq idx p x)))"

definition lookup_or :: "int \<Rightarrow> ('f eval_state, 'f) prog \<Rightarrow> ('f eval_state, 'f) prog" where
  "lookup_or i p s = (case (if 0 < i then snd s i else None) of Some v \<Rightarrow> (Inr v, s) | None \<Rightarrow> p s)"

lemma visit_call_lookup: "visit_call M symbols m ec n as i sy = lookup_or i (dispatch M symbols m ec n as i sy)"
  by (rule ext) (simp add: visit_call_def lookup_or_def)

text \<open>The literals a call may convert to a period, and the instrument it reads, raise allowed errors
  only.\<close>

definition call_ok ::
    "'f machine \<Rightarrow> SymbolTable \<Rightarrow> 'f MarketState \<Rightarrow> (err \<Rightarrow> bool) \<Rightarrow> (int \<Rightarrow> bool) \<Rightarrow>
       string \<times> 'f expr list \<times> int \<times> int \<Rightarrow> bool" where
  "call_ok M symbols m okerr A c = (case c of (name, as, i, sy) \<Rightarrow>
     (0 \<le> i \<longrightarrow> A i) \<and>
     (\<forall>a\<in>set (tl as). \<forall>l v e. a = NumberLiteral l v \<longrightarrow> to_int32 M v = Inl e \<longrightarrow> okerr e) \<and>
     (\<forall>nm j e. ResolveSymbolSlot symbols nm as sy = Inr j \<longrightarrow> instrument m j = Inl e \<longrightarrow> okerr e))"

lemma positive_period: "ParsePositiveIntegerPeriod M a nm = Inr p \<Longrightarrow> 0 < p"
  by (auto simp: ParsePositiveIntegerPeriod_def rbind_eq_Inr_iff split: expr.splits if_splits)

lemma resolve_error: "ResolveSymbolSlot symbols nm as sy = Inl e \<Longrightarrow> \<exists>msg. e = RuntimeError msg"
  by (auto simp: ResolveSymbolSlot_def LookupId_def rbind_eq_Inl_iff split: expr.splits if_splits option.splits)

locale visit_closed =
  fixes M :: "'f machine" and Q :: "('f eval_state, 'f) prog \<Rightarrow> bool"
    and Q' :: "int \<Rightarrow> ('f eval_state, 'f) prog \<Rightarrow> bool" and okerr :: "err \<Rightarrow> bool" and A :: "int \<Rightarrow> bool"
  assumes weaken: "Q p \<Longrightarrow> Q' i p"
    and ret: "Q (ret v)"
    and throw: "okerr e \<Longrightarrow> Q (throw e)"
    and runtime: "okerr (RuntimeError msg)"
    and bind: "Q p \<Longrightarrow> (\<And>x. Q (f x)) \<Longrightarrow> Q (bindm p f)"
    and bind': "Q' i p \<Longrightarrow> (\<And>x. Q' i (f x)) \<Longrightarrow> Q' i (bindm p f)"
    and step: "node_step M i q \<Longrightarrow> 0 \<le> i \<Longrightarrow> A i \<Longrightarrow> Q' i (lift_ctx q)"
    and cached: "Q' i p \<Longrightarrow> Q' i (cache_and_return i p)"
    and look: "Q' i p \<Longrightarrow> Q (lookup_or i p)"
    and param: "Q (visit_param n pid)"
begin

lemma throw': "okerr e \<Longrightarrow> Q' i (throw e)"
  by (rule weaken [OF throw])

lemma fail': "Q' i (throw (RuntimeError msg))"
  by (rule throw' [OF runtime])

lemma if': "(b \<Longrightarrow> Q' i p) \<Longrightarrow> (\<not> b \<Longrightarrow> Q' i q) \<Longrightarrow> Q' i (if b then p else q)"
  by simp

lemma lift': "(\<And>x. r = Inr x \<Longrightarrow> Q' i (f x)) \<Longrightarrow> (\<And>e. r = Inl e \<Longrightarrow> okerr e) \<Longrightarrow> Q' i (bindm (lift_result r) f)"
  by (cases r) (simp_all add: throw')

lemma result': "(\<And>e. r = Inl e \<Longrightarrow> okerr e) \<Longrightarrow> Q' i (lift_result r)"
  by (cases r) (simp_all add: lift_result_def weaken [OF ret, unfolded ret_def] throw' [unfolded throw_def])

lemma at_node': "(0 \<le> i \<Longrightarrow> A i) \<Longrightarrow> node_step M i q \<Longrightarrow> Q' i (at_node nm i q)"
  by (auto simp: at_node_def intro: fail' step)

lemma period_error:
  "call_ok M symbols m okerr A (n, as, i, sy) \<Longrightarrow> 0 < k \<Longrightarrow> k < length as \<Longrightarrow>
     ParsePositiveIntegerPeriod M (as ! k) nm = Inl e \<Longrightarrow> okerr e"
proof -
  assume ok: "call_ok M symbols m okerr A (n, as, i, sy)" and k: "0 < k" "k < length as"
    and e: "ParsePositiveIntegerPeriod M (as ! k) nm = Inl e"
  from k have "as ! k = tl as ! (k - 1)" "k - 1 < length (tl as)" by (auto simp: nth_tl)
  then have "as ! k \<in> set (tl as)" by (metis nth_mem)
  with ok have "to_int32 M v = Inl e' \<Longrightarrow> okerr e'" if "as ! k = NumberLiteral l v" for l v e'
    using that by (auto simp: call_ok_def)
  with e show "okerr e"
    by (auto simp: ParsePositiveIntegerPeriod_def rbind_eq_Inl_iff runtime split: expr.splits if_splits)
qed

lemma method':
  assumes "\<And>a. a \<in> set as \<Longrightarrow> Q (ec a)" and ok: "call_ok M symbols m okerr A (n, as, i, sy)"
  shows "Q' i (EvalEma M ec as i)" "Q' i (EvalEmaAlpha M ec as i)" "Q' i (EvalSma M ec as i)"
    "Q' i (EvalRollingStd M ec as i)" "Q' i (EvalZscore M ec as i)" "Q' i (EvalLag M ec as i)"
    "Q' i (EvalCrossAbove M ec as i)" "Q' i (EvalCrossBelow M ec as i)"
    "Q' i (EvalRollingCorr M ec as i)" "Q' i (EvalRollingBeta M ec as i)" "Q' i (EvalKalman1d M ec as i)"
    "Q' i (eval_unary_fn nm fn ec as)"
proof -
  have arg: "Q' i (ec (as ! k))" if "k < length as" for k using assms(1) that weaken by simp
  have A: "0 \<le> i \<Longrightarrow> A i" using ok by (simp add: call_ok_def)
  show "Q' i (EvalEma M ec as i)" "Q' i (EvalEmaAlpha M ec as i)" "Q' i (EvalSma M ec as i)"
    "Q' i (EvalRollingStd M ec as i)" "Q' i (EvalZscore M ec as i)" "Q' i (EvalLag M ec as i)"
    "Q' i (EvalCrossAbove M ec as i)" "Q' i (EvalCrossBelow M ec as i)"
    "Q' i (EvalRollingCorr M ec as i)" "Q' i (EvalRollingBeta M ec as i)" "Q' i (EvalKalman1d M ec as i)"
    "Q' i (eval_unary_fn nm fn ec as)"
    unfolding method_defs
    by (intro if' fail' lift' bind' arg at_node' A node_step.intros weaken [OF ret];
        (simp; fail)?; (erule period_error [OF ok, rotated 2]; simp; fail)?)+
qed

lemma minmax':
  assumes "\<And>a. a \<in> set as \<Longrightarrow> Q (ec a)" and ok: "call_ok M symbols m okerr A (n, as, i, sy)"
  shows "Q' i (EvalRollingMin M ec as i)" "Q' i (EvalRollingMax M ec as i)"
proof -
  have arg: "Q' i (ec (as ! k))" if "k < length as" for k using assms(1) that weaken by simp
  have A: "0 \<le> i \<Longrightarrow> A i" using ok by (simp add: call_ok_def)
  show "Q' i (EvalRollingMin M ec as i)" "Q' i (EvalRollingMax M ec as i)"
    unfolding method_defs
    by (intro if' fail' lift' bind' arg at_node' A ns_min ns_max;
        (simp; fail)?; (erule period_error [OF ok, rotated 2]; simp; fail)?; (simp add: positive_period)?)+
qed

lemma vwap':
  assumes ok: "call_ok M symbols m okerr A (n, as, i, sy)"
  shows "Q' i (EvalVwap M symbols m as i sy)"
proof -
  have A: "0 \<le> i \<Longrightarrow> A i" using ok by (simp add: call_ok_def)
  have sym: "okerr e" if "rbind (ResolveSymbolSlot symbols nm as sy) (instrument m) = Inl e" for nm e
    using that ok by (auto simp: rbind_eq_Inl_iff call_ok_def dest: resolve_error intro: runtime)
  show ?thesis
    unfolding EvalVwap_def
    by (intro if' fail' lift' at_node' A node_step.intros;
        (simp; fail)?; (erule period_error [OF ok, rotated 2]; simp; fail)?; (erule sym)?)
qed

lemma market':
  assumes ok: "call_ok M symbols m okerr A (n, as, i, sy)"
  shows "Q' i (lift_result (EvalMid M symbols m as sy))" "Q' i (lift_result (EvalBid symbols m as sy))"
    "Q' i (lift_result (EvalAsk symbols m as sy))" "Q' i (lift_result (EvalSpread M symbols m as sy))"
  using ok
  by (intro result'; auto simp: EvalMid_def EvalBid_def EvalAsk_def EvalSpread_def rbind_eq_Inl_iff
      call_ok_def runtime dest: resolve_error split: if_splits)+

lemma dispatch':
  assumes "\<And>a. a \<in> set as \<Longrightarrow> Q (ec a)" and "call_ok M symbols m okerr A (n, as, i, sy)"
  shows "Q' i (dispatch M symbols m ec n as i sy)"
  unfolding dispatch_def
  by (intro if' cached fail' market' [OF assms(2)] vwap' [OF assms(2)] method' [OF assms] minmax' [OF assms])

theorem Visit_closed:
  "(\<forall>c\<in>set (calls e). call_ok M symbols m okerr A c) \<Longrightarrow> Q (Visit M symbols m e)"
proof (induction e)
  case (FunctionCall l n as i sy)
  have "Q (Visit M symbols m a)" if "a \<in> set as" for a
    using FunctionCall that by auto
  moreover have "call_ok M symbols m okerr A (n, as, i, sy)" using FunctionCall.prems by simp
  ultimately show ?case by (simp add: visit_call_lookup look dispatch')
next
  case (UnaryOp l k e)
  then show ?case by (simp add: bind ret)
next
  case (BinaryOp l k a b)
  then show ?case by (simp add: bind ret)
next
  case (Conditional l c t e)
  then have "Q (Visit M symbols m c)" "Q (Visit M symbols m t)" "Q (Visit M symbols m e)" by auto
  then show ?case by (simp add: bind)
qed (simp_all add: ret param throw runtime)

end

section \<open>A cached operator is not stepped again\<close>

text \<open>Everything the context holds for node \<open>n\<close>.\<close>

definition node_view where
  "node_view n s =
     (ema_states s ! n, sma_states s ! n, rolling_std_states s ! n, zscore_states s ! n, vwap_states s ! n,
      lag_states s ! n, cross_states s ! n, rolling_min_deques s ! n, rolling_max_deques s ! n,
      rolling_min_indices s ! n, rolling_max_indices s ! n, rolling_corr_states s ! n,
      rolling_beta_states s ! n, kalman1d_states s ! n)"

text \<open>A run that neither steps nor forgets a node (other than those excluded) with a cached value.\<close>

definition settled :: "(int \<Rightarrow> bool) \<Rightarrow> ('f eval_state, 'f) prog \<Rightarrow> bool" where
  "settled X p \<longleftrightarrow> (\<forall>s r s' j v. p s = (r, s') \<longrightarrow> 0 < j \<longrightarrow> \<not> X j \<longrightarrow> snd s j = Some v \<longrightarrow>
     snd s' j = Some v \<and> node_view (nat j) (primal (fst s')) = node_view (nat j) (primal (fst s)))"

lemma settledD:
  "settled X p \<Longrightarrow> p s = (r, s') \<Longrightarrow> 0 < j \<Longrightarrow> \<not> X j \<Longrightarrow> snd s j = Some v \<Longrightarrow>
     snd s' j = Some v \<and> node_view (nat j) (primal (fst s')) = node_view (nat j) (primal (fst s))"
  unfolding settled_def by blast

lemma settled_bindm:
  assumes "settled X p" and "\<And>x. settled X (f x)"
  shows "settled X (bindm p f)"
  unfolding settled_def
proof (intro allI impI)
  fix s r s' j v
  assume run: "bindm p f s = (r, s')" and j: "0 < j" "\<not> X j" "snd s j = Some v"
  obtain q t where pq: "p s = (q, t)" by (metis surj_pair)
  note first = settledD [OF assms(1) pq j]
  show "snd s' j = Some v \<and> node_view (nat j) (primal (fst s')) = node_view (nat j) (primal (fst s))"
  proof (cases q)
    case (Inl e)
    with run pq first show ?thesis by (simp add: bindm_def)
  next
    case (Inr x)
    with run pq have "f x t = (r, s')" by (simp add: bindm_def)
    from settledD [OF assms(2) this j(1,2)] first show ?thesis by simp
  qed
qed

lemma node_view_update:
  assumes "n \<noteq> k"
  shows "node_view n (ema_states_update (\<lambda>xs. xs[k := a]) s) = node_view n s"
    "node_view n (sma_states_update (\<lambda>xs. xs[k := b]) s) = node_view n s"
    "node_view n (rolling_std_states_update (\<lambda>xs. xs[k := b]) s) = node_view n s"
    "node_view n (zscore_states_update (\<lambda>xs. xs[k := b]) s) = node_view n s"
    "node_view n (vwap_states_update (\<lambda>xs. xs[k := c]) s) = node_view n s"
    "node_view n (lag_states_update (\<lambda>xs. xs[k := d]) s) = node_view n s"
    "node_view n (cross_states_update (\<lambda>xs. xs[k := e]) s) = node_view n s"
    "node_view n (rolling_corr_states_update (\<lambda>xs. xs[k := f]) s) = node_view n s"
    "node_view n (rolling_beta_states_update (\<lambda>xs. xs[k := f]) s) = node_view n s"
    "node_view n (kalman1d_states_update (\<lambda>xs. xs[k := g]) s) = node_view n s"
    "node_view n (rolling_min_deques_update (\<lambda>xs. xs[k := h]) (rolling_min_indices_update (\<lambda>xs. xs[k := i]) s)) = node_view n s"
    "node_view n (rolling_max_deques_update (\<lambda>xs. xs[k := h]) (rolling_max_indices_update (\<lambda>xs. xs[k := i]) s)) = node_view n s"
  using assms by (simp_all add: node_view_def)

lemma node_step_frame:
  assumes "node_step M i q" and "q ctx = (r, ctx')" and "0 < j" and "j \<noteq> i"
  shows "node_view (nat j) (primal ctx') = node_view (nat j) (primal ctx)"
  using assms
  by (cases rule: node_step.cases)
    (auto simp: on_primal_def on_deque_def map_primal_def node_view_update Let_def case_prod_unfold
      eq_nat_nat_iff split: if_splits)

interpretation settled: visit_closed M "settled (\<lambda>_. False)" "\<lambda>i. settled (\<lambda>j. j = i)" "\<lambda>_. True" "\<lambda>_. True" for M
proof (unfold_locales, goal_cases)
  case (1 p i)
  then show ?case unfolding settled_def by blast
next
  case (5 p f)
  then show ?case by (rule settled_bindm)
next
  case (6 i p f)
  then show ?case by (rule settled_bindm)
next
  case (7 i q)
  then show ?case
    by (auto simp: settled_def lift_ctx_def Let_def case_prod_unfold dest: node_step_frame [OF _ prod.collapse [symmetric]])
next
  case (8 i p)
  show ?case unfolding cache_and_return_def
    by (rule settled_bindm [OF 8]) (auto simp: settled_def)
next
  case (9 i p)
  show ?case
    unfolding settled_def
  proof (intro allI impI)
    fix s r s' j v
    assume run: "lookup_or i p s = (r, s')" and j: "0 < j" "\<not> False" "snd s j = Some v"
    show "snd s' j = Some v \<and> node_view (nat j) (primal (fst s')) = node_view (nat j) (primal (fst s))"
    proof (cases "if 0 < i then snd s i else None")
      case None
      with j have "j \<noteq> i" by (auto split: if_splits)
      moreover from None run have "p s = (r, s')" by (simp add: lookup_or_def)
      ultimately show ?thesis using settledD [OF 9 _ j(1) _ j(3)] by blast
    qed (use run j in \<open>simp add: lookup_or_def\<close>)
  qed
next
  case (10 n pid)
  show ?case by (auto simp: settled_def visit_param_def split: option.splits if_splits)
qed (auto simp: settled_def)

section \<open>No access out of bounds\<close>

text \<open>The states a tick of a prewarmed signal goes through.\<close>

definition running :: "(int \<Rightarrow> bool) \<Rightarrow> 'f eval_state \<Rightarrow> bool" where
  "running A s \<longleftrightarrow> primal_wf (primal (fst s)) \<and> (\<forall>i. 0 \<le> i \<longrightarrow> A i \<longrightarrow> covers (nat i) (primal (fst s))) \<and>
     (\<forall>ps. params (fst s) = Some ps \<longrightarrow> num_params (fst s) = length ps)"

definition defined_err :: "err \<Rightarrow> bool" where
  "defined_err e \<longleftrightarrow> (\<exists>msg. e = RuntimeError msg)"

text \<open>A program over one slot that keeps the invariant of its state.\<close>

definition slot_safe :: "('s \<Rightarrow> bool) \<Rightarrow> ('s, 'b) prog \<Rightarrow> bool" where
  "slot_safe good f \<longleftrightarrow> (\<forall>st r st'. good st \<longrightarrow> f st = (r, st') \<longrightarrow> good st' \<and> (\<forall>e. r = Inl e \<longrightarrow> defined_err e))"

lemma slot_safe_pure: "(\<And>st v st'. good st \<Longrightarrow> f st = (v, st') \<Longrightarrow> good st') \<Longrightarrow> slot_safe good (\<lambda>st. let (v, st') = f st in (Inr v, st'))"
  by (auto simp: slot_safe_def split: prod.splits)

lemma slot_safe_pushing:
  assumes "\<And>st. good st \<Longrightarrow> (\<exists>st'. push st = Inr st' \<and> good st') \<or> (\<exists>msg. push st = Inl (RuntimeError msg))"
  shows "slot_safe good (pushing push k)"
  unfolding slot_safe_def
proof (intro allI impI)
  fix st r st1
  assume "good st" and run: "pushing push k st = (r, st1)"
  from assms [OF this(1)] show "good st1 \<and> (\<forall>e. r = Inl e \<longrightarrow> defined_err e)"
  proof (elim disjE exE conjE)
    fix st' assume "push st = Inr st'" "good st'"
    with run show ?thesis by (auto simp: pushing_def)
  next
    fix msg assume "push st = Inl (RuntimeError msg)"
    with run \<open>good st\<close> show ?thesis by (auto simp: pushing_def defined_err_def)
  qed
qed

lemma slot_safe_lagging:
  assumes "\<And>st. good st \<Longrightarrow> (\<exists>st'. push st = Inr st' \<and> good st') \<or> (\<exists>msg. push st = Inl (RuntimeError msg))"
  shows "slot_safe good (lagging M push)"
  unfolding slot_safe_def
proof (intro allI impI)
  fix st r st1
  assume "good st" and run: "lagging M push st = (r, st1)"
  from assms [OF this(1)] show "good st1 \<and> (\<forall>e. r = Inl e \<longrightarrow> defined_err e)"
  proof (elim disjE exE conjE)
    fix st' assume "push st = Inr st'" "good st'"
    with run show ?thesis by (auto simp: lagging_def)
  next
    fix msg assume "push st = Inl (RuntimeError msg)"
    with run \<open>good st\<close> show ?thesis by (auto simp: lagging_def defined_err_def)
  qed
qed

text \<open>The pushes of the rings, by the contract of their windows.\<close>

lemma ring_pushes:
  "rs_wf r \<Longrightarrow> (\<exists>st'. RingStatsPush M r p x = Inr st' \<and> rs_wf st') \<or> (\<exists>msg. RingStatsPush M r p x = Inl (RuntimeError msg))"
  "vw_wf v \<Longrightarrow> (\<exists>st'. VwapPush M v p xy = Inr st' \<and> vw_wf st') \<or> (\<exists>msg. VwapPush M v p xy = Inl (RuntimeError msg))"
  "lg_wf l \<Longrightarrow> (\<exists>st'. LagPush M l p x = Inr st' \<and> lg_wf st') \<or> (\<exists>msg. LagPush M l p x = Inl (RuntimeError msg))"
  "rp_wf q \<Longrightarrow> (\<exists>st'. RollingPairPush M q p xy = Inr st' \<and> rp_wf st') \<or> (\<exists>msg. RollingPairPush M q p xy = Inl (RuntimeError msg))"
  using ring_stats.push_step [of r p M x] vwap.push_step [of v p M xy] lag.push_step [of l p M x]
    rolling_pair.push_step [of q p M xy]
  by (cases "p = 0"; force simp: RingStatsPush_def VwapPush_def LagPush_def RollingPairPush_def)+

lemma covers_put:
  "covers n (ema_states_update (\<lambda>xs. xs[k := a]) s) = covers n s"
  "covers n (sma_states_update (\<lambda>xs. xs[k := b]) s) = covers n s"
  "covers n (rolling_std_states_update (\<lambda>xs. xs[k := b]) s) = covers n s"
  "covers n (zscore_states_update (\<lambda>xs. xs[k := b]) s) = covers n s"
  "covers n (vwap_states_update (\<lambda>xs. xs[k := c]) s) = covers n s"
  "covers n (lag_states_update (\<lambda>xs. xs[k := d]) s) = covers n s"
  "covers n (cross_states_update (\<lambda>xs. xs[k := e]) s) = covers n s"
  "covers n (rolling_corr_states_update (\<lambda>xs. xs[k := f]) s) = covers n s"
  "covers n (rolling_beta_states_update (\<lambda>xs. xs[k := f]) s) = covers n s"
  "covers n (kalman1d_states_update (\<lambda>xs. xs[k := g]) s) = covers n s"
  "covers n (rolling_min_deques_update (\<lambda>xs. xs[k := h]) (rolling_min_indices_update (\<lambda>xs. xs[k := i]) s)) = covers n s"
  "covers n (rolling_max_deques_update (\<lambda>xs. xs[k := h]) (rolling_max_indices_update (\<lambda>xs. xs[k := i]) s)) = covers n s"
  by (simp_all add: covers_def)

text \<open>A step on one slot of an array whose elements satisfy \<open>good\<close> keeps the invariant.\<close>

lemma keeps_on_primal:
  assumes f: "slot_safe good f" and A: "0 \<le> i" "A i"
    and len: "\<And>s. covers (nat i) s \<Longrightarrow> nat i < length (get s)"
    and elem: "\<And>s. primal_wf s \<Longrightarrow> \<forall>x\<in>set (get s). good x"
    and put: "\<And>s st. primal_wf s \<Longrightarrow> \<forall>x\<in>set ((get s)[nat i := st]). good x \<Longrightarrow>
      primal_wf (put (\<lambda>xs. xs[nat i := st]) s)"
    and cov: "\<And>n s st. covers n (put (\<lambda>xs. xs[nat i := st]) s) = covers n s"
  shows "keeps (running A) defined_err (lift_ctx (on_primal get put i f))"
  unfolding keeps_def
proof (intro allI impI)
  fix s r s'
  assume run: "running A s" and step: "lift_ctx (on_primal get put i f) s = (r, s')"
  from run A have wf: "primal_wf (primal (fst s))" and c: "covers (nat i) (primal (fst s))"
    by (auto simp: running_def)
  obtain q st where fst: "f (get (primal (fst s)) ! nat i) = (q, st)" by (metis surj_pair)
  from elem [OF wf] len [OF c] have "good (get (primal (fst s)) ! nat i)" by simp
  with f fst have st: "good st" "\<And>e. q = Inl e \<Longrightarrow> defined_err e" unfolding slot_safe_def by blast+
  have "\<forall>x\<in>set ((get (primal (fst s)))[nat i := st]). good x"
    using elem [OF wf] st(1) by (auto dest!: set_update_subset_insert [THEN subsetD])
  from put [OF wf this] have "primal_wf (put (\<lambda>xs. xs[nat i := st]) (primal (fst s)))" .
  note wf' = this
  have res: "r = q" "s' = (map_primal (put (\<lambda>xs. xs[nat i := st])) (fst s), snd s)"
    using step fst len [OF c] A(1) by (auto simp: lift_ctx_def on_primal_def Let_def)
  have pm: "primal (fst s') = put (\<lambda>xs. xs[nat i := st]) (primal (fst s))"
    and pp: "params (fst s') = params (fst s)" "num_params (fst s') = num_params (fst s)"
    unfolding res by (simp_all add: map_primal_def)
  have "running A s'"
    using run wf' unfolding running_def pm pp cov by blast
  with st(2) res(1) show "running A s' \<and> (\<forall>e. r = Inl e \<longrightarrow> defined_err e)" by blast
qed

lemma minmax_safe:
  assumes "deque_ok (dq, idx)" and "0 < p"
  shows "deque_ok (snd (UpdateRollingMin M dq idx p x))" and "deque_ok (snd (UpdateRollingMax M dq idx p x))"
proof -
  have pre: "md_cap dq \<noteq> p + 1 \<or> md_inv p idx dq"
    using assms by (auto simp: deque_ok_def md_inv_def)
  show "deque_ok (snd (UpdateRollingMin M dq idx p x))" "deque_ok (snd (UpdateRollingMax M dq idx p x))"
    using UpdateRollingMin_inv [OF pre assms(2)] UpdateRollingMax_inv [OF pre assms(2)] assms(2)
    by (metis deque_ok_def prod.collapse fst_conv snd_conv)+
qed

lemma keeps_on_deque:
  assumes upd: "\<And>dq idx. deque_ok (dq, idx) \<Longrightarrow> deque_ok (snd (u dq idx))" and A: "0 \<le> i" "A i"
    and len: "\<And>s. covers (nat i) s \<Longrightarrow> nat i < length (get s) \<and> nat i < length (get_idx s)"
    and elem: "\<And>s. primal_wf s \<Longrightarrow> length (get s) = length (get_idx s) \<and> (\<forall>x\<in>set (zip (get s) (get_idx s)). deque_ok x)"
    and put: "\<And>s dq idx. primal_wf s \<Longrightarrow> \<forall>x\<in>set (zip ((get s)[nat i := dq]) ((get_idx s)[nat i := idx])). deque_ok x \<Longrightarrow>
      primal_wf (put (\<lambda>xs. xs[nat i := dq]) (put_idx (\<lambda>xs. xs[nat i := idx]) s))"
    and cov: "\<And>n s dq idx. covers n (put (\<lambda>xs. xs[nat i := dq]) (put_idx (\<lambda>xs. xs[nat i := idx]) s)) = covers n s"
  shows "keeps (running A) defined_err (lift_ctx (on_deque get put get_idx put_idx i (interp_minmax M p u)))"
  unfolding keeps_def
proof (intro allI impI)
  fix s r s'
  assume run: "running A s"
    and step: "lift_ctx (on_deque get put get_idx put_idx i (interp_minmax M p u)) s = (r, s')"
  let ?s = "primal (fst s)"
  from run A have wf: "primal_wf ?s" and c: "covers (nat i) ?s" by (auto simp: running_def)
  obtain v dq idx where u: "u (get ?s ! nat i) (get_idx ?s ! nat i) = (v, dq, idx)" by (metis prod_cases3)
  from elem [OF wf] len [OF c] have "(get ?s ! nat i, get_idx ?s ! nat i) \<in> set (zip (get ?s) (get_idx ?s))"
    by (auto simp: set_zip)
  with elem [OF wf] have "deque_ok (get ?s ! nat i, get_idx ?s ! nat i)" by blast
  from upd [OF this] u have "deque_ok (dq, idx)" by simp
  moreover have "zip ((get ?s)[nat i := dq]) ((get_idx ?s)[nat i := idx]) = (zip (get ?s) (get_idx ?s))[nat i := (dq, idx)]"
    by (simp add: update_zip)
  ultimately have "\<forall>x\<in>set (zip ((get ?s)[nat i := dq]) ((get_idx ?s)[nat i := idx])). deque_ok x"
    using elem [OF wf] by (auto dest!: set_update_subset_insert [THEN subsetD])
  note wf' = put [OF wf this]
  have res: "r = Inr (minmax_value M p (v, dq, idx))"
    "s' = (map_primal (put (\<lambda>xs. xs[nat i := dq]) \<circ> put_idx (\<lambda>xs. xs[nat i := idx])) (fst s), snd s)"
    using step u len [OF c] A(1) by (auto simp: lift_ctx_def on_deque_def interp_minmax_def Let_def)
  have pm: "primal (fst s') = put (\<lambda>xs. xs[nat i := dq]) (put_idx (\<lambda>xs. xs[nat i := idx]) ?s)"
    and pp: "params (fst s') = params (fst s)" "num_params (fst s') = num_params (fst s)"
    unfolding res by (simp_all add: map_primal_def)
  have "running A s'"
    using run wf' unfolding running_def pm pp cov by blast
  with res(1) show "running A s' \<and> (\<forall>e. r = Inl e \<longrightarrow> defined_err e)" by simp
qed

text \<open>Every step of a node keeps the running states.\<close>

lemma node_step_keeps:
  assumes "node_step M i q" and "0 \<le> i" and "A i"
  shows "keeps (running A) defined_err (lift_ctx q)"
  using assms(1)
proof cases
  case (ns_ema f)
  show ?thesis unfolding ns_ema
    by (rule keeps_on_primal [where good = "\<lambda>_. True" and A = A and i = i, OF slot_safe_pure [where good = "\<lambda>_. True"] assms(2,3)])
      (simp_all only: covers_put, simp_all add: covers_def primal_wf_def)
next
  case (ns_cross f)
  show ?thesis unfolding ns_cross
    by (rule keeps_on_primal [where good = "\<lambda>_. True" and A = A and i = i, OF slot_safe_pure [where good = "\<lambda>_. True"] assms(2,3)])
      (simp_all only: covers_put, simp_all add: covers_def primal_wf_def)
next
  case (ns_kalman1d f)
  show ?thesis unfolding ns_kalman1d
    by (rule keeps_on_primal [where good = "\<lambda>_. True" and A = A and i = i, OF slot_safe_pure [where good = "\<lambda>_. True"] assms(2,3)])
      (simp_all only: covers_put, simp_all add: covers_def primal_wf_def)
next
  case (ns_sma p x k)
  show ?thesis unfolding ns_sma
    by (rule keeps_on_primal [where good = rs_wf and A = A and i = i, OF slot_safe_pushing [OF ring_pushes(1)] assms(2,3)])
      (simp_all only: covers_put, simp_all add: covers_def primal_wf_def)
next
  case (ns_rolling_std p x k)
  show ?thesis unfolding ns_rolling_std
    by (rule keeps_on_primal [where good = rs_wf and A = A and i = i, OF slot_safe_pushing [OF ring_pushes(1)] assms(2,3)])
      (simp_all only: covers_put, simp_all add: covers_def primal_wf_def)
next
  case (ns_zscore p x k)
  show ?thesis unfolding ns_zscore
    by (rule keeps_on_primal [where good = rs_wf and A = A and i = i, OF slot_safe_pushing [OF ring_pushes(1)] assms(2,3)])
      (simp_all only: covers_put, simp_all add: covers_def primal_wf_def)
next
  case (ns_vwap p xy k)
  show ?thesis unfolding ns_vwap
    by (rule keeps_on_primal [where good = vw_wf and A = A and i = i, OF slot_safe_pushing [OF ring_pushes(2)] assms(2,3)])
      (simp_all only: covers_put, simp_all add: covers_def primal_wf_def)
next
  case (ns_lag p x)
  show ?thesis unfolding ns_lag
    by (rule keeps_on_primal [where good = lg_wf and A = A and i = i, OF slot_safe_lagging [OF ring_pushes(3)] assms(2,3)])
      (simp_all only: covers_put, simp_all add: covers_def primal_wf_def)
next
  case (ns_corr p xy k)
  show ?thesis unfolding ns_corr
    by (rule keeps_on_primal [where good = rp_wf and A = A and i = i, OF slot_safe_pushing [OF ring_pushes(4)] assms(2,3)])
      (simp_all only: covers_put, simp_all add: covers_def primal_wf_def)
next
  case (ns_beta p xy k)
  show ?thesis unfolding ns_beta
    by (rule keeps_on_primal [where good = rp_wf and A = A and i = i, OF slot_safe_pushing [OF ring_pushes(4)] assms(2,3)])
      (simp_all only: covers_put, simp_all add: covers_def primal_wf_def)
next
  case (ns_min p x)
  show ?thesis unfolding ns_min
    by (rule keeps_on_deque [where A = A and i = i, OF minmax_safe(1) assms(2,3)])
      (use ns_min in \<open>simp_all only: covers_put\<close>, simp_all add: covers_def primal_wf_def)
next
  case (ns_max p x)
  show ?thesis unfolding ns_max
    by (rule keeps_on_deque [where A = A and i = i, OF minmax_safe(2) assms(2,3)])
      (use ns_max in \<open>simp_all only: covers_put\<close>, simp_all add: covers_def primal_wf_def)
qed

lemma running_fst: "fst s = fst s' \<Longrightarrow> running A s = running A s'"
  by (simp only: running_def)

lemma keeps_cache:
  assumes "keeps (running A) ok p"
  shows "keeps (running A) ok (cache_and_return i p)"
  unfolding cache_and_return_def
proof (rule keeps_bindm [OF assms])
  fix x
  show "keeps (running A) ok (\<lambda>s. (Inr x, fst s, if 0 < i then (snd s)(i \<mapsto> x) else snd s))"
    unfolding keeps_def using running_fst by (metis Pair_inject fst_conv sum.distinct(1))
qed

lemma keeps_lookup: "keeps (running A) ok p \<Longrightarrow> keeps (running A) ok (lookup_or i p)"
  unfolding keeps_def lookup_or_def by (simp split: option.splits)

lemma keeps_param: "keeps (running A) defined_err (visit_param n pid)"
  unfolding keeps_def visit_param_def by (auto simp: running_def defined_err_def split: option.splits)

interpretation safe: visit_closed M "keeps (running A) defined_err" "\<lambda>i. keeps (running A) defined_err" defined_err A
  for M A
proof (unfold_locales, goal_cases)
  case (7 i q)
  then show ?case by (rule node_step_keeps)
qed (rule keeps_ret keeps_throw keeps_bindm keeps_cache keeps_lookup keeps_param | assumption | simp add: defined_err_def)+

text \<open>What the caller of the interpreter provides.\<close>

definition inputs_ok :: "'f machine \<Rightarrow> SymbolTable \<Rightarrow> 'f MarketState \<Rightarrow> 'f expr \<Rightarrow> bool" where
  "inputs_ok M symbols m e \<longleftrightarrow> symbols_wf symbols \<and> market_wf m \<and>
     (\<forall>(name, as, i, sy)\<in>set (calls e). sy < int kMaxInstruments \<and>
        (\<forall>a\<in>set (tl as). \<forall>l v. a = NumberLiteral l v \<longrightarrow> (\<exists>p. to_int32 M v = Inr p)))"

lemma resolved_instrument:
  assumes "symbols_wf symbols" and "market_wf m" and "sy < int kMaxInstruments"
    and "ResolveSymbolSlot symbols nm as sy = Inr j"
  shows "\<exists>ins. instrument m j = Inr ins"
proof -
  have "0 \<le> j \<and> j < int kMaxInstruments"
    using assms(3,4) LookupId_bound [OF assms(1)]
    by (auto simp: ResolveSymbolSlot_def rbind_eq_Inr_iff split: if_splits expr.splits)
  with assms(2) show ?thesis by (simp add: instrument_def market_wf_def nat_less_iff)
qed

lemma inputs_call_ok:
  assumes "inputs_ok M symbols m e"
    and "\<And>name as i sy. (name, as, i, sy) \<in> set (calls e) \<Longrightarrow> 0 \<le> i \<Longrightarrow> A i"
  shows "\<forall>c\<in>set (calls e). call_ok M symbols m defined_err A c"
proof
  fix c assume c: "c \<in> set (calls e)"
  obtain name as i sy where c': "c = (name, as, i, sy)" by (cases c)
  with assms(1) c have "symbols_wf symbols" "market_wf m" "sy < int kMaxInstruments"
    and lits: "\<forall>a\<in>set (tl as). \<forall>l v. a = NumberLiteral l v \<longrightarrow> (\<exists>p. to_int32 M v = Inr p)"
    by (auto simp: inputs_ok_def)
  note res = resolved_instrument [OF this(1-3)]
  have "defined_err e" if "ResolveSymbolSlot symbols nm as sy = Inr j" "instrument m j = Inl e" for nm j e
    using res [OF that(1)] that(2) by auto
  moreover have "defined_err e" if "a \<in> set (tl as)" "a = NumberLiteral l v" "to_int32 M v = Inl e" for a l v e
    using lits that by auto
  ultimately show "call_ok M symbols m defined_err A c"
    using assms(2) c unfolding call_ok_def c' prod.case by blast
qed

lemma Evaluate_defined:
  assumes "ready_for (body signal) ctx" and "inputs_ok M symbols m (body signal)"
    and "\<forall>ps. params ctx = Some ps \<longrightarrow> num_params ctx = length ps"
    and "Evaluate M symbols signal m ctx = (r, ctx')"
  shows "(\<forall>e. r = Inl e \<longrightarrow> defined_err e) \<and> primal_wf (primal ctx')"
proof -
  let ?A = "\<lambda>i. \<exists>name as sy. (name, as, i, sy) \<in> set (calls (body signal))"
  obtain q s' where run: "Visit M symbols m (body signal) (ctx, Map.empty) = (q, s')" by (metis surj_pair)
  have "running ?A (ctx, Map.empty)"
    using assms(1,3) by (auto simp: running_def ready_for_def fresh_def)
  moreover have "keeps (running ?A) defined_err (Visit M symbols m (body signal))"
    by (rule safe.Visit_closed, rule inputs_call_ok [OF assms(2)]) blast
  ultimately have "running ?A s'" "\<forall>e. q = Inl e \<longrightarrow> defined_err e"
    using run unfolding keeps_def by blast+
  with assms(4) run show ?thesis by (auto simp: Evaluate_def running_def)
qed

end
