(* ===== verification/Operator_Streams.thy ===== *)
theory Operator_Streams
  imports Exact_Stats Window_Ops Mono_Deque Filters
begin

text \<open>
  What the stateful operators compute along a stream, from their initial states: the end-to-end
  statements about the functions of \<^verbatim>\<open>src/runtime.cpp\<close> that the interpreter and the
  compiled code share. Statements for every machine hold in particular of the IEEE machine;
  statements about \<open>exact\<close> say which mathematical function an operator approximates.
\<close>

lemma lastn_eq_Nil [simp]: "lastn p xs = [] \<longleftrightarrow> p = 0 \<or> xs = []"
  by (cases xs) (auto simp: lastn_def)

section \<open>Windows\<close>

text \<open>C15: On every machine, the ring behind sma, rolling_std and zscore holds exactly the last
  \<open>p\<close> samples of the stream, oldest first, whatever state (of another capacity) it started from,
  and it is full precisely when \<open>p\<close> samples have arrived.\<close>

theorem RingStatsPush_window:
  assumes "0 < p" and "rs_wf st0" and "rs_capacity st0 \<noteq> p" and "xs \<noteq> []"
  shows "\<exists>st. push_all (RingStatsPush M) p xs st0 = Inr st \<and> rs_wf st \<and>
    rs_window st = lastn p xs \<and> (RingStatsFull st \<longleftrightarrow> p \<le> length xs)"
proof -
  from ring_stats.push_all_fresh [OF assms] obtain st where
    st: "push_all (RingStatsPush M) p xs st0 = Inr st" "rs_wf st" "rs_capacity st = p"
      "rs_window st = lastn p xs" by blast
  from st(4) have "rs_count st = min p (length xs)"
    by (metis length_lastn length_ring_window rs_window_def)
  with st assms(1) show ?thesis by (auto simp: RingStatsFull_def)
qed

theorem RingStatsPush_window_witness:
  "\<exists>st. push_all (RingStatsPush (ieee id)) 2 [Fin 1, NaN, Fin 4] (RingStatsState0 (ieee id)) = Inr st \<and>
     rs_wf st \<and> rs_window st = [NaN, Fin 4] \<and> RingStatsFull st"
  using RingStatsPush_window [of 2 "RingStatsState0 (ieee id)" "[Fin 1, NaN, Fin 4]" "ieee id"]
  by (simp add: rs_wf_initial lastn_def) (simp add: RingStatsState0_def)

text \<open>C3: In exact arithmetic the running sum, the rolling Welford recurrence and its periodic
  recomputation give the mean and the sample standard deviation of the last \<open>p\<close> samples, and the
  O(1) readout is the two-pass reference.\<close>

theorem rolling_std_stream:
  assumes "0 < p" and "xs \<noteq> []"
  defines "W \<equiv> lastn p xs"
  shows "\<exists>st. push_all (RingStatsPush exact) p (map Some xs) (RingStatsState0 exact) = Inr st \<and>
    RingStatsMean exact st = Some (avg W) \<and>
    RingStatsStddevSample exact st =
      (if length W < 2 then None else Some (sqrt (ssd W / real (length W - 1)))) \<and>
    RingStatsStddevSample exact st = RingStatsStddevSampleTwoPassReference exact st"
proof -
  have cap: "rs_capacity (RingStatsState0 exact) \<noteq> p" using assms(1) by (simp add: RingStatsState0_def)
  from ring_stats_exact.inv_fresh [OF assms(1) rs_wf_initial cap assms(2)] obtain st where
    st: "push_all (RingStatsPush exact) p (map Some xs) (RingStatsState0 exact) = Inr st" "rs_wf st"
      "rs_exact st W" by (auto simp: W_def)
  have ne: "W \<noteq> []" using assms(1,2) by (simp add: W_def)
  have small: "RingStatsStddevSample exact st = None" "RingStatsStddevSampleTwoPassReference exact st = None"
    if "length W < 2"
    using that rs_exact_length [OF st(3)]
    by (simp_all add: RingStatsStddevSample_def RingStatsStddevSampleTwoPassReference_def)
  show ?thesis
  proof (cases "length W < 2")
    case True
    with st small RingStatsMean_exact [OF st(3) ne] show ?thesis by auto
  next
    case False
    then have "2 \<le> length W" by simp
    with st RingStatsMean_exact [OF st(3) ne] RingStatsStddevSample_exact [OF st(3)]
      TwoPassReference_exact [OF st(2,3)] show ?thesis by auto
  qed
qed

theorem rolling_std_stream_witness:
  "\<exists>st. push_all (RingStatsPush exact) 2 (map Some [1, 3, 7]) (RingStatsState0 exact) = Inr st \<and>
     RingStatsMean exact st = Some 5 \<and>
     RingStatsStddevSample exact st = RingStatsStddevSampleTwoPassReference exact st"
  using rolling_std_stream [of 2 "[1, 3, 7]"] by (auto simp: lastn_def avg_def)

text \<open>In exact arithmetic the volume-weighted average price after a stream is the weighted
  average over the last \<open>p\<close> pairs, and NaN exactly when their volumes sum to zero.\<close>

theorem vwap_stream:
  assumes "0 < p" and "xs \<noteq> []"
  defines "W \<equiv> lastn p xs"
  shows "\<exists>st. push_all (VwapPush exact) p (map (map_prod Some Some) xs) (VwapState0 exact) = Inr st \<and>
    vw_wf st \<and> VwapValue exact st =
      (if (\<Sum>(pr, v)\<leftarrow>W. v) = 0 then None else Some ((\<Sum>(pr, v)\<leftarrow>W. pr * v) / (\<Sum>(pr, v)\<leftarrow>W. v)))"
proof -
  have cap: "vw_capacity (VwapState0 exact) \<noteq> p" using assms(1) by (simp add: VwapState0_def)
  have "W \<noteq> []" using assms(1,2) by (simp add: W_def)
  with vwap_exact.inv_fresh [OF assms(1) vw_wf_initial cap assms(2)] VwapValue_exact show ?thesis
    unfolding W_def by blast
qed

theorem vwap_stream_witness:
  "\<exists>st. push_all (VwapPush exact) 2 (map (map_prod Some Some) [(9, 5), (10, 1), (13, 2)]) (VwapState0 exact) =
      Inr st \<and> VwapValue exact st = Some 12"
  using vwap_stream [of 2 "[(9, 5), (10, 1), (13, 2)]"] by (auto simp: lastn_def)

text \<open>On every machine a lag of \<open>p\<close> reads NaN until \<open>p\<close> samples have arrived, and then the
  sample \<open>p\<close> places before the one about to be pushed.\<close>

theorem lag_stream:
  assumes "0 < p"
  shows "\<exists>st. push_all (LagPush M) p xs LagState0 = Inr st \<and> lg_wf st \<and>
    LagValue M st = (if length xs < p then qnan M else xs ! (length xs - p))"
proof (cases "xs = []")
  case True
  with assms show ?thesis by (simp add: LagValue_def LagState0_def lg_wf_def ring_wf_def)
next
  case False
  have cap: "lg_capacity LagState0 \<noteq> p" using assms by (simp add: LagState0_def)
  from lag.push_all_fresh [OF assms lg_wf_initial cap False] obtain st where
    st: "push_all (LagPush M) p xs LagState0 = Inr st" "lg_wf st" "lg_capacity st = p"
      "lg_window st = lastn p xs" by blast
  with LagValue_window [OF st(2), of M] assms show ?thesis
    by (auto simp: lastn_def hd_drop_conv_nth)
qed

theorem lag_stream_witness:
  "\<exists>st. push_all (LagPush (ieee id)) 2 [Fin 1, Fin 2, Fin 3] LagState0 = Inr st \<and> lg_wf st \<and>
     LagValue (ieee id) st = Fin 2"
  using lag_stream [of 2 "ieee id" "[Fin 1, Fin 2, Fin 3]"] by simp





section \<open>Rolling extrema\<close>



text \<open>Likewise rolling_max emits an element of the last \<open>p\<close> samples that is above or equal to all
  of them.\<close>

theorem rolling_max_is_maximum:
  assumes "0 < p" and "\<forall>x\<in>set xs. \<not> isnan (ieee lg) x" and "n < length xs"
  defines "out \<equiv> emit (rolling_max_step (ieee lg) p) (MonoDequeState0, 0) xs"
  shows "out ! n \<in> set (lastn p (take (Suc n) xs)) \<and>
    (\<forall>x\<in>set (lastn p (take (Suc n) xs)). fle (ieee lg) x (out ! n))"
  unfolding out_def
  by (rule ieee.rolling_max_stream [OF assms(1,2) _ assms(3)]) (simp add: MonoDequeState0_def)

theorem rolling_max_is_maximum_witness:
  "fle (ieee id) (Fin 2) (emit (rolling_max_step (ieee id) 2) (MonoDequeState0, 0) [Fin 1, Fin 3, Fin 2] ! 2)"
  using rolling_max_is_maximum [of 2 "[Fin 1, Fin 3, Fin 2]" id 2] by (simp add: ieee_simps lastn_def)

text \<open>C24: The deque of rolling_min never outgrows its ring, whatever the samples (NaN included): an
  update that starts from the invariant keeps at most \<open>p\<close> entries in the \<open>p + 1\<close> slots, in
  increasing tick order and all within the window.\<close>

theorem rolling_min_deque_bounded:
  assumes "md_cap dq \<noteq> p + 1 \<or> md_inv p idx dq" and "0 < p"
    and "UpdateRollingMin M dq idx p x = (v, dq', idx')"
  shows "md_inv p idx' dq' \<and> idx' = Suc idx \<and> md_count dq' \<le> p \<and> md_cap dq' = p + 1"
proof -
  from UpdateRollingMin_inv [OF assms] have "md_inv p idx' dq'" "idx' = Suc idx" by auto
  with md_inv_count [of p idx' dq'] show ?thesis by (simp add: md_inv_def)
qed

theorem rolling_min_deque_bounded_witness:
  "md_count (fst (snd (UpdateRollingMin (ieee id) MonoDequeState0 0 2 NaN))) \<le> 2"
  using rolling_min_deque_bounded [of MonoDequeState0 2 0 "ieee id" NaN]
  by (cases "UpdateRollingMin (ieee id) MonoDequeState0 0 2 NaN") (simp add: MonoDequeState0_def)

section \<open>Filters\<close>

text \<open>C21: On every machine, the interpreter's ema and the compiled code's helper emit the same bits
  along every stream, from the states the prewarmed context gives them.\<close>

theorem ema_interpreter_runtime:
  assumes "\<not> ema_initialized s" and "\<not> ema_initialized t"
  shows "emit (\<lambda>s. interp_ema_step M s period) s xs = emit (\<lambda>t. rt_ema_step M t period) t xs"
  by (rule ema_parity) (use assms in \<open>simp add: ema_same_def\<close>)

theorem ema_interpreter_runtime_witness:
  "emit (\<lambda>s. interp_ema_step (ieee id) s 3) (EMAState0 (ieee id)) [Fin 1, Fin 2] =
     emit (\<lambda>t. rt_ema_step (ieee id) t 3) (EMAState0 (ieee id)) [Fin 1, Fin 2]"
  by (rule ema_interpreter_runtime) (simp_all add: EMAState0_def)






text \<open>On every machine cross_above is 0 on the first tick, and on a later tick it is 1 exactly
  when the first series was not above the second one tick before and is above it now.\<close>

theorem cross_above_stream:
  assumes "\<not> cr_initialized st" and "n < length zs"
  shows "emit (cross_above_step M) st zs ! n =
    (case n of 0 \<Rightarrow> dlit M 0
     | Suc k \<Rightarrow> dbool M (fle M (fst (zs ! k)) (snd (zs ! k)) \<and> flt M (snd (zs ! n)) (fst (zs ! n))))"
proof -
  from assms(2) obtain ab bs where zs: "zs = ab # bs" by (cases zs) auto
  with assms(2) show ?thesis
    unfolding cross_above_step_def zs emit_cross_initial [OF assms(1)]
    by (auto simp: nth_Cons case_prod_unfold split: nat.splits)
qed

theorem cross_above_stream_witness:
  "emit (cross_above_step exact) (CrossState0 exact) [(Some 1, Some 2), (Some 3, Some 2)] ! 1 = Some 1"
  using cross_above_stream [of "CrossState0 exact" 1 "[(Some 1, Some 2), (Some 3, Some 2)]" exact]
  by (simp add: CrossState0_def dbool_def)

end
