(* ===== verification/Lexer.thy ===== *)
theory Lexer
  imports Machine_Float
begin

text \<open>
  The lexer of one line of DSL source (\<^verbatim>\<open>src/lexer.cpp\<close>). The source string and the
  cursor \<^verbatim>\<open>pos_\<close> are modelled by the cursor and the characters from it to the end;
  \<^verbatim>\<open>isdigit\<close>, \<^verbatim>\<open>isalpha\<close> and \<^verbatim>\<open>isspace\<close> are those of the C
  locale, and \<^verbatim>\<open>strtod\<close> on a lexeme of digits with at most one dot is the correctly
  rounded value of the decimal fraction it spells. The theorems show that the token list ends in
  its only end-of-file token and that every token's location delimits its lexeme in the source.
\<close>

section \<open>Tokens\<close>

datatype TokenKind =
    EndOfFile | Number | Identifier | Signal | Param | If | Then | Else | Assign
  | TPlus | TMinus | Star | Slash | LParen | RParen | Comma
  | TGt | TLt | TGte | TLte | TEq | TNotEq | TAnd | TOr

record 'f Token =
  kind :: TokenKind
  lexeme :: string
  number_value :: 'f
  loc :: SourceLoc

section \<open>Characters\<close>

definition is_digit :: "char \<Rightarrow> bool" where
  "is_digit c \<longleftrightarrow> (48::nat) \<le> of_char c \<and> (of_char c :: nat) \<le> 57"

definition is_alpha :: "char \<Rightarrow> bool" where
  "is_alpha c \<longleftrightarrow>
     (65::nat) \<le> of_char c \<and> (of_char c :: nat) \<le> 90 \<or>
     (97::nat) \<le> of_char c \<and> (of_char c :: nat) \<le> 122"

definition is_space :: "char \<Rightarrow> bool" where
  "is_space c \<longleftrightarrow> of_char c = (32::nat) \<or> (9::nat) \<le> of_char c \<and> (of_char c :: nat) \<le> 13"

definition is_ident_start :: "char \<Rightarrow> bool" where
  "is_ident_start c \<longleftrightarrow> is_alpha c \<or> c = CHR ''_''"

definition is_ident_char :: "char \<Rightarrow> bool" where
  "is_ident_char c \<longleftrightarrow> is_alpha c \<or> is_digit c \<or> c = CHR ''_''"

definition is_number_start :: "char \<Rightarrow> bool" where
  "is_number_start c \<longleftrightarrow> is_digit c \<or> c = CHR ''.''"

section \<open>Numbers\<close>

fun digits_value :: "nat \<Rightarrow> string \<Rightarrow> nat" where
  "digits_value acc [] = acc"
| "digits_value acc (c # cs) = digits_value (10 * acc + (of_char c - 48)) cs"

text \<open>The rational a lexeme of digits and at most one dot denotes.\<close>

definition decimal_value :: "string \<Rightarrow> rat" where
  "decimal_value s =
     (let i = takeWhile (\<lambda>c. c \<noteq> CHR ''.'') s; f = drop (Suc (length i)) s
      in of_nat (digits_value 0 (i @ f)) / 10 ^ length f)"

definition strtod :: "'f machine \<Rightarrow> string \<Rightarrow> 'f" where
  "strtod M s = dlit M (decimal_value s)"

text \<open>The scan of \<^verbatim>\<open>ReadNumber\<close>: digits, and one dot; the lexeme and the rest.\<close>

fun scan_number :: "bool \<Rightarrow> string \<Rightarrow> string \<times> string" where
  "scan_number seen_dot [] = ([], [])"
| "scan_number seen_dot (c # cs) =
     (if is_digit c then (case scan_number seen_dot cs of (a, b) \<Rightarrow> (c # a, b))
      else if c = CHR ''.'' \<and> \<not> seen_dot
      then (case scan_number True cs of (a, b) \<Rightarrow> (c # a, b))
      else ([], c # cs))"

section \<open>The lexer\<close>

definition Col :: "nat \<Rightarrow> 32 word" where
  "Col pos = word_of_nat (pos + 1)"

definition mk_token ::
    "'f machine \<Rightarrow> TokenKind \<Rightarrow> string \<Rightarrow> 'f \<Rightarrow> nat \<Rightarrow> 'f Token" where
  "mk_token M k lx v pos =
     \<lparr>kind = k, lexeme = lx, number_value = v,
      loc = \<lparr>line = 0, col = Col pos, length_of = word_of_nat (length lx)\<rparr>\<rparr>"

definition ReadNumber ::
    "'f machine \<Rightarrow> nat \<Rightarrow> string \<Rightarrow> ('f Token \<times> string) result" where
  "ReadNumber M pos cs =
     (case scan_number False cs of (lx, rest) \<Rightarrow>
        if lx = ''.'' then Inl (RuntimeError ''Invalid numeric literal'')
        else Inr (mk_token M Number lx (strtod M lx) pos, rest))"

definition keyword_kind :: "string \<Rightarrow> TokenKind" where
  "keyword_kind lx =
     (if lx = ''signal'' then Signal
      else if lx = ''param'' then Param
      else if lx = ''if'' then If
      else if lx = ''then'' then Then
      else if lx = ''else'' then Else
      else Identifier)"

definition ReadIdentifierOrKeyword :: "'f machine \<Rightarrow> nat \<Rightarrow> string \<Rightarrow> 'f Token \<times> string" where
  "ReadIdentifierOrKeyword M pos cs =
     (let lx = takeWhile is_ident_char cs
      in (mk_token M (keyword_kind lx) lx (dlit M 0) pos, dropWhile is_ident_char cs))"

text \<open>
  The switch over the first character of an operator, which has been consumed: \<open>next_is\<close> is
  the test of the character under the cursor. The result is the token's kind and lexeme.
\<close>

definition next_is :: "char \<Rightarrow> string \<Rightarrow> bool" where
  "next_is c cs \<longleftrightarrow> (case cs of [] \<Rightarrow> False | d # _ \<Rightarrow> d = c)"

definition read_operator :: "char \<Rightarrow> string \<Rightarrow> (TokenKind \<times> string) result" where
  "read_operator c cs =
     (if c = CHR ''='' then
        (if next_is (CHR ''='') cs then Inr (TEq, ''=='') else Inr (Assign, ''=''))
      else if c = CHR ''!'' then
        (if next_is (CHR ''='') cs then Inr (TNotEq, ''!='')
         else Inl (RuntimeError ''Unexpected '!' - did you mean '!='?''))
      else if c = CHR ''>'' then
        (if next_is (CHR ''='') cs then Inr (TGte, ''>='') else Inr (TGt, ''>''))
      else if c = CHR ''&'' then
        (if next_is (CHR ''&'') cs then Inr (TAnd, ''&&'')
         else Inl (RuntimeError ''Unexpected '&' - did you mean '&&'?''))
      else if c = CHR ''|'' then
        (if next_is (CHR ''|'') cs then Inr (TOr, ''||'')
         else Inl (RuntimeError ''Unexpected '|' - did you mean '||'?''))
      else if c = CHR ''<'' then
        (if next_is (CHR ''='') cs then Inr (TLte, ''<='') else Inr (TLt, ''<''))
      else if c = CHR ''+'' then Inr (TPlus, ''+'')
      else if c = CHR ''-'' then Inr (TMinus, ''-'')
      else if c = CHR ''*'' then Inr (Star, ''*'')
      else if c = CHR ''/'' then Inr (Slash, ''/'')
      else if c = CHR ''('' then Inr (LParen, ''('')
      else if c = CHR '')'' then Inr (RParen, '')'')
      else if c = CHR '','' then Inr (Comma, '','')
      else Inl (RuntimeError ''Unexpected character in lexer''))"

text \<open>One turn of the loop, the cursor on a character that is not white space.\<close>

definition read_token ::
    "'f machine \<Rightarrow> nat \<Rightarrow> char \<Rightarrow> string \<Rightarrow> ('f Token \<times> string) result" where
  "read_token M pos c cs =
     (if is_number_start c then ReadNumber M pos (c # cs)
      else if is_ident_start c then Inr (ReadIdentifierOrKeyword M pos (c # cs))
      else rbind (read_operator c cs) (\<lambda>(k, lx).
             Inr (mk_token M k lx (dlit M 0) pos, drop (length lx - 1) cs)))"

definition eof_token :: "'f machine \<Rightarrow> nat \<Rightarrow> 'f Token" where
  "eof_token M pos =
     \<lparr>kind = EndOfFile, lexeme = [], number_value = dlit M 0,
      loc = \<lparr>line = 0, col = Col pos, length_of = 0\<rparr>\<rparr>"

lemma scan_number_append: "scan_number d cs = (a, b) \<Longrightarrow> cs = a @ b"
proof (induction cs arbitrary: d a b)
  case (Cons c cs)
  then show ?case by (auto split: if_splits prod.splits)
qed auto

lemma scan_number_nonempty:
  "is_number_start c \<Longrightarrow> scan_number False (c # cs) = (a, b) \<Longrightarrow> a \<noteq> []"
  by (auto simp: is_number_start_def split: if_splits prod.splits)

lemma keyword_kind_not_eof: "keyword_kind lx \<noteq> EndOfFile"
  by (simp add: keyword_kind_def)

lemma read_operator_lexeme:
  "read_operator c cs = Inr (k, lx) \<Longrightarrow>
     \<exists>u. lx = c # u \<and> cs = u @ drop (length lx - 1) cs \<and> k \<noteq> EndOfFile"
  by (auto simp: read_operator_def next_is_def split: if_splits list.splits)

text \<open>A token read is its lexeme cut off the front of the characters.\<close>

lemma read_token_split:
  assumes "read_token M pos c cs = Inr (t, rest)"
  shows "c # cs = lexeme t @ rest \<and> lexeme t \<noteq> [] \<and> kind t \<noteq> EndOfFile \<and>
    loc t = \<lparr>line = 0, col = Col pos, length_of = word_of_nat (length (lexeme t))\<rparr>"
proof (cases "is_number_start c")
  case True
  with assms show ?thesis
    by (auto simp: read_token_def ReadNumber_def mk_token_def split: prod.splits if_splits
        dest: scan_number_append scan_number_nonempty)
next
  case False
  then consider "is_ident_start c" | "\<not> is_ident_start c" by blast
  then show ?thesis
  proof cases
    case 1
    then have "is_ident_char c" by (auto simp: is_ident_start_def is_ident_char_def)
    with 1 False assms show ?thesis
      by (auto simp: read_token_def ReadIdentifierOrKeyword_def mk_token_def Let_def
          keyword_kind_not_eof)
  next
    case 2
    with False assms show ?thesis
      by (auto simp: read_token_def rbind_eq_Inr_iff mk_token_def dest!: read_operator_lexeme)
  qed
qed

function TokenizeFrom :: "'f machine \<Rightarrow> nat \<Rightarrow> string \<Rightarrow> 'f Token list result" where
  "TokenizeFrom M pos [] = Inr [eof_token M pos]"
| "TokenizeFrom M pos (c # cs) =
     (if is_space c then TokenizeFrom M (Suc pos) cs
      else rbind (read_token M pos c cs) (\<lambda>(t, rest).
             rbind (TokenizeFrom M (pos + length (lexeme t)) rest) (\<lambda>ts. Inr (t # ts))))"
  by pat_completeness auto
termination
proof (relation "measure (\<lambda>(M, pos, cs). length cs)", goal_cases)
  case (3 M pos c cs x t rest)
  then have "c # cs = lexeme t @ rest \<and> lexeme t \<noteq> []"
    using read_token_split by blast
  then have "length (c # cs) = length (lexeme t) + length rest" "0 < length (lexeme t)"
    by (metis length_append, simp)
  then show ?case by simp
qed auto

definition Tokenize :: "'f machine \<Rightarrow> string \<Rightarrow> 'f Token list result" where
  "Tokenize M source = TokenizeFrom M 0 source"

section \<open>Correctness\<close>

text \<open>Where a token of a line stands: its location delimits its lexeme in the line.\<close>

definition located :: "string \<Rightarrow> 'f Token \<Rightarrow> bool" where
  "located src t \<longleftrightarrow>
     lexeme t = take (unat (length_of (loc t))) (drop (unat (col (loc t)) - 1) src) \<and>
     unat (length_of (loc t)) = length (lexeme t) \<and> 1 \<le> unat (col (loc t)) \<and>
     unat (col (loc t)) - 1 + length (lexeme t) \<le> length src"

lemma unat_word32: "n < 2 ^ 32 \<Longrightarrow> unat (word_of_nat n :: 32 word) = n"
  by (simp add: unat_of_nat take_bit_nat_eq_self)

lemma read_token_located:
  assumes "read_token M (length pre) c cs = Inr (t, rest)"
    and "length (pre @ c # cs) < 2 ^ 32 - 1"
  shows "located (pre @ c # cs) t"
proof -
  from read_token_split [OF assms(1)]
  have split: "c # cs = lexeme t @ rest"
    and l: "loc t = \<lparr>line = 0, col = Col (length pre), length_of = word_of_nat (length (lexeme t))\<rparr>"
    by auto
  from assms(2) split have len: "length pre + length (lexeme t) + length rest < 2 ^ 32 - 1"
    by simp
  then have "unat (word_of_nat (length pre + 1) :: 32 word) = length pre + 1"
    and "unat (word_of_nat (length (lexeme t)) :: 32 word) = length (lexeme t)"
    by (intro unat_word32; simp)+
  with split l len show ?thesis
    by (simp add: located_def Col_def)
qed

lemma eof_located: "length src < 2 ^ 32 - 1 \<Longrightarrow> located src (eof_token M (length src))"
  using unat_word32 [of "length src + 1"] by (simp add: located_def eof_token_def Col_def)

lemma TokenizeFrom_located:
  assumes "TokenizeFrom M (length pre) cs = Inr ts" and "length (pre @ cs) < 2 ^ 32 - 1"
  shows "list_all (located (pre @ cs)) ts"
  using assms
proof (induction M "length pre" cs arbitrary: pre ts rule: TokenizeFrom.induct)
  case (1 M)
  then show ?case by (auto simp: eof_located)
next
  case (2 M c cs)
  show ?case
  proof (cases "is_space c")
    case True
    with 2(1) [of "pre @ [c]" ts] 2(3,4) show ?thesis by simp
  next
    case False
    with 2(3) obtain t rest ts' where t: "read_token M (length pre) c cs = Inr (t, rest)"
      and ts': "TokenizeFrom M (length pre + length (lexeme t)) rest = Inr ts'"
      and ts: "ts = t # ts'"
      by (auto simp: rbind_eq_Inr_iff)
    from read_token_split [OF t] have "pre @ c # cs = (pre @ lexeme t) @ rest" by simp
    with 2(2) [OF False t refl, where pre = "pre @ lexeme t" and ts = ts'] ts' 2(4)
    have "list_all (located (pre @ c # cs)) ts'" by simp
    with read_token_located [OF t 2(4)] ts show ?thesis by simp
  qed
qed

lemma TokenizeFrom_eof:
  "TokenizeFrom M pos cs = Inr ts \<Longrightarrow>
     \<exists>us e. ts = us @ [e] \<and> kind e = EndOfFile \<and> (\<forall>u \<in> set us. kind u \<noteq> EndOfFile)"
proof (induction M pos cs arbitrary: ts rule: TokenizeFrom.induct)
  case (1 M pos)
  then show ?case by (auto simp: eof_token_def)
next
  case (2 M pos c cs)
  show ?case
  proof (cases "is_space c")
    case True
    with 2 show ?thesis by simp
  next
    case False
    with 2(3) obtain t rest ts' where t: "read_token M pos c cs = Inr (t, rest)"
      and ts': "TokenizeFrom M (pos + length (lexeme t)) rest = Inr ts'"
      and ts: "ts = t # ts'"
      by (auto simp: rbind_eq_Inr_iff)
    from 2(2) [OF False t] ts' obtain us e where
      "ts' = us @ [e]" "kind e = EndOfFile" "\<forall>u \<in> set us. kind u \<noteq> EndOfFile"
      by blast
    with read_token_split [OF t] ts show ?thesis
      by (intro exI [of _ "t # us"] exI [of _ e]) auto
  qed
qed

text \<open>C33: Every token of a line is located: its column and length delimit its lexeme in the source,
  for lines shorter than the 32-bit column range; the token list ends in its only end-of-file token.\<close>

theorem Tokenize_located:
  assumes "Tokenize M src = Inr ts" and "length src < 2 ^ 32 - 1"
  shows "list_all (located src) ts \<and>
    (\<exists>us e. ts = us @ [e] \<and> kind e = EndOfFile \<and> (\<forall>u\<in>set us. kind u \<noteq> EndOfFile))"
  using TokenizeFrom_located [of M "[]" src ts] TokenizeFrom_eof [of M 0 src ts] assms
  by (simp add: Tokenize_def)

theorem Tokenize_located_witness:
  "\<exists>ts. Tokenize (ieee id) ''signal s = mid(A)'' = Inr ts \<and> list_all (located ''signal s = mid(A)'') ts"
proof -
  have "\<not> isl (Tokenize (ieee id) ''signal s = mid(A)'')" by code_simp
  then obtain ts where "Tokenize (ieee id) ''signal s = mid(A)'' = Inr ts"
    by (cases "Tokenize (ieee id) ''signal s = mid(A)''") auto
  with Tokenize_located [OF this] show ?thesis by simp
qed

end
