(* ===== verification/Parser.thy ===== *)
theory Parser
  imports Lexer Constant_Fold
begin

text \<open>
  The recursive-descent parser (\<^verbatim>\<open>src/parser.cpp\<close>). The token vector and the cursor
  are modelled by the tokens from the cursor on; reading past the end is undefined behaviour.
  \<^verbatim>\<open>ParseExpr\<close> is the only recursion through the grammar: every level takes it as the
  parameter \<open>pe\<close>, and \<open>ParseExpr n\<close> ties the knot with \<open>n\<close> levels of nesting to
  spend. The locale \<open>expr_parser\<close> states what a level relies on; the interpretation on
  \<open>ParseExpr\<close> shows that as much fuel as there are tokens is always enough, that a parser
  consumes a non-empty prefix of its tokens, and that it never reads past the end.
\<close>

type_synonym ('f, 'a) parser = "'f Token list \<Rightarrow> ('a \<times> 'f Token list) result"

section \<open>The cursor\<close>

definition Fail :: "string \<Rightarrow> SourceLoc \<Rightarrow> 'a result" where
  "Fail msg l = Inl (ParseError msg l [])"

fun Peek :: "'f Token list \<Rightarrow> 'f Token result" where
  "Peek [] = Inl (Undefined ''tokens_[pos_]'')"
| "Peek (t # ts) = Inr t"

definition Consume :: "TokenKind \<Rightarrow> string \<Rightarrow> ('f, 'f Token) parser" where
  "Consume k msg ts =
     rbind (Peek ts) (\<lambda>t.
       if kind t = k then Inr (t, tl ts)
       else Fail (msg @ '' (got: '' @ [CHR 0x27] @ lexeme t @ [CHR 0x27] @ '')'') (loc t))"

section \<open>The grammar\<close>

definition comma_loop_step ::
    "('f, 'f expr) parser \<Rightarrow> (('f, 'f expr list) parser) \<Rightarrow> ('f, 'f expr list) parser" where
  "comma_loop_step pe loop ts =
     rbind (Peek ts) (\<lambda>t.
       if kind t = Comma
       then rbind (pe (tl ts)) (\<lambda>(e, ts').
              rbind (loop ts') (\<lambda>(es, ts''). Inr (e # es, ts'')))
       else Inr ([], ts))"

primrec comma_loop :: "nat \<Rightarrow> ('f, 'f expr) parser \<Rightarrow> ('f, 'f expr list) parser" where
  "comma_loop 0 pe = (\<lambda>ts. Inl OutOfFuel)"
| "comma_loop (Suc n) pe = comma_loop_step pe (comma_loop n pe)"

definition ParseArgList :: "nat \<Rightarrow> ('f, 'f expr) parser \<Rightarrow> ('f, 'f expr list) parser" where
  "ParseArgList n pe ts =
     rbind (Peek ts) (\<lambda>t.
       if kind t = RParen then Inr ([], ts)
       else rbind (pe ts) (\<lambda>(e, ts').
              rbind (comma_loop n pe ts') (\<lambda>(es, ts''). Inr (e # es, ts''))))"

definition ParsePrimary :: "nat \<Rightarrow> ('f, 'f expr) parser \<Rightarrow> ('f, 'f expr) parser" where
  "ParsePrimary n pe ts =
     rbind (Peek ts) (\<lambda>t.
       if kind t = TokenKind.Number then Inr (NumberLiteral (loc t) (number_value t), tl ts)
       else if kind t = Identifier then
         rbind (Peek (tl ts)) (\<lambda>u.
           if kind u = LParen then
             rbind (ParseArgList n pe (tl (tl ts))) (\<lambda>(args, ts').
             rbind (Consume RParen ''Expected ')' after function args'' ts') (\<lambda>(_, ts'').
               Inr (FunctionCall (loc t) (lexeme t) args (-1) (-1), ts'')))
           else Inr (IdentifierExpr (loc t) (lexeme t), tl ts))
       else if kind t = LParen then
         rbind (pe (tl ts)) (\<lambda>(e, ts').
         rbind (Consume RParen ''Expected ')' after expression'' ts') (\<lambda>(_, ts'').
           Inr (if line (loc_of e) = 0 \<and> col (loc_of e) = 0 then set_loc (loc t) e else e,
                ts'')))
       else Fail ''Expected expression'' (loc t))"

fun ParseUnary :: "nat \<Rightarrow> ('f, 'f expr) parser \<Rightarrow> ('f, 'f expr) parser" where
  "ParseUnary n pe [] = ParsePrimary n pe []"
| "ParseUnary n pe (t # ts) =
     (if kind t = TPlus \<or> kind t = TMinus
      then rbind (ParseUnary n pe ts) (\<lambda>(e, ts').
             Inr (UnaryOp (loc t) (if kind t = TPlus then Plus else Minus) e, ts'))
      else ParsePrimary n pe (t # ts))"

text \<open>
  The four left-associative levels have the same loop: while the token under the cursor is an
  operator of the level, consume it, parse a right operand and extend the tree on the left.
\<close>

primrec left_loop ::
    "nat \<Rightarrow> (TokenKind \<Rightarrow> BinaryOpKind option) \<Rightarrow> ('f, 'f expr) parser \<Rightarrow> 'f expr \<Rightarrow>
     ('f, 'f expr) parser" where
  "left_loop 0 ops operand e = (\<lambda>ts. Inl OutOfFuel)"
| "left_loop (Suc n) ops operand e =
     (\<lambda>ts. rbind (Peek ts) (\<lambda>t.
        case ops (kind t) of
          None \<Rightarrow> Inr (e, ts)
        | Some k \<Rightarrow> rbind (operand (tl ts)) (\<lambda>(rhs, ts').
            left_loop n ops operand (BinaryOp (loc t) k e rhs) ts')))"

definition factor_op :: "TokenKind \<Rightarrow> BinaryOpKind option" where
  "factor_op k = (case k of Star \<Rightarrow> Some Mul | Slash \<Rightarrow> Some Div | _ \<Rightarrow> None)"

definition term_op :: "TokenKind \<Rightarrow> BinaryOpKind option" where
  "term_op k = (case k of TPlus \<Rightarrow> Some Add | TMinus \<Rightarrow> Some Sub | _ \<Rightarrow> None)"

definition comparison_op :: "TokenKind \<Rightarrow> BinaryOpKind option" where
  "comparison_op k =
     (case k of TGt \<Rightarrow> Some Gt | TLt \<Rightarrow> Some Lt | TGte \<Rightarrow> Some Gte | TLte \<Rightarrow> Some Lte
      | TEq \<Rightarrow> Some Eq | TNotEq \<Rightarrow> Some NotEq | _ \<Rightarrow> None)"

definition logical_op :: "TokenKind \<Rightarrow> BinaryOpKind option" where
  "logical_op k = (case k of TAnd \<Rightarrow> Some And | TOr \<Rightarrow> Some Or | _ \<Rightarrow> None)"

definition ParseFactor :: "nat \<Rightarrow> ('f, 'f expr) parser \<Rightarrow> ('f, 'f expr) parser" where
  "ParseFactor n pe ts =
     rbind (ParseUnary n pe ts) (\<lambda>(e, ts'). left_loop n factor_op (ParseUnary n pe) e ts')"

definition ParseTerm :: "nat \<Rightarrow> ('f, 'f expr) parser \<Rightarrow> ('f, 'f expr) parser" where
  "ParseTerm n pe ts =
     rbind (ParseFactor n pe ts) (\<lambda>(e, ts'). left_loop n term_op (ParseFactor n pe) e ts')"

definition ParseComparison :: "nat \<Rightarrow> ('f, 'f expr) parser \<Rightarrow> ('f, 'f expr) parser" where
  "ParseComparison n pe ts =
     rbind (ParseTerm n pe ts) (\<lambda>(e, ts'). left_loop n comparison_op (ParseTerm n pe) e ts')"

definition ParseLogical :: "nat \<Rightarrow> ('f, 'f expr) parser \<Rightarrow> ('f, 'f expr) parser" where
  "ParseLogical n pe ts =
     rbind (ParseComparison n pe ts) (\<lambda>(e, ts').
       left_loop n logical_op (ParseComparison n pe) e ts')"

definition ParseConditional :: "nat \<Rightarrow> ('f, 'f expr) parser \<Rightarrow> ('f, 'f expr) parser" where
  "ParseConditional n pe ts =
     rbind (Peek ts) (\<lambda>t.
       if kind t = If then
         rbind (pe (tl ts)) (\<lambda>(c, ts1).
         rbind (Consume Then ''Expected 'then' in conditional expression'' ts1) (\<lambda>(_, ts2).
         rbind (pe ts2) (\<lambda>(th, ts3).
         rbind (Consume Else ''Expected 'else' in conditional expression'' ts3) (\<lambda>(_, ts4).
         rbind (pe ts4) (\<lambda>(el, ts5).
           Inr (Conditional (loc t) c th el, ts5))))))
       else ParseLogical n pe ts)"

primrec ParseExpr :: "nat \<Rightarrow> ('f, 'f expr) parser" where
  "ParseExpr 0 = (\<lambda>ts. Inl OutOfFuel)"
| "ParseExpr (Suc n) = ParseConditional (Suc n) (ParseExpr n)"

definition ParseSignalDef :: "'f Token list \<Rightarrow> 'f SignalDef result" where
  "ParseSignalDef ts =
     rbind (Consume Signal ''Expected 'signal' at start of definition'' ts) (\<lambda>(_, ts1).
     rbind (Consume Identifier ''Expected signal name'' ts1) (\<lambda>(name, ts2).
     rbind (Consume Assign ''Expected '=' after signal name'' ts2) (\<lambda>(_, ts3).
     rbind (ParseExpr (length ts3) ts3) (\<lambda>(e, ts4).
     rbind (Consume EndOfFile ''Expected end of input'' ts4) (\<lambda>_.
       Inr \<lparr>sig_name = lexeme name, body = e\<rparr>)))))"

definition ParseParamDef :: "'f machine \<Rightarrow> 'f Token list \<Rightarrow> 'f ParamDef result" where
  "ParseParamDef M ts =
     rbind (Consume Param ''Expected 'param' at start of definition'' ts) (\<lambda>(_, ts1).
     rbind (Consume Identifier ''Expected parameter name'' ts1) (\<lambda>(name, ts2).
     rbind (Consume Assign ''Expected '=' after parameter name'' ts2) (\<lambda>(_, ts3).
     rbind (ParseExpr (length ts3) ts3) (\<lambda>(e, ts4).
     rbind (Consume EndOfFile ''Expected end of input'' ts4) (\<lambda>_.
       let tmp = \<lparr>sig_name = ''<param>'', body = e\<rparr>
       in rbind (TypeCheckSignal tmp) (\<lambda>_.
            let folded = FoldConstantsInPlace M tmp
            in case AsNumber (body folded) of
                 None \<Rightarrow>
                   Fail ''Parameter default must be a numeric literal after constant folding''
                     (loc_of (body folded))
               | Some v \<Rightarrow>
                   Inr \<lparr>param_name = lexeme name, default_value = v, param_id = -1,
                        param_loc = loc name\<rparr>))))))"

section \<open>Parsers that consume tokens and never read past the end\<close>

definition eof_terminated :: "'f Token list \<Rightarrow> bool" where
  "eof_terminated ts \<longleftrightarrow>
     ts \<noteq> [] \<and> kind (last ts) = EndOfFile \<and> (\<forall>t \<in> set (butlast ts). kind t \<noteq> EndOfFile)"

definition is_parse_error :: "err \<Rightarrow> bool" where
  "is_parse_error e \<longleftrightarrow> (\<exists>m l s. e = ParseError m l s)"

text \<open>What a good result on \<open>ts\<close> is: a located error, or a value and a (proper, if
  \<open>strict\<close>) suffix of \<open>ts\<close> that still ends in the end-of-file token.\<close>

fun leaves :: "bool \<Rightarrow> 'f Token list \<Rightarrow> ('a \<times> 'f Token list) result \<Rightarrow> bool" where
  "leaves strict ts (Inl e) = is_parse_error e"
| "leaves strict ts (Inr (x, rest)) \<longleftrightarrow>
     eof_terminated rest \<and> suffix rest ts \<and> (strict \<longrightarrow> length rest < length ts)"

definition parses_within :: "nat \<Rightarrow> ('f, 'a) parser \<Rightarrow> bool" where
  "parses_within n p \<longleftrightarrow> (\<forall>ts. eof_terminated ts \<longrightarrow> length ts \<le> n \<longrightarrow> leaves True ts (p ts))"

lemma eof_terminated_Cons:
  "eof_terminated (t # ts) \<longleftrightarrow>
     (if ts = [] then kind t = EndOfFile else kind t \<noteq> EndOfFile \<and> eof_terminated ts)"
  by (auto simp: eof_terminated_def)

lemma eof_terminated_tl:
  assumes "eof_terminated ts" and "kind (hd ts) \<noteq> EndOfFile"
  shows "eof_terminated (tl ts)" and "length (tl ts) < length ts"
  using assms by (cases ts; simp add: eof_terminated_Cons eof_terminated_def split: if_splits)+

lemma Peek_eof: "eof_terminated ts \<Longrightarrow> Peek ts = Inr (hd ts)"
  by (cases ts) (auto simp: eof_terminated_def)

lemma leaves_weaken: "leaves s ts r \<Longrightarrow> leaves False ts r"
  by (cases "(s, ts, r)" rule: leaves.cases) auto

lemma leaves_Fail [simp]: "leaves s ts (Fail msg l)"
  by (simp add: Fail_def is_parse_error_def)

lemma leaves_tl:
  assumes "eof_terminated ts" and "kind (hd ts) \<noteq> EndOfFile" and "leaves s (tl ts) r"
  shows "leaves True ts r"
  using assms eof_terminated_tl [OF assms(1,2)]
  by (cases "(s, tl ts, r)" rule: leaves.cases)
    (auto dest: suffix_length_le intro: suffix_order.trans [OF _ suffix_tl])

lemma leaves_bind:
  assumes "leaves s ts r"
    and "\<And>x rest. r = Inr (x, rest) \<Longrightarrow> eof_terminated rest \<Longrightarrow> length rest \<le> length ts \<Longrightarrow>
      (s \<Longrightarrow> length rest < length ts) \<Longrightarrow> leaves s2 rest (f x rest)"
  shows "leaves (s \<or> s2) ts (rbind r (\<lambda>(x, ts'). f x ts'))"
proof (cases r)
  case (Inl e)
  with assms(1) show ?thesis by simp
next
  case (Inr p)
  obtain x rest where p: "p = (x, rest)" by force
  with Inr assms(1) have rest: "eof_terminated rest" "suffix rest ts" "s \<Longrightarrow> length rest < length ts"
    by auto
  then have le: "length rest \<le> length ts" by (simp add: suffix_length_le)
  from assms(2) [OF _ rest(1) le rest(3)] Inr p have "leaves s2 rest (f x rest)" by simp
  with rest le Inr p show ?thesis
    by (cases "(s2, rest, f x rest)" rule: leaves.cases) (auto intro: suffix_order.trans dest: suffix_length_le)
qed

lemma leaves_bind_strict:
  assumes "leaves True ts r"
    and "\<And>x rest. r = Inr (x, rest) \<Longrightarrow> eof_terminated rest \<Longrightarrow> length rest < length ts \<Longrightarrow>
      leaves False rest (f x rest)"
  shows "leaves True ts (rbind r (\<lambda>(x, ts'). f x ts'))"
  using leaves_bind [of True ts r False f] assms by simp

lemma leaves_Consume:
  "eof_terminated ts \<Longrightarrow> k \<noteq> EndOfFile \<Longrightarrow> leaves True ts (Consume k msg ts)"
  using eof_terminated_tl [of ts] by (auto simp: Consume_def Peek_eof suffix_tl)

lemma parses_withinD:
  "parses_within n p \<Longrightarrow> eof_terminated ts \<Longrightarrow> length ts \<le> n \<Longrightarrow> leaves True ts (p ts)"
  by (simp add: parses_within_def)

lemma left_loop_leaves:
  assumes operand: "\<And>us. eof_terminated us \<Longrightarrow> length us \<le> m \<Longrightarrow> leaves True us (operand us)"
    and ops: "ops EndOfFile = None"
  shows "eof_terminated ts \<Longrightarrow> length ts \<le> n \<Longrightarrow> length ts \<le> Suc m \<Longrightarrow>
    leaves False ts (left_loop n ops operand e ts)"
proof (induction n arbitrary: ts e)
  case 0
  then show ?case by (simp add: eof_terminated_def)
next
  case (Suc n)
  show ?case
  proof (cases "ops (kind (hd ts))")
    case None
    with Suc.prems show ?thesis by (simp add: Peek_eof)
  next
    case (Some k)
    with ops have k: "kind (hd ts) \<noteq> EndOfFile" by auto
    from eof_terminated_tl [OF Suc.prems(1) k] Suc.prems
    have tl: "eof_terminated (tl ts)" "length (tl ts) \<le> n" "length (tl ts) \<le> m" by auto
    have "leaves True (tl ts) (rbind (operand (tl ts)) (\<lambda>(rhs, ts').
        left_loop n ops operand (BinaryOp (loc (hd ts)) k e rhs) ts'))"
      by (rule leaves_bind_strict [OF operand [OF tl(1,3)]], rule Suc.IH) (use tl in auto)
    from leaves_weaken [OF leaves_tl [OF Suc.prems(1) k this]] Some Suc.prems(1) show ?thesis
      by (simp add: Peek_eof)
  qed
qed

section \<open>The levels of the grammar over a good recursive call\<close>

locale expr_parser =
  fixes pe :: "('f, 'f expr) parser" and n :: nat
  assumes pe: "parses_within n pe"
begin

lemma pe_leaves: "eof_terminated ts \<Longrightarrow> length ts \<le> n \<Longrightarrow> leaves True ts (pe ts)"
  by (rule parses_withinD [OF pe])

lemma comma_loop_leaves:
  "eof_terminated ts \<Longrightarrow> length ts \<le> m \<Longrightarrow> length ts \<le> Suc n \<Longrightarrow>
     leaves False ts (comma_loop m pe ts)"
proof (induction m arbitrary: ts)
  case 0
  then show ?case by (simp add: eof_terminated_def)
next
  case (Suc m)
  show ?case
  proof (cases "kind (hd ts) = Comma")
    case False
    with Suc.prems show ?thesis by (simp add: Peek_eof comma_loop_step_def)
  next
    case True
    then have k: "kind (hd ts) \<noteq> EndOfFile" by simp
    from eof_terminated_tl [OF Suc.prems(1) k] Suc.prems
    have tl: "eof_terminated (tl ts)" "length (tl ts) \<le> m" "length (tl ts) \<le> n" by auto
    have "leaves True (tl ts) (rbind (pe (tl ts)) (\<lambda>(e, ts').
        rbind (comma_loop m pe ts') (\<lambda>(es, ts''). Inr (e # es, ts''))))"
    proof (rule leaves_bind_strict [OF pe_leaves [OF tl(1,3)]])
      fix e and ts' :: "'f Token list"
      assume ts': "eof_terminated ts'" "length ts' < length (tl ts)"
      have "leaves False ts' (comma_loop m pe ts')"
        by (rule Suc.IH) (use tl ts' in auto)
      from leaves_bind [OF this, of False "\<lambda>es ts''. Inr (e # es, ts'')"]
      show "leaves False ts' (rbind (comma_loop m pe ts') (\<lambda>(es, ts''). Inr (e # es, ts'')))"
        by simp
    qed
    from leaves_weaken [OF leaves_tl [OF Suc.prems(1) k this]] True Suc.prems(1) show ?thesis
      by (simp add: Peek_eof comma_loop_step_def)
  qed
qed

lemma ParseArgList_leaves:
  assumes "eof_terminated ts" and "length ts \<le> n"
  shows "leaves False ts (ParseArgList (Suc n) pe ts)"
proof (cases "kind (hd ts) = RParen")
  case False
  have "leaves True ts (rbind (pe ts) (\<lambda>(e, ts').
      rbind (comma_loop (Suc n) pe ts') (\<lambda>(es, ts''). Inr (e # es, ts''))))"
  proof (rule leaves_bind_strict [OF pe_leaves [OF assms]])
    fix e and ts' :: "'f Token list"
    assume ts': "eof_terminated ts'" "length ts' < length ts"
    then have "leaves False ts' (comma_loop (Suc n) pe ts')"
      by (intro comma_loop_leaves) (use assms in auto)
    from leaves_bind [OF this, of False "\<lambda>es ts''. Inr (e # es, ts'')"]
    show "leaves False ts' (rbind (comma_loop (Suc n) pe ts') (\<lambda>(es, ts''). Inr (e # es, ts'')))"
      by simp
  qed
  from leaves_weaken [OF this] False assms show ?thesis by (simp add: ParseArgList_def Peek_eof)
qed (use assms in \<open>simp add: ParseArgList_def Peek_eof\<close>)

lemma closing_leaves:
  "eof_terminated ts \<Longrightarrow>
     leaves False ts (rbind (Consume RParen msg ts) (\<lambda>(u, ts''). Inr (x, ts'')))"
  using leaves_weaken [OF leaves_bind [OF leaves_Consume [of ts RParen msg],
      of False "\<lambda>u ts''. Inr (x, ts'')"]] by simp

lemma ParsePrimary_leaves:
  assumes ts: "eof_terminated ts" and len: "length ts \<le> Suc n"
  shows "leaves True ts (ParsePrimary (Suc n) pe ts)"
proof (cases "kind (hd ts) = EndOfFile")
  case True
  with ts show ?thesis by (simp add: ParsePrimary_def Peek_eof)
next
  case False
  note tl = eof_terminated_tl [OF ts False]
  have tl_len: "length (tl ts) \<le> n" using tl(2) len by simp
  have call: "leaves True ts (rbind (ParseArgList (Suc n) pe (tl (tl ts))) (\<lambda>(args, ts').
      rbind (Consume RParen ''Expected ')' after function args'' ts') (\<lambda>(_, ts'').
        Inr (FunctionCall l nm args (-1) (-1), ts''))))" (is "leaves True ts ?call")
    if lp: "kind (hd (tl ts)) = LParen" for l nm
  proof -
    from lp have "kind (hd (tl ts)) \<noteq> EndOfFile" by simp
    note tl2 = eof_terminated_tl [OF tl(1) this]
    have "leaves False (tl (tl ts)) ?call"
      by (rule leaves_bind [where s = False and ?s2.0 = False, simplified],
          rule ParseArgList_leaves [OF tl2(1)])
        (use tl2(2) tl_len in \<open>auto intro: closing_leaves\<close>)
    from leaves_tl [OF tl(1) \<open>kind (hd (tl ts)) \<noteq> EndOfFile\<close> this] show ?thesis
      by (rule leaves_tl [OF ts False])
  qed
  have paren: "leaves True ts (rbind (pe (tl ts)) (\<lambda>(e, ts').
      rbind (Consume RParen ''Expected ')' after expression'' ts') (\<lambda>(_, ts''). Inr (g e, ts''))))"
    for g :: "'f expr \<Rightarrow> 'f expr"
    by (rule leaves_tl [OF ts False], rule leaves_bind_strict [OF pe_leaves [OF tl(1) tl_len]],
        rule closing_leaves)
  show ?thesis
    using ts tl call paren by (simp add: ParsePrimary_def Peek_eof suffix_tl)
qed

lemma ParseUnary_leaves:
  "eof_terminated ts \<Longrightarrow> length ts \<le> Suc n \<Longrightarrow> leaves True ts (ParseUnary (Suc n) pe ts)"
proof (induction ts)
  case Nil
  then show ?case by (simp add: eof_terminated_def)
next
  case (Cons t ts)
  show ?case
  proof (cases "kind t = TPlus \<or> kind t = TMinus")
    case True
    then have k: "kind (hd (t # ts)) \<noteq> EndOfFile" by auto
    from eof_terminated_tl [OF Cons.prems(1) k] Cons have "leaves True ts (ParseUnary (Suc n) pe ts)"
      by simp
    from leaves_tl [OF Cons.prems(1) k, of True] leaves_bind [OF this, of False "\<lambda>e ts'.
        Inr (UnaryOp (loc t) (if kind t = TPlus then Plus else Minus) e, ts')"] True
    show ?thesis by (cases "kind t = TPlus") simp_all
  next
    case False
    with ParsePrimary_leaves [OF Cons.prems] show ?thesis by simp
  qed
qed

lemma level_leaves:
  assumes operand: "\<And>us. eof_terminated us \<Longrightarrow> length us \<le> Suc n \<Longrightarrow> leaves True us (operand us)"
    and ops: "ops EndOfFile = None" and ts: "eof_terminated ts" "length ts \<le> Suc n"
  shows "leaves True ts (rbind (operand ts) (\<lambda>(e, ts'). left_loop (Suc n) ops operand e ts'))"
  by (rule leaves_bind_strict [OF operand [OF ts]], rule left_loop_leaves [where m = "Suc n"])
    (use operand ops ts in auto)

lemma ParseFactor_leaves:
  "eof_terminated ts \<Longrightarrow> length ts \<le> Suc n \<Longrightarrow> leaves True ts (ParseFactor (Suc n) pe ts)"
  unfolding ParseFactor_def by (rule level_leaves [OF ParseUnary_leaves]) (auto simp: factor_op_def)

lemma ParseTerm_leaves:
  "eof_terminated ts \<Longrightarrow> length ts \<le> Suc n \<Longrightarrow> leaves True ts (ParseTerm (Suc n) pe ts)"
  unfolding ParseTerm_def by (rule level_leaves [OF ParseFactor_leaves]) (auto simp: term_op_def)

lemma ParseComparison_leaves:
  "eof_terminated ts \<Longrightarrow> length ts \<le> Suc n \<Longrightarrow> leaves True ts (ParseComparison (Suc n) pe ts)"
  unfolding ParseComparison_def
  by (rule level_leaves [OF ParseTerm_leaves]) (auto simp: comparison_op_def)

lemma ParseLogical_leaves:
  "eof_terminated ts \<Longrightarrow> length ts \<le> Suc n \<Longrightarrow> leaves True ts (ParseLogical (Suc n) pe ts)"
  unfolding ParseLogical_def
  by (rule level_leaves [OF ParseComparison_leaves]) (auto simp: logical_op_def)

lemma ParseConditional_leaves:
  assumes ts: "eof_terminated ts" and len: "length ts \<le> Suc n"
  shows "leaves True ts (ParseConditional (Suc n) pe ts)"
proof (cases "kind (hd ts) = If")
  case False
  with ParseLogical_leaves [OF assms] ts show ?thesis by (simp add: ParseConditional_def Peek_eof)
next
  case True
  then have k: "kind (hd ts) \<noteq> EndOfFile" by simp
  note tl = eof_terminated_tl [OF ts k]
  have step: "leaves False us (rbind (Consume kd msg us) (\<lambda>(_, vs).
      rbind (pe vs) (\<lambda>(x, ws). f x ws)))"
    if "eof_terminated us" "length us \<le> n" "kd \<noteq> EndOfFile"
      and "\<And>x ws. eof_terminated ws \<Longrightarrow> length ws < length us \<Longrightarrow> leaves False ws (f x ws)"
    for us kd msg and f :: "'f expr \<Rightarrow> 'f Token list \<Rightarrow> ('f expr \<times> 'f Token list) result"
    by (rule leaves_weaken, rule leaves_bind_strict [OF leaves_Consume [OF that(1,3)]],
        rule leaves_weaken, rule leaves_bind_strict [OF pe_leaves], assumption)
      (use that in auto)
  have "leaves True ts (rbind (pe (tl ts)) (\<lambda>(c, ts1).
         rbind (Consume Then ''Expected 'then' in conditional expression'' ts1) (\<lambda>(_, ts2).
         rbind (pe ts2) (\<lambda>(th, ts3).
         rbind (Consume Else ''Expected 'else' in conditional expression'' ts3) (\<lambda>(_, ts4).
         rbind (pe ts4) (\<lambda>(el, ts5).
           Inr (Conditional (loc (hd ts)) c th el, ts5)))))))"
    by (rule leaves_tl [OF ts k], rule leaves_bind_strict [OF pe_leaves [OF tl(1)]])
      (use tl len in \<open>auto intro!: step\<close>)
  with True ts show ?thesis by (simp add: ParseConditional_def Peek_eof)
qed

end

lemma parses_within_ParseExpr: "parses_within n (ParseExpr n :: ('f, 'f expr) parser)"
proof (induction n)
  case 0
  show ?case by (simp add: parses_within_def eof_terminated_def)
next
  case (Suc n)
  then have "expr_parser (ParseExpr n :: ('f, 'f expr) parser) n" by (rule expr_parser.intro)
  from expr_parser.ParseConditional_leaves [OF this] show ?case
    by (simp add: parses_within_def)
qed

interpretation grammar: expr_parser "ParseExpr n" n for n
  by unfold_locales (rule parses_within_ParseExpr)

section \<open>Definitions\<close>

definition err_ok :: "'a result \<Rightarrow> bool" where
  "err_ok r \<longleftrightarrow> (\<forall>e. r = Inl e \<longrightarrow> is_parse_error e)"

lemma err_ok_bind:
  assumes "leaves s ts r" and "\<And>x rest. eof_terminated rest \<Longrightarrow> err_ok (f (x, rest))"
  shows "err_ok (rbind r f)"
  using assms by (cases "(s, ts, r)" rule: leaves.cases) (auto simp: err_ok_def)

lemma err_ok_Inr [simp]: "err_ok (Inr x)"
  by (simp add: err_ok_def)

lemma err_ok_Consume_eof:
  "eof_terminated ts \<Longrightarrow> err_ok r \<Longrightarrow> err_ok (rbind (Consume EndOfFile msg ts) (\<lambda>_. r))"
  by (auto simp: Consume_def Peek_eof Fail_def err_ok_def is_parse_error_def)

lemma err_ok_TypeCheckSignal: "err_ok (TypeCheckSignal sg)"
  by (auto simp: err_ok_def TypeCheckSignal_def rbind_eq_Inl_iff is_parse_error_def
      dest: TypeCheck_error(1) split: if_splits)

lemma ParseSignalDef_err_ok:
  "eof_terminated ts \<Longrightarrow> err_ok (ParseSignalDef ts)"
  unfolding ParseSignalDef_def
  by (rule err_ok_bind [OF leaves_Consume], assumption, simp, clarsimp,
      rule err_ok_bind [OF leaves_Consume], assumption, simp, clarsimp,
      rule err_ok_bind [OF leaves_Consume], assumption, simp, clarsimp,
      rule err_ok_bind [OF grammar.pe_leaves], assumption, simp, clarsimp,
      rule err_ok_Consume_eof, assumption, simp)

lemma err_ok_rbind: "err_ok r \<Longrightarrow> (\<And>x. r = Inr x \<Longrightarrow> err_ok (f x)) \<Longrightarrow> err_ok (rbind r f)"
  by (cases r) (auto simp: err_ok_def)

lemma err_ok_Fail [simp]: "err_ok (Fail msg l)"
  by (simp add: err_ok_def Fail_def is_parse_error_def)

lemma ParseParamDef_err_ok:
  "eof_terminated ts \<Longrightarrow> err_ok (ParseParamDef M ts)"
  unfolding ParseParamDef_def
  by (rule err_ok_bind [OF leaves_Consume], assumption, simp, clarsimp,
      rule err_ok_bind [OF leaves_Consume], assumption, simp, clarsimp,
      rule err_ok_bind [OF leaves_Consume], assumption, simp, clarsimp,
      rule err_ok_bind [OF grammar.pe_leaves], assumption, simp, clarsimp,
      rule err_ok_Consume_eof, assumption, unfold Let_def,
      rule err_ok_rbind [OF err_ok_TypeCheckSignal], simp split: option.split)

section \<open>Parsed trees carry no annotation\<close>

text \<open>No parameter node and no node or symbol id: those are given by later passes.\<close>

fun unannotated :: "'f expr \<Rightarrow> bool" where
  "unannotated (ParameterExpr l n i) \<longleftrightarrow> False"
| "unannotated (UnaryOp l k e) \<longleftrightarrow> unannotated e"
| "unannotated (BinaryOp l k a b) \<longleftrightarrow> unannotated a \<and> unannotated b"
| "unannotated (Conditional l c t e) \<longleftrightarrow> unannotated c \<and> unannotated t \<and> unannotated e"
| "unannotated (FunctionCall l n as i s) \<longleftrightarrow> i = -1 \<and> s = -1 \<and> list_all unannotated as"
| "unannotated _ \<longleftrightarrow> True"

lemma unannotated_set_loc [simp]: "unannotated (set_loc l e) = unannotated e"
  by (cases e) auto

lemma unannotated_FoldConstants: "unannotated e \<Longrightarrow> unannotated (FoldConstants M e)"
  by (induction e) (auto simp: Let_def list_all_iff split: option.splits)

definition yields :: "('a \<Rightarrow> bool) \<Rightarrow> ('f, 'a) parser \<Rightarrow> bool" where
  "yields Q p \<longleftrightarrow> (\<forall>ts x rest. p ts = Inr (x, rest) \<longrightarrow> Q x)"

lemma yieldsD: "yields Q p \<Longrightarrow> p ts = Inr (x, rest) \<Longrightarrow> Q x"
  unfolding yields_def by blast

locale fresh_parser =
  fixes pe :: "('f, 'f expr) parser"
  assumes pe_fresh: "yields unannotated pe"
begin

lemma left_loop_fresh:
  assumes "yields unannotated operand" and "unannotated e"
  shows "yields unannotated (left_loop n ops operand e)"
  using assms(2)
proof (induction n arbitrary: e)
  case (Suc n)
  show ?case
    unfolding yields_def
  proof (intro allI impI)
    fix ts x rest
    assume "left_loop (Suc n) ops operand e ts = Inr (x, rest)"
    then consider "x = e"
      | l k rhs ts' us where "operand (tl ts) = Inr (rhs, ts')"
          "left_loop n ops operand (BinaryOp l k e rhs) ts' = Inr (x, us)"
      by (auto simp: rbind_eq_Inr_iff split: option.splits)
    then show "unannotated x"
    proof cases
      case 2
      with Suc.prems yieldsD [OF assms(1)] have "unannotated (BinaryOp l k e rhs)" by simp
      from yieldsD [OF Suc.IH [OF this] 2(2)] show ?thesis .
    qed (simp add: Suc.prems)
  qed
qed (simp add: yields_def)

lemma level_fresh:
  assumes "yields unannotated operand"
  shows "yields unannotated (\<lambda>ts. rbind (operand ts) (\<lambda>(e, ts'). left_loop n ops operand e ts'))"
  unfolding yields_def
  by (auto simp: rbind_eq_Inr_iff intro: yieldsD [OF left_loop_fresh [OF assms yieldsD [OF assms]]])

lemma comma_loop_fresh: "yields (list_all unannotated) (comma_loop n pe)"
proof (induction n)
  case (Suc n)
  show ?case
    unfolding yields_def
    by (auto simp: comma_loop_step_def rbind_eq_Inr_iff split: if_splits
        dest: yieldsD [OF pe_fresh] yieldsD [OF Suc.IH])
qed (simp add: yields_def)

lemma ParseArgList_fresh: "yields (list_all unannotated) (ParseArgList n pe)"
  unfolding yields_def ParseArgList_def
  by (auto simp: rbind_eq_Inr_iff split: if_splits
      dest: yieldsD [OF pe_fresh] yieldsD [OF comma_loop_fresh])

lemma ParsePrimary_fresh: "yields unannotated (ParsePrimary n pe)"
  unfolding yields_def ParsePrimary_def
  by (auto simp: rbind_eq_Inr_iff Fail_def split: if_splits
      dest: yieldsD [OF ParseArgList_fresh] yieldsD [OF pe_fresh])

lemma ParseUnary_fresh: "yields unannotated (ParseUnary n pe)"
proof -
  have "ParseUnary n pe ts = Inr (e, rest) \<Longrightarrow> unannotated e" for ts e rest
    by (induction ts arbitrary: e rest)
      (auto simp: rbind_eq_Inr_iff split: if_splits dest: yieldsD [OF ParsePrimary_fresh])
  then show ?thesis by (auto simp: yields_def)
qed

lemma ParseLogical_fresh: "yields unannotated (ParseLogical n pe)"
  unfolding ParseLogical_def ParseComparison_def ParseTerm_def ParseFactor_def
  by (intro level_fresh ParseUnary_fresh)

lemma ParseConditional_fresh: "yields unannotated (ParseConditional n pe)"
  unfolding yields_def ParseConditional_def
  by (auto simp: rbind_eq_Inr_iff split: if_splits
      dest: yieldsD [OF ParseLogical_fresh] yieldsD [OF pe_fresh])

end

lemma ParseExpr_fresh: "yields unannotated (ParseExpr n)"
proof (induction n)
  case (Suc n)
  then have "fresh_parser (ParseExpr n :: ('a, 'a expr) parser)" by (rule fresh_parser.intro)
  from fresh_parser.ParseConditional_fresh [OF this] show ?case by simp
qed (simp add: yields_def)

interpretation fresh_grammar: fresh_parser "ParseExpr n" for n
  by unfold_locales (rule ParseExpr_fresh)

lemma ParseSignalDef_fresh: "ParseSignalDef ts = Inr sg \<Longrightarrow> unannotated (body sg)"
  by (auto simp: ParseSignalDef_def rbind_eq_Inr_iff dest: yieldsD [OF fresh_grammar.pe_fresh])

text \<open>C32: Parsing a definition from any token list that ends in an end-of-file token terminates in a
  tree without annotations or in a located parse error: the cursor never leaves the tokens, and as
  much fuel as there are tokens is never exhausted.\<close>

theorem ParseSignalDef_total:
  assumes "eof_terminated ts"
  shows "(\<exists>sg. ParseSignalDef ts = Inr sg \<and> unannotated (body sg)) \<or>
    (\<exists>msg l text. ParseSignalDef ts = Inl (ParseError msg l text))"
  using ParseSignalDef_err_ok [OF assms] ParseSignalDef_fresh [of ts]
  by (cases "ParseSignalDef ts") (auto simp: err_ok_def is_parse_error_def)

theorem ParseSignalDef_total_witness:
  "\<exists>msg l text. ParseSignalDef [eof_token (ieee id) 0] = Inl (ParseError msg l text)"
  using ParseSignalDef_total [of "[eof_token (ieee id) 0]"]
  by (simp add: eof_terminated_def eof_token_def ParseSignalDef_def Consume_def Fail_def)

end
