(* ===== verification/Signal_Program.thy ===== *)
theory Signal_Program
  imports Parser Constant_Fold
begin

text \<open>
  Programs of several definitions (\<^verbatim>\<open>src/signal_program.cpp\<close>): reading the source line
  by line, numbering the parameters and replacing the references to them. A program that is
  accepted has distinct names, parameters numbered by position and well-typed, folded bodies.
\<close>

section \<open>References and parameters\<close>

text \<open>The arguments a reference may occur in: all but the ticker of a market-data call.\<close>

definition ref_args :: "string \<Rightarrow> 'f expr list \<Rightarrow> 'f expr list" where
  "ref_args n as = (if ticker_first_arg n then tl as else as)"

lemma ref_args_cong [fundef_cong]:
  "n = n' \<Longrightarrow> as = as' \<Longrightarrow> ref_args n as = ref_args n' as'"
  by simp

lemma set_ref_args: "a \<in> set (ref_args n as) \<Longrightarrow> a \<in> set as"
  by (cases as) (auto simp: ref_args_def split: if_splits)

lemma size_ref_args [termination_simp]: "a \<in> set (ref_args n as) \<Longrightarrow> size a < Suc (size_list size as)"
  by (drule set_ref_args) (simp add: less_Suc_eq_le size_list_estimation')

fun CollectRefs :: "'f expr \<Rightarrow> string list \<Rightarrow> string list" where
  "CollectRefs (IdentifierExpr l n) refs = List.insert n refs"
| "CollectRefs (UnaryOp l k e) refs = CollectRefs e refs"
| "CollectRefs (BinaryOp l k a b) refs = CollectRefs b (CollectRefs a refs)"
| "CollectRefs (Conditional l c t e) refs = CollectRefs e (CollectRefs t (CollectRefs c refs))"
| "CollectRefs (FunctionCall l n as i s) refs = fold CollectRefs (ref_args n as) refs"
| "CollectRefs e refs = refs"

text \<open>The names a tree refers to, as a set.\<close>

fun refs_of :: "'f expr \<Rightarrow> string set" where
  "refs_of (IdentifierExpr l n) = {n}"
| "refs_of (UnaryOp l k e) = refs_of e"
| "refs_of (BinaryOp l k a b) = refs_of a \<union> refs_of b"
| "refs_of (Conditional l c t e) = refs_of c \<union> refs_of t \<union> refs_of e"
| "refs_of (FunctionCall l n as i s) = \<Union> (refs_of ` set (ref_args n as))"
| "refs_of _ = {}"

fun ResolveParameterRefs :: "(string \<rightharpoonup> int) \<Rightarrow> 'f expr \<Rightarrow> 'f expr" where
  "ResolveParameterRefs ids (IdentifierExpr l n) =
     (case ids n of Some i \<Rightarrow> ParameterExpr l n i | None \<Rightarrow> IdentifierExpr l n)"
| "ResolveParameterRefs ids (UnaryOp l k e) = UnaryOp l k (ResolveParameterRefs ids e)"
| "ResolveParameterRefs ids (BinaryOp l k a b) =
     BinaryOp l k (ResolveParameterRefs ids a) (ResolveParameterRefs ids b)"
| "ResolveParameterRefs ids (Conditional l c t e) =
     Conditional l (ResolveParameterRefs ids c) (ResolveParameterRefs ids t) (ResolveParameterRefs ids e)"
| "ResolveParameterRefs ids (FunctionCall l n as i s) =
     FunctionCall l n
       (if ticker_first_arg n then take 1 as @ map (ResolveParameterRefs ids) (ref_args n as)
        else map (ResolveParameterRefs ids) (ref_args n as)) i s"
| "ResolveParameterRefs ids e = e"

section \<open>Reading a program\<close>

definition Trim :: "string \<Rightarrow> string" where
  "Trim s = rev (dropWhile is_space (rev (dropWhile is_space s)))"

text \<open>\<^verbatim>\<open>std::getline\<close> in a loop: the pieces between newlines, without an empty last one.\<close>

fun getlines :: "string \<Rightarrow> string \<Rightarrow> string list" where
  "getlines acc [] = (if acc = [] then [] else [rev acc])"
| "getlines acc (c # cs) = (if c = CHR 0x0A then rev acc # getlines [] cs else getlines (c # acc) cs)"

definition attach_line :: "string \<Rightarrow> 'a result \<Rightarrow> 'a result" where
  "attach_line text r = (case r of Inl (ParseError m l _) \<Rightarrow> Inl (ParseError m l text) | _ \<Rightarrow> r)"

definition stamp_line :: "nat \<Rightarrow> 'f Token \<Rightarrow> 'f Token" where
  "stamp_line line_no t = t\<lparr>Token.loc := (Token.loc t)\<lparr>line := word_of_nat line_no\<rparr>\<rparr>"

definition parse_line ::
    "'f machine \<Rightarrow> nat \<times> string \<Rightarrow> 'f ProgramDef \<Rightarrow> 'f ProgramDef result" where
  "parse_line M numbered out =
     (let (line_no, raw) = numbered; text = Trim (takeWhile (\<lambda>c. c \<noteq> CHR ''#'') raw)
      in if text = [] then Inr out
         else rbind (Tokenize M text) (\<lambda>toks.
           let tokens = map (stamp_line line_no) toks;
               first_kind = (if tokens = [] then EndOfFile else kind (hd tokens))
           in attach_line text
             (if first_kind = Param then
                rbind (ParseParamDef M tokens) (\<lambda>def.
                  let def' = if param_id def < 0 then def\<lparr>param_id := int (length (params_of out))\<rparr> else def
                  in Inr (out\<lparr>params_of := params_of out @ [def']\<rparr>))
              else
                rbind (ParseSignalDef tokens) (\<lambda>def.
                rbind (TypeCheckSignal def) (\<lambda>_.
                  Inr (out\<lparr>signals_of := signals_of out @ [FoldConstantsInPlace M def]\<rparr>))))))"

text \<open>The loop that numbers the parameters and rejects a repeated name.\<close>

definition number_param ::
    "'f ParamDef \<Rightarrow> 'f ParamDef list \<times> (string \<rightharpoonup> int) \<Rightarrow> ('f ParamDef list \<times> (string \<rightharpoonup> int)) result" where
  "number_param p s =
     (let (done_params, ids) = s; i = int (length done_params)
      in if ids (param_name p) \<noteq> None
         then Inl (ParseError (''Duplicate parameter name: '' @ param_name p) (param_loc p) [])
         else Inr (done_params @ [p\<lparr>param_id := i\<rparr>], ids(param_name p \<mapsto> i)))"

definition check_signal_name ::
    "(string \<rightharpoonup> int) \<Rightarrow> 'f SignalDef \<Rightarrow> string list \<Rightarrow> string list result" where
  "check_signal_name ids sg names =
     (if sig_name sg \<in> set names then Inl (RuntimeError (''Duplicate signal name: '' @ sig_name sg))
      else if ids (sig_name sg) \<noteq> None
        then Inl (RuntimeError (''Name used by both parameter and signal: '' @ sig_name sg))
      else Inr (sig_name sg # names))"

definition ParseProgram :: "'f machine \<Rightarrow> string \<Rightarrow> 'f ProgramDef result" where
  "ParseProgram M source =
     rbind (iterate (parse_line M) (zip [1..<Suc (length (getlines [] source))] (getlines [] source))
              \<lparr>params_of = [], signals_of = []\<rparr>) (\<lambda>out.
     if signals_of out = [] then Inl (RuntimeError ''No signal definitions found'')
     else rbind (iterate number_param (params_of out) ([], Map.empty)) (\<lambda>(ps, ids).
       rbind (iterate (check_signal_name ids) (signals_of out) []) (\<lambda>_.
         Inr \<lparr>params_of = ps,
              signals_of = map (\<lambda>sg. sg\<lparr>body := ResolveParameterRefs ids (body sg)\<rparr>) (signals_of out)\<rparr>)))"

definition ParseSignalProgram :: "'f machine \<Rightarrow> string \<Rightarrow> 'f SignalDef list result" where
  "ParseSignalProgram M source = rbind (ParseProgram M source) (\<lambda>p. Inr (signals_of p))"

section \<open>What resolving parameters does\<close>

lemma set_CollectRefs [simp]: "set (CollectRefs e refs) = set refs \<union> refs_of e"
proof (induction e arbitrary: refs)
  case (FunctionCall l n as i s)
  have "set (fold CollectRefs xs r) = set r \<union> \<Union> (refs_of ` set xs)"
    if "set xs \<subseteq> set as" for xs r
    using that by (induction xs arbitrary: r) (auto simp: FunctionCall)
  from this [of "ref_args n as" refs] show ?case by (auto dest: set_ref_args)
qed auto

lemma distinct_CollectRefs: "distinct refs \<Longrightarrow> distinct (CollectRefs e refs)"
proof (induction e arbitrary: refs)
  case (FunctionCall l n as i s)
  have "distinct (fold CollectRefs xs r)" if "set xs \<subseteq> set as" "distinct r" for xs r
    using that by (induction xs arbitrary: r) (auto simp: FunctionCall)
  from this [of "ref_args n as" refs] FunctionCall(2) show ?case by (auto dest: set_ref_args)
qed auto

text \<open>The parameters a tree reads, by name and id.\<close>

fun param_uses :: "'f expr \<Rightarrow> (string \<times> int) set" where
  "param_uses (ParameterExpr l n i) = {(n, i)}"
| "param_uses (UnaryOp l k e) = param_uses e"
| "param_uses (BinaryOp l k a b) = param_uses a \<union> param_uses b"
| "param_uses (Conditional l c t e) = param_uses c \<union> param_uses t \<union> param_uses e"
| "param_uses (FunctionCall l n as i s) = \<Union> (param_uses ` set as)"
| "param_uses _ = {}"

lemma ref_args_resolved:
  "ref_args n (if ticker_first_arg n then take 1 as @ map f (ref_args n as) else map f (ref_args n as)) =
     map f (ref_args n as)"
  by (cases as) (auto simp: ref_args_def)

lemma refs_of_ResolveParameterRefs:
  "refs_of (ResolveParameterRefs ids e) = refs_of e - dom ids"
proof (induction e)
  case (FunctionCall l n as i s)
  have "refs_of (ResolveParameterRefs ids a) = refs_of a - dom ids" if "a \<in> set (ref_args n as)" for a
    by (rule FunctionCall) (rule set_ref_args [OF that])
  then have "\<Union> (refs_of ` ResolveParameterRefs ids ` set (ref_args n as)) =
      \<Union> (refs_of ` set (ref_args n as)) - dom ids"
    by auto
  then show ?case by (simp only: ResolveParameterRefs.simps refs_of.simps ref_args_resolved set_map)
qed (auto split: option.splits)

lemma param_uses_ResolveParameterRefs:
  "param_uses (ResolveParameterRefs ids e) =
     param_uses e \<union> {(n, i). n \<in> refs_of e \<and> ids n = Some i}"
proof (induction e)
  case (FunctionCall l n as i s)
  have "set as = set (take 1 as) \<union> set (ref_args n as)" if "ticker_first_arg n"
    using that by (cases as) (auto simp: ref_args_def)
  moreover have "ref_args n as = as" if "\<not> ticker_first_arg n"
    using that by (simp add: ref_args_def)
  ultimately show ?case
    by (cases "ticker_first_arg n") (auto simp: FunctionCall dest: set_ref_args)
qed (auto split: option.splits)

section \<open>What a program is when it is accepted\<close>

definition program_error :: "err \<Rightarrow> bool" where
  "program_error e \<longleftrightarrow> is_parse_error e \<or> (\<exists>m. e = RuntimeError m)"

lemma read_operator_error: "read_operator c cs = Inl e \<Longrightarrow> \<exists>m. e = RuntimeError m"
  unfolding read_operator_def by (simp split: if_splits; blast)

lemma read_token_error: "read_token M pos c cs = Inl e \<Longrightarrow> \<exists>m. e = RuntimeError m"
  by (auto simp: read_token_def ReadNumber_def rbind_eq_Inl_iff
      split: if_splits prod.splits dest: read_operator_error)

lemma TokenizeFrom_error: "TokenizeFrom M pos cs = Inl e \<Longrightarrow> \<exists>m. e = RuntimeError m"
  by (induction M pos cs rule: TokenizeFrom.induct)
    (auto simp: rbind_eq_Inl_iff split: if_splits prod.splits dest: read_token_error)

lemma stamped_eof: "Tokenize M text = Inr toks \<Longrightarrow> eof_terminated (map (stamp_line k) toks)"
  by (auto simp: Tokenize_def eof_terminated_def stamp_line_def butlast_append dest!: TokenizeFrom_eof)

text \<open>A signal body as it stands before parameters are resolved: parsed, typed, folded.\<close>

definition typed_body :: "'f machine \<Rightarrow> 'f expr \<Rightarrow> bool" where
  "typed_body M e \<longleftrightarrow>
     (\<exists>e0. unannotated e0 \<and> has_type e0 StaticType.Number \<and> e = FoldConstants M e0)"

lemma typed_body_unannotated: "typed_body M e \<Longrightarrow> unannotated e"
  by (auto simp: typed_body_def unannotated_FoldConstants)

lemma unannotated_param_uses: "unannotated e \<Longrightarrow> param_uses e = {}"
  by (induction e) (auto simp: list_all_iff)

lemma attach_line_cases:
  "attach_line text r = Inr x \<longleftrightarrow> r = Inr x"
  "attach_line text r = Inl e \<Longrightarrow>
     (\<exists>m l t. r = Inl (ParseError m l t) \<and> e = ParseError m l text) \<or> r = Inl e"
  by (auto simp: attach_line_def split: sum.splits err.splits)

lemma err_ok_attach_line: "err_ok r \<Longrightarrow> err_ok (attach_line text r)"
  by (auto simp: err_ok_def is_parse_error_def attach_line_def split: sum.splits)

lemma parse_line_error:
  fixes M :: "'f machine"
  assumes "parse_line M (k, raw) out = Inl e"
  shows "program_error e"
proof (cases "Trim (takeWhile (\<lambda>c. c \<noteq> CHR ''#'') raw) = []")
  case True
  with assms show ?thesis by (simp add: parse_line_def Let_def)
next
  case False
  let ?text = "Trim (takeWhile (\<lambda>c. c \<noteq> CHR ''#'') raw)"
  show ?thesis
  proof (cases "Tokenize M ?text")
    case (Inl x)
    with False assms TokenizeFrom_error show ?thesis
      by (fastforce simp: parse_line_def Let_def Tokenize_def program_error_def)
  next
    case (Inr toks)
    note eof = stamped_eof [OF Inr, of k]
    have "err_ok (rbind (ParseParamDef M (map (stamp_line k) toks)) (\<lambda>d. Inr (f d)))"
        "err_ok (rbind (ParseSignalDef (map (stamp_line k) toks)) (\<lambda>d.
           rbind (TypeCheckSignal d) (\<lambda>_. Inr (g d))))"
      for f :: "'f ParamDef \<Rightarrow> 'f ProgramDef" and g :: "'f SignalDef \<Rightarrow> 'f ProgramDef"
      by (intro err_ok_rbind [OF ParseParamDef_err_ok [OF eof]] err_ok_Inr
          err_ok_rbind [OF ParseSignalDef_err_ok [OF eof]] err_ok_rbind [OF err_ok_TypeCheckSignal])+
    then have "err_ok (parse_line M (k, raw) out)"
      using False Inr by (auto simp: parse_line_def Let_def intro!: err_ok_attach_line)
    with assms show ?thesis by (simp add: err_ok_def program_error_def)
  qed
qed

lemma parse_line_signals:
  assumes "parse_line M (k, raw) out = Inr out'" and "\<forall>sg \<in> set (signals_of out). typed_body M (body sg)"
  shows "\<forall>sg \<in> set (signals_of out'). typed_body M (body sg)"
proof -
  from assms(1) consider "signals_of out' = signals_of out"
    | def where "signals_of out' = signals_of out @ [FoldConstantsInPlace M def]"
        "unannotated (body def)" "has_type (body def) StaticType.Number"
    by (auto simp: parse_line_def Let_def rbind_eq_Inr_iff attach_line_cases TypeCheckSignal_iff
        split: if_splits dest!: ParseSignalDef_fresh)
  then show ?thesis
    using assms(2) by cases (auto simp: FoldConstantsInPlace_def typed_body_def)
qed

text \<open>Numbering: every parameter gets its position, and a name is mapped to that position.\<close>

definition numbered :: "'f ParamDef list \<Rightarrow> (string \<rightharpoonup> int) \<Rightarrow> bool" where
  "numbered ps ids \<longleftrightarrow>
     distinct (map param_name ps) \<and>
     (\<forall>i < length ps. param_id (ps ! i) = int i) \<and>
     (\<forall>n i. ids n = Some i \<longleftrightarrow> (\<exists>k < length ps. param_name (ps ! k) = n \<and> i = int k))"

lemma numbered_dom: "numbered ps ids \<Longrightarrow> dom ids = param_name ` set ps"
  by (auto simp: numbered_def dom_def in_set_conv_nth image_iff) (metis nth_mem)

lemma number_param_numbered:
  assumes "number_param p (ps, ids) = Inr (ps', ids')" and "numbered ps ids"
  shows "numbered ps' ids'"
proof -
  from assms(1) have p: "ids (param_name p) = None"
    and ps': "ps' = ps @ [p\<lparr>param_id := int (length ps)\<rparr>]"
    and ids': "ids' = ids(param_name p \<mapsto> int (length ps))"
    by (auto simp: number_param_def Let_def split: if_splits)
  from p numbered_dom [OF assms(2)] have "param_name p \<notin> param_name ` set ps" by blast
  then have other: "param_name (ps ! k) \<noteq> param_name p" if "k < length ps" for k
    using that by (metis image_eqI nth_mem)
  from assms(2) \<open>param_name p \<notin> param_name ` set ps\<close> show ?thesis
    by (auto simp: numbered_def ps' ids' nth_append less_Suc_eq other)
qed

lemma check_signal_name_names:
  assumes "iterate (check_signal_name ids) sgs names = Inr names'" and "distinct names"
  shows "distinct (map sig_name sgs) \<and> set (map sig_name sgs) \<inter> (set names \<union> dom ids) = {}"
  using assms
proof (induction sgs arbitrary: names)
  case (Cons sg sgs)
  then obtain t where t: "check_signal_name ids sg names = Inr t"
    and "iterate (check_signal_name ids) sgs t = Inr names'"
    by (auto simp: rbind_eq_Inr_iff)
  moreover from t have "sig_name sg \<notin> set names" "ids (sig_name sg) = None" "t = sig_name sg # names"
    by (simp_all add: check_signal_name_def split: if_splits)
  ultimately have "sig_name sg \<notin> set names" "ids (sig_name sg) = None"
    and "iterate (check_signal_name ids) sgs (sig_name sg # names) = Inr names'"
    by simp_all
  with Cons.IH [of "sig_name sg # names"] Cons.prems(2) show ?case by auto
qed simp

definition program_wf :: "'f machine \<Rightarrow> 'f ProgramDef \<Rightarrow> bool" where
  "program_wf M p \<longleftrightarrow>
     signals_of p \<noteq> [] \<and>
     distinct (map param_name (params_of p) @ map sig_name (signals_of p)) \<and>
     (\<forall>i < length (params_of p). param_id (params_of p ! i) = int i) \<and>
     (\<forall>sg \<in> set (signals_of p).
        (\<exists>e0 ids. has_type e0 StaticType.Number \<and>
           body sg = ResolveParameterRefs ids (FoldConstants M e0)) \<and>
        refs_of (body sg) \<inter> param_name ` set (params_of p) = {} \<and>
        (\<forall>(n, i) \<in> param_uses (body sg).
           0 \<le> i \<and> nat i < length (params_of p) \<and> param_name (params_of p ! nat i) = n))"

lemma lines_typed:
  assumes "iterate (parse_line M) ls \<lparr>params_of = [], signals_of = []\<rparr> = Inr out"
  shows "\<forall>sg \<in> set (signals_of out). typed_body M (body sg)"
  by (rule iterate_invariant [OF assms]) (use parse_line_signals in \<open>simp, fast\<close>)

lemma iterate_numbered:
  assumes "iterate number_param qs ([], Map.empty) = Inr (ps, ids)"
  shows "numbered ps ids"
proof -
  have "case (ps, ids) of (ps, ids) \<Rightarrow> numbered ps ids"
    by (rule iterate_invariant [OF assms])
      (auto simp: numbered_def [of "[]" Map.empty] intro: number_param_numbered)
  then show ?thesis by simp
qed

lemma iterate_error:
  assumes "iterate f xs s = Inl e" and "\<And>x s e. x \<in> set xs \<Longrightarrow> f x s = Inl e \<Longrightarrow> Q e"
  shows "Q e"
  using assms by (induction xs arbitrary: s) (auto simp: rbind_eq_Inl_iff)

section \<open>Programs\<close>

text \<open>C5: A program that is accepted is well formed: it has a signal, the names of its parameters
  and signals are all distinct, parameters are numbered by position, and every signal body is the
  folded, well-typed tree of its line in which each reference to a parameter, and nothing else, has
  become a parameter node that carries the position of the parameter of that name.\<close>

theorem ParseProgram_wf:
  assumes "ParseProgram M source = Inr p"
  shows "program_wf M p"
proof -
  from assms obtain out ps ids names
    where lines: "iterate (parse_line M)
        (zip [1..<Suc (length (getlines [] source))] (getlines [] source))
        \<lparr>params_of = [], signals_of = []\<rparr> = Inr out"
      and ne: "signals_of out \<noteq> []"
      and num: "iterate number_param (params_of out) ([], Map.empty) = Inr (ps, ids)"
      and chk: "iterate (check_signal_name ids) (signals_of out) [] = Inr names"
      and p: "p = \<lparr>params_of = ps,
        signals_of = map (\<lambda>sg. sg\<lparr>body := ResolveParameterRefs ids (body sg)\<rparr>) (signals_of out)\<rparr>"
    by (auto simp: ParseProgram_def rbind_eq_Inr_iff split: if_splits)
  note n = iterate_numbered [OF num] and names = check_signal_name_names [OF chk]
  note dom = numbered_dom [OF n]
  have "(\<exists>e0 ids. has_type e0 StaticType.Number \<and>
          ResolveParameterRefs ids' (body sg) = ResolveParameterRefs ids (FoldConstants M e0))"
    and "param_uses (body sg) = {}" if "sg \<in> set (signals_of out)" for sg ids'
  proof -
    from lines_typed [OF lines] that obtain e0 where e0: "unannotated e0"
        "has_type e0 StaticType.Number" "body sg = FoldConstants M e0"
      by (auto simp: typed_body_def)
    then show "\<exists>e0 ids. has_type e0 StaticType.Number \<and>
        ResolveParameterRefs ids' (body sg) = ResolveParameterRefs ids (FoldConstants M e0)"
      by (intro exI [of _ e0] exI [of _ ids']) simp
    from e0 show "param_uses (body sg) = {}"
      by (simp add: unannotated_param_uses unannotated_FoldConstants)
  qed
  moreover have "distinct (map param_name ps)" "\<forall>i < length ps. param_id (ps ! i) = int i"
    using n by (auto simp: numbered_def)
  moreover have "0 \<le> i \<and> nat i < length ps \<and> param_name (ps ! nat i) = m" if "ids m = Some i" for m i
    using n that unfolding numbered_def by (metis nat_int of_nat_0_le_iff)
  moreover have "distinct (map sig_name (signals_of out))"
      "sig_name ` set (signals_of out) \<inter> param_name ` set ps = {}"
    using names dom by auto
  ultimately show ?thesis
    using ne unfolding program_wf_def p
    by (auto simp: refs_of_ResolveParameterRefs param_uses_ResolveParameterRefs dom comp_def)
qed

theorem ParseProgram_wf_witness:
  "\<exists>p. ParseProgram (ieee id) (''param x = 1'' @ CHR 0x0A # ''signal s = mid(A) * x'') = Inr p \<and>
     program_wf (ieee id) p"
proof -
  let ?src = "''param x = 1'' @ CHR 0x0A # ''signal s = mid(A) * x''"
  have "\<not> isl (ParseProgram (ieee id) ?src)" by code_simp
  then obtain p where "ParseProgram (ieee id) ?src = Inr p"
    by (cases "ParseProgram (ieee id) ?src") auto
  with ParseProgram_wf [OF this] show ?thesis by blast
qed

text \<open>C16: A program that is rejected is rejected by a located parse error or by a runtime error:
  reading never runs past the tokens of a line, and the fuel of the parser is never exhausted.\<close>

theorem ParseProgram_error:
  assumes "ParseProgram M source = Inl e"
  shows "program_error e"
proof -
  have "program_error e" if "number_param q s = Inl e" for q :: "'a ParamDef" and s e
    using that by (auto simp: number_param_def Let_def program_error_def is_parse_error_def
        split: prod.splits if_splits)
  moreover have "program_error e" if "check_signal_name ids sg s = Inl e"
    for ids and sg :: "'a SignalDef" and s e
    using that by (auto simp: check_signal_name_def program_error_def split: if_splits)
  moreover have "program_error e" if "parse_line M k s = Inl e" for k s e
    using that parse_line_error by (cases k) auto
  ultimately have loops: "iterate (parse_line M) ls s = Inl e \<Longrightarrow> program_error e"
    "iterate number_param (qs :: 'a ParamDef list) r = Inl e \<Longrightarrow> program_error e"
    "iterate (check_signal_name ids) (sgs :: 'a SignalDef list) names = Inl e \<Longrightarrow> program_error e"
    for ls s qs r ids sgs names
    by (blast intro: iterate_error)+
  have "program_error (RuntimeError m)" for m by (simp add: program_error_def)
  with assms show ?thesis
    unfolding ParseProgram_def
    by (auto simp: rbind_eq_Inl_iff split: if_splits prod.splits dest: loops)
qed

theorem ParseProgram_error_witness:
  "\<exists>e. ParseProgram (ieee id) ''signal s = mid('' = Inl e \<and> program_error e"
proof -
  have "isl (ParseProgram (ieee id) ''signal s = mid('')" by code_simp
  then obtain e where "ParseProgram (ieee id) ''signal s = mid('' = Inl e"
    by (cases "ParseProgram (ieee id) ''signal s = mid(''") auto
  with ParseProgram_error [OF this] show ?thesis by blast
qed

end
