(* ===== verification/Signal_Graph.thy ===== *)
theory Signal_Graph
  imports Signal_Program
begin

text \<open>
  Replacing references to other signals by their bodies in dependency order
  (\<^verbatim>\<open>InlineSignalDependencies\<close>, \<^verbatim>\<open>src/signal_program.cpp\<close>). The order in which an
  \<^verbatim>\<open>unordered_set\<close> is iterated is a parameter \<open>ord\<close>; the depth of the search is fuel,
  one more than the number of signals, which is never exhausted.
\<close>

section \<open>Dependencies between signals\<close>

fun index_of :: "'f SignalDef list \<Rightarrow> string \<rightharpoonup> nat" where
  "index_of [] n = None"
| "index_of (sg # sgs) n = (if sig_name sg = n then Some 0 else map_option Suc (index_of sgs n))"

fun InlineExpr :: "(string \<rightharpoonup> 'f expr) \<Rightarrow> 'f expr \<Rightarrow> 'f expr" where
  "InlineExpr defs (NumberLiteral l v) = NumberLiteral no_loc v"
| "InlineExpr defs (IdentifierExpr l n) =
     (case defs n of Some e \<Rightarrow> CloneExpr e | None \<Rightarrow> IdentifierExpr no_loc n)"
| "InlineExpr defs (ParameterExpr l n i) = ParameterExpr no_loc n i"
| "InlineExpr defs (UnaryOp l k e) = UnaryOp no_loc k (InlineExpr defs e)"
| "InlineExpr defs (BinaryOp l k a b) = BinaryOp no_loc k (InlineExpr defs a) (InlineExpr defs b)"
| "InlineExpr defs (Conditional l c t e) =
     Conditional no_loc (InlineExpr defs c) (InlineExpr defs t) (InlineExpr defs e)"
| "InlineExpr defs (FunctionCall l n as i s) = FunctionCall no_loc n (map (InlineExpr defs) as) (-1) (-1)"

text \<open>The state of the search: 0 unvisited, 1 visiting, 2 done, and the resolved bodies.\<close>

type_synonym 'f dfs_state = "nat list \<times> 'f expr option list"

primrec dfs ::
    "nat \<Rightarrow> (string list \<Rightarrow> string list) \<Rightarrow> 'f SignalDef list \<Rightarrow> nat \<Rightarrow> 'f dfs_state \<Rightarrow> 'f dfs_state result" where
  "dfs 0 ord sgs i s = Inl OutOfFuel"
| "dfs (Suc n) ord sgs i s =
     (if fst s ! i = 2 then Inr s
      else if fst s ! i = 1
        then Inl (RuntimeError (''Cycle in signal dependencies at: '' @ sig_name (sgs ! i)))
      else
        let e = body (sgs ! i); refs = ord (CollectRefs e []);
            deps = List.map_filter (index_of sgs) refs
        in rbind (iterate (dfs n ord sgs) deps ((fst s)[i := 1], snd s)) (\<lambda>(st, resolved).
             let defs = (\<lambda>r. if r \<in> set refs
                             then Option.bind (index_of sgs r) (\<lambda>j. resolved ! j) else None)
             in Inr (st[i := 2], resolved[i := Some (InlineExpr defs e)])))"

definition no_duplicates :: "'f SignalDef \<Rightarrow> string list \<Rightarrow> string list result" where
  "no_duplicates sg names =
     (if sig_name sg \<in> set names then Inl (RuntimeError (''Duplicate signal name: '' @ sig_name sg))
      else Inr (sig_name sg # names))"

definition InlineSignals ::
    "(string list \<Rightarrow> string list) \<Rightarrow> 'f SignalDef list \<Rightarrow> 'f SignalDef list result" where
  "InlineSignals ord sgs =
     rbind (iterate no_duplicates sgs []) (\<lambda>_.
     rbind (iterate (dfs (Suc (length sgs)) ord sgs) [0..<length sgs]
              (replicate (length sgs) 0, replicate (length sgs) None)) (\<lambda>(st, resolved).
     if None \<in> set resolved then Inl (Undefined ''null body'')
     else Inr (map2 (\<lambda>sg e. \<lparr>sig_name = sig_name sg, body = the e\<rparr>) sgs resolved)))"

definition InlineSignalDependencies ::
    "(string list \<Rightarrow> string list) \<Rightarrow> 'f ProgramDef \<Rightarrow> 'f ProgramDef result" where
  "InlineSignalDependencies ord p =
     rbind (InlineSignals ord (signals_of p)) (\<lambda>sgs. Inr \<lparr>params_of = params_of p, signals_of = sgs\<rparr>)"

section \<open>References after inlining\<close>

lemma index_of_Some: "index_of sgs n = Some i \<Longrightarrow> i < length sgs \<and> sig_name (sgs ! i) = n"
  by (induction sgs arbitrary: i) (auto split: if_splits)

lemma index_of_None: "index_of sgs n = None \<longleftrightarrow> n \<notin> sig_name ` set sgs"
  by (induction sgs) auto

lemma ref_args_map: "ref_args n (map f as) = map f (ref_args n as)"
  by (simp add: ref_args_def map_tl)

lemma refs_of_CloneExpr [simp]: "refs_of (CloneExpr e) = refs_of e"
proof (induction e)
  case (FunctionCall l n as i s)
  then have "refs_of (CloneExpr a) = refs_of a" if "a \<in> set (ref_args n as)" for a
    using set_ref_args [OF that] by blast
  then show ?case by (simp add: ref_args_map)
qed auto

lemma refs_of_InlineExpr:
  "refs_of (InlineExpr defs e) =
     (\<Union>r \<in> refs_of e. case defs r of Some e' \<Rightarrow> refs_of e' | None \<Rightarrow> {r})"
proof (induction e)
  case (FunctionCall l n as i s)
  then have "refs_of (InlineExpr defs a) = (\<Union>r \<in> refs_of a. case defs r of Some e' \<Rightarrow> refs_of e' | None \<Rightarrow> {r})"
    if "a \<in> set (ref_args n as)" for a using set_ref_args [OF that] by blast
  then show ?case by (simp add: ref_args_map)
qed (auto split: option.splits)

section \<open>The search\<close>

text \<open>Signal \<open>i\<close> depends on signal \<open>j\<close> when its body refers to it.\<close>

definition dep :: "'f SignalDef list \<Rightarrow> (nat \<times> nat) set" where
  "dep sgs = {(i, j). i < length sgs \<and> (\<exists>r \<in> refs_of (body (sgs ! i)). index_of sgs r = Some j)}"

text \<open>The body signal \<open>i\<close> must have, given the bodies of the others.\<close>

definition inlined ::
    "'f SignalDef list \<Rightarrow> (nat \<Rightarrow> 'f expr option) \<Rightarrow> nat \<Rightarrow> 'f expr" where
  "inlined sgs bodies i =
     InlineExpr (\<lambda>r. if r \<in> refs_of (body (sgs ! i)) then Option.bind (index_of sgs r) bodies else None)
       (body (sgs ! i))"

definition visiting :: "'f dfs_state \<Rightarrow> nat set" where
  "visiting s = {j. j < length (fst s) \<and> fst s ! j = 1}"

definition finished :: "'f dfs_state \<Rightarrow> nat set" where
  "finished s = {j. j < length (fst s) \<and> fst s ! j = 2}"

definition dfs_ok :: "'f SignalDef list \<Rightarrow> 'f dfs_state \<Rightarrow> bool" where
  "dfs_ok sgs s \<longleftrightarrow>
     length (fst s) = length sgs \<and> length (snd s) = length sgs \<and> set (fst s) \<subseteq> {0, 1, 2} \<and>
     dep sgs `` finished s \<subseteq> finished s \<and> acyclic (dep sgs \<inter> finished s \<times> finished s) \<and>
     (\<forall>j \<in> finished s. snd s ! j = Some (inlined sgs ((!) (snd s)) j) \<and>
        refs_of (inlined sgs ((!) (snd s)) j) \<inter> sig_name ` set sgs = {})"

lemma dep_less: "(i, j) \<in> dep sgs \<Longrightarrow> i < length sgs \<and> j < length sgs"
  by (auto simp: dep_def dest: index_of_Some)

lemma inlined_cong:
  assumes "i < length sgs" and "\<And>j. (i, j) \<in> dep sgs \<Longrightarrow> f j = g j"
  shows "inlined sgs f i = inlined sgs g i"
proof -
  have "(\<lambda>r. if r \<in> refs_of (body (sgs ! i)) then Option.bind (index_of sgs r) f else None) =
      (\<lambda>r. if r \<in> refs_of (body (sgs ! i)) then Option.bind (index_of sgs r) g else None)"
    using assms by (intro ext) (auto simp: dep_def split: Option.bind_splits)
  then show ?thesis by (simp add: inlined_def)
qed

lemma refs_of_inlined:
  assumes "i < length sgs"
    and "\<And>j. (i, j) \<in> dep sgs \<Longrightarrow> \<exists>e. f j = Some e \<and> refs_of e \<inter> sig_name ` set sgs = {}"
  shows "refs_of (inlined sgs f i) \<inter> sig_name ` set sgs = {}"
proof -
  have "x \<notin> sig_name ` set sgs"
    if "r \<in> refs_of (body (sgs ! i))" "x \<in> (case Option.bind (index_of sgs r) f of Some e \<Rightarrow> refs_of e | None \<Rightarrow> {r})"
    for r x
  proof (cases "index_of sgs r")
    case None
    with that index_of_None [of sgs r] show ?thesis by auto
  next
    case (Some j)
    with that(1) assms(1) have "(i, j) \<in> dep sgs" by (auto simp: dep_def)
    from assms(2) [OF this] Some that(2) show ?thesis by auto
  qed
  then show ?thesis by (auto simp: inlined_def refs_of_InlineExpr)
qed

text \<open>What a call of the search does: it finishes its signal, or there is a cycle.\<close>

definition dfs_post :: "'f SignalDef list \<Rightarrow> nat set \<Rightarrow> 'f dfs_state \<Rightarrow> 'f dfs_state result \<Rightarrow> bool" where
  "dfs_post sgs targets s r \<longleftrightarrow>
     (case r of
        Inr s' \<Rightarrow> dfs_ok sgs s' \<and> visiting s' = visiting s \<and> finished s \<subseteq> finished s' \<and> targets \<subseteq> finished s'
      | Inl e \<Rightarrow> (\<exists>m. e = RuntimeError m) \<and> \<not> acyclic (dep sgs))"

lemma dfs_post_mono: "dfs_post sgs targets s r \<Longrightarrow> targets' \<subseteq> targets \<Longrightarrow> dfs_post sgs targets' s r"
  by (auto simp: dfs_post_def split: sum.splits)

lemma dfs_post_iterate:
  assumes "dfs_ok sgs s" and "P s"
    and "\<And>j s. j \<in> set js \<Longrightarrow> dfs_ok sgs s \<Longrightarrow> P s \<Longrightarrow> dfs_post sgs {j} s (f j s)"
    and "\<And>s s'. P s \<Longrightarrow> visiting s' = visiting s \<Longrightarrow> P s'"
  shows "dfs_post sgs (set js) s (iterate f js s)"
  using assms(1-3)
proof (induction js arbitrary: s)
  case Nil
  then show ?case by (simp add: dfs_post_def)
next
  case (Cons j js)
  have one: "dfs_post sgs {j} s (f j s)" by (rule Cons.prems) (use Cons.prems in auto)
  show ?case
  proof (cases "f j s")
    case (Inl e)
    with one show ?thesis by (simp add: dfs_post_def)
  next
    case (Inr s1)
    with one have s1: "dfs_ok sgs s1" "visiting s1 = visiting s" "finished s \<subseteq> finished s1" "j \<in> finished s1"
      by (auto simp: dfs_post_def)
    have "P s1" by (rule assms(4) [OF Cons.prems(2) s1(2)])
    have "dfs_post sgs (set js) s1 (iterate f js s1)"
      by (rule Cons.IH [OF s1(1) \<open>P s1\<close>]) (rule Cons.prems(3), simp)
    with s1 Inr show ?thesis by (auto simp: dfs_post_def split: sum.splits)
  qed
qed

lemma acyclic_insert_source:
  assumes "acyclic (R \<inter> F \<times> F)" and "R `` F \<subseteq> F" and "R `` {i} \<subseteq> F" and "i \<notin> F"
  shows "acyclic (R \<inter> insert i F \<times> insert i F)"
proof -
  let ?R = "R \<inter> insert i F \<times> insert i F"
  have inside: "(x, y) \<in> (R \<inter> F \<times> F)\<^sup>+ \<and> y \<in> F" if "(x, y) \<in> ?R\<^sup>+" "x \<in> F" for x y
    using that
  proof (induction rule: trancl_induct)
    case (base y)
    with assms(2) show ?case by (auto intro: r_into_trancl)
  next
    case (step y z)
    with assms(2) have "(y, z) \<in> R \<inter> F \<times> F" by auto
    with step show ?case by (auto intro: trancl_into_trancl)
  qed
  have "x \<in> F" if "(y, x) \<in> ?R\<^sup>+" for x y
    using that assms(2,3) by (induction rule: trancl_induct) auto
  with inside assms(1) show ?thesis unfolding acyclic_def by blast
qed

lemma finish_ok:
  assumes "dfs_ok sgs s" and "i < length sgs" and "i \<in> visiting s" and "dep sgs `` {i} \<subseteq> finished s"
  defines "s' \<equiv> ((fst s)[i := 2], (snd s)[i := Some (inlined sgs ((!) (snd s)) i)])"
  shows "dfs_ok sgs s' \<and> visiting s' = visiting s - {i} \<and> finished s' = insert i (finished s)"
proof -
  from assms(1) have len: "length (fst s) = length sgs" "length (snd s) = length sgs" by (auto simp: dfs_ok_def)
  have v: "visiting s' = visiting s - {i}" and f: "finished s' = insert i (finished s)"
    using assms(2) len by (auto simp: s'_def visiting_def finished_def nth_list_update split: if_splits)
  have i: "i \<notin> finished s" using assms(3) by (auto simp: visiting_def finished_def)
  have old: "snd s' ! j = snd s ! j" if "j \<in> finished s" for j
  proof -
    from that i have "i \<noteq> j" by blast
    then show ?thesis by (simp add: s'_def)
  qed
  have cong: "inlined sgs ((!) (snd s')) j = inlined sgs ((!) (snd s)) j" if "j \<in> insert i (finished s)" for j
  proof (rule inlined_cong)
    show "j < length sgs" using that assms(2) len by (auto simp: finished_def)
    show "snd s' ! k = snd s ! k" if "(j, k) \<in> dep sgs" for k
      using assms(1,4) \<open>j \<in> insert i (finished s)\<close> that by (intro old) (auto simp: dfs_ok_def)
  qed
  have clean: "refs_of (inlined sgs ((!) (snd s)) i) \<inter> sig_name ` set sgs = {}"
  proof (rule refs_of_inlined [OF assms(2)])
    fix j assume "(i, j) \<in> dep sgs"
    then have "j \<in> finished s" using assms(4) by auto
    with assms(1) show "\<exists>e. snd s ! j = Some e \<and> refs_of e \<inter> sig_name ` set sgs = {}"
      by (auto simp: dfs_ok_def)
  qed
  have "acyclic (dep sgs \<inter> insert i (finished s) \<times> insert i (finished s))"
    using assms(1,4) i by (intro acyclic_insert_source) (auto simp: dfs_ok_def)
  moreover have "set (fst s') \<subseteq> {0, 1, 2}"
    using assms(1) set_update_subset_insert [of "fst s" i 2] by (auto simp: dfs_ok_def s'_def)
  moreover have "snd s' ! j = Some (inlined sgs ((!) (snd s')) j) \<and>
      refs_of (inlined sgs ((!) (snd s')) j) \<inter> sig_name ` set sgs = {}" if "j \<in> insert i (finished s)" for j
  proof (cases "j = i")
    case True
    then have "snd s' ! j = Some (inlined sgs ((!) (snd s)) i)" using assms(2) len by (simp add: s'_def)
    with True clean cong [of i] show ?thesis by simp
  next
    case False
    with that have "j \<in> finished s" by simp
    with assms(1) have "snd s ! j = Some (inlined sgs ((!) (snd s)) j)"
        "refs_of (inlined sgs ((!) (snd s)) j) \<inter> sig_name ` set sgs = {}" unfolding dfs_ok_def by blast+
    with old [OF \<open>j \<in> finished s\<close>] cong [OF that] show ?thesis by simp
  qed
  moreover have "dep sgs `` insert i (finished s) \<subseteq> insert i (finished s)"
    using assms(1,4) by (auto simp: dfs_ok_def)
  ultimately have "dfs_ok sgs s'"
    using len unfolding dfs_ok_def f by (simp add: s'_def)
  with v f show ?thesis by blast
qed

text \<open>The main induction: enough fuel for the signals not yet on the path, and every signal on the
  path reaches the one that is called.\<close>

lemma dfs_correct:
  assumes ord: "\<And>xs. set (ord xs) = set xs"
    and "dfs_ok sgs s" and "i < length sgs" and "length sgs < card (visiting s) + n"
    and "\<forall>v \<in> visiting s. (v, i) \<in> (dep sgs)\<^sup>+"
  shows "dfs_post sgs {i} s (dfs n ord sgs i s)"
  using assms(2-)
proof (induction n arbitrary: i s)
  case 0
  have "card (visiting s) \<le> card {..<length sgs}"
    using 0(1) by (intro card_mono) (auto simp: visiting_def dfs_ok_def)
  with 0 show ?case by simp
next
  case (Suc n)
  from Suc.prems(1) have len: "length (fst s) = length sgs" "length (snd s) = length sgs" by (auto simp: dfs_ok_def)
  consider "fst s ! i = 2" | "fst s ! i = 1" | "fst s ! i = 0"
  proof -
    from Suc.prems(2) len have "fst s ! i \<in> set (fst s)" by simp
    with Suc.prems(1) have "fst s ! i \<in> {0, 1, 2}" unfolding dfs_ok_def by blast
    with that show thesis by auto
  qed
  then show ?case
  proof cases
    case 1
    with Suc.prems(1,2) len show ?thesis by (auto simp: dfs_post_def finished_def)
  next
    case 2
    with Suc.prems(2,4) len have "(i, i) \<in> (dep sgs)\<^sup>+" by (auto simp: visiting_def)
    with 2 show ?thesis by (auto simp: dfs_post_def acyclic_def)
  next
    case 3
    let ?e = "body (sgs ! i)" and ?s1 = "((fst s)[i := 1], snd s)"
    let ?refs = "ord (CollectRefs ?e [])"
    let ?deps = "List.map_filter (index_of sgs) ?refs"
    have refs: "set ?refs = refs_of ?e" by (simp add: ord)
    have deps: "j \<in> set ?deps \<longleftrightarrow> (i, j) \<in> dep sgs" for j
      using Suc.prems(2) by (force simp: List.map_filter_def refs dep_def image_iff)
    have v1: "visiting ?s1 = insert i (visiting s)" "finished ?s1 = finished s" "i \<notin> visiting s" "i \<notin> finished s"
      using 3 len Suc.prems(2) by (auto simp: visiting_def finished_def nth_list_update split: if_splits)
    have ok1: "dfs_ok sgs ?s1"
      using Suc.prems(1) v1(2) set_update_subset_insert [of "fst s" i 1] by (auto simp: dfs_ok_def)
    have "dfs_post sgs (set ?deps) ?s1 (iterate (dfs n ord sgs) ?deps ?s1)"
    proof (rule dfs_post_iterate [where P = "\<lambda>s'. visiting s' = insert i (visiting s)"])
      fix j s'
      assume "j \<in> set ?deps" "dfs_ok sgs s'" and v: "visiting s' = insert i (visiting s)"
      then have j: "(i, j) \<in> dep sgs" by (simp add: deps)
      have "finite (visiting s)" by (simp add: visiting_def)
      with Suc.prems(3) v v1(3) have "length sgs < card (visiting s') + n" by simp
      moreover have "\<forall>v \<in> visiting s'. (v, j) \<in> (dep sgs)\<^sup>+"
        using Suc.prems(4) v j by (auto intro: trancl.intros)
      ultimately show "dfs_post sgs {j} s' (dfs n ord sgs j s')"
        using Suc.IH [OF \<open>dfs_ok sgs s'\<close>] dep_less [OF j] by blast
    qed (use ok1 v1(1) in auto)
    then show ?thesis
    proof (cases "iterate (dfs n ord sgs) ?deps ?s1")
      case (Inl e)
      with \<open>dfs_post sgs (set ?deps) ?s1 (iterate (dfs n ord sgs) ?deps ?s1)\<close> 3 show ?thesis
        by (simp add: dfs_post_def Let_def)
    next
      case (Inr s2)
      with \<open>dfs_post sgs (set ?deps) ?s1 (iterate (dfs n ord sgs) ?deps ?s1)\<close> v1
      have s2: "dfs_ok sgs s2" "visiting s2 = insert i (visiting s)" "finished s \<subseteq> finished s2"
        "dep sgs `` {i} \<subseteq> finished s2" by (auto simp: dfs_post_def deps)
      let ?defs = "\<lambda>r. if r \<in> set ?refs then Option.bind (index_of sgs r) (\<lambda>j. snd s2 ! j) else None"
      have run: "dfs (Suc n) ord sgs i s = Inr ((fst s2)[i := 2], (snd s2)[i := Some (InlineExpr ?defs ?e)])"
        using 3 Inr by (simp add: Let_def case_prod_unfold)
      have "InlineExpr ?defs ?e = inlined sgs ((!) (snd s2)) i" by (simp add: inlined_def refs)
      with run finish_ok [OF s2(1) Suc.prems(2) _ s2(4)] s2(2,3) v1(3) show ?thesis
        by (auto simp: dfs_post_def)
    qed
  qed
qed

section \<open>Inlining\<close>

lemma no_duplicates_decides:
  "case iterate no_duplicates sgs names of
     Inr _ \<Rightarrow> distinct (map sig_name sgs) \<and> sig_name ` set sgs \<inter> set names = {}
   | Inl e \<Rightarrow> (\<exists>m. e = RuntimeError m) \<and> \<not> (distinct (map sig_name sgs) \<and> sig_name ` set sgs \<inter> set names = {})"
proof (induction sgs arbitrary: names)
  case (Cons sg sgs)
  show ?case
  proof (cases "sig_name sg \<in> set names")
    case False
    with Cons.IH [of "sig_name sg # names"] show ?thesis
      by (auto simp: no_duplicates_def split: sum.splits)
  qed (auto simp: no_duplicates_def)
qed simp

lemma dfs_all:
  assumes "\<And>xs. set (ord xs) = set xs"
  shows "dfs_post sgs {..<length sgs} (replicate (length sgs) 0, replicate (length sgs) None)
    (iterate (dfs (Suc (length sgs)) ord sgs) [0..<length sgs]
      (replicate (length sgs) 0, replicate (length sgs) None))"
proof -
  let ?s = "(replicate (length sgs) 0, replicate (length sgs) None) :: 'a dfs_state"
  have v: "visiting ?s = {}" "finished ?s = {}" by (auto simp: visiting_def finished_def)
  have "dfs_post sgs (set [0..<length sgs]) ?s (iterate (dfs (Suc (length sgs)) ord sgs) [0..<length sgs] ?s)"
  proof (rule dfs_post_iterate [where P = "\<lambda>s. visiting s = {}"])
    show "dfs_ok sgs ?s" by (auto simp: dfs_ok_def v acyclic_def)
    show "dfs_post sgs {j} s (dfs (Suc (length sgs)) ord sgs j s)"
      if "j \<in> set [0..<length sgs]" "dfs_ok sgs s" "visiting s = {}" for j s
      by (rule dfs_correct [OF assms]) (use that in auto)
  qed (use v in auto)
  then show ?thesis by (simp add: atLeast0LessThan)
qed

text \<open>A finished search gives the bodies of the result.\<close>

lemma InlineSignals_cases:
  assumes "\<And>xs. set (ord xs) = set xs"
  shows "(\<exists>s. InlineSignals ord sgs = Inr (map2 (\<lambda>sg e. \<lparr>sig_name = sig_name sg, body = the e\<rparr>) sgs (snd s)) \<and>
      distinct (map sig_name sgs) \<and> dfs_ok sgs s \<and> finished s = {..<length sgs}) \<or>
    (\<exists>m. InlineSignals ord sgs = Inl (RuntimeError m) \<and>
      \<not> (distinct (map sig_name sgs) \<and> acyclic (dep sgs)))"
proof (cases "iterate no_duplicates sgs []")
  case (Inl e)
  with no_duplicates_decides [of sgs "[]"] show ?thesis by (auto simp: InlineSignals_def)
next
  case (Inr names)
  with no_duplicates_decides [of sgs "[]"] have d: "distinct (map sig_name sgs)" by simp
  let ?s = "(replicate (length sgs) 0, replicate (length sgs) None) :: 'a dfs_state"
  note post = dfs_all [OF assms, of sgs]
  show ?thesis
  proof (cases "iterate (dfs (Suc (length sgs)) ord sgs) [0..<length sgs] ?s")
    case (Inl e)
    with post Inr show ?thesis by (auto simp: InlineSignals_def dfs_post_def simp del: dfs.simps)
  next
    case s: (Inr s)
    with post have ok: "dfs_ok sgs s" and sub: "{..<length sgs} \<subseteq> finished s" by (auto simp: dfs_post_def)
    then have fin: "finished s = {..<length sgs}" by (auto simp: finished_def dfs_ok_def)
    have "snd s ! j \<noteq> None" if "j < length sgs" for j
      using ok that unfolding dfs_ok_def fin by (metis lessThan_iff option.distinct(1))
    then have "None \<notin> set (snd s)" using ok by (metis dfs_ok_def in_set_conv_nth)
    with s Inr ok fin d show ?thesis
      by (intro disjI1 exI [of _ s]) (simp add: InlineSignals_def case_prod_unfold del: dfs.simps)
  qed
qed

text \<open>C19: Inlining succeeds exactly when the signals have distinct names and no signal depends on
  itself through others, and every other input is rejected by a runtime error: the search
  terminates within its fuel and every body is defined.\<close>

theorem InlineSignals_decides:
  assumes "\<And>xs. set (ord xs) = set xs"
  shows "case InlineSignals ord sgs of
      Inr _ \<Rightarrow> distinct (map sig_name sgs) \<and> acyclic (dep sgs)
    | Inl e \<Rightarrow> (\<exists>m. e = RuntimeError m) \<and> \<not> (distinct (map sig_name sgs) \<and> acyclic (dep sgs))"
proof -
  have "acyclic (dep sgs)" if "dfs_ok sgs s" "finished s = {..<length sgs}" for s
  proof -
    from that have "acyclic (dep sgs \<inter> {..<length sgs} \<times> {..<length sgs})" by (simp add: dfs_ok_def)
    moreover have "dep sgs \<inter> {..<length sgs} \<times> {..<length sgs} = dep sgs" by (auto dest: dep_less)
    ultimately show ?thesis by simp
  qed
  with InlineSignals_cases [OF assms, of sgs] show ?thesis by auto
qed

theorem InlineSignals_decides_witness:
  "\<not> (distinct (map sig_name [\<lparr>sig_name = ''a'', body = IdentifierExpr no_loc ''a''\<rparr> :: fp SignalDef]) \<and>
     acyclic (dep [\<lparr>sig_name = ''a'', body = IdentifierExpr no_loc ''a''\<rparr> :: fp SignalDef]))"
  using InlineSignals_decides [of id "[\<lparr>sig_name = ''a'', body = IdentifierExpr no_loc ''a''\<rparr> :: fp SignalDef]"]
  by (simp add: InlineSignals_def no_duplicates_def map_filter_simps)

text \<open>C11: After inlining every signal keeps its name, its body is the original one in which each
  reference to a signal has been replaced by the inlined body of that signal, and no reference to
  a signal is left.\<close>

theorem InlineSignals_resolves:
  assumes "\<And>xs. set (ord xs) = set xs" and "InlineSignals ord sgs = Inr sgs'"
  shows "map sig_name sgs' = map sig_name sgs \<and>
    (\<forall>i < length sgs. body (sgs' ! i) = inlined sgs (\<lambda>j. Some (body (sgs' ! j))) i \<and>
       refs_of (body (sgs' ! i)) \<inter> sig_name ` set sgs' = {})"
proof -
  from InlineSignals_cases [OF assms(1), of sgs] assms(2) obtain s where
    sgs': "sgs' = map2 (\<lambda>sg e. \<lparr>sig_name = sig_name sg, body = the e\<rparr>) sgs (snd s)"
    and ok: "dfs_ok sgs s" and fin: "finished s = {..<length sgs}" by auto
  from ok have len: "length (snd s) = length sgs" by (simp add: dfs_ok_def)
  then have names: "map sig_name sgs' = map sig_name sgs" 
    by (intro nth_equalityI) (simp_all add: sgs')
  then have set: "sig_name ` set sgs' = sig_name ` set sgs" by (metis list.set_map)
  have body: "body (sgs' ! i) = the (snd s ! i)" and some: "snd s ! i = Some (inlined sgs ((!) (snd s)) i)"
    and clean: "refs_of (inlined sgs ((!) (snd s)) i) \<inter> sig_name ` set sgs = {}" if "i < length sgs" for i
    using ok that len unfolding dfs_ok_def fin by (auto simp: sgs')
  have "body (sgs' ! i) = inlined sgs (\<lambda>j. Some (body (sgs' ! j))) i" if "i < length sgs" for i
  proof -
    have "inlined sgs ((!) (snd s)) i = inlined sgs (\<lambda>j. Some (body (sgs' ! j))) i"
      by (rule inlined_cong [OF that]) (metis body some dep_less option.sel)
    with body [OF that] some [OF that] show ?thesis by simp
  qed
  with names set body some clean show ?thesis by simp
qed

theorem InlineSignals_resolves_witness:
  "\<exists>sgs'. InlineSignals id
      [\<lparr>sig_name = ''b'', body = UnaryOp no_loc Minus (IdentifierExpr no_loc ''a'')\<rparr>,
       \<lparr>sig_name = ''a'', body = NumberLiteral no_loc (Fin 1)\<rparr>] = Inr sgs' \<and>
     refs_of (body (sgs' ! 0)) \<inter> {''a'', ''b''} = {}"
proof -
  let ?sgs = "[\<lparr>sig_name = ''b'', body = UnaryOp no_loc Minus (IdentifierExpr no_loc ''a'')\<rparr>,
       \<lparr>sig_name = ''a'', body = NumberLiteral no_loc (Fin 1)\<rparr>]"
  have "\<exists>sgs'. InlineSignals id ?sgs = Inr sgs'"
    by (simp add: InlineSignals_def no_duplicates_def map_filter_simps numeral_2_eq_2)
  then obtain sgs' where run: "InlineSignals id ?sgs = Inr sgs'" by blast
  have "set (id xs) = set xs" for xs :: "string list" by simp
  note res = InlineSignals_resolves [OF this run]
  from res have "map sig_name sgs' = [''b'', ''a'']" by simp
  then have "sig_name ` set sgs' = {''b'', ''a''}" unfolding set_map [symmetric] by simp
  moreover from res have "refs_of (body (sgs' ! 0)) \<inter> sig_name ` set sgs' = {}"
    by (metis length_Cons zero_less_Suc)
  ultimately show ?thesis using run by auto
qed

end
