(* ===== verification/Node_Ids.thy ===== *)
theory Node_Ids
  imports Ast Runtime_State
begin

text \<open>
  The annotations that connect a tree to the runtime (\<^verbatim>\<open>src/signal_program.cpp\<close>): node ids
  for the stateful operators, shared by structurally equal calls when the first one is evaluated
  on every tick, and the symbol ids of the tickers.
\<close>

section \<open>Node ids\<close>

definition IsStatefulOp :: "string \<Rightarrow> bool" where
  "IsStatefulOp name \<longleftrightarrow>
     name = ''ema'' \<or> name = ''ema_alpha'' \<or> name = ''sma'' \<or> name = ''rolling_std'' \<or>
     name = ''rolling_min'' \<or> name = ''rolling_max'' \<or> name = ''zscore'' \<or> name = ''vwap'' \<or>
     name = ''lag'' \<or> name = ''cross_above'' \<or> name = ''cross_below'' \<or>
     name = ''rolling_corr'' \<or> name = ''rolling_beta'' \<or> name = ''kalman1d''"

text \<open>An entry of \<^verbatim>\<open>seen\<close>: the call, the id it was given, and the position flag.\<close>

record 'f SeenStateful =
  seen_call :: "'f expr"
  seen_id :: int
  unconditional :: bool

fun TryAliasNodeId :: "'f SeenStateful list \<Rightarrow> 'f expr \<Rightarrow> int" where
  "TryAliasNodeId [] candidate = 0"
| "TryAliasNodeId (s # seen) candidate =
     (if unconditional s \<and> AstEquals (seen_call s) candidate then seen_id s
      else TryAliasNodeId seen candidate)"

type_synonym 'f alloc_state = "int \<times> 'f SeenStateful list"

definition assign_id ::
    "bool \<Rightarrow> 'f expr \<Rightarrow> string \<Rightarrow> int \<Rightarrow> 'f alloc_state \<Rightarrow> int \<times> 'f alloc_state" where
  "assign_id uncond e name node_id s =
     (if IsStatefulOp name \<and> node_id < 0 then
        let aliased = TryAliasNodeId (snd s) e
        in if 0 < aliased then (aliased, s)
           else (fst s, (fst s + 1, snd s @ [\<lparr>seen_call = e, seen_id = fst s, unconditional = uncond\<rparr>]))
      else (node_id, s))"

fun alloc_walk :: "bool \<Rightarrow> 'f expr \<Rightarrow> 'f alloc_state \<Rightarrow> 'f expr \<times> 'f alloc_state"
  and alloc_walks :: "bool \<Rightarrow> 'f expr list \<Rightarrow> 'f alloc_state \<Rightarrow> 'f expr list \<times> 'f alloc_state" where
  "alloc_walk uncond (UnaryOp l k e) s =
     (let (e', s') = alloc_walk uncond e s in (UnaryOp l k e', s'))"
| "alloc_walk uncond (BinaryOp l k a b) s =
     (let (a', s1) = alloc_walk uncond a s; (b', s2) = alloc_walk uncond b s1
      in (BinaryOp l k a' b', s2))"
| "alloc_walk uncond (Conditional l c t e) s =
     (let (c', s1) = alloc_walk uncond c s; (t', s2) = alloc_walk False t s1;
          (e', s3) = alloc_walk False e s2
      in (Conditional l c' t' e', s3))"
| "alloc_walk uncond (FunctionCall l n as i sy) s =
     (let (i', s1) = assign_id uncond (FunctionCall l n as i sy) n i s;
          (as', s2) = alloc_walks uncond as s1
      in (FunctionCall l n as' i' sy, s2))"
| "alloc_walk uncond (NumberLiteral l v) s = (NumberLiteral l v, s)"
| "alloc_walk uncond (IdentifierExpr l n) s = (IdentifierExpr l n, s)"
| "alloc_walk uncond (ParameterExpr l n p) s = (ParameterExpr l n p, s)"
| "alloc_walks uncond [] s = ([], s)"
| "alloc_walks uncond (a # as) s =
     (let (a', s1) = alloc_walk uncond a s; (as', s2) = alloc_walks uncond as s1 in (a' # as', s2))"

definition AllocateNodeIds :: "'f SignalDef \<Rightarrow> 'f SignalDef \<times> int" where
  "AllocateNodeIds sg =
     (let (e, s) = alloc_walk True (body sg) (1, []) in (sg\<lparr>body := e\<rparr>, fst s - 1))"

primrec alloc_program :: "'f SignalDef list \<Rightarrow> int \<Rightarrow> 'f SignalDef list \<times> int" where
  "alloc_program [] next = ([], next)"
| "alloc_program (sg # sgs) next =
     (let (e, s) = alloc_walk True (body sg) (next, []); (sgs', next') = alloc_program sgs (fst s)
      in (sg\<lparr>body := e\<rparr> # sgs', next'))"

definition AllocateProgramNodeIds :: "'f SignalDef list \<Rightarrow> 'f SignalDef list \<times> int" where
  "AllocateProgramNodeIds sgs = (let (sgs', next) = alloc_program sgs 1 in (sgs', next - 1))"

section \<open>Symbol ids\<close>

definition bind_symbol :: "SymbolTable \<Rightarrow> string \<Rightarrow> 'f expr list \<Rightarrow> int \<Rightarrow> int result" where
  "bind_symbol symbols n as sy =
     (if ticker_first_arg n \<and> as \<noteq> [] then
        (case as ! 0 of
           IdentifierExpr _ t \<Rightarrow> rbind (LookupId symbols t) (\<lambda>i. Inr (int i))
         | _ \<Rightarrow> Inl (RuntimeError (n @ ''() first argument must be ticker identifier'')))
      else Inr sy)"

fun bind_walk :: "SymbolTable \<Rightarrow> 'f expr \<Rightarrow> 'f expr result"
  and bind_walks :: "SymbolTable \<Rightarrow> 'f expr list \<Rightarrow> 'f expr list result" where
  "bind_walk t (UnaryOp l k e) = rbind (bind_walk t e) (\<lambda>e'. Inr (UnaryOp l k e'))"
| "bind_walk t (BinaryOp l k a b) =
     rbind (bind_walk t a) (\<lambda>a'. rbind (bind_walk t b) (\<lambda>b'. Inr (BinaryOp l k a' b')))"
| "bind_walk t (Conditional l c x y) =
     rbind (bind_walk t c) (\<lambda>c'. rbind (bind_walk t x) (\<lambda>x'. rbind (bind_walk t y) (\<lambda>y'.
       Inr (Conditional l c' x' y'))))"
| "bind_walk t (FunctionCall l n as i sy) =
     rbind (bind_symbol t n as sy) (\<lambda>sy'. rbind (bind_walks t as) (\<lambda>as'.
       Inr (FunctionCall l n as' i sy')))"
| "bind_walk t (NumberLiteral l v) = Inr (NumberLiteral l v)"
| "bind_walk t (IdentifierExpr l n) = Inr (IdentifierExpr l n)"
| "bind_walk t (ParameterExpr l n p) = Inr (ParameterExpr l n p)"
| "bind_walks t [] = Inr []"
| "bind_walks t (a # as) = rbind (bind_walk t a) (\<lambda>a'. rbind (bind_walks t as) (\<lambda>as'. Inr (a' # as')))"

definition BindSymbolIds :: "'f SignalDef \<Rightarrow> SymbolTable \<Rightarrow> 'f SignalDef result" where
  "BindSymbolIds sg symbols = rbind (bind_walk symbols (body sg)) (\<lambda>e. Inr (sg\<lparr>body := e\<rparr>))"

section \<open>The walk as a loop over the calls\<close>

text \<open>The calls of a tree in preorder, each with the flag whether every tick evaluates it.\<close>

fun flagged_calls :: "bool \<Rightarrow> 'f expr \<Rightarrow> (bool \<times> 'f expr) list" where
  "flagged_calls u (UnaryOp l k e) = flagged_calls u e"
| "flagged_calls u (BinaryOp l k a b) = flagged_calls u a @ flagged_calls u b"
| "flagged_calls u (Conditional l c t e) =
     flagged_calls u c @ flagged_calls False t @ flagged_calls False e"
| "flagged_calls u (FunctionCall l n as i sy) =
     (u, FunctionCall l n as i sy) # concat (map (flagged_calls u) as)"
| "flagged_calls u _ = []"

fun call_name :: "'f expr \<Rightarrow> string" where
  "call_name (FunctionCall l n as i sy) = n"
| "call_name _ = []"

fun call_id :: "'f expr \<Rightarrow> int" where
  "call_id (FunctionCall l n as i sy) = i"
| "call_id _ = -1"

primrec assign_ids :: "(bool \<times> 'f expr) list \<Rightarrow> 'f alloc_state \<Rightarrow> int list \<times> 'f alloc_state" where
  "assign_ids [] s = ([], s)"
| "assign_ids (c # cs) s =
     (let (i, s1) = assign_id (fst c) (snd c) (call_name (snd c)) (call_id (snd c)) s;
          (is, s2) = assign_ids cs s1
      in (i # is, s2))"

definition erase_call :: "bool \<times> 'f expr \<Rightarrow> bool \<times> 'f expr" where
  "erase_call c = (fst c, erase (snd c))"

lemma assign_ids_append:
  "assign_ids (cs @ ds) s =
     (let (is, s1) = assign_ids cs s; (js, s2) = assign_ids ds s1 in (is @ js, s2))"
  by (induction cs arbitrary: s) (simp_all add: Let_def split: prod.splits)

lemma length_assign_ids: "assign_ids cs s = (is, s') \<Longrightarrow> length is = length cs"
  by (induction cs arbitrary: s "is") (auto simp: Let_def split: prod.splits)

lemma alloc_walk_assign_ids:
  "alloc_walk u e s = (e', s') \<Longrightarrow>
     assign_ids (flagged_calls u e) s = (map (call_id \<circ> snd) (flagged_calls u e'), s') \<and>
     map erase_call (flagged_calls u e') = map erase_call (flagged_calls u e) \<and> erase e' = erase e"
  "alloc_walks u es s = (es', s') \<Longrightarrow>
     assign_ids (concat (map (flagged_calls u) es)) s =
       (map (call_id \<circ> snd) (concat (map (flagged_calls u) es')), s') \<and>
     map erase_call (concat (map (flagged_calls u) es')) = map erase_call (concat (map (flagged_calls u) es)) \<and>
     map erase es' = map erase es"
proof (induction u e s and u es s arbitrary: e' s' and es' s' rule: alloc_walk_alloc_walks.induct)
  case (4 u l n as i sy s)
  obtain i' s1 where i': "assign_id u (FunctionCall l n as i sy) n i s = (i', s1)" by (metis surj_pair)
  obtain as' s2 where as': "alloc_walks u as s1 = (as', s2)" by (metis surj_pair)
  from 4(1) [OF i'[symmetric] refl as'] 4(2) i' as' show ?case
    by (auto simp: erase_call_def Let_def)
qed (auto simp: assign_ids_append Let_def split: prod.splits)

section \<open>Where an id comes from\<close>

text \<open>Call \<open>p\<close> is the first to carry the id of call \<open>q\<close>; when the two differ they are
  structurally equal and every tick evaluates the first.\<close>

definition id_source :: "(bool \<times> 'f expr) list \<Rightarrow> int list \<Rightarrow> nat \<Rightarrow> nat \<Rightarrow> bool" where
  "id_source cs is p q \<longleftrightarrow>
     p \<le> q \<and> is ! p = is ! q \<and> erase (snd (cs ! p)) = erase (snd (cs ! q)) \<and> (p < q \<longrightarrow> fst (cs ! p)) \<and>
     (\<forall>r < p. is ! r \<noteq> is ! q)"

definition entry_ok :: "(bool \<times> 'f expr) list \<Rightarrow> int list \<Rightarrow> 'f SeenStateful \<Rightarrow> bool" where
  "entry_ok cs is x \<longleftrightarrow>
     (\<exists>p < length cs. is ! p = seen_id x \<and> erase (seen_call x) = erase (snd (cs ! p)) \<and>
        unconditional x = fst (cs ! p) \<and> (\<forall>r < p. is ! r \<noteq> seen_id x))"

definition ids_ok :: "int \<Rightarrow> int \<Rightarrow> (bool \<times> 'f expr) list \<Rightarrow> int list \<Rightarrow> bool" where
  "ids_ok n n' cs is \<longleftrightarrow>
     n \<le> n' \<and> length is = length cs \<and>
     (\<forall>q < length cs. if IsStatefulOp (call_name (snd (cs ! q)))
        then n \<le> is ! q \<and> is ! q < n' \<and> (\<exists>p. id_source cs is p q) else is ! q < 0)"

lemma TryAliasNodeId_cases:
  "TryAliasNodeId seen e = 0 \<or>
   (\<exists>x \<in> set seen. unconditional x \<and> erase (seen_call x) = erase e \<and> TryAliasNodeId seen e = seen_id x)"
  by (induction seen) (auto simp: AstEquals_erase)

lemma id_source_snoc: "q < length cs \<Longrightarrow> length is = length cs \<Longrightarrow>
    id_source (cs @ [c]) (is @ [i]) p q \<longleftrightarrow> id_source cs is p q"
  by (auto simp: id_source_def nth_append)

lemma entry_ok_snoc: "length is = length cs \<Longrightarrow> entry_ok cs is x \<Longrightarrow> entry_ok (cs @ [c]) (is @ [i]) x"
  unfolding entry_ok_def by (elim exE, rule_tac x = p in exI) (auto simp: nth_append)

lemma ids_ok_snoc:
  assumes "ids_ok n n0 cs is" and "n0 \<le> n'"
    and "if IsStatefulOp (call_name (snd c))
      then n \<le> i \<and> i < n' \<and> (\<exists>p. id_source (cs @ [c]) (is @ [i]) p (length cs)) else i < 0"
  shows "ids_ok n n' (cs @ [c]) (is @ [i])"
proof -
  have len: "length is = length cs" using assms(1) by (simp add: ids_ok_def)
  have "if IsStatefulOp (call_name (snd ((cs @ [c]) ! q)))
      then n \<le> (is @ [i]) ! q \<and> (is @ [i]) ! q < n' \<and> (\<exists>p. id_source (cs @ [c]) (is @ [i]) p q)
      else (is @ [i]) ! q < 0" if "q < length (cs @ [c])" for q
  proof (cases "q < length cs")
    case True
    with assms(1,2) len show ?thesis by (fastforce simp: ids_ok_def nth_append id_source_snoc)
  next
    case False
    with that have "q = length cs" by simp
    with assms(3) len show ?thesis by (simp add: nth_append)
  qed
  with assms(1,2) len show ?thesis by (simp add: ids_ok_def)
qed

lemma assign_ids_ok:
  assumes "assign_ids cs (n, []) = (is, (n', seen))" and "\<forall>c \<in> set cs. call_id (snd c) < 0" and "1 \<le> n"
  shows "ids_ok n n' cs is \<and> list_all (entry_ok cs is) seen"
  using assms
proof (induction cs arbitrary: "is" n' seen rule: rev_induct)
  case Nil
  then show ?case by (simp add: ids_ok_def)
next
  case (snoc c cs)
  obtain is0 n0 seen0 where front: "assign_ids cs (n, []) = (is0, (n0, seen0))" by (metis surj_pair)
  obtain i where last: "assign_id (fst c) (snd c) (call_name (snd c)) (call_id (snd c)) (n0, seen0) = (i, (n', seen))"
    and ids: "is = is0 @ [i]"
    using snoc.prems(1) front by (auto simp: assign_ids_append split: prod.splits)
  from snoc.IH [OF front _ snoc.prems(3)] snoc.prems(2)
  have ok: "ids_ok n n0 cs is0" and entries: "list_all (entry_ok cs is0) seen0" by auto
  then have len: "length is0 = length cs" by (simp add: ids_ok_def)
  have below: "is0 ! r < n0" if "r < length cs" for r
    using ok that snoc.prems(3) by (auto simp: ids_ok_def split: if_splits)
  have entries': "list_all (entry_ok (cs @ [c]) (is0 @ [i])) seen0" for i
    using entries by (rule list.pred_mono_strong) (rule entry_ok_snoc [OF len])
  show ?case
  proof (cases "IsStatefulOp (call_name (snd c))")
    case False
    with last snoc.prems(2) have "i = call_id (snd c)" "n' = n0" "seen = seen0" "call_id (snd c) < 0"
      by (auto simp: assign_id_def)
    with ids_ok_snoc [OF ok, of n' c i] False entries' show ?thesis by (simp add: ids)
  next
    case True
    show ?thesis
    proof (cases "0 < TryAliasNodeId seen0 (snd c)")
      case aliased: True
      with last True snoc.prems(2) have *: "i = TryAliasNodeId seen0 (snd c)" "n' = n0" "seen = seen0"
        by (auto simp: assign_id_def Let_def)
      from TryAliasNodeId_cases [of seen0 "snd c"] aliased * obtain x where
        x: "x \<in> set seen0" "unconditional x" "erase (seen_call x) = erase (snd c)" "i = seen_id x" by auto
      with entries obtain p where p: "p < length cs" "is0 ! p = i" "erase (snd (cs ! p)) = erase (snd c)"
        "fst (cs ! p)" "\<forall>r < p. is0 ! r \<noteq> i"
        by (auto simp: list_all_iff entry_ok_def)
      then have "id_source (cs @ [c]) (is0 @ [i]) p (length cs)"
        using len by (auto simp: id_source_def nth_append)
      moreover have "n \<le> i" "i < n0"
        using ok below [OF p(1)] p(1,2) aliased * by (auto simp: ids_ok_def split: if_splits)
      ultimately show ?thesis using ids_ok_snoc [OF ok, of n' c i] True entries' * by (auto simp: ids)
    next
      case False
      with last True snoc.prems(2) have *: "i = n0" "n' = n0 + 1"
          "seen = seen0 @ [\<lparr>seen_call = snd c, seen_id = n0, unconditional = fst c\<rparr>]"
        by (auto simp: assign_id_def Let_def)
      have fresh: "\<forall>r < length cs. is0 ! r \<noteq> n0" using below by auto
      then have "id_source (cs @ [c]) (is0 @ [i]) (length cs) (length cs)"
        using len by (auto simp: id_source_def nth_append *)
      moreover have "entry_ok (cs @ [c]) (is0 @ [i]) \<lparr>seen_call = snd c, seen_id = n0, unconditional = fst c\<rparr>"
        using fresh len by (auto simp: entry_ok_def nth_append * intro!: exI [of _ "length cs"])
      moreover have "n \<le> n0" using ok by (simp add: ids_ok_def)
      ultimately show ?thesis using ids_ok_snoc [OF ok, of n' c i] True entries' *
        by (auto simp: ids)
    qed
  qed
qed

section \<open>Properties\<close>

text \<open>A tree before node ids are given, and what it becomes: an id in the range for every stateful
  call, shared only by calls that compute the same from the same operands, of which the first is
  evaluated on every tick.\<close>

definition unnumbered :: "'f expr \<Rightarrow> bool" where
  "unnumbered e \<longleftrightarrow> (\<forall>c \<in> set (flagged_calls True e). call_id (snd c) < 0)"

definition ids_shared_safely :: "int \<Rightarrow> int \<Rightarrow> 'f expr \<Rightarrow> bool" where
  "ids_shared_safely n n' e \<longleftrightarrow>
     (let cs = flagged_calls True e; is = map (call_id \<circ> snd) cs
      in \<forall>q < length cs. if IsStatefulOp (call_name (snd (cs ! q)))
           then n \<le> is ! q \<and> is ! q < n' \<and> (\<exists>p. id_source cs is p q) else is ! q < 0)"

lemma call_name_erase [simp]: "call_name (erase e) = call_name e"
  by (cases e) auto

lemma alloc_walk_shared:
  assumes "alloc_walk True e (n, []) = (e', (n', seen))" and "unnumbered e" and "1 \<le> n"
  shows "ids_shared_safely n n' e' \<and> erase e' = erase e \<and> n \<le> n'"
proof -
  let ?cs = "flagged_calls True e" and ?cs' = "flagged_calls True e'"
  let ?is = "map (call_id \<circ> snd) ?cs'"
  note walk = alloc_walk_assign_ids(1) [OF assms(1)]
  from assign_ids_ok [OF conjunct1 [OF walk] _ assms(3)] assms(2) have ok: "ids_ok n n' ?cs ?is"
    by (auto simp: unnumbered_def)
  from walk have "map erase_call ?cs' = map erase_call ?cs" by blast
  then have len: "length ?cs' = length ?cs"
    and same: "\<And>q. q < length ?cs \<Longrightarrow> erase_call (?cs' ! q) = erase_call (?cs ! q)"
    by (auto dest: map_eq_imp_length_eq) (metis nth_map map_eq_imp_length_eq)
  have flag: "fst (?cs' ! q) = fst (?cs ! q)" "erase (snd (?cs' ! q)) = erase (snd (?cs ! q))"
    if "q < length ?cs" for q
    using same [OF that] by (simp_all add: erase_call_def)
  have name: "call_name (snd (?cs' ! q)) = call_name (snd (?cs ! q))" if "q < length ?cs" for q
    using flag(2) [OF that] by (metis call_name_erase)
  have "id_source ?cs' ?is p q \<longleftrightarrow> id_source ?cs ?is p q" if "q < length ?cs" for p q
    using that flag by (auto simp: id_source_def)
  with ok walk name len show ?thesis
    by (auto simp: ids_ok_def ids_shared_safely_def Let_def)
qed

text \<open>C17: Allocating node ids changes only annotations, gives every stateful call an id between 1 and
  the count that is returned, and lets two calls share an id only when they are structurally equal
  and the first of them is evaluated on every tick.\<close>

theorem AllocateNodeIds_shared_safely:
  assumes "unnumbered (body sg)" and "AllocateNodeIds sg = (sg', cnt)"
  shows "ids_shared_safely 1 (cnt + 1) (body sg') \<and> erase (body sg') = erase (body sg) \<and>
    sig_name sg' = sig_name sg \<and> 0 \<le> cnt"
proof -
  obtain e n seen where walk: "alloc_walk True (body sg) (1, []) = (e, (n, seen))" by (metis surj_pair)
  from alloc_walk_shared [OF this assms(1)] assms(2) walk show ?thesis
    by (auto simp: AllocateNodeIds_def)
qed

definition two_averages :: "real option SignalDef" where
  "two_averages =
     (let sma = FunctionCall no_loc ''sma'' [NumberLiteral no_loc (Some 5), NumberLiteral no_loc (Some 2)] (-1) (-1)
      in \<lparr>sig_name = ''s'', body = BinaryOp no_loc Add sma sma\<rparr>)"

lemma unnumbered_two_averages: "unnumbered (body two_averages)"
  by (simp add: unnumbered_def two_averages_def Let_def)

theorem AllocateNodeIds_shared_safely_witness:
  "\<exists>sg'. AllocateNodeIds two_averages = (sg', 1) \<and> ids_shared_safely 1 2 (body sg')"
proof -
  have "\<exists>sg'. AllocateNodeIds two_averages = (sg', 1)"
    by (simp add: AllocateNodeIds_def two_averages_def assign_id_def IsStatefulOp_def Let_def)
  with AllocateNodeIds_shared_safely [OF unnumbered_two_averages] show ?thesis by fastforce
qed

text \<open>The ids of signals are disjoint intervals.\<close>

lemma alloc_program_disjoint:
  assumes "alloc_program sgs n = (sgs', n')" and "\<forall>sg \<in> set sgs. unnumbered (body sg)" and "1 \<le> n"
  shows "length sgs' = length sgs \<and> n \<le> n' \<and>
    (\<exists>bounds. length bounds = Suc (length sgs) \<and> bounds ! 0 = n \<and> bounds ! length sgs = n' \<and>
      (\<forall>i < length sgs. bounds ! i \<le> bounds ! Suc i \<and>
        ids_shared_safely (bounds ! i) (bounds ! Suc i) (body (sgs' ! i)) \<and>
        erase (body (sgs' ! i)) = erase (body (sgs ! i))))"
  using assms
proof (induction sgs arbitrary: n sgs')
  case Nil
  then show ?case by (auto intro!: exI [of _ "[n]"])
next
  case (Cons sg sgs)
  obtain e n1 seen where walk: "alloc_walk True (body sg) (n, []) = (e, (n1, seen))" by (metis surj_pair)
  obtain rest where tl: "alloc_program sgs n1 = (rest, n')" and sgs': "sgs' = sg\<lparr>body := e\<rparr> # rest"
    using Cons.prems(1) walk by (auto split: prod.splits)
  from alloc_walk_shared [OF walk] Cons.prems(2,3)
  have one: "ids_shared_safely n n1 e" "erase e = erase (body sg)" "n \<le> n1" by auto
  from Cons.IH [OF tl] Cons.prems(2,3) one(3) obtain bounds where
    b: "length bounds = Suc (length sgs)" "bounds ! 0 = n1" "bounds ! length sgs = n'" "length rest = length sgs"
      "n1 \<le> n'" "\<forall>i < length sgs. bounds ! i \<le> bounds ! Suc i \<and>
        ids_shared_safely (bounds ! i) (bounds ! Suc i) (body (rest ! i)) \<and>
        erase (body (rest ! i)) = erase (body (sgs ! i))" by auto
  show ?case using one b
    by (auto simp: sgs' nth_Cons less_Suc_eq_0_disj intro!: exI [of _ "n # bounds"] split: nat.splits)
qed

text \<open>C29: In a program the ids of one signal are never those of another: signal by signal they fill
  consecutive intervals that start at 1 and end at the count that is returned.\<close>

theorem AllocateProgramNodeIds_disjoint:
  assumes "\<forall>sg \<in> set sgs. unnumbered (body sg)" and "AllocateProgramNodeIds sgs = (sgs', cnt)"
  shows "length sgs' = length sgs \<and>
    (\<exists>bounds. length bounds = Suc (length sgs) \<and> bounds ! 0 = 1 \<and> bounds ! length sgs = cnt + 1 \<and>
      (\<forall>i < length sgs. bounds ! i \<le> bounds ! Suc i \<and>
        ids_shared_safely (bounds ! i) (bounds ! Suc i) (body (sgs' ! i)) \<and>
        erase (body (sgs' ! i)) = erase (body (sgs ! i))))"
proof -
  obtain rest n where "alloc_program sgs 1 = (rest, n)" by (metis surj_pair)
  with alloc_program_disjoint [OF this assms(1)] assms(2) show ?thesis
    by (auto simp: AllocateProgramNodeIds_def)
qed

theorem AllocateProgramNodeIds_disjoint_witness:
  "\<exists>sgs'. AllocateProgramNodeIds [two_averages, two_averages] = (sgs', 2) \<and>
     (\<exists>bounds. length bounds = 3 \<and> bounds ! 0 = 1 \<and> bounds ! 2 = 3 \<and>
        (\<forall>i < 2. ids_shared_safely (bounds ! i) (bounds ! Suc i) (body (sgs' ! i))))"
proof -
  have "\<exists>sgs'. AllocateProgramNodeIds [two_averages, two_averages] = (sgs', 2)"
    by (simp add: AllocateProgramNodeIds_def two_averages_def assign_id_def IsStatefulOp_def Let_def)
  then obtain sgs' where run: "AllocateProgramNodeIds [two_averages, two_averages] = (sgs', 2)" by blast
  from AllocateProgramNodeIds_disjoint [OF _ run] unnumbered_two_averages show ?thesis
    unfolding run by (auto simp: numeral_3_eq_3 numeral_2_eq_2)
qed

text \<open>A call that carries the id of its ticker, and one that can.\<close>

definition bound_to :: "SymbolTable \<Rightarrow> string \<times> 'f expr list \<times> int \<times> int \<Rightarrow> bool" where
  "bound_to t c \<longleftrightarrow> (case c of (n, as, i, sy) \<Rightarrow> ticker_first_arg n \<and> as \<noteq> [] \<longrightarrow>
     (\<exists>l tk k. hd as = IdentifierExpr l tk \<and> LookupId t tk = Inr k \<and> sy = int k))"

definition bindable :: "SymbolTable \<Rightarrow> string \<times> 'f expr list \<times> int \<times> int \<Rightarrow> bool" where
  "bindable t c \<longleftrightarrow> (case c of (n, as, i, sy) \<Rightarrow> ticker_first_arg n \<and> as \<noteq> [] \<longrightarrow>
     (\<exists>l tk k. hd as = IdentifierExpr l tk \<and> LookupId t tk = Inr k))"

lemma bind_symbol_Inr:
  "bind_symbol t n as sy = Inr sy' \<Longrightarrow> bindable t (n, as, i, sy) \<and> bound_to t (n, as, i, sy')"
  by (auto simp: bind_symbol_def bindable_def bound_to_def hd_conv_nth rbind_eq_Inr_iff
      split: if_splits expr.splits)

lemma bind_symbol_total: "bindable t (n, as, i, sy) \<Longrightarrow> \<exists>sy'. bind_symbol t n as sy = Inr sy'"
  by (auto simp: bind_symbol_def bindable_def hd_conv_nth)

lemma hd_bind_walks: "bind_walks t as = Inr as' \<Longrightarrow> as \<noteq> [] \<Longrightarrow> hd as = IdentifierExpr l n \<Longrightarrow>
    as' \<noteq> [] \<and> hd as' = IdentifierExpr l n"
  by (cases as) (auto simp: rbind_eq_Inr_iff)

lemma bind_walks_Nil: "bind_walks t as = Inr as' \<Longrightarrow> as' = [] \<longleftrightarrow> as = []"
  by (cases as) (auto simp: rbind_eq_Inr_iff)

lemma bind_walk_Inr:
  fixes e e' :: "'f expr" and es es' :: "'f expr list"
  shows "bind_walk t e = Inr e' \<Longrightarrow> erase e' = erase e \<and> list_all (bindable t) (calls e) \<and> list_all (bound_to t) (calls e')"
  "bind_walks t es = Inr es' \<Longrightarrow> map erase es' = map erase es \<and>
     list_all (bindable t) (concat (map calls es)) \<and> list_all (bound_to t) (concat (map calls es'))"
proof (induction t e and t es arbitrary: e' and es' rule: bind_walk_bind_walks.induct)
  case (4 t l n as i sy)
  then obtain sy' as' where sy: "bind_symbol t n as sy = Inr sy'" and as': "bind_walks t as = Inr as'"
    and e': "e' = FunctionCall l n as' i sy'" by (auto simp: rbind_eq_Inr_iff)
  from bind_symbol_Inr [OF sy] have "bindable t (n, as, i, sy)" "bound_to t (n, as, i, sy')" by auto
  moreover from this(2) as' have "bound_to t (n, as', i, sy')"
    using hd_bind_walks [OF as'] bind_walks_Nil [OF as'] by (auto simp: bound_to_def)
  ultimately show ?case using 4 as' e' sy by (auto simp: bindable_def)
qed (auto simp: rbind_eq_Inr_iff)

lemma bind_walk_total:
  fixes e :: "'f expr" and es :: "'f expr list"
  shows "list_all (bindable t) (calls e) \<Longrightarrow> \<exists>e'. bind_walk t e = Inr e'"
  "list_all (bindable t) (concat (map calls es)) \<Longrightarrow> \<exists>es'. bind_walks t es = Inr es'"
proof (induction t e and t es rule: bind_walk_bind_walks.induct)
  case (3 t l c x y)
  then obtain c' x' where cx: "bind_walk t c = Inr c'" "bind_walk t x = Inr x'" by auto
  from 3(3) [OF this] 3(4) obtain y' where "bind_walk t y = Inr y'" by auto
  with cx show ?case by simp
next
  case (4 t l n as i sy)
  then have "bindable t (n, as, i, sy)" by simp
  from bind_symbol_total [OF this] 4 show ?case by (auto simp: rbind_eq_Inr_iff)
qed auto

text \<open>C30: Binding gives every market-data call the id of its ticker, below the number of
  instruments, and changes nothing else; it succeeds exactly when the first argument of every such
  call is a ticker that has been registered.\<close>

theorem BindSymbolIds_binds:
  "case BindSymbolIds sg t of
     Inr sg' \<Rightarrow> list_all (bindable t) (calls (body sg)) \<and> list_all (bound_to t) (calls (body sg')) \<and>
       erase (body sg') = erase (body sg) \<and> sig_name sg' = sig_name sg
   | Inl e \<Rightarrow> \<not> list_all (bindable t) (calls (body sg))"
proof (cases "bind_walk t (body sg)")
  case (Inl e)
  with bind_walk_total(1) [of t "body sg"] show ?thesis by (auto simp: BindSymbolIds_def)
next
  case (Inr e')
  with bind_walk_Inr(1) [OF Inr] show ?thesis by (simp add: BindSymbolIds_def)
qed

end
