(* ===== verification/Spsc_Ring.thy ===== *)
theory Spsc_Ring
  imports Jit_Prelude
begin

text \<open>
  The lock-free ring between the feed thread and the evaluation thread
  (\<^verbatim>\<open>src/spsc_ring.h\<close>): the two operations as functions, and their execution by two
  threads as a step relation whose steps are the accesses to shared memory, interleaved in any
  order (the acquire and release accesses of the source give this order to the slots they publish).
  The indices are 64-bit and wrap. The ring refines a bounded first-in first-out queue, and the
  two threads never touch one slot at the same time.
\<close>

unbundle bit_operations_syntax

section \<open>The ring\<close>

text \<open>\<open>kCapacity\<close> is the length of the slots, a power of two.\<close>

record 'a SpscRing =
  ring_head :: "64 word"
  ring_cached_tail :: "64 word"
  ring_tail :: "64 word"
  ring_cached_head :: "64 word"
  ring_slots :: "'a list"

abbreviation kCapacity :: "'a SpscRing \<Rightarrow> nat" where
  "kCapacity r \<equiv> length (ring_slots r)"

definition SpscRing0 :: "'a list \<Rightarrow> 'a SpscRing" where
  "SpscRing0 s = \<lparr>ring_head = 0, ring_cached_tail = 0, ring_tail = 0, ring_cached_head = 0, ring_slots = s\<rparr>"

definition slot_index :: "'a SpscRing \<Rightarrow> 64 word \<Rightarrow> nat" where
  "slot_index r i = unat (i AND word_of_nat (kCapacity r - 1))"

definition full_at :: "'a SpscRing \<Rightarrow> 64 word \<Rightarrow> bool" where
  "full_at r h \<longleftrightarrow> h - ring_cached_tail r = word_of_nat (kCapacity r)"

definition try_push :: "'a \<Rightarrow> 'a SpscRing \<Rightarrow> bool \<times> 'a SpscRing" where
  "try_push v r =
     (let h = ring_head r;
          r1 = (if full_at r h then r\<lparr>ring_cached_tail := ring_tail r\<rparr> else r)
      in if full_at r h \<and> full_at r1 h then (False, r1)
         else (True, r1\<lparr>ring_slots := (ring_slots r1)[slot_index r1 h := v], ring_head := h + 1\<rparr>))"

definition try_pop :: "'a \<Rightarrow> 'a SpscRing \<Rightarrow> bool \<times> 'a \<times> 'a SpscRing" where
  "try_pop out r =
     (let t = ring_tail r;
          r1 = (if t = ring_cached_head r then r\<lparr>ring_cached_head := ring_head r\<rparr> else r)
      in if t = ring_cached_head r \<and> t = ring_cached_head r1 then (False, out, r1)
         else (True, ring_slots r1 ! slot_index r1 t, r1\<lparr>ring_tail := t + 1\<rparr>))"

definition size_approx :: "'a SpscRing \<Rightarrow> 64 word" where
  "size_approx r = ring_head r - ring_tail r"

definition empty_approx :: "'a SpscRing \<Rightarrow> bool" where
  "empty_approx r \<longleftrightarrow> size_approx r = 0"

definition full_approx :: "'a SpscRing \<Rightarrow> bool" where
  "full_approx r \<longleftrightarrow> size_approx r = word_of_nat (kCapacity r)"

section \<open>Two threads\<close>

text \<open>Where a thread stands in its operation, with the locals it holds.\<close>

datatype 'a producer = PIdle | PReload 'a "64 word" | PWrite 'a "64 word" | PPublish 'a "64 word"
datatype 'a consumer = CIdle | CReload "64 word" | CRead "64 word" | CPublish "64 word" 'a

datatype 'a event = Tau | Pushed 'a | Full | Popped 'a | Empty

text \<open>One access to shared memory and the private computation around it. An operation takes
  effect at its last access: the store that publishes, or the load that finds no room or no value.\<close>

fun push_step :: "'a \<Rightarrow> 'a producer \<Rightarrow> 'a SpscRing \<Rightarrow> 'a event \<times> 'a producer \<times> 'a SpscRing" where
  "push_step v PIdle r = (Tau, if full_at r (ring_head r) then PReload v (ring_head r) else PWrite v (ring_head r), r)"
| "push_step _ (PReload v h) r =
     (let r1 = r\<lparr>ring_cached_tail := ring_tail r\<rparr>
      in if full_at r1 h then (Full, PIdle, r1) else (Tau, PWrite v h, r1))"
| "push_step _ (PWrite v h) r = (Tau, PPublish v h, r\<lparr>ring_slots := (ring_slots r)[slot_index r h := v]\<rparr>)"
| "push_step _ (PPublish v h) r = (Pushed v, PIdle, r\<lparr>ring_head := h + 1\<rparr>)"

fun pop_step :: "'a consumer \<Rightarrow> 'a SpscRing \<Rightarrow> 'a event \<times> 'a consumer \<times> 'a SpscRing" where
  "pop_step CIdle r = (Tau, if ring_tail r = ring_cached_head r then CReload (ring_tail r) else CRead (ring_tail r), r)"
| "pop_step (CReload t) r =
     (let r1 = r\<lparr>ring_cached_head := ring_head r\<rparr>
      in if t = ring_cached_head r1 then (Empty, CIdle, r1) else (Tau, CRead t, r1))"
| "pop_step (CRead t) r = (Tau, CPublish t (ring_slots r ! slot_index r t), r)"
| "pop_step (CPublish t x) r = (Popped x, CIdle, r\<lparr>ring_tail := t + 1\<rparr>)"

type_synonym 'a threads = "'a producer \<times> 'a consumer \<times> 'a SpscRing"

inductive ring_step :: "'a threads \<Rightarrow> 'a event \<Rightarrow> 'a threads \<Rightarrow> bool" where
  producer: "push_step v p r = (e, p', r') \<Longrightarrow> ring_step (p, c, r) e (p', c, r')"
| consumer: "pop_step c r = (e, c', r') \<Longrightarrow> ring_step (p, c, r) e (p, c', r')"

inductive_cases ring_stepE: "ring_step (p, c, r) e s'"

text \<open>The queue the ring stands for.\<close>

fun queue_step :: "nat \<Rightarrow> 'a list \<Rightarrow> 'a event \<Rightarrow> 'a list \<Rightarrow> bool" where
  "queue_step n q Tau q' \<longleftrightarrow> q' = q"
| "queue_step n q (Pushed v) q' \<longleftrightarrow> length q < n \<and> q' = q @ [v]"
| "queue_step n q Full q' \<longleftrightarrow> length q = n \<and> q' = q"
| "queue_step n q (Popped x) q' \<longleftrightarrow> q = x # q'"
| "queue_step n q Empty q' \<longleftrightarrow> q = [] \<and> q' = q"

section \<open>Executions and simulation\<close>

inductive execution :: "('s \<Rightarrow> 'e \<Rightarrow> 's \<Rightarrow> bool) \<Rightarrow> 's \<Rightarrow> 'e list \<Rightarrow> 's \<Rightarrow> bool" for step where
  none: "execution step s [] s"
| more: "execution step s es t \<Longrightarrow> step t e u \<Longrightarrow> execution step s (es @ [e]) u"

text \<open>A relation between concrete and abstract states that every step of the concrete system
  preserves by a step of the abstract one with the same event.\<close>

locale simulation =
  fixes concrete :: "'s \<Rightarrow> 'e \<Rightarrow> 's \<Rightarrow> bool"
    and abstract :: "'q \<Rightarrow> 'e \<Rightarrow> 'q \<Rightarrow> bool"
    and related :: "'s \<Rightarrow> 'q \<Rightarrow> bool"
  assumes step: "related s q \<Longrightarrow> concrete s e s' \<Longrightarrow> \<exists>q'. abstract q e q' \<and> related s' q'"
begin

lemma traces:
  assumes "execution concrete s es s'" and "related s q"
  shows "\<exists>q'. execution abstract q es q' \<and> related s' q'"
  using assms
proof (induction rule: execution.induct)
  case (none s)
  then show ?case by (blast intro: execution.none)
next
  case (more s es t e u)
  then show ?case by (meson execution.more step)
qed

end

section \<open>Indices that wrap\<close>

lemma slot_index_mod:
  assumes "kCapacity r = 2 ^ k" and "k \<le> 63"
  shows "slot_index r (word_of_nat i) = i mod 2 ^ k"
proof -
  have "(word_of_nat (2 ^ k - 1) :: 64 word) = mask k"
    by (simp add: mask_eq_exp_minus_1 of_nat_diff)
  then show ?thesis
    using assms by (simp add: slot_index_def unsigned_take_bit_eq unsigned_of_nat flip: take_bit_eq_mask)
      (simp add: take_bit_take_bit take_bit_eq_mod min_def)
qed

lemma word_of_nat_small:
  "a < 2 ^ 64 \<Longrightarrow> b < 2 ^ 64 \<Longrightarrow> (word_of_nat a :: 64 word) = word_of_nat b \<longleftrightarrow> a = b"
  unfolding word_of_nat_eq_iff by (simp add: take_bit_nat_eq_self)

lemma word_of_nat_minus: "m \<le> n \<Longrightarrow> (word_of_nat n :: 64 word) - word_of_nat m = word_of_nat (n - m)"
  by (metis add_diff_cancel_left' le_add_diff_inverse of_nat_add)

lemma word_diff_eq_iff:
  assumes "m \<le> n" and "n \<le> m + c" and "c < 2 ^ 64"
  shows "(word_of_nat n :: 64 word) - word_of_nat m = word_of_nat c \<longleftrightarrow> n = m + c"
proof -
  have "n - m < 2 ^ 64" using assms(2,3) by linarith
  then have "(word_of_nat n :: 64 word) - word_of_nat m = word_of_nat c \<longleftrightarrow> n - m = c"
    unfolding word_of_nat_minus [OF assms(1)] by (rule word_of_nat_small) (rule assms(3))
  with assms(1) show ?thesis by linarith
qed

lemma word_of_nat_eq_near:
  assumes "m \<le> n" and "n - m < 2 ^ 64"
  shows "(word_of_nat m :: 64 word) = word_of_nat n \<longleftrightarrow> m = n"
proof
  assume eq: "(word_of_nat m :: 64 word) = word_of_nat n"
  have "(word_of_nat (n - m) :: 64 word) = word_of_nat n - word_of_nat m"
    by (rule word_of_nat_minus [OF assms(1), symmetric])
  also have "\<dots> = word_of_nat 0" by (simp only: eq diff_self semiring_1_class.of_nat_0)
  finally have "n - m = 0" by (rule word_of_nat_small [OF assms(2), THEN iffD1, rotated]) simp
  with assms(1) show "m = n" by linarith
qed simp

section \<open>The invariant\<close>

text \<open>With \<open>ps\<close> the values pushed so far and \<open>c\<close> the number popped, the contents are
  \<open>drop c ps\<close>. Each cached index is an earlier value of the index it stands for, and the
  locals of a thread are those its operation computed.\<close>

definition ring_ok :: "nat \<Rightarrow> 'a SpscRing \<Rightarrow> 'a list \<Rightarrow> nat \<Rightarrow> bool" where
  "ring_ok k r ps c \<longleftrightarrow>
     kCapacity r = 2 ^ k \<and> c \<le> length ps \<and> length ps \<le> c + 2 ^ k \<and>
     ring_head r = word_of_nat (length ps) \<and> ring_tail r = word_of_nat c \<and>
     (\<exists>ct \<le> c. ring_cached_tail r = word_of_nat ct \<and> length ps \<le> ct + 2 ^ k) \<and>
     (\<exists>ch \<ge> c. ring_cached_head r = word_of_nat ch \<and> ch \<le> length ps) \<and>
     (\<forall>i. c \<le> i \<and> i < length ps \<longrightarrow> ring_slots r ! (i mod 2 ^ k) = ps ! i)"

fun producer_ok :: "nat \<Rightarrow> 'a SpscRing \<Rightarrow> 'a list \<Rightarrow> nat \<Rightarrow> 'a producer \<Rightarrow> bool" where
  "producer_ok k r ps c PIdle \<longleftrightarrow> True"
| "producer_ok k r ps c (PReload v h) \<longleftrightarrow> h = word_of_nat (length ps)"
| "producer_ok k r ps c (PWrite v h) \<longleftrightarrow> h = word_of_nat (length ps) \<and> \<not> full_at r h"
| "producer_ok k r ps c (PPublish v h) \<longleftrightarrow> h = word_of_nat (length ps) \<and> \<not> full_at r h \<and>
     ring_slots r ! (length ps mod 2 ^ k) = v"

fun consumer_ok :: "'a SpscRing \<Rightarrow> 'a list \<Rightarrow> nat \<Rightarrow> 'a consumer \<Rightarrow> bool" where
  "consumer_ok r ps c CIdle \<longleftrightarrow> True"
| "consumer_ok r ps c (CReload t) \<longleftrightarrow> t = word_of_nat c"
| "consumer_ok r ps c (CRead t) \<longleftrightarrow> t = word_of_nat c \<and> ring_cached_head r \<noteq> t"
| "consumer_ok r ps c (CPublish t x) \<longleftrightarrow> t = word_of_nat c \<and> ring_cached_head r \<noteq> t \<and> ps ! c = x"

lemma full_at_iff:
  assumes "ring_ok k r ps c" and "k \<le> 63"
  shows "full_at r (ring_head r) \<longleftrightarrow> (\<exists>ct \<le> c. ring_cached_tail r = word_of_nat ct \<and> length ps = ct + 2 ^ k)"
proof -
  have lt: "(2::nat) ^ k < 2 ^ 64" using assms(2) by (intro power_strict_increasing) auto
  from assms(1) obtain ct where ct: "ct \<le> c" "ring_cached_tail r = word_of_nat ct" "length ps \<le> ct + 2 ^ k"
    by (auto simp: ring_ok_def)
  have full: "full_at r (ring_head r) \<longleftrightarrow> length ps = ct' + 2 ^ k"
    if "ct' \<le> c" "ring_cached_tail r = word_of_nat ct'" "length ps \<le> ct' + 2 ^ k" for ct'
  proof -
    have "ct' \<le> length ps" "ring_head r = word_of_nat (length ps)" "kCapacity r = 2 ^ k"
      using assms(1) that(1) by (auto simp: ring_ok_def)
    with word_diff_eq_iff [OF _ that(3) lt] that(2) show ?thesis by (simp add: full_at_def)
  qed
  with ct show ?thesis by (metis order_refl)
qed

lemma mod_neq_near: "i < n \<Longrightarrow> n < i + m \<Longrightarrow> i mod m \<noteq> n mod (m :: nat)"
  by (metis add_diff_cancel_left' diff_less_mono less_imp_le_nat mod_eq_dvd_iff_nat nat_dvd_not_less
      zero_less_diff)

lemma not_full_room:
  assumes "ring_ok k r ps c" and "k \<le> 63" and "\<not> full_at r (word_of_nat (length ps))"
  obtains ct where "ct \<le> c" "ring_cached_tail r = word_of_nat ct" "length ps < ct + 2 ^ k"
proof -
  from assms(1) obtain ct where ct: "ct \<le> c" "ring_cached_tail r = word_of_nat ct" "length ps \<le> ct + 2 ^ k"
    "ring_head r = word_of_nat (length ps)"
    by (auto simp: ring_ok_def)
  with full_at_iff [OF assms(1,2)] assms(3) have "length ps \<noteq> ct + 2 ^ k" by metis
  with ct that show thesis by simp
qed

lemma ring_ok_slot:
  assumes "ring_ok k r ps c" and "k \<le> 63"
  shows "slot_index r (word_of_nat i) = i mod 2 ^ k" and "i mod 2 ^ k < kCapacity r"
  using assms by (auto simp: ring_ok_def intro!: slot_index_mod)

lemma ring_ok_write:
  assumes "ring_ok k r ps c" and "k \<le> 63" and "\<not> full_at r (word_of_nat (length ps))"
  shows "ring_ok k (r\<lparr>ring_slots := (ring_slots r)[length ps mod 2 ^ k := v]\<rparr>) ps c"
proof -
  from not_full_room [OF assms] obtain ct where "ct \<le> c" "length ps < ct + 2 ^ k" by blast
  then have "length ps mod 2 ^ k \<noteq> i mod 2 ^ k" if "c \<le> i" "i < length ps" for i
    using mod_neq_near [of i "length ps" "2 ^ k"] that by fastforce
  with assms(1) show ?thesis by (auto simp: ring_ok_def)
qed

lemma ring_ok_publish:
  assumes "ring_ok k r ps c" and "k \<le> 63" and "\<not> full_at r (word_of_nat (length ps))"
    and "ring_slots r ! (length ps mod 2 ^ k) = v"
  shows "ring_ok k (r\<lparr>ring_head := word_of_nat (length ps) + 1\<rparr>) (ps @ [v]) c" and "length ps < c + 2 ^ k"
proof -
  from not_full_room [OF assms(1-3)] obtain ct where
    ct: "ct \<le> c" "ring_cached_tail r = word_of_nat ct" "length ps < ct + 2 ^ k" by blast
  then show "length ps < c + 2 ^ k" by linarith
  from assms(1) have "\<exists>ch\<ge>c. ring_cached_head r = word_of_nat ch \<and> ch \<le> length (ps @ [v])"
    by (auto simp: ring_ok_def)
  moreover from ct have "\<exists>ct\<le>c. ring_cached_tail r = word_of_nat ct \<and> length (ps @ [v]) \<le> ct + 2 ^ k"
    by (intro exI [of _ ct]) simp
  moreover have "(ps @ [v]) ! i = ring_slots r ! (i mod 2 ^ k)" if "c \<le> i" "i < length (ps @ [v])" for i
    using that assms(1,4) by (auto simp: ring_ok_def nth_append less_Suc_eq)
  ultimately show "ring_ok k (r\<lparr>ring_head := word_of_nat (length ps) + 1\<rparr>) (ps @ [v]) c"
    using assms(1) ct by (auto simp: ring_ok_def)
qed

lemma ring_ok_reload_tail:
  assumes "ring_ok k r ps c"
  shows "ring_ok k (r\<lparr>ring_cached_tail := ring_tail r\<rparr>) ps c"
  using assms by (auto simp: ring_ok_def)

lemma ring_ok_reload_head:
  assumes "ring_ok k r ps c"
  shows "ring_ok k (r\<lparr>ring_cached_head := ring_head r\<rparr>) ps c"
  using assms by (auto simp: ring_ok_def)

lemma cached_head_neq:
  assumes "ring_ok k r ps c" and "k \<le> 63"
  shows "ring_cached_head r \<noteq> word_of_nat c \<Longrightarrow> c < length ps"
    and "ring_cached_head r = ring_head r \<Longrightarrow> ring_cached_head r = word_of_nat c \<longleftrightarrow> c = length ps"
proof -
  from assms(1) obtain ch where "c \<le> ch" "ring_cached_head r = word_of_nat ch" "ch \<le> length ps"
    by (auto simp: ring_ok_def)
  then show "ring_cached_head r \<noteq> word_of_nat c \<Longrightarrow> c < length ps" by (cases "c = ch") auto
  have "(2::nat) ^ k < 2 ^ 64" using assms(2) by (intro power_strict_increasing) auto
  then have "length ps - c < 2 ^ 64" "c \<le> length ps" using assms(1) unfolding ring_ok_def by linarith+
  from word_of_nat_eq_near [OF this(2,1)] assms(1)
  show "ring_cached_head r = ring_head r \<Longrightarrow> ring_cached_head r = word_of_nat c \<longleftrightarrow> c = length ps"
    by (auto simp: ring_ok_def)
qed

lemma ring_ok_release:
  assumes "ring_ok k r ps c" and "ring_cached_head r \<noteq> word_of_nat c"
  shows "ring_ok k (r\<lparr>ring_tail := word_of_nat c + 1\<rparr>) ps (Suc c)"
proof -
  from assms obtain ch where ch: "Suc c \<le> ch" "ring_cached_head r = word_of_nat ch" "ch \<le> length ps"
    unfolding ring_ok_def by (metis le_neq_implies_less Suc_leI)
  then have "\<exists>ch\<ge>Suc c. ring_cached_head r = word_of_nat ch \<and> ch \<le> length ps" "Suc c \<le> length ps"
    by auto
  moreover from assms(1) have "\<exists>ct\<le>Suc c. ring_cached_tail r = word_of_nat ct \<and> length ps \<le> ct + 2 ^ k"
    unfolding ring_ok_def by (metis le_SucI)
  moreover have "(word_of_nat c + 1 :: 64 word) = word_of_nat (Suc c)" by simp
  ultimately show ?thesis using assms(1) unfolding ring_ok_def by auto
qed

section \<open>The ring refines the queue\<close>

definition represents :: "nat \<Rightarrow> 'a threads \<Rightarrow> 'a list \<Rightarrow> bool" where
  "represents k s q \<longleftrightarrow>
     k \<le> 63 \<and> (case s of (p, c, r) \<Rightarrow> \<exists>ps n. ring_ok k r ps n \<and> producer_ok k r ps n p \<and> consumer_ok r ps n c \<and> q = drop n ps)"

lemma push_step_represents:
  assumes "ring_ok k r ps n" and "producer_ok k r ps n p" and "consumer_ok r ps n c" and "k \<le> 63"
    and "push_step v p r = (e, p', r')"
  shows "\<exists>q'. queue_step (2 ^ k) (drop n ps) e q' \<and> represents k (p', c, r') q'"
proof -
  have head: "ring_head r = word_of_nat (length ps)" using assms(1) by (simp add: ring_ok_def)
  show ?thesis
  proof (cases p)
    case PIdle
    with assms head show ?thesis
      by (auto simp: represents_def split: if_splits intro!: exI [of _ ps] exI [of _ n])
  next
    case (PReload w h)
    let ?r = "r\<lparr>ring_cached_tail := ring_tail r\<rparr>"
    note ok = ring_ok_reload_tail [OF assms(1)]
    have "consumer_ok ?r ps n c" using assms(3) by (cases c) auto
    moreover have "length ps = n + 2 ^ k" if "full_at ?r h"
    proof -
      have "(2::nat) ^ k < 2 ^ 64" using assms(4) by (intro power_strict_increasing) auto
      with word_diff_eq_iff [of n "length ps" "2 ^ k"] that PReload assms(1,2) show ?thesis
        by (auto simp: full_at_def ring_ok_def)
    qed
    ultimately show ?thesis using assms(2,4,5) PReload ok
      by (auto simp: represents_def Let_def split: if_splits intro!: exI [of _ ps] exI [of _ n])
  next
    case (PWrite w h)
    with assms(2) have h: "h = word_of_nat (length ps)" and nf: "\<not> full_at r (word_of_nat (length ps))" by auto
    let ?r = "r\<lparr>ring_slots := (ring_slots r)[length ps mod 2 ^ k := w]\<rparr>"
    note ok = ring_ok_write [OF assms(1,4) nf, of w]
    have "consumer_ok ?r ps n c" using assms(3) by (cases c) auto
    moreover have "producer_ok k ?r ps n (PPublish w h)"
      using nf h ring_ok_slot(2) [OF assms(1,4)] by (simp add: full_at_def)
    ultimately show ?thesis using assms(4,5) PWrite h ok ring_ok_slot(1) [OF assms(1,4)]
      by (auto simp: represents_def intro!: exI [of _ ps] exI [of _ n])
  next
    case (PPublish w h)
    with assms(2) have h: "h = word_of_nat (length ps)" and nf: "\<not> full_at r (word_of_nat (length ps))"
      and w: "ring_slots r ! (length ps mod 2 ^ k) = w" by auto
    note ok = ring_ok_publish [OF assms(1,4) nf w]
    have n: "n \<le> length ps" using assms(1) by (simp add: ring_ok_def)
    have "consumer_ok (r\<lparr>ring_head := word_of_nat (length ps) + 1\<rparr>) (ps @ [w]) n c"
      using assms(3) cached_head_neq(1) [OF assms(1,4)] by (cases c) (auto simp: nth_append)
    with ok assms(4,5) PPublish h have "represents k (p', c, r') (drop n (ps @ [w]))"
      by (auto simp: represents_def intro!: exI [of _ "ps @ [w]"] exI [of _ n])
    moreover have "queue_step (2 ^ k) (drop n ps) e (drop n (ps @ [w]))"
      using PPublish assms(5) ok(2) n by auto
    ultimately show ?thesis by blast
  qed
qed

lemma pop_step_represents:
  assumes "ring_ok k r ps n" and "producer_ok k r ps n p" and "consumer_ok r ps n c" and "k \<le> 63"
    and "pop_step c r = (e, c', r')"
  shows "\<exists>q'. queue_step (2 ^ k) (drop n ps) e q' \<and> represents k (p, c', r') q'"
proof -
  have tail: "ring_tail r = word_of_nat n" using assms(1) by (simp add: ring_ok_def)
  show ?thesis
  proof (cases c)
    case CIdle
    with assms tail show ?thesis
      by (auto simp: represents_def split: if_splits intro!: exI [of _ ps] exI [of _ n])
  next
    case (CReload t)
    let ?r = "r\<lparr>ring_cached_head := ring_head r\<rparr>"
    note ok = ring_ok_reload_head [OF assms(1)]
    have "producer_ok k ?r ps n p" using assms(2) by (cases p) (auto simp: full_at_def)
    with cached_head_neq(2) [OF ok assms(4)] ok CReload assms(3-5) show ?thesis
      by (auto simp: represents_def Let_def split: if_splits intro!: exI [of _ ps] exI [of _ n])
  next
    case (CRead t)
    with assms(3) have t: "t = word_of_nat n" and ne: "ring_cached_head r \<noteq> word_of_nat n" by auto
    from cached_head_neq(1) [OF assms(1,4) ne] assms(1) have "ring_slots r ! (n mod 2 ^ k) = ps ! n"
      by (simp add: ring_ok_def)
    with ne t CRead assms ring_ok_slot(1) [OF assms(1,4)] show ?thesis
      by (auto simp: represents_def intro!: exI [of _ ps] exI [of _ n])
  next
    case (CPublish t x)
    with assms(3) have t: "t = word_of_nat n" and ne: "ring_cached_head r \<noteq> word_of_nat n"
      and x: "ps ! n = x" by auto
    note ok = ring_ok_release [OF assms(1) ne]
    have "producer_ok k (r\<lparr>ring_tail := word_of_nat n + 1\<rparr>) ps (Suc n) p"
      using assms(2) by (cases p) (auto simp: full_at_def)
    with ok t CPublish assms(4,5) have "represents k (p, c', r') (drop (Suc n) ps)"
      by (auto simp: represents_def intro!: exI [of _ ps] exI [of _ "Suc n"])
    moreover have "queue_step (2 ^ k) (drop n ps) e (drop (Suc n) ps)"
      using CPublish assms(5) x cached_head_neq(1) [OF assms(1,4) ne] by (auto simp: Cons_nth_drop_Suc)
    ultimately show ?thesis by blast
  qed
qed

lemma ring_step_represents:
  assumes "represents k s q" and "ring_step s e s'"
  shows "\<exists>q'. queue_step (2 ^ k) q e q' \<and> represents k s' q'"
proof -
  obtain p c r where s: "s = (p, c, r)" by (metis surj_pair)
  with assms(1) obtain ps n where "ring_ok k r ps n" "producer_ok k r ps n p" "consumer_ok r ps n c" "k \<le> 63"
    and q: "q = drop n ps" by (auto simp: represents_def)
  note ok = this(1-4)
  from assms(2) show ?thesis unfolding s q
    by (elim ring_stepE) (use push_step_represents [OF ok] pop_step_represents [OF ok] in blast)+
qed

lemma represents_initial:
  assumes "length xs = 2 ^ k" and "k \<le> 63"
  shows "represents k (PIdle, CIdle, SpscRing0 xs) []"
  using assms by (auto simp: represents_def ring_ok_def SpscRing0_def intro!: exI [of _ "[]"])

interpretation spsc: simulation ring_step "queue_step (2 ^ k)" "represents k" for k
  by unfold_locales (rule ring_step_represents)

text \<open>The values an execution pushed and popped.\<close>

fun pushed_of :: "'a event list \<Rightarrow> 'a list" where
  "pushed_of [] = []"
| "pushed_of (Pushed v # es) = v # pushed_of es"
| "pushed_of (e # es) = pushed_of es"

fun popped_of :: "'a event list \<Rightarrow> 'a list" where
  "popped_of [] = []"
| "popped_of (Popped v # es) = v # popped_of es"
| "popped_of (e # es) = popped_of es"

lemma of_append [simp]:
  "pushed_of (es @ fs) = pushed_of es @ pushed_of fs"
  "popped_of (es @ fs) = popped_of es @ popped_of fs"
proof -
  show "pushed_of (es @ fs) = pushed_of es @ pushed_of fs" by (induction es rule: pushed_of.induct) simp_all
  show "popped_of (es @ fs) = popped_of es @ popped_of fs" by (induction es rule: popped_of.induct) simp_all
qed

lemma queue_execution:
  assumes "execution (queue_step n) q es q'" and "length q \<le> n"
  shows "q @ pushed_of es = popped_of es @ q' \<and> length q' \<le> n"
  using assms
proof (induction rule: execution.induct)
  case (more q es t e u)
  then have "q @ pushed_of es = popped_of es @ t" "length t \<le> n" by auto
  with more.hyps(2) show ?case by (cases e) (auto simp flip: append_assoc)
qed simp

lemma execution_push:
  "execution ring_step s es (p, c, r) \<Longrightarrow>
     (case push_step v p r of (e, p', r') \<Rightarrow> execution ring_step s (es @ [e]) (p', c, r'))"
  by (auto split: prod.splits intro: execution.more producer)

lemma execution_pop:
  "execution ring_step s es (p, c, r) \<Longrightarrow>
     (case pop_step c r of (e, c', r') \<Rightarrow> execution ring_step s (es @ [e]) (p, c', r'))"
  by (auto split: prod.splits intro: execution.more consumer)

text \<open>An execution of six accesses on a ring of two slots: a push, and then both threads on their
  way into the next operation.\<close>

lemma sample_execution:
  "\<exists>r. execution ring_step (PIdle, CIdle, SpscRing0 [0, 0]) [Tau, Tau, Pushed 5, Tau, Tau, Tau]
     (PWrite (6::int) 1, CRead 0, r)"
proof -
  let ?s = "(PIdle, CIdle, SpscRing0 [0, 0]) :: int threads"
  have "execution ring_step ?s [Tau] (PWrite 5 0, CIdle, SpscRing0 [0, 0])"
    using execution_push [OF execution.none, of PIdle CIdle "SpscRing0 [0, 0]" 5]
    by (simp add: full_at_def SpscRing0_def)
  note execution_push [OF this, of 5, simplified]
  note pushed = execution_push [OF this, of 5, simplified]
  note execution_push [OF pushed, of 6]
  then have "\<exists>r. execution ring_step ?s [Tau, Tau, Pushed 5, Tau] (PWrite 6 1, CIdle, r) \<and>
      ring_tail r = 0 \<and> ring_cached_head r = 0 \<and> ring_head r = 1"
    by (auto simp: full_at_def SpscRing0_def slot_index_def)
  then obtain r where r: "execution ring_step ?s [Tau, Tau, Pushed 5, Tau] (PWrite 6 1, CIdle, r)"
      "ring_tail r = 0" "ring_cached_head r = 0" "ring_head r = 1" by blast
  from execution_pop [OF r(1)] r(2,3)
  have "execution ring_step ?s [Tau, Tau, Pushed 5, Tau, Tau] (PWrite 6 1, CReload 0, r)" by simp
  from execution_pop [OF this] r(4) show ?thesis by auto
qed

section \<open>Properties\<close>

text \<open>C7: However the accesses of the two threads are interleaved, and although the 64-bit indices
  wrap, what the operations return is what a bounded first-in first-out queue returns: values are
  popped in the order they were pushed, none is lost, duplicated or overwritten, and an operation
  fails only when the queue was full, or empty, at the moment of its last access.\<close>

theorem spsc_refines_queue:
  assumes "length xs = 2 ^ k" and "k \<le> 63"
    and "execution ring_step (PIdle, CIdle, SpscRing0 xs) es s"
  shows "\<exists>q. execution (queue_step (2 ^ k)) [] es q \<and> represents k s q \<and>
    pushed_of es = popped_of es @ q \<and> length q \<le> 2 ^ k"
proof -
  from spsc.traces [OF assms(3) represents_initial [OF assms(1,2)]] obtain q
    where "execution (queue_step (2 ^ k)) [] es q" "represents k s q" by blast
  with queue_execution [OF this(1)] show ?thesis by auto
qed

theorem spsc_refines_queue_witness:
  "\<exists>r. represents 1 (PWrite 6 1, CRead 0, r) [5 :: int]"
proof -
  from sample_execution obtain r where
    "execution ring_step (PIdle, CIdle, SpscRing0 [0, 0]) [Tau, Tau, Pushed 5, Tau, Tau, Tau]
      (PWrite (6::int) 1, CRead 0, r)" by blast
  from spsc_refines_queue [OF _ _ this, of 1] show ?thesis by auto
qed

text \<open>C27: The producer and the consumer never access the same slot at the same time: when one is
  about to write a slot and the other about to read one, the slots differ.\<close>

theorem spsc_no_race:
  assumes "length xs = 2 ^ k" and "k \<le> 63"
    and "execution ring_step (PIdle, CIdle, SpscRing0 xs) es (PWrite v h, CRead t, r)"
  shows "slot_index r h \<noteq> slot_index r t \<and> slot_index r h < kCapacity r \<and> slot_index r t < kCapacity r"
proof -
  from spsc.traces [OF assms(3) represents_initial [OF assms(1,2)]]
  obtain q where "represents k (PWrite v h, CRead t, r) q" by blast
  then obtain ps n where ok: "ring_ok k r ps n" and h: "h = word_of_nat (length ps)" and nf: "\<not> full_at r (word_of_nat (length ps))"
    and t: "t = word_of_nat n" and ne: "ring_cached_head r \<noteq> word_of_nat n"
    by (auto simp: represents_def)
  from not_full_room [OF ok assms(2) nf] obtain ct where "ct \<le> n" "length ps < ct + 2 ^ k" by blast
  then have "n mod 2 ^ k \<noteq> length ps mod 2 ^ k"
    by (intro mod_neq_near cached_head_neq(1) [OF ok assms(2) ne]) linarith
  with ring_ok_slot [OF ok assms(2)] show ?thesis unfolding h t by simp
qed

theorem spsc_no_race_witness:
  "\<exists>r :: int SpscRing. slot_index r 1 \<noteq> slot_index r 0"
proof -
  from sample_execution obtain r where
    "execution ring_step (PIdle, CIdle, SpscRing0 [0, 0]) [Tau, Tau, Pushed 5, Tau, Tau, Tau]
      (PWrite (6::int) 1, CRead 0, r)" by blast
  from spsc_no_race [OF _ _ this, of 1] show ?thesis by auto
qed

text \<open>A call of \<open>try_push\<close> or \<open>try_pop\<close> that runs without interference is one of the
  executions of the threads, ending in the event that its result reports.\<close>

theorem try_push_try_pop_steps:
  "(case try_push v r of (ok, r') \<Rightarrow>
      \<exists>n. execution ring_step (PIdle, c, r) (replicate n Tau @ [if ok then Pushed v else Full]) (PIdle, c, r')) \<and>
   (case try_pop out r of (ok, x, r') \<Rightarrow>
      \<exists>n. execution ring_step (p, CIdle, r) (replicate n Tau @ [if ok then Popped x else Empty]) (p, CIdle, r'))"
proof
  let ?h = "ring_head r" and ?r1 = "r\<lparr>ring_cached_tail := ring_tail r\<rparr>"
  have storing: "\<exists>n. execution ring_step (PIdle, c, r) (replicate n Tau @ [Pushed v])
      (PIdle, c, s\<lparr>ring_slots := (ring_slots s)[slot_index s ?h := v], ring_head := ?h + 1\<rparr>)"
    if "execution ring_step (PIdle, c, r) (replicate n Tau) (PWrite v ?h, c, s)" for n s
    proof (rule exI [of _ "Suc n"])
    have "execution ring_step (PIdle, c, r) (replicate (Suc n) Tau)
        (PPublish v ?h, c, s\<lparr>ring_slots := (ring_slots s)[slot_index s ?h := v]\<rparr>)"
      using execution_push [OF that, of v] by (simp add: replicate_append_same)
    from execution_push [OF this, of v] show "execution ring_step (PIdle, c, r) (replicate (Suc n) Tau @ [Pushed v])
      (PIdle, c, s\<lparr>ring_slots := (ring_slots s)[slot_index s ?h := v], ring_head := ?h + 1\<rparr>)" by simp
  qed
  note one = execution_push [OF execution.none, of PIdle c r v]
  show "case try_push v r of (ok, r') \<Rightarrow>
      \<exists>n. execution ring_step (PIdle, c, r) (replicate n Tau @ [if ok then Pushed v else Full]) (PIdle, c, r')"
  proof (cases "full_at r ?h")
    case False
    with one have "execution ring_step (PIdle, c, r) (replicate 1 Tau) (PWrite v ?h, c, r)" by simp
    from storing [OF this] False show ?thesis by (simp add: try_push_def Let_def)
  next
    case True
    with one have reload: "execution ring_step (PIdle, c, r) [Tau] (PReload v ?h, c, r)" by simp
    show ?thesis
    proof (cases "full_at ?r1 ?h")
      case True
      with execution_push [OF reload, of v] \<open>full_at r ?h\<close> show ?thesis
        by (auto simp: try_push_def Let_def intro!: exI [of _ 1])
    next
      case False
      with execution_push [OF reload, of v]
      have "execution ring_step (PIdle, c, r) (replicate 2 Tau) (PWrite v ?h, c, ?r1)"
        by (simp add: numeral_2_eq_2)
      from storing [OF this] False \<open>full_at r ?h\<close> show ?thesis by (simp add: try_push_def Let_def)
    qed
  qed
next
  let ?t = "ring_tail r" and ?r1 = "r\<lparr>ring_cached_head := ring_head r\<rparr>"
  have reading: "\<exists>n. execution ring_step (p, CIdle, r) (replicate n Tau @ [Popped (ring_slots s ! slot_index s ?t)])
      (p, CIdle, s\<lparr>ring_tail := ?t + 1\<rparr>)"
    if "execution ring_step (p, CIdle, r) (replicate n Tau) (p, CRead ?t, s)" for n s
    proof (rule exI [of _ "Suc n"])
    have "execution ring_step (p, CIdle, r) (replicate (Suc n) Tau)
        (p, CPublish ?t (ring_slots s ! slot_index s ?t), s)"
      using execution_pop [OF that] by (simp add: replicate_append_same)
    from execution_pop [OF this]
    show "execution ring_step (p, CIdle, r) (replicate (Suc n) Tau @ [Popped (ring_slots s ! slot_index s ?t)])
      (p, CIdle, s\<lparr>ring_tail := ?t + 1\<rparr>)" by simp
  qed
  note one = execution_pop [OF execution.none, of p CIdle r]
  show "case try_pop out r of (ok, x, r') \<Rightarrow>
      \<exists>n. execution ring_step (p, CIdle, r) (replicate n Tau @ [if ok then Popped x else Empty]) (p, CIdle, r')"
  proof (cases "?t = ring_cached_head r")
    case False
    with one have "execution ring_step (p, CIdle, r) (replicate 1 Tau) (p, CRead ?t, r)" by simp
    from reading [OF this] False show ?thesis by (simp add: try_pop_def Let_def)
  next
    case True
    with one have reload: "execution ring_step (p, CIdle, r) [Tau] (p, CReload ?t, r)" by simp
    show ?thesis
    proof (cases "?t = ring_head r")
      case True
      with execution_pop [OF reload] \<open>?t = ring_cached_head r\<close> show ?thesis
        by (auto simp: try_pop_def Let_def intro!: exI [of _ 1])
    next
      case False
      with execution_pop [OF reload]
      have "execution ring_step (p, CIdle, r) (replicate 2 Tau) (p, CRead ?t, ?r1)"
        by (simp add: numeral_2_eq_2)
      from reading [OF this] False \<open>?t = ring_cached_head r\<close> show ?thesis by (simp add: try_pop_def Let_def)
    qed
  qed
qed

end
