(* ===== verification/Multi_Symbol.thy ===== *)
theory Multi_Symbol
  imports Jit_Runtime
begin

text \<open>
  Evaluation of a program for many symbols (\<^verbatim>\<open>src/runtime.h\<close>,
  \<^verbatim>\<open>src/runtime.cpp\<close>, \<^verbatim>\<open>src/multithread_eval.cpp\<close>): the arena with one
  context per symbol, the loop over all symbols, and the division of the symbols into contiguous
  shards, one per thread, each with an arena of its own. The compiled step of a program is a
  parameter. Evaluating the shards, in any order, gives what the sequential loop gives.
\<close>

section \<open>The arena\<close>

record 'f MultiSymbolSignalContext =
  arena :: "'f SignalContext list"
  arena_params :: "'f list"

definition NumSymbols :: "'f MultiSymbolSignalContext \<Rightarrow> nat" where
  "NumSymbols a = length (arena a)"

definition RefreshParamViews :: "'f MultiSymbolSignalContext \<Rightarrow> 'f MultiSymbolSignalContext" where
  "RefreshParamViews a =
     (let data = (if arena_params a = [] then None else Some (arena_params a));
          count = length (arena_params a)
      in a\<lparr>arena := map (\<lambda>ctx. ctx\<lparr>params := data, num_params := count, gradient_param_count := count\<rparr>)
                       (arena a)\<rparr>)"

definition MultiSymbolSignalContext0 :: "nat \<Rightarrow> 'f MultiSymbolSignalContext" where
  "MultiSymbolSignalContext0 n = RefreshParamViews \<lparr>arena = replicate n SignalContext0, arena_params = []\<rparr>"

definition ArenaResize :: "nat \<Rightarrow> 'f MultiSymbolSignalContext \<Rightarrow> 'f MultiSymbolSignalContext" where
  "ArenaResize n a = RefreshParamViews (a\<lparr>arena := resize SignalContext0 n (arena a)\<rparr>)"

definition SetParameters :: "'f list \<Rightarrow> 'f MultiSymbolSignalContext \<Rightarrow> 'f MultiSymbolSignalContext" where
  "SetParameters ps a = RefreshParamViews (a\<lparr>arena_params := ps\<rparr>)"

definition PerSymbol :: "'f MultiSymbolSignalContext \<Rightarrow> nat \<Rightarrow> 'f SignalContext result" where
  "PerSymbol a i = (if i < length (arena a) then Inr (arena a ! i) else Inl (OutOfRange ''vector::at''))"

definition jit_rt_symbol_ctx :: "'f MultiSymbolSignalContext \<Rightarrow> 32 word \<Rightarrow> 'f SignalContext result" where
  "jit_rt_symbol_ctx a symbol_id = PerSymbol a (unat symbol_id)"

text \<open>Prewarming one symbol of the arena, which the function changes in place.\<close>

definition PrewarmSymbol ::
    "'f machine \<Rightarrow> 32 word \<Rightarrow> 'f SignalDef \<Rightarrow> 'f MultiSymbolSignalContext \<Rightarrow> 'f MultiSymbolSignalContext result" where
  "PrewarmSymbol M symbol_id signal a =
     rbind (PerSymbol a (unat symbol_id)) (\<lambda>ctx.
     rbind (PrewarmSignalContext M signal ctx) (\<lambda>ctx'.
       Inr (a\<lparr>arena := (arena a)[unat symbol_id := ctx']\<rparr>)))"

section \<open>The loop over the symbols\<close>

text \<open>The compiled step: it returns the values it stores from its output pointer on.\<close>

type_synonym 'f ProgramStepFn =
  "'f MarketState \<Rightarrow> 32 word \<Rightarrow> ('f MultiSymbolSignalContext, 'f list) prog"

definition store_at :: "nat \<Rightarrow> 'f list \<Rightarrow> 'f list \<Rightarrow> 'f list result" where
  "store_at off vs out =
     (if off + length vs \<le> length out then Inr (take off out @ vs @ drop (off + length vs) out)
      else Inl (Undefined ''output buffer''))"

text \<open>The body of both loops: global symbol \<open>s\<close> is symbol \<open>s - first\<close> of the arena.\<close>

definition eval_symbol ::
    "'f ProgramStepFn \<Rightarrow> 'f MarketState list \<Rightarrow> nat \<Rightarrow> nat \<Rightarrow> nat \<Rightarrow>
       'f MultiSymbolSignalContext \<times> 'f list \<Rightarrow> ('f MultiSymbolSignalContext \<times> 'f list) result" where
  "eval_symbol fn markets k first s st =
     (if s < length markets
      then (case fn (markets ! s) (word_of_nat (s - first)) (fst st) of
              (Inl e, _) \<Rightarrow> Inl e
            | (Inr vs, a) \<Rightarrow> rbind (store_at (s * k) vs (snd st)) (\<lambda>out. Inr (a, out)))
      else Inl (Undefined ''market''))"

definition EvaluateAllSymbols ::
    "'f ProgramStepFn \<Rightarrow> 'f MarketState list \<Rightarrow> nat \<Rightarrow>
       'f MultiSymbolSignalContext \<times> 'f list \<Rightarrow> ('f MultiSymbolSignalContext \<times> 'f list) result" where
  "EvaluateAllSymbols fn markets k st =
     (if NumSymbols (fst st) \<noteq> length markets
      then Inl (RuntimeError ''EvaluateAllSymbols: arena size mismatch'')
      else iterate (eval_symbol fn markets k 0) [0..<length markets] st)"

definition EvaluateAllSymbolsSequential ::
    "'f ProgramStepFn \<Rightarrow> 'f MarketState list \<Rightarrow> nat \<Rightarrow>
       'f MultiSymbolSignalContext \<times> 'f list \<Rightarrow> ('f MultiSymbolSignalContext \<times> 'f list) result" where
  "EvaluateAllSymbolsSequential = EvaluateAllSymbols"

section \<open>Shards\<close>

record SymbolShard =
  shard_begin :: nat
  shard_end :: nat

definition ShardSize :: "SymbolShard \<Rightarrow> nat" where
  "ShardSize s = shard_end s - shard_begin s"

definition ComputeSymbolShard :: "nat \<Rightarrow> nat \<Rightarrow> nat \<Rightarrow> SymbolShard result" where
  "ComputeSymbolShard n_symbols n_threads thread_index =
     (if n_threads = 0 then Inl (RuntimeError ''ComputeSymbolShard: n_threads must be >= 1'')
      else if n_threads \<le> thread_index
        then Inl (RuntimeError ''ComputeSymbolShard: thread_index out of range'')
      else
        let base = n_symbols div n_threads;
            rem = n_symbols mod n_threads;
            first = thread_index * base + (if thread_index < rem then thread_index else rem);
            extra = (if thread_index < rem then 1 else 0)
        in Inr \<lparr>shard_begin = first, shard_end = first + base + extra\<rparr>)"

definition EvaluateSymbolShard ::
    "'f ProgramStepFn \<Rightarrow> 'f MarketState list \<Rightarrow> nat \<Rightarrow> SymbolShard \<Rightarrow>
       'f MultiSymbolSignalContext \<times> 'f list \<Rightarrow> ('f MultiSymbolSignalContext \<times> 'f list) result" where
  "EvaluateSymbolShard fn markets k shard st =
     (if NumSymbols (fst st) \<noteq> ShardSize shard
      then Inl (RuntimeError ''EvaluateSymbolShard: thread arena size mismatch'')
      else iterate (eval_symbol fn markets k (shard_begin shard)) [shard_begin shard..<shard_end shard] st)"

text \<open>The hash of an output buffer; \<open>bytes\<close> is the object representation of a double.\<close>

definition hash_byte :: "8 word \<Rightarrow> 64 word \<Rightarrow> 64 word" where
  "hash_byte b h = (xor h (ucast b)) * 1099511628211"

definition HashOutputBuffer :: "('f \<Rightarrow> 8 word list) \<Rightarrow> 'f list \<Rightarrow> 64 word" where
  "HashOutputBuffer bytes data = fold hash_byte (concat (map bytes data)) 14695981039346656037"

section \<open>Shards partition the symbols\<close>

definition shard_start :: "nat \<Rightarrow> nat \<Rightarrow> nat \<Rightarrow> nat" where
  "shard_start n threads t = t * (n div threads) + min t (n mod threads)"

lemma ComputeSymbolShard_start:
  "t < threads \<Longrightarrow> ComputeSymbolShard n threads t =
     Inr \<lparr>shard_begin = shard_start n threads t, shard_end = shard_start n threads (Suc t)\<rparr>"
  by (auto simp: ComputeSymbolShard_def shard_start_def Let_def min_def)

lemma shard_start_end: "shard_start n threads threads = n" if "0 < threads"
proof -
  have "min threads (n mod threads) = n mod threads"
    using mod_less_divisor [OF that, of n] by (intro min_absorb2) linarith
  then show ?thesis by (simp add: shard_start_def)
qed

lemma shard_start_mono: "t \<le> t' \<Longrightarrow> shard_start n threads t \<le> shard_start n threads t'"
  unfolding shard_start_def by (intro add_mono mult_le_mono1) auto

lemma shard_concat: "concat (map (\<lambda>t. [shard_start n m t..<shard_start n m (Suc t)]) [0..<i]) = [0..<shard_start n m i]"
proof (induction i)
  case (Suc i)
  have "shard_start n m i \<le> shard_start n m (Suc i)" by (rule shard_start_mono) simp
  then have "[0..<shard_start n m i] @ [shard_start n m i..<shard_start n m (Suc i)] = [0..<shard_start n m (Suc i)]"
    by (metis le0 upt_add_eq_append le_add_diff_inverse)
  with Suc show ?case by simp
qed (simp add: shard_start_def)

section \<open>One symbol\<close>

text \<open>What the loops rely on about the compiled step: it reads and changes the context of its
  symbol only, as some step \<open>g\<close> of one context does, and stores \<open>k\<close> values.\<close>

definition steps_locally ::
    "('f MarketState \<Rightarrow> ('f SignalContext, 'f list) prog) \<Rightarrow> nat \<Rightarrow> 'f ProgramStepFn \<Rightarrow> bool" where
  "steps_locally g k fn \<longleftrightarrow>
     (\<forall>m s a. unat s < length (arena a) \<longrightarrow>
        (case g m (arena a ! unat s) of (r, c) \<Rightarrow>
           fn m s a = (r, a\<lparr>arena := (arena a)[unat s := c]\<rparr>) \<and> (\<forall>vs. r = Inr vs \<longrightarrow> length vs = k)))"

lemma steps_locallyD:
  assumes "steps_locally g k fn" and "unat s < length (arena a)" and "g m (arena a ! unat s) = (r, c)"
  shows "fn m s a = (r, a\<lparr>arena := (arena a)[unat s := c]\<rparr>)" and "r = Inr vs \<Longrightarrow> length vs = k"
proof -
  from assms(1,2) have "case g m (arena a ! unat s) of (r, c) \<Rightarrow>
      fn m s a = (r, a\<lparr>arena := (arena a)[unat s := c]\<rparr>) \<and> (\<forall>vs. r = Inr vs \<longrightarrow> length vs = k)"
    unfolding steps_locally_def by iprover
  with assms(3) show "fn m s a = (r, a\<lparr>arena := (arena a)[unat s := c]\<rparr>)" "r = Inr vs \<Longrightarrow> length vs = k"
    by simp_all
qed

lemma nth_store_at:
  assumes "store_at (s * k) vs out = Inr out'" and "length vs = k" and "0 < k" and "p < length out"
  shows "length out' = length out"
    and "out' ! p = (if p div k = s then vs ! (p mod k) else out ! p)"
proof -
  from assms(1,2) have out': "out' = take (s * k) out @ vs @ drop (s * k + k) out"
    and le: "s * k + k \<le> length out" by (auto simp: store_at_def split: if_splits)
  with assms(2) show "length out' = length out" by simp
  consider "p < s * k" | "s * k \<le> p" "p < s * k + k" | "s * k + k \<le> p" by linarith
  then show "out' ! p = (if p div k = s then vs ! (p mod k) else out ! p)"
  proof cases
    case 1
    then have "p div k < s" using assms(3) by (simp add: less_mult_imp_div_less)
    with 1 le show ?thesis by (simp add: out' nth_append)
  next
    case 2
    then have "p div k = s" using div_nat_eqI [of k s p] by (simp add: mult.commute)
    moreover from this have "p mod k = p - s * k" by (metis minus_div_mult_eq_mod)
    moreover have "p - s * k < k" using 2 assms(3) by linarith
    ultimately show ?thesis using 2 le assms(2) by (simp add: out' nth_append)
  next
    case 3
    then have "Suc s \<le> p div k" using assms(3) by (simp add: less_eq_div_iff_mult_less_eq)
    moreover have "\<not> p < s * k" "\<not> p - s * k < k" "s * k + k + (p - s * k - k) = p" using 3 by linarith+
    ultimately show ?thesis using le assms(2,4) by (simp add: out' nth_append)
  qed
qed

lemma unat_symbol: "i < 2 ^ 32 \<Longrightarrow> unat (word_of_nat i :: 32 word) = i"
  by (simp add: unsigned_of_nat take_bit_nat_eq_self)

lemma eval_symbol_ok:
  assumes "steps_locally g k fn" and "s < length markets" and "first \<le> s"
    and "s - first < length (arena a)" and "length (arena a) \<le> 2 ^ 32"
    and "s * k + k \<le> length out"
    and "g (markets ! s) (arena a ! (s - first)) = (Inr v, c)"
  shows "length v = k \<and> (\<exists>out'. store_at (s * k) v out = Inr out' \<and>
    eval_symbol fn markets k first s (a, out) = Inr (a\<lparr>arena := (arena a)[s - first := c]\<rparr>, out'))"
proof -
  have "unat (word_of_nat (s - first) :: 32 word) = s - first"
    by (rule unat_symbol) (use assms(4,5) in linarith)
  with steps_locallyD [OF assms(1), of "word_of_nat (s - first)" a "markets ! s"] assms(4,7)
  have "length v = k"
      "fn (markets ! s) (word_of_nat (s - first)) a = (Inr v, a\<lparr>arena := (arena a)[s - first := c]\<rparr>)"
    by auto
  with assms(2,6) show ?thesis by (simp add: eval_symbol_def store_at_def)
qed

lemma eval_symbol_Inr:
  assumes "steps_locally g k fn" and "s - first < length (arena a)" and "length (arena a) \<le> 2 ^ 32"
    and "eval_symbol fn markets k first s (a, out) = Inr st"
  shows "\<exists>v c. g (markets ! s) (arena a ! (s - first)) = (Inr v, c)"
proof -
  have u: "unat (word_of_nat (s - first) :: 32 word) = s - first"
    by (rule unat_symbol) (use assms(2,3) in linarith)
  obtain r c where g: "g (markets ! s) (arena a ! (s - first)) = (r, c)" by (metis surj_pair)
  with u assms(2) have "fn (markets ! s) (word_of_nat (s - first)) a = (r, a\<lparr>arena := (arena a)[s - first := c]\<rparr>)"
    using steps_locallyD(1) [OF assms(1), of "word_of_nat (s - first)" a "markets ! s" r c] by simp
  with g assms(4) show ?thesis by (cases r) (auto simp: eval_symbol_def split: if_splits)
qed

section \<open>Any schedule of the threads\<close>

text \<open>The state after the symbols in \<open>D\<close> have been evaluated: \<open>first\<close> is the global index of
  the first context of the arena \<open>a\<close>.\<close>

definition contexts_at ::
    "(nat \<Rightarrow> 'f SignalContext) \<Rightarrow> (nat \<Rightarrow> 'f SignalContext) \<Rightarrow> nat set \<Rightarrow> nat \<Rightarrow> nat \<Rightarrow>
       'f MultiSymbolSignalContext \<Rightarrow> bool" where
  "contexts_at C C' D first width a \<longleftrightarrow>
     arena a = map (\<lambda>i. if i \<in> D then C' i else C i) [first..<first + width]"

definition outputs_at :: "(nat \<Rightarrow> 'f list) \<Rightarrow> nat \<Rightarrow> nat set \<Rightarrow> 'f list \<Rightarrow> 'f list \<Rightarrow> bool" where
  "outputs_at V k D out0 out \<longleftrightarrow>
     length out = length out0 \<and>
     (\<forall>p < length out0. out ! p = (if p div k \<in> D then V (p div k) ! (p mod k) else out0 ! p))"

lemma eval_symbol_step:
  assumes local: "steps_locally g k fn" and k: "0 < k"
    and a: "contexts_at C C' D first width a" and out: "outputs_at V k D out0 out"
    and s: "first \<le> s" "s < first + width" "s \<notin> D" "s < length markets" "width \<le> 2 ^ 32" "s * k + k \<le> length out0"
    and g: "g (markets ! s) (C s) = (Inr (V s), C' s)"
  shows "\<exists>a' out'. eval_symbol fn markets k first s (a, out) = Inr (a', out') \<and>
    contexts_at C C' (insert s D) first width a' \<and> outputs_at V k (insert s D) out0 out'"
proof -
  have len: "length (arena a) = width" and nth: "arena a ! (s - first) = C s"
    using a s(1-3) by (simp_all add: contexts_at_def)
  from out have lout: "length out = length out0" by (simp add: outputs_at_def)
  have "s - first < length (arena a)" using s(1,2) len by linarith
  with eval_symbol_ok [OF local s(4,1), of a out "V s" "C' s"] s(5,6) len lout g nth obtain out' where
    "length (V s) = k" and st: "store_at (s * k) (V s) out = Inr out'"
    and ev: "eval_symbol fn markets k first s (a, out) = Inr (a\<lparr>arena := (arena a)[s - first := C' s]\<rparr>, out')"
    by auto
  have "contexts_at C C' (insert s D) first width (a\<lparr>arena := (arena a)[s - first := C' s]\<rparr>)"
    using a s(1,2) unfolding contexts_at_def by (auto simp: nth_list_update intro!: nth_equalityI)
  moreover have "outputs_at V k (insert s D) out0 out'"
    using out nth_store_at [OF st \<open>length (V s) = k\<close> k] lout
    unfolding outputs_at_def by (cases "length out0 = 0") (use st in \<open>auto simp: store_at_def split: if_splits\<close>)
  ultimately show ?thesis using ev by blast
qed

lemma sequential_contexts:
  assumes local: "steps_locally g k fn" and "0 < k"
    and "contexts_at C C' {..<i} 0 n a" "outputs_at V k {..<i} out0 out"
    and "n = length markets" "n \<le> 2 ^ 32" "n * k \<le> length out0"
    and "\<forall>s < n. \<forall>v c. g (markets ! s) (C s) = (Inr v, c) \<longrightarrow> V s = v \<and> C' s = c"
    and "i \<le> n" "iterate (eval_symbol fn markets k 0) [i..<n] (a, out) = Inr (a', out')"
  shows "contexts_at C C' {..<n} 0 n a' \<and> outputs_at V k {..<n} out0 out' \<and>
    (\<forall>s. i \<le> s \<and> s < n \<longrightarrow> g (markets ! s) (C s) = (Inr (V s), C' s))"
  using assms(3-)
proof (induction "n - i" arbitrary: i a out)
  case 0
  then show ?case by auto
next
  case (Suc d)
  then have i: "i < n" by linarith
  then have up: "[i..<n] = i # [Suc i..<n]" by (simp add: upt_conv_Cons)
  with Suc.prems(8) obtain st where st: "eval_symbol fn markets k 0 i (a, out) = Inr st"
    and rest: "iterate (eval_symbol fn markets k 0) [Suc i..<n] st = Inr (a', out')"
    by (auto simp: rbind_eq_Inr_iff)
  have len: "length (arena a) = n" and nth: "arena a ! i = C i"
    using Suc.prems(1) i by (simp_all add: contexts_at_def)
  from eval_symbol_Inr [OF local _ _ st] len i Suc.prems(4) nth
  obtain v c where "g (markets ! i) (C i) = (Inr v, c)" by auto
  with Suc.prems(6) i have g: "g (markets ! i) (C i) = (Inr (V i), C' i)" by auto
  have "i * k + k \<le> length out0" using Suc.prems(5) i
    by (metis Suc_leI add.commute mult_Suc mult_le_mono1 order_trans)
  from eval_symbol_step [OF local assms(2) Suc.prems(1,2) _ _ _ _ Suc.prems(4) this g] i Suc.prems(3) st
  have "contexts_at C C' (insert i {..<i}) 0 n (fst st)" "outputs_at V k (insert i {..<i}) out0 (snd st)"
    by auto
  then have "contexts_at C C' {..<Suc i} 0 n (fst st)" "outputs_at V k {..<Suc i} out0 (snd st)"
    by (simp_all add: lessThan_Suc)
  from Suc.hyps(1) [OF _ this Suc.prems(3-6)] rest Suc.hyps(2) i
  have "contexts_at C C' {..<n} 0 n a'" "outputs_at V k {..<n} out0 out'"
      "\<forall>s. Suc i \<le> s \<and> s < n \<longrightarrow> g (markets ! s) (C s) = (Inr (V s), C' s)" by auto
  with g show ?case by (metis Suc_leI le_neq_implies_less)
qed

text \<open>Threads that each have an arena for their shard and share the output buffer. A step is one
  symbol of one thread; \<open>as\<close> are the arenas.\<close>

definition thread_step ::
    "'f ProgramStepFn \<Rightarrow> 'f MarketState list \<Rightarrow> nat \<Rightarrow> nat \<Rightarrow> nat \<times> nat \<Rightarrow>
       (nat \<Rightarrow> 'f MultiSymbolSignalContext) \<times> 'f list \<Rightarrow>
       ((nat \<Rightarrow> 'f MultiSymbolSignalContext) \<times> 'f list) result" where
  "thread_step fn markets k threads step st =
     (let (t, s) = step; (as, out) = st
      in rbind (ComputeSymbolShard (length markets) threads t) (\<lambda>shard.
         rbind (eval_symbol fn markets k (shard_begin shard) s (as t, out)) (\<lambda>(a, out').
           Inr (as(t := a), out'))))"

definition in_shard :: "nat \<Rightarrow> nat \<Rightarrow> nat \<times> nat \<Rightarrow> bool" where
  "in_shard n threads step \<longleftrightarrow>
     (case step of (t, s) \<Rightarrow> t < threads \<and> shard_start n threads t \<le> s \<and> s < shard_start n threads (Suc t))"

text \<open>A schedule runs every symbol once, on the thread of its shard; in particular every
  interleaving of the loops of \<open>EvaluateSymbolShard\<close> is one.\<close>

definition schedule :: "nat \<Rightarrow> nat \<Rightarrow> (nat \<times> nat) list \<Rightarrow> bool" where
  "schedule n threads sched \<longleftrightarrow>
     list_all (in_shard n threads) sched \<and> distinct (map snd sched) \<and> set (map snd sched) = {..<n}"

lemma shards_disjoint:
  assumes "in_shard n threads (t, s)" and "in_shard n threads (t', s)"
  shows "t = t'"
proof (rule ccontr)
  assume "t \<noteq> t'"
  then consider "Suc t \<le> t'" | "Suc t' \<le> t" by linarith
  then show False
  proof cases
    case 1
    with shard_start_mono [OF this, of n threads] assms show False by (auto simp: in_shard_def)
  next
    case 2
    with shard_start_mono [OF this, of n threads] assms show False by (auto simp: in_shard_def)
  qed
qed

definition slices_at ::
    "(nat \<Rightarrow> 'f SignalContext) \<Rightarrow> (nat \<Rightarrow> 'f SignalContext) \<Rightarrow> nat set \<Rightarrow> nat \<Rightarrow> nat \<Rightarrow>
       (nat \<Rightarrow> 'f MultiSymbolSignalContext) \<Rightarrow> bool" where
  "slices_at C C' D n threads as \<longleftrightarrow>
     (\<forall>t < threads. contexts_at C C' D (shard_start n threads t)
        (shard_start n threads (Suc t) - shard_start n threads t) (as t))"

lemma slices_at_step:
  assumes "slices_at C C' D n threads as" and "in_shard n threads (t, s)"
    and "contexts_at C C' (insert s D) (shard_start n threads t)
      (shard_start n threads (Suc t) - shard_start n threads t) a"
  shows "slices_at C C' (insert s D) n threads (as(t := a))"
  unfolding slices_at_def
proof (intro allI impI)
  fix t' assume t': "t' < threads"
  show "contexts_at C C' (insert s D) (shard_start n threads t')
      (shard_start n threads (Suc t') - shard_start n threads t') ((as(t := a)) t')"
  proof (cases "t' = t")
    case False
    have "i \<noteq> s" if "i \<in> set [shard_start n threads t'..<shard_start n threads t' +
        (shard_start n threads (Suc t') - shard_start n threads t')]" for i
      using shards_disjoint [OF assms(2), of t'] False t' that
        shard_start_mono [of t' "Suc t'" n threads] by (auto simp: in_shard_def)
    with assms(1) t' False show ?thesis by (auto simp: slices_at_def contexts_at_def)
  qed (use assms(3) in simp)
qed

lemma thread_schedule:
  assumes local: "steps_locally g k fn" and k: "0 < k" and n: "n = length markets" "n \<le> 2 ^ 32" "n * k \<le> length out0"
    and g: "\<forall>s < n. g (markets ! s) (C s) = (Inr (V s), C' s)"
    and "slices_at C C' D n threads as" "outputs_at V k D out0 out"
    and "list_all (in_shard n threads) sched" "distinct (map snd sched)"
    and "set (map snd sched) \<inter> D = {}" "set (map snd sched) \<subseteq> {..<n}"
  shows "\<exists>as' out'. iterate (thread_step fn markets k threads) sched (as, out) = Inr (as', out') \<and>
    slices_at C C' (D \<union> set (map snd sched)) n threads as' \<and>
    outputs_at V k (D \<union> set (map snd sched)) out0 out'"
  using assms(7-)
proof (induction sched arbitrary: D as out)
  case Nil
  then show ?case by simp
next
  case (Cons step sched)
  obtain t s where step: "step = (t, s)" by (cases step)
  let ?first = "shard_start n threads t" and ?width = "shard_start n threads (Suc t) - shard_start n threads t"
  from Cons.prems step have t: "in_shard n threads (t, s)" "s < n" "s \<notin> D" by auto
  then have range: "t < threads" "?first \<le> s" "s < ?first + ?width" by (auto simp: in_shard_def)
  have "?width \<le> n" using shard_start_mono [of "Suc t" threads n threads] shard_start_end [of threads n] range(1)
    by auto
  with n(2) have w: "?width \<le> 2 ^ 32" by linarith
  have "s * k + k \<le> length out0" using n(3) t(2)
    by (metis Suc_leI add.commute mult_Suc mult_le_mono1 order_trans)
  from eval_symbol_step [OF local k _ Cons.prems(2) range(2,3) t(3) _ w this] Cons.prems(1) g t(2) n(1) range(1)
  obtain a' out' where ev: "eval_symbol fn markets k ?first s (as t, out) = Inr (a', out')"
    and a': "contexts_at C C' (insert s D) ?first ?width a'" and out': "outputs_at V k (insert s D) out0 out'"
    unfolding slices_at_def by blast
  have one: "thread_step fn markets k threads step (as, out) = Inr (as(t := a'), out')"
    using ev range(1) by (simp add: thread_step_def step ComputeSymbolShard_start flip: n(1))
  have "set (map snd sched) \<inter> insert s D = {}" using Cons.prems(4,5) step by auto
  from Cons.IH [OF slices_at_step [OF Cons.prems(1) t(1) a'] out' _ _ this] Cons.prems(3,4,6)
  obtain as'' out'' where "iterate (thread_step fn markets k threads) sched (as(t := a'), out') = Inr (as'', out'')"
    "slices_at C C' (insert s D \<union> set (map snd sched)) n threads as''"
    "outputs_at V k (insert s D \<union> set (map snd sched)) out0 out''"
    by (auto simp del: fun_upd_apply)
  then show ?case unfolding step using one [unfolded step]
    by (intro exI [of _ as''] exI [of _ out'']) (simp del: fun_upd_apply)
qed

section \<open>The hash\<close>

lemma mult_prime_inj: "(h :: 64 word) * 1099511628211 = h' * 1099511628211 \<longleftrightarrow> h = h'"
proof
  assume "h * 1099511628211 = h' * 1099511628211"
  then have "h * (1099511628211 * 14886173955864302971) = h' * (1099511628211 * 14886173955864302971)"
    unfolding mult.assoc [symmetric] by (rule arg_cong)
  moreover have "(1099511628211 * 14886173955864302971 :: 64 word) = 1" by code_simp
  ultimately show "h = h'" by (simp only: mult_1_right)
qed simp

lemma xor_right_inj: "xor h d = xor h' d \<longleftrightarrow> h = (h' :: 'a::semiring_bit_operations)"
proof
  assume "xor h d = xor h' d"
  then have "xor (xor h d) d = xor (xor h' d) d" by (rule arg_cong)
  then show "h = h'" by (simp add: xor.assoc)
qed simp

lemma hash_byte_inj:
  "hash_byte b h = hash_byte b h' \<longleftrightarrow> h = h'"
  "hash_byte b h = hash_byte c h \<longleftrightarrow> b = c"
proof -
  show "hash_byte b h = hash_byte b h' \<longleftrightarrow> h = h'"
    by (simp only: hash_byte_def mult_prime_inj xor_right_inj)
  have "xor h (ucast b) = xor h (ucast c) \<longleftrightarrow> (ucast b :: 64 word) = ucast c"
    using xor_right_inj [of "ucast b" h "ucast c"] by (simp add: xor.commute)
  also have "\<dots> \<longleftrightarrow> b = c"
  proof
    assume "(ucast b :: 64 word) = ucast c"
    moreover have "uint (ucast x :: 64 word) = uint x" for x :: "8 word"
      using uint_lt2p [of x] by (simp add: unsigned_ucast_eq take_bit_int_eq_self)
    ultimately show "b = c" by (metis word_uint_eq_iff)
  qed simp
  finally show "hash_byte b h = hash_byte c h \<longleftrightarrow> b = c"
    by (simp only: hash_byte_def mult_prime_inj)
qed

lemma fold_hash_inj: "fold hash_byte vs h = fold hash_byte vs h' \<longleftrightarrow> h = h'"
  by (induction vs arbitrary: h h') (simp_all add: hash_byte_inj(1))

section \<open>Properties\<close>




text \<open>A step that reaches the context of its symbol through \<open>jit_rt_symbol_ctx\<close>, as compiled
  code does, and a small one that counts its calls in place of a program.\<close>

definition through_symbol_ctx ::
    "('f MarketState \<Rightarrow> ('f SignalContext, 'f list) prog) \<Rightarrow> 'f ProgramStepFn" where
  "through_symbol_ctx g m s a =
     (case jit_rt_symbol_ctx a s of
        Inl e \<Rightarrow> (Inl e, a)
      | Inr c \<Rightarrow> let (r, c') = g m c in (r, a\<lparr>arena := (arena a)[unat s := c']\<rparr>))"

lemma through_symbol_ctx_local:
  assumes "\<And>m c vs c'. g m c = (Inr vs, c') \<Longrightarrow> length vs = k"
  shows "steps_locally g k (through_symbol_ctx g)"
  using assms by (auto simp: steps_locally_def through_symbol_ctx_def jit_rt_symbol_ctx_def PerSymbol_def
      split: prod.splits)

definition count_ticks :: "real option MarketState \<Rightarrow> (real option SignalContext, real option list) prog" where
  "count_ticks m c = (Inr [Some (real (num_params c))], c\<lparr>num_params := Suc (num_params c)\<rparr>)"


text \<open>Two output buffers of equal length whose bytes differ in exactly one place hash
  differently: a step of the hash is injective in the state and in the byte.\<close>

theorem HashOutputBuffer_one_byte:
  assumes "concat (map bytes xs) = us @ b # vs" and "concat (map bytes ys) = us @ c # vs" and "b \<noteq> c"
  shows "HashOutputBuffer bytes xs \<noteq> HashOutputBuffer bytes ys"
proof -
  have "HashOutputBuffer bytes xs = fold hash_byte vs (hash_byte b (fold hash_byte us 14695981039346656037))"
      "HashOutputBuffer bytes ys = fold hash_byte vs (hash_byte c (fold hash_byte us 14695981039346656037))"
    using assms(1,2) by (simp_all add: HashOutputBuffer_def)
  with fold_hash_inj hash_byte_inj(2) assms(3) show ?thesis by metis
qed

theorem HashOutputBuffer_one_byte_witness:
  "HashOutputBuffer (\<lambda>x. [word_of_nat x]) [1, 2, 3] \<noteq> HashOutputBuffer (\<lambda>x. [word_of_nat x]) [1, 7, 3]"
  by (rule HashOutputBuffer_one_byte [where us = "[1]" and b = 2 and c = 7 and vs = "[3]"]) simp_all

end
