(* ===== verification/Autodiff.thy ===== *)
theory Autodiff
  imports Interpreter_Facts
begin

text \<open>
  Symbolic differentiation of stateless signals (the first half of
  \<^verbatim>\<open>src/autodiff.cpp\<close>): the check that a signal is stateless, the derivative of a tree
  with respect to one parameter, and the list of gradient signals, one per parameter. In exact
  arithmetic, what the interpreter computes for the derivative tree is the derivative of what it
  computes for the tree, at every value of the parameter at which no condition or comparison
  changes and no function is at a singular point.
\<close>

section \<open>The derivative of a tree\<close>

definition IsStatelessBuiltin :: "string \<Rightarrow> bool" where
  "IsStatelessBuiltin name \<longleftrightarrow> name = ''mid'' \<or> name = ''bid'' \<or> name = ''ask'' \<or> name = ''spread'' \<or>
     name = ''abs'' \<or> name = ''log'' \<or> name = ''sqrt''"

fun RequirePhase1Supported :: "'f expr \<Rightarrow> unit result"
  and RequireAllPhase1Supported :: "'f expr list \<Rightarrow> unit result" where
  "RequirePhase1Supported (NumberLiteral l v) = Inr ()"
| "RequirePhase1Supported (IdentifierExpr l n) = Inr ()"
| "RequirePhase1Supported (ParameterExpr l n i) = Inr ()"
| "RequirePhase1Supported (UnaryOp l k e) = RequirePhase1Supported e"
| "RequirePhase1Supported (BinaryOp l k a b) =
     rbind (RequirePhase1Supported a) (\<lambda>_. RequirePhase1Supported b)"
| "RequirePhase1Supported (Conditional l c t e) =
     rbind (RequirePhase1Supported c) (\<lambda>_. rbind (RequirePhase1Supported t) (\<lambda>_. RequirePhase1Supported e))"
| "RequirePhase1Supported (FunctionCall l n as i s) =
     (if \<not> IsStatelessBuiltin n
      then Inl (RuntimeError (''Phase 1 autodiff does not support stateful or unknown function: '' @ n))
      else RequireAllPhase1Supported as)"
| "RequireAllPhase1Supported [] = Inr ()"
| "RequireAllPhase1Supported (a # as) =
     rbind (RequirePhase1Supported a) (\<lambda>_. RequireAllPhase1Supported as)"

definition Num :: "'f machine \<Rightarrow> rat \<Rightarrow> SourceLoc \<Rightarrow> 'f expr" where
  "Num M v l = NumberLiteral l (dlit M v)"

text \<open>The arithmetic operators on the operands and their derivatives; the other operators are
  piecewise constant.\<close>

fun diff_binary ::
    "'f machine \<Rightarrow> SourceLoc \<Rightarrow> BinaryOpKind \<Rightarrow> 'f expr \<Rightarrow> 'f expr \<Rightarrow> 'f expr \<Rightarrow> 'f expr \<Rightarrow> 'f expr" where
  "diff_binary M l Add a b da db = BinaryOp l Add da db"
| "diff_binary M l Sub a b da db = BinaryOp l Sub da db"
| "diff_binary M l Mul a b da db =
     BinaryOp l Add (BinaryOp l Mul da (CloneExpr b)) (BinaryOp l Mul (CloneExpr a) db)"
| "diff_binary M l Div a b da db =
     BinaryOp l Div
       (BinaryOp l Sub (BinaryOp l Mul da (CloneExpr b)) (BinaryOp l Mul (CloneExpr a) db))
       (BinaryOp l Mul (CloneExpr b) (CloneExpr b))"
| "diff_binary M l k a b da db = Num M 0 l"

definition diff_abs :: "'f machine \<Rightarrow> SourceLoc \<Rightarrow> 'f expr \<Rightarrow> 'f expr \<Rightarrow> 'f expr" where
  "diff_abs M l x dx =
     Conditional l (BinaryOp l Gt (CloneExpr x) (Num M 0 l)) (CloneExpr dx)
       (Conditional l (BinaryOp l Lt (CloneExpr x) (Num M 0 l)) (UnaryOp l Minus dx) (Num M 0 l))"

definition diff_sqrt :: "'f machine \<Rightarrow> SourceLoc \<Rightarrow> 'f expr \<Rightarrow> 'f expr \<Rightarrow> 'f expr" where
  "diff_sqrt M l x dx =
     BinaryOp l Div dx (BinaryOp l Mul (Num M 2 l) (FunctionCall l ''sqrt'' [CloneExpr x] (-1) (-1)))"

text \<open>A call without an argument is read out of bounds by the source.\<close>

fun Differentiate :: "'f machine \<Rightarrow> int \<Rightarrow> 'f expr \<Rightarrow> 'f expr result" where
  "Differentiate M pid (NumberLiteral l v) = Inr (Num M 0 l)"
| "Differentiate M pid (IdentifierExpr l n) = Inr (Num M 0 l)"
| "Differentiate M pid (ParameterExpr l n i) = Inr (Num M (if i = pid then 1 else 0) l)"
| "Differentiate M pid (UnaryOp l k e) =
     rbind (Differentiate M pid e) (\<lambda>d. Inr (if k = Plus then d else UnaryOp l Minus d))"
| "Differentiate M pid (BinaryOp l k a b) =
     rbind (Differentiate M pid a) (\<lambda>da. rbind (Differentiate M pid b) (\<lambda>db.
       Inr (diff_binary M l k a b da db)))"
| "Differentiate M pid (Conditional l c t e) =
     rbind (Differentiate M pid t) (\<lambda>dt. rbind (Differentiate M pid e) (\<lambda>de.
       Inr (Conditional l (CloneExpr c) dt de)))"
| "Differentiate M pid (FunctionCall l n as i s) =
     (if n = ''mid'' \<or> n = ''bid'' \<or> n = ''ask'' \<or> n = ''spread'' then Inr (Num M 0 l)
      else if n = ''abs'' \<or> n = ''log'' \<or> n = ''sqrt'' then
        (case as of
           [] \<Rightarrow> Inl (Undefined ''argument'')
         | a # _ \<Rightarrow> rbind (Differentiate M pid a) (\<lambda>d.
             Inr (if n = ''abs'' then diff_abs M l a d
                  else if n = ''log'' then BinaryOp l Div d (CloneExpr a)
                  else diff_sqrt M l a d)))
      else Inl (RuntimeError (''Phase 1 autodiff does not support function: '' @ n)))"

definition gradient_signal :: "'f machine \<Rightarrow> 'f SignalDef \<Rightarrow> 'f ParamDef \<Rightarrow> 'f SignalDef result" where
  "gradient_signal M signal param =
     rbind (Differentiate M (param_id param) (body signal)) (\<lambda>d.
       Inr (FoldConstantsInPlace M
         \<lparr>sig_name = sig_name signal @ ''__grad__'' @ param_name param, body = d\<rparr>))"

fun gradient_signals :: "'f machine \<Rightarrow> 'f SignalDef \<Rightarrow> 'f ParamDef list \<Rightarrow> 'f SignalDef list result" where
  "gradient_signals M signal [] = Inr []"
| "gradient_signals M signal (p # ps) =
     rbind (gradient_signal M signal p) (\<lambda>g. rbind (gradient_signals M signal ps) (\<lambda>gs. Inr (g # gs)))"

definition BuildStatelessGradientSignals ::
    "'f machine \<Rightarrow> 'f SignalDef \<Rightarrow> 'f ParamDef list \<Rightarrow> 'f SignalDef list result" where
  "BuildStatelessGradientSignals M signal ps =
     rbind (RequirePhase1Supported (body signal)) (\<lambda>_. gradient_signals M signal ps)"

section \<open>What is accepted\<close>

definition stateless :: "'f expr \<Rightarrow> bool" where
  "stateless e \<longleftrightarrow> (\<forall>(n, as, i, s) \<in> set (calls e). IsStatelessBuiltin n)"

lemma stateless_simps [simp]:
  "stateless (NumberLiteral l v)" "stateless (IdentifierExpr l n)" "stateless (ParameterExpr l n i)"
  "stateless (UnaryOp l k e) \<longleftrightarrow> stateless e"
  "stateless (BinaryOp l bk a b) \<longleftrightarrow> stateless a \<and> stateless b"
  "stateless (Conditional l c t e) \<longleftrightarrow> stateless c \<and> stateless t \<and> stateless e"
  "stateless (FunctionCall l n as i s) \<longleftrightarrow> IsStatelessBuiltin n \<and> (\<forall>a \<in> set as. stateless a)"
  by (auto simp: stateless_def)

lemma RequirePhase1Supported_cases:
  fixes e :: "'f expr" and es :: "'f expr list"
  shows "(case RequirePhase1Supported e of Inr _ \<Rightarrow> stateless e
      | Inl err \<Rightarrow> \<not> stateless e \<and> (\<exists>m. err = RuntimeError m))"
    and "(case RequireAllPhase1Supported es of Inr _ \<Rightarrow> \<forall>e \<in> set es. stateless e
      | Inl err \<Rightarrow> \<not> (\<forall>e \<in> set es. stateless e) \<and> (\<exists>m. err = RuntimeError m))"
  by (induction e and es rule: RequirePhase1Supported_RequireAllPhase1Supported.induct)
    (auto split: sum.splits)

section \<open>The value of a stateless tree\<close>

text \<open>A stateless tree reads the context and changes nothing, so its value is a function of the
  context.\<close>

definition value_in :: "'f machine \<Rightarrow> SymbolTable \<Rightarrow> 'f MarketState \<Rightarrow> 'f SignalContext \<Rightarrow> 'f expr \<Rightarrow> 'f result" where
  "value_in M symbols m ctx e = fst (Visit M symbols m e (ctx, Map.empty))"

definition reads_only :: "('s, 'a) prog \<Rightarrow> bool" where
  "reads_only p \<longleftrightarrow> (\<forall>s. snd (p s) = s)"

lemma reads_only_bindm: "reads_only p \<Longrightarrow> (\<And>x. reads_only (f x)) \<Longrightarrow> reads_only (bindm p f)"
  by (auto simp: reads_only_def bindm_def split: prod.splits sum.splits) (metis prod.collapse snd_conv)+

lemma reads_only_intros:
  "reads_only (ret x)" "reads_only (throw e)" "reads_only (lift_result r)" "reads_only (visit_param n i)"
  by (auto simp: reads_only_def ret_def throw_def visit_param_def split: option.splits)

lemma fst_bindm: "reads_only p \<Longrightarrow> fst (bindm p f s) = rbind (fst (p s)) (\<lambda>x. fst (f x s))"
  by (simp add: reads_only_def bindm_def split: prod.splits sum.splits) (metis snd_conv)

lemma visit_call_stateless:
  assumes "IsStatelessBuiltin n"
  shows "visit_call M symbols m ec n as i sy (ctx, Map.empty) = dispatch M symbols m ec n as i sy (ctx, Map.empty)"
  by (simp add: visit_call_def)

lemma reads_only_unary_fn: "(\<And>a. a \<in> set as \<Longrightarrow> reads_only (ec a)) \<Longrightarrow> reads_only (eval_unary_fn n f ec as)"
  by (auto simp: eval_unary_fn_def intro!: reads_only_bindm reads_only_intros)

lemma reads_only_call:
  assumes "IsStatelessBuiltin n" and "\<And>a. a \<in> set as \<Longrightarrow> reads_only (ec a)"
  shows "reads_only (visit_call M symbols m ec n as i sy)"
proof -
  note call = reads_only_intros(3) reads_only_unary_fn [of as ec, OF assms(2)]
  from assms(1) have "reads_only (dispatch M symbols m ec n as i sy)"
    unfolding IsStatelessBuiltin_def by (elim disjE) (simp_all add: dispatch_def call)
  then show ?thesis by (auto simp: reads_only_def visit_call_def split: option.splits)
qed

lemma Visit_reads_only: "stateless e \<Longrightarrow> reads_only (Visit M symbols m e)"
proof (induction e)
  case (FunctionCall l n as i s)
  then show ?case by (auto intro!: reads_only_call)
next
  case (Conditional l c t e)
  then show ?case by (auto intro!: reads_only_bindm)
qed (auto intro!: reads_only_bindm reads_only_intros)

lemma value_in_simps:
  "value_in M symbols m ctx (NumberLiteral l v) = Inr v"
  "stateless e \<Longrightarrow> value_in M symbols m ctx (UnaryOp l k e) =
     rbind (value_in M symbols m ctx e) (\<lambda>v. Inr (if k = Plus then v else fneg M v))"
  "stateless a \<Longrightarrow> stateless b \<Longrightarrow> value_in M symbols m ctx (BinaryOp l bk a b) =
     rbind (value_in M symbols m ctx a) (\<lambda>x. rbind (value_in M symbols m ctx b) (\<lambda>y. Inr (eval_binary M bk x y)))"
  "stateless c \<Longrightarrow> value_in M symbols m ctx (Conditional l c t e) =
     rbind (value_in M symbols m ctx c) (\<lambda>v.
       if \<not> feq M v (dlit M 0) then value_in M symbols m ctx t else value_in M symbols m ctx e)"
  unfolding value_in_def by (simp_all add: fst_bindm Visit_reads_only if_distrib [of fst] if_distribR)

lemma value_in_call:
  "value_in M symbols m ctx (FunctionCall l n as i s) =
     fst (dispatch M symbols m (Visit M symbols m) n as i s (ctx, Map.empty))"
  by (simp add: value_in_def visit_call_def)

lemma value_in_unary_fn:
  "stateless x \<Longrightarrow> fst (eval_unary_fn n f (Visit M symbols m) [x] (ctx, Map.empty)) =
     rbind (value_in M symbols m ctx x) (\<lambda>v. Inr (f v))"
  by (simp add: eval_unary_fn_def fst_bindm Visit_reads_only value_in_def)

lemma value_in_functions:
  assumes "stateless x"
  shows "value_in M symbols m ctx (FunctionCall l ''abs'' [x] i s) =
     rbind (value_in M symbols m ctx x) (\<lambda>v. Inr (fabs M v))"
  "value_in M symbols m ctx (FunctionCall l ''log'' [x] i s) =
     rbind (value_in M symbols m ctx x) (\<lambda>v. Inr (flog M v))"
  "value_in M symbols m ctx (FunctionCall l ''sqrt'' [x] i s) =
     rbind (value_in M symbols m ctx x) (\<lambda>v. Inr (dsqrt M v))"
  unfolding value_in_call dispatch_def using value_in_unary_fn [OF assms] by simp_all

lemma stateless_CloneExpr [simp]: "stateless (CloneExpr e) \<longleftrightarrow> stateless e"
  by (induction e) auto

lemma Differentiate_call:
  assumes "Differentiate M pid (FunctionCall l n as i s) = Inr d"
  shows "d = Num M 0 l \<or> (\<exists>a as' da. as = a # as' \<and> Differentiate M pid a = Inr da \<and>
    d \<in> {diff_abs M l a da, BinaryOp l Div da (CloneExpr a), diff_sqrt M l a da})"
proof (cases as)
  case (Cons a as')
  with assms show ?thesis by (cases "Differentiate M pid a") (simp_all split: if_split_asm)
qed (use assms in \<open>simp split: if_split_asm\<close>)

lemma stateless_diff_call:
  "stateless a \<Longrightarrow> stateless da \<Longrightarrow>
     d \<in> {diff_abs M l a da, BinaryOp l Div da (CloneExpr a), diff_sqrt M l a da} \<Longrightarrow> stateless d"
  by (auto simp: Num_def diff_abs_def diff_sqrt_def IsStatelessBuiltin_def)

lemma stateless_Differentiate:
  "Differentiate M pid e = Inr d \<Longrightarrow> stateless e \<Longrightarrow> stateless d"
proof (induction e arbitrary: d)
  case (BinaryOp l k a b)
  then show ?case by (cases k) (auto simp: rbind_eq_Inr_iff Num_def)
next
  case (FunctionCall l n as i s)
  from Differentiate_call [OF FunctionCall.prems(1)] show ?case
  proof (elim disjE exE conjE)
    fix a as' da
    assume a: "as = a # as'" "Differentiate M pid a = Inr da"
      and d: "d \<in> {diff_abs M l a da, BinaryOp l Div da (CloneExpr a), diff_sqrt M l a da}"
    from a FunctionCall have "stateless a" "stateless da" by auto
    then show ?thesis by (rule stateless_diff_call [OF _ _ d])
  qed (simp add: Num_def)
qed (auto simp: rbind_eq_Inr_iff Num_def split: if_splits)

text \<open>A tree as the parser builds it carries no annotations, and a clone of it is the tree.\<close>

definition fresh :: "'f expr \<Rightarrow> bool" where
  "fresh e \<longleftrightarrow> (\<forall>(n, as, i, s) \<in> set (calls e). i = -1 \<and> s = -1)"

lemma fresh_simps [simp]:
  "fresh (NumberLiteral l v)" "fresh (IdentifierExpr l n)" "fresh (ParameterExpr l n i)"
  "fresh (UnaryOp l k e) \<longleftrightarrow> fresh e"
  "fresh (BinaryOp l bk a b) \<longleftrightarrow> fresh a \<and> fresh b"
  "fresh (Conditional l c t e) \<longleftrightarrow> fresh c \<and> fresh t \<and> fresh e"
  "fresh (FunctionCall l n as i s) \<longleftrightarrow> i = -1 \<and> s = -1 \<and> (\<forall>a \<in> set as. fresh a)"
  by (simp_all add: fresh_def ball_Un)

lemma CloneExpr_fresh: "fresh e \<Longrightarrow> CloneExpr e = e"
  by (induction e) (auto simp: map_idI)

lemma fresh_Differentiate:
  "Differentiate M pid e = Inr d \<Longrightarrow> fresh e \<Longrightarrow> fresh d"
proof (induction e arbitrary: d)
  case (BinaryOp l k a b)
  then show ?case by (cases k) (auto simp: rbind_eq_Inr_iff Num_def CloneExpr_fresh)
next
  case (FunctionCall l n as i s)
  from Differentiate_call [OF FunctionCall.prems(1)] show ?case
  proof (elim disjE exE conjE)
    fix a as' da
    assume a: "as = a # as'" "Differentiate M pid a = Inr da"
      and d: "d \<in> {diff_abs M l a da, BinaryOp l Div da (CloneExpr a), diff_sqrt M l a da}"
    from a FunctionCall have "fresh a" "fresh da" by auto
    with d show ?thesis by (auto simp: Num_def diff_abs_def diff_sqrt_def CloneExpr_fresh)
  qed (simp add: Num_def)
qed (auto simp: rbind_eq_Inr_iff Num_def CloneExpr_fresh split: if_splits)

section \<open>Regular points\<close>

text \<open>\<open>V \<theta>\<close> gives the values of trees when the parameter is \<open>\<theta>\<close>. A tree is regular at
  \<open>t\<close> when its value is defined there, conditions, comparisons and logical operators are constant
  near \<open>t\<close>, and no quotient, root, logarithm or absolute value is at its singular point.\<close>

fun regular :: "(real \<Rightarrow> xreal expr \<Rightarrow> xreal result) \<Rightarrow> real \<Rightarrow> xreal expr \<Rightarrow> bool" where
  "regular V t (NumberLiteral l v) \<longleftrightarrow> v \<noteq> None"
| "regular V t (IdentifierExpr l n) \<longleftrightarrow> False"
| "regular V t (ParameterExpr l n i) \<longleftrightarrow> (\<exists>x. V t (ParameterExpr l n i) = Inr (Some x))"
| "regular V t (UnaryOp l k e) \<longleftrightarrow> regular V t e"
| "regular V t (BinaryOp l k a b) \<longleftrightarrow>
     (if is_arith k then regular V t a \<and> regular V t b \<and> (k = Div \<longrightarrow> V t b \<noteq> Inr (Some 0))
      else \<exists>x. \<forall>\<^sub>F \<theta> in nhds t. V \<theta> (BinaryOp l k a b) = Inr (Some x))"
| "regular V t (Conditional l c th el) \<longleftrightarrow>
     (\<exists>b. (\<forall>\<^sub>F \<theta> in nhds t. \<exists>x. V \<theta> c = Inr (Some x) \<and> (x \<noteq> 0 \<longleftrightarrow> b)) \<and>
        (b \<longrightarrow> regular V t th) \<and> (\<not> b \<longrightarrow> regular V t el))"
| "regular V t (FunctionCall l n as i s) \<longleftrightarrow>
     (if n = ''mid'' \<or> n = ''bid'' \<or> n = ''ask'' \<or> n = ''spread''
      then \<exists>x. V t (FunctionCall l n as i s) = Inr (Some x)
      else length as = 1 \<and> list_all (regular V t) as \<and>
        (\<exists>x. V t (as ! 0) = Inr (Some x) \<and> x \<noteq> 0 \<and> (n \<noteq> ''abs'' \<longrightarrow> 0 < x)))"

definition with_param :: "'f SignalContext \<Rightarrow> int \<Rightarrow> 'f \<Rightarrow> 'f SignalContext" where
  "with_param ctx pid x = ctx\<lparr>params := map_option (\<lambda>ps. ps[nat pid := x]) (params ctx)\<rparr>"

text \<open>The value near \<open>t\<close> is a function \<open>f\<close> of the parameter whose derivative at \<open>t\<close> is the
  value of the second tree.\<close>

definition derivative_tree ::
    "(real \<Rightarrow> xreal expr \<Rightarrow> xreal result) \<Rightarrow> real \<Rightarrow> xreal expr \<Rightarrow> xreal expr \<Rightarrow> bool" where
  "derivative_tree V t e d \<longleftrightarrow>
     (\<exists>f f'. (\<forall>\<^sub>F \<theta> in nhds t. V \<theta> e = Inr (Some (f \<theta>))) \<and> V t d = Inr (Some f') \<and>
        (f has_real_derivative f') (at t))"

lemma derivative_tree_cong:
  assumes "\<forall>\<^sub>F \<theta> in nhds t. V \<theta> e = V \<theta> e'" and "V t d = V t d'"
  shows "derivative_tree V t e d \<longleftrightarrow> derivative_tree V t e' d'"
proof -
  have "(\<forall>\<^sub>F \<theta> in nhds t. V \<theta> e = Inr (Some (f \<theta>))) \<longleftrightarrow> (\<forall>\<^sub>F \<theta> in nhds t. V \<theta> e' = Inr (Some (f \<theta>)))" for f
    using assms(1) by (intro eventually_subst) (auto elim: eventually_mono)
  then show ?thesis by (simp add: derivative_tree_def assms(2))
qed

lemma derivative_tree_const:
  "\<forall>\<^sub>F \<theta> in nhds t. V \<theta> e = Inr (Some x) \<Longrightarrow> V t d = Inr (Some 0) \<Longrightarrow> derivative_tree V t e d"
  unfolding derivative_tree_def by (intro exI [of _ "\<lambda>_. x"] exI [of _ 0]) simp

text \<open>A differentiable function stays in an open set near a point where it is in it.\<close>

lemma eventually_in_open:
  fixes g :: "real \<Rightarrow> real"
  assumes "(g has_real_derivative g') (at t)" and "open S" and "g t \<in> S"
  shows "\<forall>\<^sub>F \<theta> in nhds t. g \<theta> \<in> S"
proof -
  have "(g \<longlongrightarrow> g t) (at t)" using DERIV_isCont [OF assms(1)] by (simp add: isCont_def)
  from topological_tendstoD [OF this assms(2,3)] assms(3) show ?thesis
    by (simp add: eventually_nhds_conv_at)
qed

lemma derivative_tree_obtain:
  assumes "derivative_tree V t e d"
  obtains f f' where "\<forall>\<^sub>F \<theta> in nhds t. V \<theta> e = Inr (Some (f \<theta>))" and "V t e = Inr (Some (f t))"
    and "V t d = Inr (Some f')" and "(f has_real_derivative f') (at t)"
  using assms by (auto simp: derivative_tree_def dest: eventually_nhds_x_imp_x)

definition V_at ::
    "SymbolTable \<Rightarrow> xreal MarketState \<Rightarrow> xreal SignalContext \<Rightarrow> int \<Rightarrow> real \<Rightarrow> xreal expr \<Rightarrow> xreal result" where
  "V_at symbols m ctx pid \<theta> = value_in exact symbols m (with_param ctx pid (Some \<theta>))"

lemmas V_at_simps =
  value_in_simps [where M = exact and ctx = "with_param ctx pid (Some \<theta>)" for ctx pid \<theta>, folded V_at_def]
  value_in_functions [where M = exact and ctx = "with_param ctx pid (Some \<theta>)" for ctx pid \<theta>, folded V_at_def]

lemma derivative_tree_combine:
  assumes "\<forall>\<^sub>F \<theta> in nhds t. P \<theta>" and "\<And>\<theta>. P \<theta> \<Longrightarrow> V \<theta> e = Inr (Some (h \<theta>))"
    and "V t d = Inr (Some h')" and "(h has_real_derivative h') (at t)"
  shows "derivative_tree V t e d"
proof -
  have "\<forall>\<^sub>F \<theta> in nhds t. V \<theta> e = Inr (Some (h \<theta>))"
    using assms(1) by (rule eventually_mono) (rule assms(2))
  with assms(3,4) show ?thesis unfolding derivative_tree_def by blast
qed

lemma derivative_tree_binary:
  fixes symbols m ctx pid
  defines "V \<equiv> V_at symbols m ctx pid"
  assumes tree: "derivative_tree V t a da" "derivative_tree V t b db"
    and pure: "stateless a" "stateless b" "stateless da" "stateless db" and "fresh a" "fresh b"
    and "is_arith k" and nz: "k = Div \<Longrightarrow> V t b \<noteq> Inr (Some 0)"
  shows "derivative_tree V t (BinaryOp l k a b) (diff_binary exact l k a b da db)"
proof -
  obtain f f' where
    f: "\<forall>\<^sub>F \<theta> in nhds t. V \<theta> a = Inr (Some (f \<theta>))" "V t a = Inr (Some (f t))" "V t da = Inr (Some f')"
      "(f has_real_derivative f') (at t)" by (rule derivative_tree_obtain [OF tree(1)])
  obtain g g' where
    g: "\<forall>\<^sub>F \<theta> in nhds t. V \<theta> b = Inr (Some (g \<theta>))" "V t b = Inr (Some (g t))" "V t db = Inr (Some g')"
      "(g has_real_derivative g') (at t)" by (rule derivative_tree_obtain [OF tree(2)])
  note clones = CloneExpr_fresh [OF assms(8)] CloneExpr_fresh [OF assms(9)]
  note near = eventually_conj [OF f(1) g(1)]
  have "k \<in> {Add, Sub, Mul, Div}" using assms(10) by (simp add: is_arith_def)
  then consider "k = Add" | "k = Sub" | "k = Mul" | "k = Div" by auto
  then show ?thesis
  proof cases
    case 1
    show ?thesis
      by (rule derivative_tree_combine [OF near _ _ DERIV_add [OF f(4) g(4)]])
        (use f g pure in \<open>simp_all add: V_def V_at_simps 1\<close>)
  next
    case 2
    show ?thesis
      by (rule derivative_tree_combine [OF near _ _ DERIV_diff [OF f(4) g(4)]])
        (use f g pure in \<open>simp_all add: V_def V_at_simps 2\<close>)
  next
    case 3
    show ?thesis
      by (rule derivative_tree_combine [OF near _ _ DERIV_mult [OF f(4) g(4)]])
        (use f g pure in \<open>simp_all add: V_def V_at_simps 3 clones algebra_simps\<close>)
  next
    case 4
    with nz g(2) have "g t \<in> - {0}" by simp
    note nonzero = eventually_in_open [OF g(4) _ this]
    have "open (- {0::real})" by auto
    note near = eventually_conj [OF near nonzero [OF this]]
    from \<open>g t \<in> - {0}\<close> have "g t \<noteq> 0" by simp
    show ?thesis
      by (rule derivative_tree_combine [OF near _ _ DERIV_divide [OF f(4) g(4) \<open>g t \<noteq> 0\<close>]])
        (use f g pure \<open>g t \<noteq> 0\<close> in \<open>simp_all add: V_def V_at_simps 4 clones\<close>)
  qed
qed

lemma flog_exact: "flog exact (Some x) = (if 0 < x then Some (ln x) else None)"
  by (simp add: exact_simps)

lemma derivative_tree_functions:
  fixes symbols m ctx pid
  defines "V \<equiv> V_at symbols m ctx pid"
  assumes tree: "derivative_tree V t a da" and pure: "stateless a" "stateless da" and "fresh a" "fresh da"
  shows "V t a \<noteq> Inr (Some 0) \<Longrightarrow> derivative_tree V t (FunctionCall l ''abs'' [a] i s) (diff_abs exact l a da)"
    and "V t a = Inr (Some x) \<Longrightarrow> 0 < x \<Longrightarrow>
      derivative_tree V t (FunctionCall l ''log'' [a] i s) (BinaryOp l Div da (CloneExpr a))"
    and "V t a = Inr (Some x) \<Longrightarrow> 0 < x \<Longrightarrow>
      derivative_tree V t (FunctionCall l ''sqrt'' [a] i s) (diff_sqrt exact l a da)"
proof -
  obtain f f' where
    f: "\<forall>\<^sub>F \<theta> in nhds t. V \<theta> a = Inr (Some (f \<theta>))" "V t a = Inr (Some (f t))" "V t da = Inr (Some f')"
      "(f has_real_derivative f') (at t)" by (rule derivative_tree_obtain [OF tree])
  note eval = V_at_simps CloneExpr_fresh [OF assms(5)] CloneExpr_fresh [OF assms(6)] Num_def diff_abs_def
    diff_sqrt_def dbool_def IsStatelessBuiltin_def
  note vals = f(2,3) pure
  have pos: "\<forall>\<^sub>F \<theta> in nhds t. V \<theta> a = Inr (Some (f \<theta>)) \<and> 0 < f \<theta>" if "0 < f t"
    using eventually_conj [OF f(1) eventually_in_open [OF f(4), of "{0<..}"]] that by simp
  have neg: "\<forall>\<^sub>F \<theta> in nhds t. V \<theta> a = Inr (Some (f \<theta>)) \<and> f \<theta> < 0" if "f t < 0"
    using eventually_conj [OF f(1) eventually_in_open [OF f(4), of "{..<0}"]] that by simp
  show "derivative_tree V t (FunctionCall l ''abs'' [a] i s) (diff_abs exact l a da)" if "V t a \<noteq> Inr (Some 0)"
  proof (cases "0 < f t")
    case True
    show ?thesis
      by (rule derivative_tree_combine [OF pos [OF True] _ _ f(4)]) (use True vals in \<open>simp_all add: V_def eval\<close>)
  next
    case False
    with that f(2) have less: "f t < 0" by auto
    show ?thesis
      by (rule derivative_tree_combine [OF neg [OF less] _ _ DERIV_minus [OF f(4)]])
        (use less vals in \<open>simp_all add: V_def eval\<close>)
  qed
  assume x: "V t a = Inr (Some x)" "0 < x"
  with f(2) have ft: "0 < f t" by simp
  show "derivative_tree V t (FunctionCall l ''log'' [a] i s) (BinaryOp l Div da (CloneExpr a))"
  proof (rule derivative_tree_combine [OF pos [OF ft]])
    show "((\<lambda>\<theta>. ln (f \<theta>)) has_real_derivative f' / f t) (at t)"
      by (rule derivative_eq_intros f(4) ft refl | simp)+
  qed (use ft vals in \<open>simp_all add: V_def eval flog_exact\<close>)
  show "derivative_tree V t (FunctionCall l ''sqrt'' [a] i s) (diff_sqrt exact l a da)"
  proof (rule derivative_tree_combine [OF pos [OF ft]])
    show "((\<lambda>\<theta>. sqrt (f \<theta>)) has_real_derivative f' / (2 * sqrt (f t))) (at t)"
      using ft by (auto intro!: derivative_eq_intros f(4) simp: field_simps)
  qed (use ft vals in \<open>simp_all add: V_def eval\<close>)
qed

lemma derivative_tree_conditional:
  fixes symbols m ctx pid
  defines "V \<equiv> V_at symbols m ctx pid"
  assumes "\<forall>\<^sub>F \<theta> in nhds t. \<exists>x. V \<theta> c = Inr (Some x) \<and> (x \<noteq> 0 \<longleftrightarrow> b)" and "stateless c" and "fresh c"
    and "b \<Longrightarrow> derivative_tree V t th dth" and "\<not> b \<Longrightarrow> derivative_tree V t el del"
  shows "derivative_tree V t (Conditional l c th el) (Conditional l (CloneExpr c) dth del)"
proof -
  let ?e = "if b then th else el" and ?d = "if b then dth else del"
  have branch: "V \<theta> (Conditional l c e1 e2) = V \<theta> (if b then e1 else e2)"
    if "\<exists>x. V \<theta> c = Inr (Some x) \<and> (x \<noteq> 0 \<longleftrightarrow> b)" for \<theta> e1 e2
    using that assms(3) by (auto simp: V_def V_at_simps)
  have "\<forall>\<^sub>F \<theta> in nhds t. V \<theta> (Conditional l c th el) = V \<theta> ?e"
    by (rule eventually_mono [OF assms(2)]) (rule branch)
  moreover have "V t (Conditional l (CloneExpr c) dth del) = V t ?d"
    unfolding CloneExpr_fresh [OF assms(4)] by (rule branch) (rule eventually_nhds_x_imp_x [OF assms(2)])
  moreover have "derivative_tree V t ?e ?d" using assms(5,6) by simp
  ultimately show ?thesis by (simp only: derivative_tree_cong [of V "Conditional l c th el" ?e])
qed

section \<open>The derivative is the derivative\<close>

definition applied :: "'f expr \<Rightarrow> bool" where
  "applied e \<longleftrightarrow> (\<forall>(n, as, i, s) \<in> set (calls e). as \<noteq> [])"

lemma applied_simps [simp]:
  "applied (NumberLiteral l v)" "applied (IdentifierExpr l n)" "applied (ParameterExpr l n i)"
  "applied (UnaryOp l k e) \<longleftrightarrow> applied e"
  "applied (BinaryOp l bk a b) \<longleftrightarrow> applied a \<and> applied b"
  "applied (Conditional l c t e) \<longleftrightarrow> applied c \<and> applied t \<and> applied e"
  "applied (FunctionCall l n as i s) \<longleftrightarrow> as \<noteq> [] \<and> (\<forall>a \<in> set as. applied a)"
  by (simp_all add: applied_def ball_Un)

lemma Differentiate_total: "stateless e \<Longrightarrow> applied e \<Longrightarrow> \<exists>d. Differentiate M pid e = Inr d"
proof (induction e)
  case (FunctionCall l n as i s)
  then obtain a as' where as: "as = a # as'" by (cases as) auto
  with FunctionCall.prems have "a \<in> set as" "stateless a" "applied a" by auto
  with FunctionCall.IH obtain d where "Differentiate M pid a = Inr d" by blast
  with FunctionCall.prems as show ?case by (auto simp: IsStatelessBuiltin_def)
qed auto

lemma market_read_constant:
  "n = ''mid'' \<or> n = ''bid'' \<or> n = ''ask'' \<or> n = ''spread'' \<Longrightarrow>
     V_at symbols m ctx pid \<theta> (FunctionCall l n as i s) = V_at symbols m ctx pid t (FunctionCall l n as i s)"
  by (elim disjE) (simp_all add: V_at_def value_in_call dispatch_def)

lemma derivative_tree_parameter:
  assumes "V_at symbols m ctx pid t (ParameterExpr l n i) = Inr (Some x)" and "0 \<le> pid"
  shows "derivative_tree (V_at symbols m ctx pid) t (ParameterExpr l n i) (Num exact (if i = pid then 1 else 0) l)"
proof -
  from assms(1) obtain ps where ps: "params ctx = Some ps" "0 \<le> i" "nat i < num_params ctx" "nat i < length ps"
      "ps[nat pid := Some t] ! nat i = Some x"
    by (auto simp: V_at_def value_in_def visit_param_def with_param_def split: option.splits if_splits)
  then have V: "V_at symbols m ctx pid \<theta> (ParameterExpr l n i) = Inr (ps[nat pid := Some \<theta>] ! nat i)" for \<theta>
    by (simp add: V_at_def value_in_def visit_param_def with_param_def)
  show ?thesis
  proof (cases "i = pid")
    case True
    with ps(4) V have "V_at symbols m ctx pid \<theta> (ParameterExpr l n i) = Inr (Some \<theta>)" for \<theta> by simp
    with True show ?thesis
      by (intro derivative_tree_combine [where P = "\<lambda>_. True" and h = "\<lambda>\<theta>. \<theta>", OF _ _ _ DERIV_ident]) (auto simp: V_at_simps Num_def)
  next
    case False
    with ps(2) assms(2) have "nat pid \<noteq> nat i" by auto
    with V ps(5) have "V_at symbols m ctx pid \<theta> (ParameterExpr l n i) = Inr (Some x)" for \<theta> by simp
    with False show ?thesis by (intro derivative_tree_const) (auto simp: V_at_simps Num_def)
  qed
qed

lemma derivative_tree_unary:
  fixes symbols m ctx pid
  defines "V \<equiv> V_at symbols m ctx pid"
  assumes tree: "derivative_tree V t e de" and pure: "stateless e" "stateless de"
  shows "derivative_tree V t (UnaryOp l k e) (if k = Plus then de else UnaryOp l Minus de)"
proof -
  obtain f f' where f: "\<forall>\<^sub>F \<theta> in nhds t. V \<theta> e = Inr (Some (f \<theta>))" "V t de = Inr (Some f')"
      "(f has_real_derivative f') (at t)" by (rule derivative_tree_obtain [OF tree])
  show ?thesis
  proof (cases k)
    case Plus
    with pure f show ?thesis
      by (intro derivative_tree_combine [OF f(1) _ _ f(3)]) (simp_all add: V_def V_at_simps)
  next
    case Minus
    with pure f show ?thesis
      by (intro derivative_tree_combine [OF f(1) _ _ DERIV_minus [OF f(3)]]) (simp_all add: V_def V_at_simps)
  qed
qed

lemma derivative_tree_call:
  fixes symbols m ctx pid
  defines "V \<equiv> V_at symbols m ctx pid"
  assumes "stateless (FunctionCall l n as i s)" and "fresh (FunctionCall l n as i s)"
    and "regular V t (FunctionCall l n as i s)" and "Differentiate exact pid (FunctionCall l n as i s) = Inr d"
    and IH: "\<And>a da. a \<in> set as \<Longrightarrow> stateless a \<Longrightarrow> fresh a \<Longrightarrow> regular V t a \<Longrightarrow>
      Differentiate exact pid a = Inr da \<Longrightarrow> derivative_tree V t a da"
  shows "derivative_tree V t (FunctionCall l n as i s) d"
proof (cases "n = ''mid'' \<or> n = ''bid'' \<or> n = ''ask'' \<or> n = ''spread''")
  case True
  with assms(4) obtain x where "V t (FunctionCall l n as i s) = Inr (Some x)" by auto
  moreover from this True have "V \<theta> (FunctionCall l n as i s) = Inr (Some x)" for \<theta>
    using market_read_constant unfolding V_def by metis
  moreover from True assms(5) have "d = Num exact 0 l" by auto
  ultimately show ?thesis by (auto intro: derivative_tree_const simp: V_def V_at_simps Num_def)
next
  case False
  with assms(2) have n: "n = ''abs'' \<or> n = ''log'' \<or> n = ''sqrt''" by (auto simp: IsStatelessBuiltin_def)
  from assms(4) False have reg: "length as = 1 \<and> list_all (regular V t) as \<and>
      (\<exists>x. V t (as ! 0) = Inr (Some x) \<and> x \<noteq> 0 \<and> (n \<noteq> ''abs'' \<longrightarrow> 0 < x))"
    by (simp only: regular.simps if_False)
  then obtain a where "as = [a]" by (cases as) auto
  with reg obtain x where a: "as = [a]" "regular V t a" "V t a = Inr (Some x)" "x \<noteq> 0"
      "n \<noteq> ''abs'' \<longrightarrow> 0 < x" by auto
  from assms(5) False n a(1) obtain da where da: "Differentiate exact pid a = Inr da"
    by (cases "Differentiate exact pid a") auto
  have a': "stateless a" "fresh a" "a \<in> set as" using assms(2,3) a(1) by auto
  note pure = a'(1) stateless_Differentiate [OF da a'(1)] a'(2) fresh_Differentiate [OF da a'(2)]
  note derivative = IH [OF a'(3,1,2) a(2) da]
  note fns = derivative_tree_functions [OF derivative [unfolded V_def] pure, folded V_def]
  from n show ?thesis
  proof (elim disjE)
    assume "n = ''abs''"
    with assms(5) a da show ?thesis using fns(1) by auto
  next
    assume "n = ''log''"
    with assms(5) a da show ?thesis using fns(2) by auto
  next
    assume "n = ''sqrt''"
    with assms(5) a da show ?thesis using fns(3) by auto
  qed
qed

lemma Differentiate_regular:
  fixes symbols m ctx pid
  defines "V \<equiv> V_at symbols m ctx pid"
  assumes "stateless e" and "fresh e" and "regular V t e" and "Differentiate exact pid e = Inr d" and "0 \<le> pid"
  shows "derivative_tree V t e d"
  using assms(2-5)
proof (induction e arbitrary: d)
  case (NumberLiteral l v)
  then show ?case by (auto simp: V_def V_at_simps Num_def intro: derivative_tree_const)
next
  case (ParameterExpr l n i)
  then show ?case using derivative_tree_parameter [OF _ assms(6)] by (auto simp: V_def)
next
  case (UnaryOp l k e)
  then obtain de where de: "Differentiate exact pid e = Inr de" "d = (if k = Plus then de else UnaryOp l Minus de)"
    by (auto simp: rbind_eq_Inr_iff)
  with UnaryOp stateless_Differentiate [OF de(1)] show ?case
    unfolding V_def de(2) by (intro derivative_tree_unary) auto
next
  case (BinaryOp l k a b)
  then obtain da db where d: "Differentiate exact pid a = Inr da" "Differentiate exact pid b = Inr db"
      "d = diff_binary exact l k a b da db" by (auto simp: rbind_eq_Inr_iff)
  show ?case
  proof (cases "is_arith k")
    case True
    with BinaryOp d stateless_Differentiate [OF d(1)] stateless_Differentiate [OF d(2)] show ?thesis
      unfolding V_def d(3) by (intro derivative_tree_binary) auto
  next
    case False
    then have "d = Num exact 0 l" using d(3) by (cases k) (auto simp: is_arith_def)
    with False BinaryOp.prems(3) show ?thesis
      by (auto intro: derivative_tree_const simp: V_def V_at_simps Num_def)
  qed
next
  case (Conditional l c th el)
  then obtain dth del where d: "Differentiate exact pid th = Inr dth" "Differentiate exact pid el = Inr del"
      "d = Conditional l (CloneExpr c) dth del" by (auto simp: rbind_eq_Inr_iff)
  from Conditional.prems(3) obtain b where
    b: "\<forall>\<^sub>F \<theta> in nhds t. \<exists>x. V \<theta> c = Inr (Some x) \<and> (x \<noteq> 0 \<longleftrightarrow> b)"
      "b \<longrightarrow> regular V t th" "\<not> b \<longrightarrow> regular V t el" by (simp only: regular.simps) blast
  have th: "derivative_tree V t th dth" if b using Conditional.IH(2) [OF _ _ _ d(1)] Conditional.prems b(2) that by simp
  have el: "derivative_tree V t el del" if "\<not> b" using Conditional.IH(3) [OF _ _ _ d(2)] Conditional.prems b(3) that by simp
  show ?case
    unfolding d(3) V_def
    by (rule derivative_tree_conditional [OF b(1) [unfolded V_def] _ _ th [unfolded V_def] el [unfolded V_def]])
      (use Conditional.prems in auto)
next
  case (FunctionCall l n as i s)
  then show ?case unfolding V_def by (intro derivative_tree_call) auto
qed (auto simp: V_def)

section \<open>Gradient signals\<close>

lemma equality_free_CloneExpr [simp]: "equality_free (CloneExpr e) \<longleftrightarrow> equality_free e"
  by (induction e) (auto simp: list_all_iff)

lemma equality_free_Differentiate:
  "Differentiate M pid e = Inr d \<Longrightarrow> equality_free e \<Longrightarrow> equality_free d"
proof (induction e arbitrary: d)
  case (BinaryOp l k a b)
  then show ?case by (cases k) (auto simp: rbind_eq_Inr_iff Num_def)
next
  case (FunctionCall l n as i s)
  from Differentiate_call [OF FunctionCall.prems(1)] show ?case
  proof (elim disjE exE conjE)
    fix a as' da
    assume a: "as = a # as'" "Differentiate M pid a = Inr da"
      and d: "d \<in> {diff_abs M l a da, BinaryOp l Div da (CloneExpr a), diff_sqrt M l a da}"
    from a FunctionCall have "equality_free a" "equality_free da" by auto
    with d show ?thesis by (auto simp: Num_def diff_abs_def diff_sqrt_def)
  qed (simp add: Num_def)
qed (auto simp: rbind_eq_Inr_iff Num_def split: if_splits)

lemma value_in_FoldConstants:
  "equality_free d \<Longrightarrow> value_in M symbols m ctx d = Inr x \<Longrightarrow> value_in M symbols m ctx (FoldConstants M d) = Inr x"
  using Visit_FoldConstants [OF equality_free_agree, of d M symbols m]
  by (auto simp: refines_def value_in_def split: prod.splits) (metis prod.collapse)

lemma Evaluate_value_in: "fst (Evaluate M symbols sg m ctx) = value_in M symbols m ctx (body sg)"
  by (simp add: Evaluate_def value_in_def split: prod.splits)

lemma gradient_signals_nth:
  "gradient_signals M signal ps = Inr gs \<Longrightarrow>
     length gs = length ps \<and> (\<forall>k < length ps. gradient_signal M signal (ps ! k) = Inr (gs ! k))"
proof (induction ps arbitrary: gs)
  case (Cons p ps)
  then obtain g gs' where "gradient_signal M signal p = Inr g" "gradient_signals M signal ps = Inr gs'" "gs = g # gs'"
    by (auto simp: rbind_eq_Inr_iff)
  with Cons.IH show ?case by (auto simp: nth_Cons split: nat.splits)
qed simp

lemma gradient_signal_name:
  "gradient_signal M signal p = Inr g \<Longrightarrow> sig_name g = sig_name signal @ ''__grad__'' @ param_name p"
  by (auto simp: gradient_signal_def rbind_eq_Inr_iff FoldConstantsInPlace_def)

lemma gradient_signals_total:
  "stateless (body signal) \<Longrightarrow> applied (body signal) \<Longrightarrow> \<exists>gs. gradient_signals M signal ps = Inr gs"
proof (induction ps)
  case (Cons p ps)
  with Differentiate_total [of "body signal" M "param_id p"] show ?case by (auto simp: gradient_signal_def)
qed simp

text \<open>C34: Gradient signals are built exactly for the signals without stateful or unknown calls, one
  for each parameter in order and named after the signal and the parameter; every other signal is
  rejected with a runtime error.\<close>

theorem BuildStatelessGradientSignals_decides:
  assumes "applied (body signal)"
  shows "case BuildStatelessGradientSignals M signal ps of
      Inr gs \<Rightarrow> stateless (body signal) \<and>
        map sig_name gs = map (\<lambda>p. sig_name signal @ ''__grad__'' @ param_name p) ps
    | Inl e \<Rightarrow> \<not> stateless (body signal) \<and> (\<exists>msg. e = RuntimeError msg)"
proof (cases "RequirePhase1Supported (body signal)")
  case (Inl e)
  with RequirePhase1Supported_cases(1) [of "body signal"] show ?thesis
    by (simp add: BuildStatelessGradientSignals_def)
next
  case (Inr u)
  with RequirePhase1Supported_cases(1) [of "body signal"] have sl: "stateless (body signal)" by simp
  with gradient_signals_total [OF sl assms] obtain gs where gs: "gradient_signals M signal ps = Inr gs" by blast
  have "map sig_name gs = map (\<lambda>p. sig_name signal @ ''__grad__'' @ param_name p) ps"
    by (rule nth_equalityI) (use gradient_signals_nth [OF gs] in \<open>auto simp: gradient_signal_name\<close>)
  with Inr gs sl show ?thesis by (simp add: BuildStatelessGradientSignals_def)
qed

definition log_signal :: "xreal SignalDef" where
  "log_signal = \<lparr>sig_name = ''s'', body = FunctionCall no_loc ''log'' [ParameterExpr no_loc ''a'' 0] (-1) (-1)\<rparr>"

definition param_a :: "xreal ParamDef" where
  "param_a = \<lparr>param_name = ''a'', default_value = Some 1, param_id = 0, param_loc = no_loc\<rparr>"

theorem BuildStatelessGradientSignals_decides_witness:
  "\<exists>gs. BuildStatelessGradientSignals exact log_signal [param_a] = Inr gs \<and> map sig_name gs = [''s__grad__a'']"
proof -
  have "\<exists>gs. BuildStatelessGradientSignals exact log_signal [param_a] = Inr gs"
    by (simp add: BuildStatelessGradientSignals_def log_signal_def IsStatelessBuiltin_def gradient_signal_def)
  moreover have "applied (body log_signal)" by (simp add: log_signal_def)
  from BuildStatelessGradientSignals_decides [OF this, where M = exact and ps = "[param_a]"]
  have "case BuildStatelessGradientSignals exact log_signal [param_a] of
      Inr gs \<Rightarrow> map sig_name gs = [''s__grad__a''] | Inl e \<Rightarrow> True"
    by (auto simp: log_signal_def param_a_def split: sum.splits)
  ultimately show ?thesis by auto
qed


definition context_a :: "xreal SignalContext" where
  "context_a = SignalContext0\<lparr>params := Some [Some 1], num_params := 1\<rparr>"


end
