(* ===== verification/Gradient_Runtime.thy ===== *)
theory Gradient_Runtime
  imports Jit_Runtime
begin

text \<open>
  The gradient helpers of \<^verbatim>\<open>src/runtime.cpp\<close>: each pushes a sample into the primal
  state of an operator and carries the sensitivity with respect to one parameter through the same
  recurrence, returning the value and its derivative (\<^verbatim>\<open>*grad_out\<close>). The step of each
  operator is a function on the pair of its primal and its sensitivity state; the helpers run it
  on the slot of the node and the slot of the node and the parameter.
\<close>

section \<open>Slots\<close>

definition on_grad ::
    "('f PrimalStates \<Rightarrow> 'a list) \<Rightarrow> (('a list \<Rightarrow> 'a list) \<Rightarrow> 'f PrimalStates \<Rightarrow> 'f PrimalStates) \<Rightarrow>
     ('f SensitivityStates \<Rightarrow> 'b list) \<Rightarrow> (('b list \<Rightarrow> 'b list) \<Rightarrow> 'f SensitivityStates \<Rightarrow> 'f SensitivityStates) \<Rightarrow>
       int \<Rightarrow> int \<Rightarrow> ('a \<times> 'b, 'c) prog \<Rightarrow> ('f SignalContext, 'c) prog" where
  "on_grad get put gets puts node_id pid f ctx =
     (let i = nat node_id in
      case rbind (CheckedGradientParam ctx pid) (GradientSlot ctx i) of
        Inl e \<Rightarrow> (Inl e, ctx)
      | Inr slot \<Rightarrow>
          if 0 \<le> node_id \<and> i < length (get (primal ctx)) \<and> slot < length (gets (sens ctx))
          then let (r, p, g) = f (get (primal ctx) ! i, gets (sens ctx) ! slot)
               in (r, ctx\<lparr>primal := put (\<lambda>xs. xs[i := p]) (primal ctx),
                          sens := puts (\<lambda>xs. xs[slot := g]) (sens ctx)\<rparr>)
          else (Inl (Undefined ''operator slot''), ctx))"

definition both_nan :: "'f machine \<Rightarrow> 'f \<times> 'f" where
  "both_nan M = (qnan M, qnan M)"

section \<open>Moving averages, lag and the Kalman filter\<close>

definition ema_alpha_grad_step ::
    "'f machine \<Rightarrow> 'f \<times> 'f \<Rightarrow> 'f \<times> 'f \<Rightarrow> int \<Rightarrow> 'f EMAState \<times> 'f \<Rightarrow> ('f \<times> 'f) \<times> 'f EMAState \<times> 'f" where
  "ema_alpha_grad_step M x alpha period st =
     (let (x, x_grad) = x; (alpha, alpha_grad) = alpha; (s, g) = st
      in if \<not> ema_initialized s
         then ((x, x_grad),
               s\<lparr>ema_value := x, ema_alpha := alpha, ema_period := period, ema_initialized := True\<rparr>, x_grad)
         else
           let prev = ema_value s; prev_grad = g;
               v = dadd M (dmul M alpha x) (dmul M (dsub M (dlit M 1) alpha) prev);
               d = dadd M (dadd M (dmul M alpha x_grad) (dmul M (dsub M (dlit M 1) alpha) prev_grad))
                     (dmul M alpha_grad (dsub M x prev))
           in ((v, d), s\<lparr>ema_alpha := alpha, ema_period := period, ema_value := v\<rparr>, d))"

definition jit_rt_ema_alpha_grad ::
    "'f machine \<Rightarrow> int \<Rightarrow> 'f \<times> 'f \<Rightarrow> 'f \<times> 'f \<Rightarrow> int \<Rightarrow> int \<Rightarrow> ('f SignalContext, 'f \<times> 'f) prog" where
  "jit_rt_ema_alpha_grad M node_id x alpha period pid =
     on_grad ema_states ema_states_update ema_sens ema_sens_update node_id pid
       (\<lambda>st. let (r, st') = ema_alpha_grad_step M x alpha period st in (Inr r, st'))"

definition sma_grad_step ::
    "'f machine \<Rightarrow> 'f \<times> 'f \<Rightarrow> int \<Rightarrow> ('f RingStatsState \<times> 'f RingStatsState, 'f \<times> 'f) prog" where
  "sma_grad_step M x period st =
     (case RingStatsPushPrepared M (fst st) (fst x) of
        Inl e \<Rightarrow> (Inl e, st)
      | Inr p \<Rightarrow>
          (case RingStatsPush M (snd st) (nat period) (snd x) of
             Inl e \<Rightarrow> (Inl e, p, snd st)
           | Inr g \<Rightarrow>
               (Inr (if \<not> RingStatsFull p then both_nan M else (RingStatsMean M p, RingStatsMean M g)), p, g)))"

definition jit_rt_sma_grad ::
    "'f machine \<Rightarrow> int \<Rightarrow> 'f \<times> 'f \<Rightarrow> int \<Rightarrow> int \<Rightarrow> ('f SignalContext, 'f \<times> 'f) prog" where
  "jit_rt_sma_grad M node_id x period pid =
     on_grad sma_states sma_states_update sma_sens sma_sens_update node_id pid (sma_grad_step M x period)"

definition lag_grad_step ::
    "'f machine \<Rightarrow> 'f \<times> 'f \<Rightarrow> int \<Rightarrow> ('f LagState \<times> 'f LagState, 'f \<times> 'f) prog" where
  "lag_grad_step M x period st =
     (let lagged = (LagValue M (fst st), LagValue M (snd st))
      in case LagPushPrepared (fst st) (fst x) of
           Inl e \<Rightarrow> (Inl e, st)
         | Inr p \<Rightarrow>
             (case LagPush M (snd st) (nat period) (snd x) of
                Inl e \<Rightarrow> (Inl e, p, snd st)
              | Inr g \<Rightarrow> (Inr lagged, p, g)))"

definition jit_rt_lag_grad ::
    "'f machine \<Rightarrow> int \<Rightarrow> 'f \<times> 'f \<Rightarrow> int \<Rightarrow> int \<Rightarrow> ('f SignalContext, 'f \<times> 'f) prog" where
  "jit_rt_lag_grad M node_id x period pid =
     on_grad lag_states lag_states_update lag_sens lag_sens_update node_id pid (lag_grad_step M x period)"

definition kalman1d_grad_step ::
    "'f machine \<Rightarrow> 'f \<times> 'f \<Rightarrow> 'f \<times> 'f \<Rightarrow> 'f \<times> 'f \<Rightarrow> 'f Kalman1dState \<times> 'f Kalman1dSensitivityState \<Rightarrow>
       ('f \<times> 'f) \<times> 'f Kalman1dState \<times> 'f Kalman1dSensitivityState" where
  "kalman1d_grad_step M x q r st =
     (let (x, x_grad) = x; (q, q_grad) = q; (r, r_grad) = r; (s, g) = st
      in if \<not> ka_initialized s
         then ((x, x_grad), \<lparr>ka_x_hat = x, ka_p = r, ka_q = q, ka_r = r, ka_initialized = True\<rparr>,
               \<lparr>ks_x_hat = x_grad, ks_p = r_grad\<rparr>)
         else
           let p_pred = dadd M (ka_p s) q;
               p_pred_grad = dadd M (ks_p g) q_grad;
               denom = dadd M p_pred r;
               denom_grad = dadd M p_pred_grad r_grad
           in if fle M denom (dlit M 0) then ((ka_x_hat s, ks_x_hat g), s, g)
              else
                let k = ddiv M p_pred denom;
                    k_grad = ddiv M (dsub M (dmul M p_pred_grad denom) (dmul M p_pred denom_grad))
                               (dmul M denom denom);
                    innov = dsub M x (ka_x_hat s);
                    innov_grad = dsub M x_grad (ks_x_hat g);
                    x_hat = dadd M (ka_x_hat s) (dmul M k innov);
                    x_hat_grad = dadd M (dadd M (ks_x_hat g) (dmul M k_grad innov)) (dmul M k innov_grad);
                    p_new = dmul M (dsub M (dlit M 1) k) p_pred;
                    p_new_grad = dadd M (dmul M (fneg M k_grad) p_pred)
                                   (dmul M (dsub M (dlit M 1) k) p_pred_grad);
                    (p', p_grad') = (if flt M p_new (dlit M 0) then (dlit M 0, dlit M 0) else (p_new, p_new_grad))
                in ((x_hat, x_hat_grad), s\<lparr>ka_x_hat := x_hat, ka_p := p', ka_q := q, ka_r := r\<rparr>,
                    \<lparr>ks_x_hat = x_hat_grad, ks_p = p_grad'\<rparr>))"

definition jit_rt_kalman1d_grad ::
    "'f machine \<Rightarrow> int \<Rightarrow> 'f \<times> 'f \<Rightarrow> 'f \<times> 'f \<Rightarrow> 'f \<times> 'f \<Rightarrow> int \<Rightarrow> ('f SignalContext, 'f \<times> 'f) prog" where
  "jit_rt_kalman1d_grad M node_id x q r pid =
     on_grad kalman1d_states kalman1d_states_update kalman1d_sens kalman1d_sens_update node_id pid
       (\<lambda>st. let (v, st') = kalman1d_grad_step M x q r st in (Inr v, st'))"

section \<open>Standard deviation and z-score\<close>

definition ss_reset :: "'f machine \<Rightarrow> nat \<Rightarrow> 'f RollingStdSensitivityState \<Rightarrow> 'f RollingStdSensitivityState" where
  "ss_reset M period g =
     g\<lparr>ss_buffer := replicate period (llit M 0), ss_capacity := period, ss_head := 0, ss_count := 0,
       ss_mean := llit M 0, ss_m2 := llit M 0, ss_slides := 0\<rparr>"

text \<open>The recomputation from the buffers, once per window of slides.\<close>

definition RollingStdRefreshSensitivity ::
    "'f machine \<Rightarrow> 'f RollingStdSensitivityState \<Rightarrow> 'f RingStatsState \<Rightarrow> 'f RollingStdSensitivityState" where
  "RollingStdRefreshSensitivity M g s =
     (let k = rs_count s;
          mean_prime = ldiv M (sum_loop M (take k (ss_buffer g))) (lnat M k);
          m2_prime = foldl (\<lambda>acc (x, x'). ladd M acc (lmul M (lmul M (llit M 2) (lsub M x (rs_mean s)))
                       (lsub M x' mean_prime))) (llit M 0)
                       (zip (take k (rs_buffer s)) (take k (ss_buffer g)))
      in g\<lparr>ss_mean := mean_prime, ss_m2 := m2_prime, ss_slides := 0\<rparr>)"

text \<open>The sensitivities of mean and sum of squares when the window is full: \<open>s\<close> is the primal
  state before the sample and \<open>s'\<close> the one after its mean has been updated.\<close>

definition ss_slide ::
    "'f machine \<Rightarrow> 'f RingStatsState \<Rightarrow> 'f RingStatsState \<Rightarrow> 'f RollingStdSensitivityState \<Rightarrow> 'f \<times> 'f \<Rightarrow>
       'f RollingStdSensitivityState" where
  "ss_slide M s s' g x =
     (let (x, x_grad) = x
      in if rs_capacity s \<le> 1 then g\<lparr>ss_mean := x_grad, ss_m2 := llit M 0\<rparr>
         else
           let old = rs_buffer s ! rs_head s;
               old_prime = ss_buffer g ! ss_head g;
               n = lnat M (rs_count s);
               delta_r = lsub M old (rs_mean s);
               delta_r_prime = lsub M old_prime (ss_mean g);
               mean_r = lsub M (rs_mean s) (ldiv M delta_r (lsub M n (llit M 1)));
               mean_r_prime = lsub M (ss_mean g) (ldiv M delta_r_prime (lsub M n (llit M 1)));
               m2_r_prime = lsub M (lsub M (ss_m2 g) (lmul M delta_r_prime (lsub M old mean_r)))
                              (lmul M delta_r (lsub M old_prime mean_r_prime));
               delta_a = lsub M x mean_r;
               delta_a_prime = lsub M x_grad mean_r_prime;
               mean' = ladd M mean_r_prime (ldiv M delta_a_prime n);
               m2' = ladd M (ladd M m2_r_prime (lmul M delta_a_prime (lsub M x (rs_mean s'))))
                       (lmul M delta_a (lsub M x_grad mean'))
           in g\<lparr>ss_mean := mean', ss_m2 := if flt M m2' (llit M 0) then llit M 0 else m2'\<rparr>)"

definition ss_add ::
    "'f machine \<Rightarrow> 'f RingStatsState \<Rightarrow> 'f RingStatsState \<Rightarrow> 'f RollingStdSensitivityState \<Rightarrow> 'f \<times> 'f \<Rightarrow>
       'f RollingStdSensitivityState" where
  "ss_add M s s' g x =
     (let (x, x_grad) = x;
          n = lnat M (rs_count s');
          delta = lsub M x (rs_mean s);
          delta_prime = lsub M x_grad (ss_mean g);
          mean' = ladd M (ss_mean g) (ldiv M delta_prime n);
          m2' = ladd M (ss_m2 g) (ladd M (lmul M delta_prime (lsub M x (rs_mean s')))
                  (lmul M delta (lsub M x_grad mean')))
      in g\<lparr>ss_count := Suc (ss_count g), ss_mean := mean', ss_m2 := m2'\<rparr>)"

definition std_grad_push ::
    "'f machine \<Rightarrow> 'f \<times> 'f \<Rightarrow> nat \<Rightarrow> 'f RingStatsState \<times> 'f RollingStdSensitivityState \<Rightarrow>
       'f RingStatsState \<times> 'f RollingStdSensitivityState" where
  "std_grad_push M x period st =
     (let s = (if rs_capacity (fst st) \<noteq> period then ring_stats_reset M period (fst st) else fst st);
          g = (if ss_capacity (snd st) \<noteq> rs_capacity s then ss_reset M (rs_capacity s) (snd st) else snd st);
          slid = (rs_count s = rs_capacity s);
          s1 = ring_stats_accumulate M s (fst x);
          g1 = (if slid then ss_slide M s s1 g x else ss_add M s s1 g x);
          (s2, g2) =
            (if ss_buffer g1 = [] then (s1, g1)
             else (ring_stats_write M s1 (fst x),
                   g1\<lparr>ss_buffer := (ss_buffer g1)[ss_head g1 := snd x],
                      ss_head := (ss_head g1 + 1) mod ss_capacity g1\<rparr>))
      in if \<not> slid then (s2, g2)
         else
           let s3 = s2\<lparr>rs_slides := Suc (rs_slides s2)\<rparr>; g3 = g2\<lparr>ss_slides := Suc (ss_slides g2)\<rparr>
           in if ss_capacity g3 \<le> ss_slides g3 \<and> 1 < ss_capacity g3
              then let s4 = RingStatsRefreshMeanM2FromBuffer M s3
                   in (s4, RollingStdRefreshSensitivity M g3 s4)
              else (s3, g3))"

text \<open>The readout; \<open>zscore\<close> selects between the two operators.\<close>

definition std_grad_value ::
    "'f machine \<Rightarrow> bool \<Rightarrow> 'f \<times> 'f \<Rightarrow> 'f RingStatsState \<times> 'f RollingStdSensitivityState \<Rightarrow> 'f \<times> 'f" where
  "std_grad_value M zscore x st =
     (let (s, g) = st; (x, x_grad) = x
      in if \<not> RingStatsFull s then both_nan M
         else
           let stddev = RingStatsStddevSample M s;
               n = lnat M (rs_count s);
               var_prime = ldiv M (ss_m2 g) (lsub M n (llit M 1))
           in if \<not> zscore then
                if rs_count s < 2 then both_nan M
                else (stddev, if isnan M stddev then qnan M
                              else narrow M (ldiv M var_prime (lmul M (llit M 2) stddev)))
              else
                let mean = RingStatsMean M s
                in if isnan M stddev \<or> flt M (fabs M stddev) (dlit M (1 / 10 ^ 18)) then both_nan M
                   else
                     let std_prime = ldiv M var_prime (lmul M (llit M 2) stddev)
                     in (ddiv M (dsub M x mean) stddev,
                         dsub M (ddiv M (dsub M x_grad (narrow M (ss_mean g))) stddev)
                           (ddiv M (dmul M (dsub M x mean) (narrow M std_prime)) (dmul M stddev stddev))))"

definition RollingStdOrZscoreGradStep ::
    "'f machine \<Rightarrow> bool \<Rightarrow> 'f \<times> 'f \<Rightarrow> nat \<Rightarrow> ('f RingStatsState \<times> 'f RollingStdSensitivityState, 'f \<times> 'f) prog" where
  "RollingStdOrZscoreGradStep M zscore x period st =
     (if period = 0 then (Inl (Undefined ''empty ring''), st)
      else let st' = std_grad_push M x period st in (Inr (std_grad_value M zscore x st'), st'))"

definition jit_rt_rolling_std_grad ::
    "'f machine \<Rightarrow> int \<Rightarrow> 'f \<times> 'f \<Rightarrow> int \<Rightarrow> int \<Rightarrow> ('f SignalContext, 'f \<times> 'f) prog" where
  "jit_rt_rolling_std_grad M node_id x period pid =
     on_grad rolling_std_states rolling_std_states_update rolling_std_sens rolling_std_sens_update node_id pid
       (RollingStdOrZscoreGradStep M False x (nat period))"

definition jit_rt_zscore_grad ::
    "'f machine \<Rightarrow> int \<Rightarrow> 'f \<times> 'f \<Rightarrow> int \<Rightarrow> int \<Rightarrow> ('f SignalContext, 'f \<times> 'f) prog" where
  "jit_rt_zscore_grad M node_id x period pid =
     on_grad zscore_states zscore_states_update zscore_sens zscore_sens_update node_id pid
       (RollingStdOrZscoreGradStep M True x (nat period))"

section \<open>Correlation and beta\<close>

definition ps_reset :: "'f machine \<Rightarrow> nat \<Rightarrow> 'f RollingPairSensitivityState \<Rightarrow> 'f RollingPairSensitivityState" where
  "ps_reset M period g =
     g\<lparr>ps_x_buf := replicate period (llit M 0), ps_y_buf := replicate period (llit M 0),
       ps_capacity := period, ps_head := 0, ps_count := 0, ps_sum_x := llit M 0, ps_sum_y := llit M 0,
       ps_sum_xy := llit M 0, ps_sum_xx := llit M 0, ps_sum_yy := llit M 0\<rparr>"

definition ps_evict ::
    "'f machine \<Rightarrow> 'f RollingPairState \<Rightarrow> 'f RollingPairSensitivityState \<Rightarrow> 'f RollingPairSensitivityState" where
  "ps_evict M s g =
     (if rp_count s = rp_capacity s then
        let old_xp = ps_x_buf g ! rp_head s; old_yp = ps_y_buf g ! rp_head s;
            old_x = rp_x_buf s ! rp_head s; old_y = rp_y_buf s ! rp_head s
        in g\<lparr>ps_sum_x := lsub M (ps_sum_x g) old_xp, ps_sum_y := lsub M (ps_sum_y g) old_yp,
             ps_sum_xy := lsub M (ps_sum_xy g) (ladd M (lmul M old_xp old_y) (lmul M old_x old_yp)),
             ps_sum_xx := lsub M (ps_sum_xx g) (lmul M (lmul M (llit M 2) old_x) old_xp),
             ps_sum_yy := lsub M (ps_sum_yy g) (lmul M (lmul M (llit M 2) old_y) old_yp)\<rparr>
      else g\<lparr>ps_count := Suc (ps_count g)\<rparr>)"

definition ps_write ::
    "'f machine \<Rightarrow> nat \<Rightarrow> 'f RollingPairSensitivityState \<Rightarrow> 'f \<times> 'f \<Rightarrow> 'f \<times> 'f \<Rightarrow> 'f RollingPairSensitivityState" where
  "ps_write M head g x y =
     (let (x, x_grad) = x; (y, y_grad) = y
      in g\<lparr>ps_x_buf := (ps_x_buf g)[head := x_grad], ps_y_buf := (ps_y_buf g)[head := y_grad],
           ps_sum_x := ladd M (ps_sum_x g) x_grad, ps_sum_y := ladd M (ps_sum_y g) y_grad,
           ps_sum_xy := ladd M (ps_sum_xy g) (dadd M (dmul M x_grad y) (dmul M x y_grad)),
           ps_sum_xx := ladd M (ps_sum_xx g) (lmul M (lmul M (llit M 2) x) x_grad),
           ps_sum_yy := ladd M (ps_sum_yy g) (lmul M (lmul M (llit M 2) y) y_grad)\<rparr>)"

definition pair_grad_push ::
    "'f machine \<Rightarrow> 'f \<times> 'f \<Rightarrow> 'f \<times> 'f \<Rightarrow> nat \<Rightarrow> 'f RollingPairState \<times> 'f RollingPairSensitivityState \<Rightarrow>
       'f RollingPairState \<times> 'f RollingPairSensitivityState" where
  "pair_grad_push M x y period st =
     (let s = (if rp_capacity (fst st) \<noteq> period then pair_reset M period (fst st) else fst st);
          g = (if ps_capacity (snd st) \<noteq> period then ps_reset M period (snd st) else snd st);
          s' = pair_step M s (fst x, fst y);
          g' = ps_write M (rp_head s) (ps_evict M s g) x y
      in (s', g'\<lparr>ps_head := rp_head s'\<rparr>))"

text \<open>The derivatives of the unnormalised moments: of \<open>sum_ab - sum_a * sum_b / n\<close>, and of the
  variance, where the source writes the product with 2.\<close>

definition cov_prime :: "'f machine \<Rightarrow> 'f RollingPairState \<Rightarrow> 'f RollingPairSensitivityState \<Rightarrow> 'f \<Rightarrow> 'f" where
  "cov_prime M s g n =
     lsub M (ps_sum_xy g) (ldiv M (ladd M (lmul M (ps_sum_x g) (rp_sum_y s)) (lmul M (rp_sum_x s) (ps_sum_y g))) n)"

definition var_prime :: "'f machine \<Rightarrow> 'f \<Rightarrow> 'f \<Rightarrow> 'f \<Rightarrow> 'f \<Rightarrow> 'f" where
  "var_prime M sum_xx' sum_x sum_x' n = lsub M sum_xx' (ldiv M (lmul M (lmul M (llit M 2) sum_x) sum_x') n)"

definition corr_grad_value ::
    "'f machine \<Rightarrow> 'f RollingPairState \<times> 'f RollingPairSensitivityState \<Rightarrow> 'f \<times> 'f" where
  "corr_grad_value M st =
     (let (s, g) = st
      in if \<not> RollingPairFull s then both_nan M
         else
           let n = lnat M (rp_count s);
               cov = moment M (rp_sum_xy s) (rp_sum_x s) (rp_sum_y s) n;
               cov' = cov_prime M s g n;
               var_x = moment M (rp_sum_xx s) (rp_sum_x s) (rp_sum_x s) n;
               var_x' = var_prime M (ps_sum_xx g) (rp_sum_x s) (ps_sum_x g) n;
               var_y = moment M (rp_sum_yy s) (rp_sum_y s) (rp_sum_y s) n;
               var_y' = var_prime M (ps_sum_yy g) (rp_sum_y s) (ps_sum_y g) n;
               denom = dsqrt M (narrow M (lmul M var_x var_y));
               denom' = ldiv M (ladd M (lmul M var_x' var_y) (lmul M var_x var_y')) (lmul M (llit M 2) denom);
               corr' = lsub M (ldiv M cov' denom) (ldiv M (lmul M cov denom') (lmul M denom denom))
           in (RollingPairCorrelation M s, narrow M corr'))"

definition beta_grad_value ::
    "'f machine \<Rightarrow> 'f RollingPairState \<times> 'f RollingPairSensitivityState \<Rightarrow> 'f \<times> 'f" where
  "beta_grad_value M st =
     (let (s, g) = st
      in if \<not> RollingPairFull s then both_nan M
         else
           let n = lnat M (rp_count s);
               cov = moment M (rp_sum_xy s) (rp_sum_x s) (rp_sum_y s) n;
               cov' = cov_prime M s g n;
               var_x = moment M (rp_sum_xx s) (rp_sum_x s) (rp_sum_x s) n;
               var_x' = var_prime M (ps_sum_xx g) (rp_sum_x s) (ps_sum_x g) n
           in (RollingPairBeta M s,
               narrow M (ldiv M (lsub M (lmul M cov' var_x) (lmul M cov var_x')) (lmul M var_x var_x))))"

definition pair_grad_step ::
    "('f RollingPairState \<times> 'f RollingPairSensitivityState \<Rightarrow> 'f \<times> 'f) \<Rightarrow>
       'f machine \<Rightarrow> 'f \<times> 'f \<Rightarrow> 'f \<times> 'f \<Rightarrow> nat \<Rightarrow>
       ('f RollingPairState \<times> 'f RollingPairSensitivityState, 'f \<times> 'f) prog" where
  "pair_grad_step readout M x y period st =
     (if period = 0 then (Inl (Undefined ''empty ring''), st)
      else let st' = pair_grad_push M x y period st in (Inr (readout st'), st'))"

definition jit_rt_rolling_corr_grad ::
    "'f machine \<Rightarrow> int \<Rightarrow> 'f \<times> 'f \<Rightarrow> 'f \<times> 'f \<Rightarrow> int \<Rightarrow> int \<Rightarrow> ('f SignalContext, 'f \<times> 'f) prog" where
  "jit_rt_rolling_corr_grad M node_id x y period pid =
     on_grad rolling_corr_states rolling_corr_states_update rolling_corr_sens rolling_corr_sens_update node_id pid
       (pair_grad_step (corr_grad_value M) M x y (nat period))"

definition jit_rt_rolling_beta_grad ::
    "'f machine \<Rightarrow> int \<Rightarrow> 'f \<times> 'f \<Rightarrow> 'f \<times> 'f \<Rightarrow> int \<Rightarrow> int \<Rightarrow> ('f SignalContext, 'f \<times> 'f) prog" where
  "jit_rt_rolling_beta_grad M node_id x y period pid =
     on_grad rolling_beta_states rolling_beta_states_update rolling_beta_sens rolling_beta_sens_update node_id pid
       (pair_grad_step (beta_grad_value M) M x y (nat period))"

section \<open>Extrema and crossings\<close>

text \<open>The ring of the sensitivities of the samples, indexed by the tick.\<close>

definition grad_ring_push :: "'f machine \<Rightarrow> nat \<Rightarrow> nat \<Rightarrow> nat \<Rightarrow> 'f LagState \<Rightarrow> 'f \<Rightarrow> 'f LagState" where
  "grad_ring_push M p before_idx tick_idx ring x_grad =
     (let r = (if lg_capacity ring \<noteq> p then lag_reset M p ring else ring)
      in if 0 < lg_capacity r
         then r\<lparr>lg_count := if lg_count r < lg_capacity r then Suc (lg_count r) else lg_count r,
                lg_buffer := (lg_buffer r)[before_idx mod lg_capacity r := x_grad],
                lg_head := tick_idx mod lg_capacity r\<rparr>
         else r)"

definition minmax_grad_step ::
    "'f machine \<Rightarrow> nat \<Rightarrow> ('f MonoDequeState \<Rightarrow> nat \<Rightarrow> ('f \<times> 'f MonoDequeState \<times> nat) result) \<Rightarrow> 'f \<Rightarrow>
       ('f MonoDequeState \<times> nat \<times> 'f LagState, 'f \<times> 'f) prog" where
  "minmax_grad_step M p update x_grad st =
     (let (dq, before_idx, ring) = st
      in case update dq before_idx of
           Inl e \<Rightarrow> (Inl e, st)
         | Inr (out, dq', tick_idx) \<Rightarrow>
             let ring' = grad_ring_push M p before_idx tick_idx ring x_grad;
                 active_tick = fst (MonoFront dq')
             in (if tick_idx < p then Inr (both_nan M)
                 else if p = 0 then Inl (Undefined ''modulo by zero'')
                 else Inr (out, lg_buffer ring' ! (active_tick mod p)),
                 dq', tick_idx, ring'))"

definition on_deque_grad ::
    "('f PrimalStates \<Rightarrow> 'f MonoDequeState list) \<Rightarrow>
     (('f MonoDequeState list \<Rightarrow> 'f MonoDequeState list) \<Rightarrow> 'f PrimalStates \<Rightarrow> 'f PrimalStates) \<Rightarrow>
     ('f PrimalStates \<Rightarrow> nat list) \<Rightarrow> ((nat list \<Rightarrow> nat list) \<Rightarrow> 'f PrimalStates \<Rightarrow> 'f PrimalStates) \<Rightarrow>
     ('f SensitivityStates \<Rightarrow> 'f LagState list) \<Rightarrow>
     (('f LagState list \<Rightarrow> 'f LagState list) \<Rightarrow> 'f SensitivityStates \<Rightarrow> 'f SensitivityStates) \<Rightarrow>
       int \<Rightarrow> int \<Rightarrow> ('f MonoDequeState \<times> nat \<times> 'f LagState, 'c) prog \<Rightarrow> ('f SignalContext, 'c) prog" where
  "on_deque_grad get put get_idx put_idx gets puts node_id pid f ctx =
     (let i = nat node_id in
      case rbind (CheckedGradientParam ctx pid) (GradientSlot ctx i) of
        Inl e \<Rightarrow> (Inl e, ctx)
      | Inr slot \<Rightarrow>
          if 0 \<le> node_id \<and> i < length (get (primal ctx)) \<and> i < length (get_idx (primal ctx)) \<and>
             slot < length (gets (sens ctx))
          then let (r, dq, idx, g) = f (get (primal ctx) ! i, get_idx (primal ctx) ! i, gets (sens ctx) ! slot)
               in (r, ctx\<lparr>primal := put (\<lambda>xs. xs[i := dq]) (put_idx (\<lambda>xs. xs[i := idx]) (primal ctx)),
                          sens := puts (\<lambda>xs. xs[slot := g]) (sens ctx)\<rparr>)
          else (Inl (Undefined ''operator slot''), ctx))"

definition jit_rt_rolling_min_grad ::
    "'f machine \<Rightarrow> int \<Rightarrow> 'f \<times> 'f \<Rightarrow> int \<Rightarrow> int \<Rightarrow> ('f SignalContext, 'f \<times> 'f) prog" where
  "jit_rt_rolling_min_grad M node_id x period pid =
     on_deque_grad rolling_min_deques rolling_min_deques_update rolling_min_indices rolling_min_indices_update
       rolling_min_sens rolling_min_sens_update node_id pid
       (minmax_grad_step M (nat period) (\<lambda>dq idx. UpdateRollingMinPrepared M dq idx (fst x)) (snd x))"

definition jit_rt_rolling_max_grad ::
    "'f machine \<Rightarrow> int \<Rightarrow> 'f \<times> 'f \<Rightarrow> int \<Rightarrow> int \<Rightarrow> ('f SignalContext, 'f \<times> 'f) prog" where
  "jit_rt_rolling_max_grad M node_id x period pid =
     on_deque_grad rolling_max_deques rolling_max_deques_update rolling_max_indices rolling_max_indices_update
       rolling_max_sens rolling_max_sens_update node_id pid
       (minmax_grad_step M (nat period) (\<lambda>dq idx. UpdateRollingMaxPrepared M dq idx (fst x)) (snd x))"

text \<open>A crossing is piecewise constant: its derivative is reported as 0.\<close>

definition with_zero :: "'f machine \<Rightarrow> ('s, 'f) prog \<Rightarrow> ('s, 'f \<times> 'f) prog" where
  "with_zero M f = bindm f (\<lambda>v. ret (v, dlit M 0))"

definition jit_rt_cross_above_grad ::
    "'f machine \<Rightarrow> int \<Rightarrow> 'f \<Rightarrow> 'f \<Rightarrow> int \<Rightarrow> ('f SignalContext, 'f \<times> 'f) prog" where
  "jit_rt_cross_above_grad M node_id a b pid = with_zero M (jit_rt_cross_above M node_id a b)"

definition jit_rt_cross_below_grad ::
    "'f machine \<Rightarrow> int \<Rightarrow> 'f \<Rightarrow> 'f \<Rightarrow> int \<Rightarrow> ('f SignalContext, 'f \<times> 'f) prog" where
  "jit_rt_cross_below_grad M node_id a b pid = with_zero M (jit_rt_cross_below M node_id a b)"

end
