(* ===== verification/Gradient_Facts.thy ===== *)
theory Gradient_Facts
  imports Gradient_Runtime Operator_Streams
begin

text \<open>
  What the gradient helpers compute in exact arithmetic: along a stream of samples that depend on a
  parameter, fed with the values and the derivatives of the samples at one point, they return the
  value and the derivative at that point of the function of the parameter that the operator
  computes. For the recursive operators (the exponential average, the Kalman filter) that function
  is the operator itself run at each value of the parameter; for the windowed ones it is the
  closed form of the window. One case fails: see \<open>rolling_std_grad_clamped\<close>.
\<close>

section \<open>Values with derivatives\<close>

text \<open>\<open>F\<close> is the output as a function of the parameter and \<open>d\<close> the pair a helper returns at
  \<open>t\<close>: the values agree, and when there is one, \<open>F\<close> has a value near \<open>t\<close> whose derivative is the
  second component.\<close>

definition derives :: "(real \<Rightarrow> xreal) \<Rightarrow> real \<Rightarrow> xreal \<times> xreal \<Rightarrow> bool" where
  "derives F t d \<longleftrightarrow> F t = fst d \<and>
     (fst d \<noteq> None \<longrightarrow> (\<exists>f f'. (\<forall>\<^sub>F \<theta> in nhds t. F \<theta> = Some (f \<theta>)) \<and> snd d = Some f' \<and>
        (f has_real_derivative f') (at t)))"

definition dual :: "(real \<Rightarrow> real) \<Rightarrow> real \<Rightarrow> xreal \<times> xreal \<Rightarrow> bool" where
  "dual f t d \<longleftrightarrow> (\<exists>f'. d = (Some (f t), Some f') \<and> (f has_real_derivative f') (at t))"

lemma dual_derives: "dual f t d \<Longrightarrow> (\<forall>\<^sub>F \<theta> in nhds t. F \<theta> = Some (f \<theta>)) \<Longrightarrow> derives F t d"
  by (auto simp: dual_def derives_def dest: eventually_nhds_x_imp_x)

text \<open>A step of an operator and the step of its gradient helper. \<open>rel\<close> relates the states of the
  operator at every value of the parameter to the state of the helper at \<open>t\<close>.\<close>

locale derivative_step =
  fixes operator :: "'s \<Rightarrow> 'x \<Rightarrow> xreal \<times> 's"
    and helper :: "'g \<Rightarrow> 'd \<Rightarrow> (xreal \<times> xreal) \<times> 'g"
    and rel :: "real \<Rightarrow> (real \<Rightarrow> 's) \<Rightarrow> 'g \<Rightarrow> bool"
    and input :: "real \<Rightarrow> (real \<Rightarrow> 'x) \<Rightarrow> 'd \<Rightarrow> bool"
  assumes step: "rel t \<sigma> g \<Longrightarrow> input t x d \<Longrightarrow>
      derives (\<lambda>\<theta>. fst (operator (\<sigma> \<theta>) (x \<theta>))) t (fst (helper g d)) \<and>
      rel t (\<lambda>\<theta>. snd (operator (\<sigma> \<theta>) (x \<theta>))) (snd (helper g d))"
begin

lemma stream:
  assumes "rel t \<sigma> g" and "list_all2 (input t) xs ds" and "n < length xs"
  shows "derives (\<lambda>\<theta>. emit operator (\<sigma> \<theta>) (map (\<lambda>x. x \<theta>) xs) ! n) t (emit helper g ds ! n)"
  using assms(2,1,3)
proof (induction xs ds arbitrary: \<sigma> g n rule: list_all2_induct)
  case (Cons x xs d ds)
  note one = step [OF Cons.prems(1) Cons.hyps(1)]
  show ?case
  proof (cases n)
    case 0
    with one show ?thesis by (simp add: case_prod_unfold Let_def)
  next
    case (Suc m)
    with Cons.IH [of "\<lambda>\<theta>. snd (operator (\<sigma> \<theta>) (x \<theta>))" "snd (helper g d)" m] one Cons.prems(2)
    show ?thesis by (simp add: case_prod_unfold Let_def)
  qed
qed simp

end

section \<open>The exponential average\<close>

definition ema_rel :: "real \<Rightarrow> (real \<Rightarrow> xreal EMAState) \<Rightarrow> xreal EMAState \<times> xreal \<Rightarrow> bool" where
  "ema_rel t \<sigma> st \<longleftrightarrow>
     (\<forall>\<theta>. ema_initialized (\<sigma> \<theta>) = ema_initialized (fst st)) \<and>
     (ema_initialized (fst st) \<longrightarrow>
        (\<exists>f. (\<forall>\<theta>. ema_value (\<sigma> \<theta>) = Some (f \<theta>)) \<and> dual f t (ema_value (fst st), snd st)))"

lemma dual_blend:
  assumes "dual a t (a0, a1)" and "dual x t (x0, x1)" and "dual f t (v, g)"
  shows "dual (\<lambda>\<theta>. a \<theta> * x \<theta> + (1 - a \<theta>) * f \<theta>) t
    (dadd exact (dmul exact a0 x0) (dmul exact (dsub exact (dlit exact 1) a0) v),
     dadd exact (dadd exact (dmul exact a0 x1) (dmul exact (dsub exact (dlit exact 1) a0) g))
       (dmul exact a1 (dsub exact x0 v)))"
proof -
  from assms obtain a' x' f' where
    v: "a0 = Some (a t)" "a1 = Some a'" "x0 = Some (x t)" "x1 = Some x'" "v = Some (f t)" "g = Some f'"
    and d: "(a has_real_derivative a') (at t)" "(x has_real_derivative x') (at t)" "(f has_real_derivative f') (at t)"
    by (auto simp: dual_def)
  have "((\<lambda>\<theta>. a \<theta> * x \<theta> + (1 - a \<theta>) * f \<theta>) has_real_derivative
      a t * x' + (1 - a t) * f' + a' * (x t - f t)) (at t)"
    by (rule derivative_eq_intros d refl | simp add: algebra_simps)+
  then show ?thesis by (simp add: dual_def v)
qed

interpretation ema_gradient: derivative_step
  "\<lambda>s (x, a). interp_ema_alpha_step exact s x a"
  "\<lambda>st (x, a). ema_alpha_grad_step exact x a period st"
  ema_rel
  "\<lambda>t fa (x, a). \<exists>f g. fa = (\<lambda>\<theta>. (Some (f \<theta>), Some (g \<theta>))) \<and> dual f t x \<and> dual g t a"
  for period
proof (unfold_locales, goal_cases)
  case (1 t \<sigma> st fa d)
  obtain x a where d: "d = (x, a)" by (cases d)
  with 1(2) obtain f g where fa: "fa = (\<lambda>\<theta>. (Some (f \<theta>), Some (g \<theta>)))" and f: "dual f t x" and g: "dual g t a"
    by auto
  obtain x0 x1 a0 a1 s gr where split: "x = (x0, x1)" "a = (a0, a1)" "st = (s, gr)" by (metis surj_pair)
  from f split have x0: "x0 = Some (f t)" by (simp add: dual_def)
  show ?case
  proof (cases "ema_initialized s")
    case False
    with 1(1) split have "\<not> ema_initialized (\<sigma> \<theta>)" for \<theta> by (simp add: ema_rel_def)
    with False f show ?thesis
      by (auto simp: d fa split interp_ema_alpha_step_def ema_alpha_grad_step_def ema_rel_def
          intro: dual_derives)
  next
    case True
    with 1(1) split obtain v where i: "ema_initialized (\<sigma> \<theta>)" and v: "ema_value (\<sigma> \<theta>) = Some (v \<theta>)"
      and dv: "dual v t (ema_value s, gr)" for \<theta>
      by (auto simp: ema_rel_def)
    note blend = dual_blend [OF g [unfolded split] f [unfolded split] dv]
    with True i v show ?thesis
      by (auto simp: d fa split interp_ema_alpha_step_def ema_alpha_grad_step_def ema_rel_def ema_blend_exact
          Let_def intro!: dual_derives)
  qed
qed

text \<open>C22: In exact arithmetic the gradient helper of ema_alpha, fed along a stream with the values
  and derivatives at \<open>t\<close> of samples and coefficients that depend on a parameter, emits at every
  position the value and the derivative at \<open>t\<close> of what the operator emits as a function of the
  parameter.\<close>

theorem ema_alpha_gradient:
  assumes "\<not> ema_initialized s" and "n < length fs"
    and "list_all2 (\<lambda>(f, a) (x, y). dual f t x \<and> dual a t y) fs ds"
  shows "derives (\<lambda>\<theta>. emit (\<lambda>s (x, a). interp_ema_alpha_step exact s x a) s
       (map (\<lambda>(f, a). (Some (f \<theta>), Some (a \<theta>))) fs) ! n) t
     (emit (\<lambda>st (x, a). ema_alpha_grad_step exact x a period st) (s, g) ds ! n)"
proof -
  define xs where "xs = map (\<lambda>(f, a) \<theta>. (Some (f \<theta>), Some (a \<theta>))) fs"
  have "list_all2 (\<lambda>fa (x, a). \<exists>f g. fa = (\<lambda>\<theta>. (Some (f \<theta>), Some (g \<theta>))) \<and> dual f t x \<and> dual g t a) xs ds"
    unfolding xs_def list.rel_map by (rule list.rel_mono_strong [OF assms(3)]) auto
  moreover have "ema_rel t (\<lambda>_. s) (s, g)" using assms(1) by (simp add: ema_rel_def)
  ultimately have "derives (\<lambda>\<theta>. emit (\<lambda>s (x, a). interp_ema_alpha_step exact s x a) s (map (\<lambda>x. x \<theta>) xs) ! n) t
     (emit (\<lambda>st (x, a). ema_alpha_grad_step exact x a period st) (s, g) ds ! n)"
    using assms(2) by (intro ema_gradient.stream) (simp_all add: xs_def)
  then show ?thesis by (simp add: xs_def case_prod_unfold comp_def)
qed

theorem ema_alpha_gradient_witness:
  "derives (\<lambda>\<theta>. emit (\<lambda>s (x, a). interp_ema_alpha_step exact s x a) (EMAState0 exact)
       (map (\<lambda>(f, a). (Some (f \<theta>), Some (a \<theta>))) [(\<lambda>_. 0, \<lambda>\<theta>. \<theta>), (\<lambda>_. 1, \<lambda>\<theta>. \<theta>)]) ! 1) (1 / 2)
     (emit (\<lambda>st (x, a). ema_alpha_grad_step exact x a 0 st) (EMAState0 exact, Some 0)
       [((Some 0, Some 0), (Some (1 / 2), Some 1)), ((Some 1, Some 0), (Some (1 / 2), Some 1))] ! 1)"
  by (rule ema_alpha_gradient)
    (auto simp: EMAState0_def dual_def intro!: derivative_eq_intros)

section \<open>The Kalman filter\<close>

definition kalman_rel ::
    "real \<Rightarrow> (real \<Rightarrow> xreal Kalman1dState) \<Rightarrow> xreal Kalman1dState \<times> xreal Kalman1dSensitivityState \<Rightarrow> bool" where
  "kalman_rel t \<sigma> st \<longleftrightarrow>
     (\<forall>\<theta>. ka_initialized (\<sigma> \<theta>) = ka_initialized (fst st)) \<and>
     (ka_initialized (fst st) \<longrightarrow>
        (\<exists>h p. dual h t (ka_x_hat (fst st), ks_x_hat (snd st)) \<and> dual p t (ka_p (fst st), ks_p (snd st)) \<and>
           (\<forall>\<^sub>F \<theta> in nhds t. ka_x_hat (\<sigma> \<theta>) = Some (h \<theta>) \<and> ka_p (\<sigma> \<theta>) = Some (p \<theta>) \<and> 0 \<le> p \<theta>)))"

definition kalman_input :: "real \<Rightarrow> (real \<Rightarrow> xreal \<times> xreal \<times> xreal) \<Rightarrow>
    (xreal \<times> xreal) \<times> (xreal \<times> xreal) \<times> xreal \<times> xreal \<Rightarrow> bool" where
  "kalman_input t xqr d \<longleftrightarrow>
     (\<exists>x q r. xqr = (\<lambda>\<theta>. (Some (x \<theta>), Some (q \<theta>), Some (r \<theta>))) \<and>
        dual x t (fst d) \<and> dual q t (fst (snd d)) \<and> dual r t (snd (snd d)) \<and>
        (\<forall>\<^sub>F \<theta> in nhds t. 0 \<le> q \<theta> \<and> 0 < r \<theta>))"

text \<open>The derivative of the gain, of the estimate and of the variance in one step.\<close>

lemma kalman_derivatives:
  fixes h x p q r :: "real \<Rightarrow> real"
  assumes d: "(h has_real_derivative h') (at t)" "(x has_real_derivative x') (at t)"
      "(p has_real_derivative p') (at t)" "(q has_real_derivative q') (at t)" "(r has_real_derivative r') (at t)"
    and pos: "0 < p t + q t + r t"
  defines "k \<equiv> \<lambda>\<theta>. (p \<theta> + q \<theta>) / (p \<theta> + q \<theta> + r \<theta>)"
  defines "k' \<equiv> ((p' + q') * (p t + q t + r t) - (p t + q t) * (p' + q' + r')) /
      ((p t + q t + r t) * (p t + q t + r t))"
  shows "((\<lambda>\<theta>. h \<theta> + k \<theta> * (x \<theta> - h \<theta>)) has_real_derivative h' + k' * (x t - h t) + k t * (x' - h')) (at t)"
    and "((\<lambda>\<theta>. (1 - k \<theta>) * (p \<theta> + q \<theta>)) has_real_derivative - k' * (p t + q t) + (1 - k t) * (p' + q')) (at t)"
proof -
  have k: "(k has_real_derivative k') (at t)"
    unfolding k_def k'_def using pos by (intro DERIV_divide DERIV_add d) simp
  show "((\<lambda>\<theta>. h \<theta> + k \<theta> * (x \<theta> - h \<theta>)) has_real_derivative h' + k' * (x t - h t) + k t * (x' - h')) (at t)"
    by (rule derivative_eq_intros d k refl | simp add: algebra_simps)+
  show "((\<lambda>\<theta>. (1 - k \<theta>) * (p \<theta> + q \<theta>)) has_real_derivative - k' * (p t + q t) + (1 - k t) * (p' + q')) (at t)"
    by (rule derivative_eq_intros d k refl | simp add: algebra_simps)+
qed

lemma kalman1d_grad_step_exact:
  fixes h p q r h' p' q' r' :: real
  assumes "ka_initialized s" and pos: "0 \<le> p" "0 \<le> q" "0 < r"
    and s: "ka_x_hat s = Some h" "ks_x_hat g = Some h'" "ka_p s = Some p" "ks_p g = Some p'"
  defines "k \<equiv> (p + q) / (p + q + r)"
  defines "k' \<equiv> ((p' + q') * (p + q + r) - (p + q) * (p' + q' + r')) / ((p + q + r) * (p + q + r))"
  shows "kalman1d_grad_step exact (Some x, Some x') (Some q, Some q') (Some r, Some r') (s, g) =
     ((Some (h + k * (x - h)), Some (h' + k' * (x - h) + k * (x' - h'))),
      s\<lparr>ka_x_hat := Some (h + k * (x - h)), ka_p := Some ((1 - k) * (p + q)), ka_q := Some q, ka_r := Some r\<rparr>,
      \<lparr>ks_x_hat = Some (h' + k' * (x - h) + k * (x' - h')),
       ks_p = Some (- k' * (p + q) + (1 - k) * (p' + q'))\<rparr>)"
proof -
  from pos have "p + q + r \<noteq> 0" "\<not> p + q + r \<le> 0" by auto
  moreover have "\<not> (1 - k) * (p + q) < 0"
    unfolding k_def using Kalman1dStep_exact(5) [of "s\<lparr>ka_x_hat := Some h, ka_p := Some p\<rparr>" h p q r] assms(1) pos
    by (simp add: not_less)
  ultimately show ?thesis
    using assms(1) s by (simp add: kalman1d_grad_step_def Let_def flip: k_def k'_def)
qed

lemma kalman_dual_step:
  assumes init: "ka_initialized s" and pos: "0 \<le> p t" "0 \<le> q t" "0 < r t"
    and duals: "dual h t (ka_x_hat s, ks_x_hat g)" "dual p t (ka_p s, ks_p g)"
      "dual x t dx" "dual q t dq" "dual r t dr"
    and step: "kalman1d_grad_step exact dx dq dr (s, g) = (v, s', g')"
  defines "k \<equiv> \<lambda>\<theta>. (p \<theta> + q \<theta>) / (p \<theta> + q \<theta> + r \<theta>)"
  shows "v = (ka_x_hat s', ks_x_hat g') \<and> ka_initialized s' \<and>
    dual (\<lambda>\<theta>. h \<theta> + k \<theta> * (x \<theta> - h \<theta>)) t v \<and>
    dual (\<lambda>\<theta>. (1 - k \<theta>) * (p \<theta> + q \<theta>)) t (ka_p s', ks_p g')"
proof -
  from duals obtain h' p' x' q' r' where
    v: "dx = (Some (x t), Some x')" "dq = (Some (q t), Some q')" "dr = (Some (r t), Some r')"
      "ka_x_hat s = Some (h t)" "ks_x_hat g = Some h'" "ka_p s = Some (p t)" "ks_p g = Some p'"
    and D: "(h has_real_derivative h') (at t)" "(x has_real_derivative x') (at t)"
      "(p has_real_derivative p') (at t)" "(q has_real_derivative q') (at t)" "(r has_real_derivative r') (at t)"
    by (auto simp: dual_def)
  from pos have "0 < p t + q t + r t" by simp
  note deriv = kalman_derivatives [OF D this]
  from step kalman1d_grad_step_exact [OF init pos v(4-7), where x = "x t" and x' = x' and q' = q' and r' = r']
  show ?thesis
    unfolding k_def v(1-3) dual_def using deriv init by auto
qed

lemma kalman_step_near:
  fixes x :: "real \<Rightarrow> real"
  assumes init: "\<And>\<theta>. ka_initialized (\<sigma> \<theta>)" and ev: "\<forall>\<^sub>F \<theta> in nhds t. 0 \<le> q \<theta> \<and> 0 < r \<theta>"
    and near: "\<forall>\<^sub>F \<theta> in nhds t. ka_x_hat (\<sigma> \<theta>) = Some (h \<theta>) \<and> ka_p (\<sigma> \<theta>) = Some (p \<theta>) \<and> 0 \<le> p \<theta>"
  defines "k \<equiv> \<lambda>\<theta>. (p \<theta> + q \<theta>) / (p \<theta> + q \<theta> + r \<theta>)"
  defines "out \<equiv> \<lambda>\<theta>. Kalman1dStep exact (\<sigma> \<theta>) (Some (x \<theta>)) (Some (q \<theta>)) (Some (r \<theta>))"
  shows "\<forall>\<^sub>F \<theta> in nhds t. fst (out \<theta>) = Some (h \<theta> + k \<theta> * (x \<theta> - h \<theta>))"
    and "\<forall>\<^sub>F \<theta> in nhds t. ka_x_hat (snd (out \<theta>)) = Some (h \<theta> + k \<theta> * (x \<theta> - h \<theta>)) \<and>
      ka_p (snd (out \<theta>)) = Some ((1 - k \<theta>) * (p \<theta> + q \<theta>)) \<and> 0 \<le> (1 - k \<theta>) * (p \<theta> + q \<theta>)"
    and "ka_initialized (snd (out \<theta>))"
proof -
  note both = eventually_conj [OF near ev]
  show "\<forall>\<^sub>F \<theta> in nhds t. fst (out \<theta>) = Some (h \<theta> + k \<theta> * (x \<theta> - h \<theta>))"
    unfolding out_def k_def
    by (rule eventually_mono [OF both]) (use Kalman1dStep_exact(1) [OF init] in auto)
  show "\<forall>\<^sub>F \<theta> in nhds t. ka_x_hat (snd (out \<theta>)) = Some (h \<theta> + k \<theta> * (x \<theta> - h \<theta>)) \<and>
      ka_p (snd (out \<theta>)) = Some ((1 - k \<theta>) * (p \<theta> + q \<theta>)) \<and> 0 \<le> (1 - k \<theta>) * (p \<theta> + q \<theta>)"
    unfolding out_def k_def
    by (rule eventually_mono [OF both]) (use Kalman1dStep_exact(1,5) [OF init] in auto)
  show "ka_initialized (snd (out \<theta>))"
    using init by (simp add: out_def Kalman1dStep_def Let_def)
qed

interpretation kalman_gradient: derivative_step
  "\<lambda>s (x, q, r). Kalman1dStep exact s x q r"
  "\<lambda>st (x, q, r). kalman1d_grad_step exact x q r st"
  kalman_rel kalman_input
proof (unfold_locales, goal_cases)
  case (1 t \<sigma> st xqr d)
  obtain s g dx dq dr where st: "st = (s, g)" and d: "d = (dx, dq, dr)" by (metis surj_pair)
  from 1(2) d obtain x q r where xqr: "xqr = (\<lambda>\<theta>. (Some (x \<theta>), Some (q \<theta>), Some (r \<theta>)))"
    and duals: "dual x t dx" "dual q t dq" "dual r t dr" and ev: "\<forall>\<^sub>F \<theta> in nhds t. 0 \<le> q \<theta> \<and> 0 < r \<theta>"
    by (auto simp: kalman_input_def)
  show ?case
  proof (cases "ka_initialized s")
    case False
    obtain dx' dr' where v: "dx = (Some (x t), dx')" "dr = (Some (r t), dr')"
      using duals by (auto simp: dual_def)
    from False 1(1) st have "\<not> ka_initialized (\<sigma> \<theta>)" for \<theta> by (simp add: kalman_rel_def)
    moreover have "\<exists>h p. dual h t dx \<and> dual p t dr \<and>
        (\<forall>\<^sub>F \<theta> in nhds t. Some (x \<theta>) = Some (h \<theta>) \<and> Some (r \<theta>) = Some (p \<theta>) \<and> 0 \<le> p \<theta>)"
      by (rule exI [of _ x], rule exI [of _ r]) (use duals ev in \<open>auto elim: eventually_mono\<close>)
    ultimately show ?thesis
      using False dual_derives [OF duals(1), of "\<lambda>\<theta>. Some (x \<theta>)"]
      by (simp add: d xqr st v Kalman1dStep_def kalman1d_grad_step_def kalman_rel_def split: prod.splits)
  next
    case True
    with 1(1) st obtain h p where init: "\<And>\<theta>. ka_initialized (\<sigma> \<theta>)"
      and hp: "dual h t (ka_x_hat s, ks_x_hat g)" "dual p t (ka_p s, ks_p g)"
      and near: "\<forall>\<^sub>F \<theta> in nhds t. ka_x_hat (\<sigma> \<theta>) = Some (h \<theta>) \<and> ka_p (\<sigma> \<theta>) = Some (p \<theta>) \<and> 0 \<le> p \<theta>"
      by (auto simp: kalman_rel_def)
    from eventually_nhds_x_imp_x [OF ev] eventually_nhds_x_imp_x [OF near]
    have pos: "0 \<le> p t" "0 \<le> q t" "0 < r t" by auto
    obtain v s' g' where step: "kalman1d_grad_step exact dx dq dr (s, g) = (v, s', g')" by (metis surj_pair)
    note helper = kalman_dual_step [OF True pos hp duals step]
    note op = kalman_step_near [OF init ev near, where x = x]
    have "derives (\<lambda>\<theta>. fst (Kalman1dStep exact (\<sigma> \<theta>) (Some (x \<theta>)) (Some (q \<theta>)) (Some (r \<theta>)))) t v"
      using helper op(1) by (blast intro: dual_derives)
    then show ?thesis
      using helper op(2,3) by (auto simp: d xqr st step kalman_rel_def intro!: exI)
  qed
qed

text \<open>C12: In exact arithmetic the gradient helper of kalman1d, fed along a stream with the values and
  derivatives at \<open>t\<close> of measurements, process noise and measurement noise that depend on a parameter
  (the noises non-negative and positive near \<open>t\<close>), emits at every position the value and the
  derivative at \<open>t\<close> of the filter's estimate as a function of the parameter.\<close>

theorem kalman1d_gradient:
  assumes "\<not> ka_initialized s" and "n < length fs"
    and "list_all2 (\<lambda>(f, q, r) (x, dq, dr). dual f t x \<and> dual q t dq \<and> dual r t dr \<and>
       (\<forall>\<^sub>F \<theta> in nhds t. 0 \<le> q \<theta> \<and> 0 < r \<theta>)) fs ds"
  shows "derives (\<lambda>\<theta>. emit (\<lambda>s (x, q, r). Kalman1dStep exact s x q r) s
       (map (\<lambda>(f, q, r). (Some (f \<theta>), Some (q \<theta>), Some (r \<theta>))) fs) ! n) t
     (emit (\<lambda>st (x, q, r). kalman1d_grad_step exact x q r st) (s, g) ds ! n)"
proof -
  define xs where "xs = map (\<lambda>(f, q, r) \<theta>. (Some (f \<theta>), Some (q \<theta>), Some (r \<theta>))) fs"
  have "list_all2 (kalman_input t) xs ds"
    unfolding xs_def list.rel_map
    by (rule list.rel_mono_strong [OF assms(3)]) (fastforce simp: kalman_input_def)
  moreover have "kalman_rel t (\<lambda>_. s) (s, g)" using assms(1) by (simp add: kalman_rel_def)
  ultimately have "derives (\<lambda>\<theta>. emit (\<lambda>s (x, q, r). Kalman1dStep exact s x q r) s (map (\<lambda>x. x \<theta>) xs) ! n) t
     (emit (\<lambda>st (x, q, r). kalman1d_grad_step exact x q r st) (s, g) ds ! n)"
    using assms(2) by (intro kalman_gradient.stream) (simp_all add: xs_def)
  then show ?thesis by (simp add: xs_def case_prod_unfold comp_def)
qed

theorem kalman1d_gradient_witness:
  "derives (\<lambda>\<theta>. emit (\<lambda>s (x, q, r). Kalman1dStep exact s x q r) (Kalman1dState0 exact)
       (map (\<lambda>(f, q, r). (Some (f \<theta>), Some (q \<theta>), Some (r \<theta>)))
         [(\<lambda>_. 0, \<lambda>_. 0, \<lambda>\<theta>. \<theta>), (\<lambda>_. 1, \<lambda>_. 0, \<lambda>\<theta>. \<theta>)]) ! 1) 1
     (emit (\<lambda>st (x, q, r). kalman1d_grad_step exact x q r st)
       (Kalman1dState0 exact, \<lparr>ks_x_hat = Some 0, ks_p = Some 0\<rparr>)
       [((Some 0, Some 0), (Some 0, Some 0), (Some 1, Some 1)),
        ((Some 1, Some 0), (Some 0, Some 0), (Some 1, Some 1))] ! 1)"
proof -
  have "\<forall>\<^sub>F \<theta> in nhds 1. 0 < (\<theta>::real)" using eventually_nhds_in_open [of "{0<..}" "1::real"] by simp
  then show ?thesis
    by (intro kalman1d_gradient) (auto simp: Kalman1dState0_def dual_def)
qed

section \<open>Sums over a window of samples with derivatives\<close>

text \<open>A sample of a pair of series: two functions of the parameter with their derivatives at \<open>t\<close>.\<close>

type_synonym dual_pair = "(real \<Rightarrow> real) \<times> real \<times> (real \<Rightarrow> real) \<times> real"

definition at_param :: "real \<Rightarrow> dual_pair \<Rightarrow> real \<times> real" where
  "at_param \<theta> = (\<lambda>(f, f', h, h'). (f \<theta>, h \<theta>))"

definition fed :: "real \<Rightarrow> dual_pair \<Rightarrow> (xreal \<times> xreal) \<times> (xreal \<times> xreal)" where
  "fed t = (\<lambda>(f, f', h, h'). ((Some (f t), Some f'), (Some (h t), Some h')))"

definition differentiable_pair :: "real \<Rightarrow> dual_pair \<Rightarrow> bool" where
  "differentiable_pair t = (\<lambda>(f, f', h, h'). (f has_real_derivative f') (at t) \<and> (h has_real_derivative h') (at t))"

lemma sum_list_derivative:
  fixes F :: "'a \<Rightarrow> real \<Rightarrow> real"
  assumes "\<And>d. d \<in> set ds \<Longrightarrow> (F d has_real_derivative F' d) (at t)"
  shows "((\<lambda>\<theta>. \<Sum>d\<leftarrow>ds. F d \<theta>) has_real_derivative (\<Sum>d\<leftarrow>ds. F' d)) (at t)"
  using assms by (induction ds) (auto intro!: DERIV_add)

section \<open>Beta over a window\<close>

definition slope :: "dual_pair \<Rightarrow> real \<times> real" where
  "slope = (\<lambda>(f, f', h, h'). (f', h'))"

lemmas sample_defs = at_param_def fed_def slope_def

definition pair_grad_op ::
    "xreal RollingPairState \<times> xreal RollingPairSensitivityState \<Rightarrow> nat \<Rightarrow> (xreal \<times> xreal) \<times> (xreal \<times> xreal) \<Rightarrow>
       (xreal RollingPairState \<times> xreal RollingPairSensitivityState) result" where
  "pair_grad_op st period xy =
     (let (r, st') = pair_grad_step (beta_grad_value exact) exact (fst xy) (snd xy) period st
      in rbind r (\<lambda>_. Inr st'))"

definition pg_wf :: "'f RollingPairState \<times> 'f RollingPairSensitivityState \<Rightarrow> bool" where
  "pg_wf st \<longleftrightarrow> rp_wf (fst st) \<and> ps_capacity (snd st) = rp_capacity (fst st) \<and>
     ring_wf (ps_x_buf (snd st)) (rp_capacity (fst st)) (rp_head (fst st)) (rp_count (fst st)) \<and>
     ring_wf (ps_y_buf (snd st)) (rp_capacity (fst st)) (rp_head (fst st)) (rp_count (fst st))"

definition ps_window :: "'f RollingPairState \<times> 'f RollingPairSensitivityState \<Rightarrow> ('f \<times> 'f) list" where
  "ps_window st = zip (ring_window (ps_x_buf (snd st)) (rp_capacity (fst st)) (rp_head (fst st)) (rp_count (fst st)))
     (ring_window (ps_y_buf (snd st)) (rp_capacity (fst st)) (rp_head (fst st)) (rp_count (fst st)))"

definition pg_window :: "'f RollingPairState \<times> 'f RollingPairSensitivityState \<Rightarrow> (('f \<times> 'f) \<times> ('f \<times> 'f)) list" where
  "pg_window st = map2 (\<lambda>(x, y) (x', y'). ((x, x'), (y, y'))) (rp_window (fst st)) (ps_window st)"

text \<open>The accumulators of both states are the sums over the window \<open>ws\<close>.\<close>

definition pg_exact ::
    "real \<Rightarrow> xreal RollingPairState \<times> xreal RollingPairSensitivityState \<Rightarrow> dual_pair list \<Rightarrow> bool" where
  "pg_exact t st ws \<longleftrightarrow> rp_exact (fst st) (map (at_param t) ws) \<and>
     ps_window st = map (map_prod Some Some) (map slope ws) \<and>
     ps_sum_x (snd st) = Some (\<Sum>(f, f', h, h')\<leftarrow>ws. f') \<and>
     ps_sum_y (snd st) = Some (\<Sum>(f, f', h, h')\<leftarrow>ws. h') \<and>
     ps_sum_xy (snd st) = Some (\<Sum>(f, f', h, h')\<leftarrow>ws. f' * h t + f t * h') \<and>
     ps_sum_xx (snd st) = Some (\<Sum>(f, f', h, h')\<leftarrow>ws. 2 * f t * f') \<and>
     ps_sum_yy (snd st) = Some (\<Sum>(f, f', h, h')\<leftarrow>ws. 2 * h t * h')"

definition pg_step ::
    "'f machine \<Rightarrow> 'f RollingPairState \<times> 'f RollingPairSensitivityState \<Rightarrow> 'f \<times> 'f \<Rightarrow> 'f \<times> 'f \<Rightarrow>
       'f RollingPairState \<times> 'f RollingPairSensitivityState" where
  "pg_step M st x y =
     (let s' = pair_step M (fst st) (fst x, fst y)
      in (s', (ps_write M (rp_head (fst st)) (ps_evict M (fst st) (snd st)) x y)\<lparr>ps_head := rp_head s'\<rparr>))"

definition pg_prepare ::
    "'f machine \<Rightarrow> nat \<Rightarrow> 'f RollingPairState \<times> 'f RollingPairSensitivityState \<Rightarrow>
       'f RollingPairState \<times> 'f RollingPairSensitivityState" where
  "pg_prepare M p st = (if rp_capacity (fst st) \<noteq> p then pair_reset M p (fst st) else fst st,
     if ps_capacity (snd st) \<noteq> p then ps_reset M p (snd st) else snd st)"

lemma pair_grad_op_eq:
  "pair_grad_op st p xy = (if p = 0 then Inl (Undefined ''empty ring'')
     else Inr (pg_step exact (pg_prepare exact p st) (fst xy) (snd xy)))"
  by (simp add: pair_grad_op_def pair_grad_step_def pair_grad_push_def pg_step_def pg_prepare_def Let_def)

lemma pg_step_ring:
  "fst (pg_step M st x y) = pair_step M (fst st) (fst x, fst y)"
  "ps_x_buf (snd (pg_step M st x y)) = (ps_x_buf (snd st))[rp_head (fst st) := snd x]"
  "ps_y_buf (snd (pg_step M st x y)) = (ps_y_buf (snd st))[rp_head (fst st) := snd y]"
  "ps_capacity (snd (pg_step M st x y)) = ps_capacity (snd st)"
  by (simp_all add: pg_step_def ps_write_def ps_evict_def Let_def case_prod_unfold)

lemma pg_wf_step: "pg_wf st \<Longrightarrow> 0 < rp_capacity (fst st) \<Longrightarrow> pg_wf (pg_step M st x y)"
  by (simp only: pg_wf_def pg_step_ring rp_wf_step pair_step_ring ring_wf_push)

lemma ps_window_step:
  assumes "pg_wf st" and "0 < rp_capacity (fst st)"
  shows "ps_window (pg_step M st x y) = lastn (rp_capacity (fst st)) (ps_window st @ [(snd x, snd y)])"
  using assms by (simp only: ps_window_def pg_step_ring pair_step_ring pg_wf_def zip_ring_push)

lemma pg_window_step:
  assumes "pg_wf st" and "0 < rp_capacity (fst st)"
  shows "pg_window (pg_step M st x y) = lastn (rp_capacity (fst st)) (pg_window st @ [(x, y)])"
proof -
  have len: "length (rp_window (fst st)) = length (ps_window st)" by (simp add: rp_window_def ps_window_def)
  from assms have "rp_wf (fst st)" by (simp add: pg_wf_def)
  from rp_window_step [OF this assms(2), of M "(fst x, fst y)"] ps_window_step [OF assms, of M x y] len
  show ?thesis
    by (simp add: pg_window_def pg_step_ring flip: lastn_zip lastn_map)
qed

lemma pg_wf_prepare:
  assumes "pg_wf st"
  shows "pg_wf (pg_prepare M p st)" and "rp_capacity (fst (pg_prepare M p st)) = p"
    and "pg_window (pg_prepare M p st) = (if rp_capacity (fst st) = p then pg_window st else [])"
  using assms
  by (auto simp: pg_prepare_def pg_wf_def pg_window_def pair_reset_def ps_reset_def ps_window_def
      rp_wf_def rp_window_def ring_wf_def)

interpretation pair_grad:
  sliding_window pair_grad_op pg_wf "\<lambda>st. rp_capacity (fst st)" pg_window
proof (unfold_locales, goal_cases)
  case (1 st p xy)
  note prep = pg_wf_prepare [OF 1(1), of exact p]
  have pos: "0 < rp_capacity (fst (pg_prepare exact p st))" using 1 prep by simp
  from pg_wf_step [OF prep(1) pos] pg_window_step [OF prep(1) pos, of exact "fst xy" "snd xy"] 1(2) prep show ?case
    by (simp add: pair_grad_op_eq pg_step_ring pair_step_ring)
qed (simp add: pair_grad_op_eq)

lemma pg_exact_length: "pg_exact t st ws \<Longrightarrow> length ws = rp_count (fst st)"
  using rp_exact_length [of "fst st" "map (at_param t) ws"] by (simp add: pg_exact_def)

text \<open>The oldest sample, which a full window drops.\<close>

lemma pg_oldest:
  assumes "pg_wf st" and "pg_exact t st ws" and "rp_count (fst st) = rp_capacity (fst st)"
    and "0 < rp_capacity (fst st)"
  obtains f f' h h' vs where "ws = (f, f', h, h') # vs"
    and "rp_x_buf (fst st) ! rp_head (fst st) = Some (f t)" and "rp_y_buf (fst st) ! rp_head (fst st) = Some (h t)"
    and "ps_x_buf (snd st) ! rp_head (fst st) = Some f'" and "ps_y_buf (snd st) ! rp_head (fst st) = Some h'"
proof -
  let ?s = "fst st" and ?g = "snd st"
  from assms obtain a b vs where 1: "map (at_param t) ws = (a, b) # vs"
      "rp_x_buf ?s ! rp_head ?s = Some a" "rp_y_buf ?s ! rp_head ?s = Some b"
    by (auto simp: pg_exact_def pg_wf_def rp_wf_def rp_exact_def rp_window_def simp del: map_map elim: zip_ring_oldest)
  from assms obtain c d us where 2: "map slope ws = (c, d) # us"
      "ps_x_buf ?g ! rp_head ?s = Some c" "ps_y_buf ?g ! rp_head ?s = Some d"
    by (auto simp: pg_exact_def pg_wf_def ps_window_def simp del: map_map elim: zip_ring_oldest)
  from 1 2 show ?thesis by (cases ws) (auto simp: sample_defs intro: that)
qed

lemma pg_exact_step:
  assumes "pg_wf st" and "pg_exact t st ws" and "0 < rp_capacity (fst st)"
  shows "pg_exact t (pg_step exact st (fst (fed t d)) (snd (fed t d))) (lastn (rp_capacity (fst st)) (ws @ [d]))"
proof -
  obtain f f' h h' where d: "d = (f, f', h, h')" by (metis surj_pair)
  let ?ws = "lastn (rp_capacity (fst st)) (ws @ [d])"
  from assms have wf: "rp_wf (fst st)" and primal: "rp_exact (fst st) (map (at_param t) ws)"
    by (simp_all add: pg_wf_def pg_exact_def)
  have len: "length ws \<le> rp_capacity (fst st)"
    using wf pg_exact_length [OF assms(2)] by (simp add: rp_wf_def ring_wf_def)
  have "rp_exact (pair_step exact (fst st) (Some (f t), Some (h t))) (map (at_param t) ?ws)"
    using rp_exact_step [OF wf primal assms(3), of "f t" "h t"]
    by (simp add: d at_param_def flip: lastn_map)
  moreover have "ps_window (pg_step exact st (fst (fed t d)) (snd (fed t d))) = map (map_prod Some Some) (map slope ?ws)"
    using assms(2) unfolding ps_window_step [OF assms(1,3)]
    by (simp add: d pg_exact_def sample_defs flip: lastn_map)
  ultimately show ?thesis
    unfolding pg_exact_def pg_step_ring sum_list_push [OF assms(3) len] pg_exact_length [OF assms(2)]
  proof (intro conjI, goal_cases)
    case 1
    then show ?case by (simp add: d fed_def)
  next
    case 2
    then show ?case by simp
  qed (use assms in \<open>(cases "rp_count (fst st) = rp_capacity (fst st)",
      auto elim!: pg_oldest [OF assms(1,2) _ assms(3)]
        simp: d fed_def pg_step_def ps_write_def ps_evict_def pg_exact_def Let_def)\<close>)
qed

lemma pg_exact_prepare:
  assumes "pg_wf st" and "rp_capacity (fst st) = p \<Longrightarrow> pg_exact t st ws"
  shows "pg_exact t (pg_prepare exact p st) (if rp_capacity (fst st) = p then ws else [])"
proof (cases "rp_capacity (fst st) = p")
  case False
  have "rp_exact (pair_reset exact p (fst st)) []" by (simp add: rp_exact_def) (simp add: pair_reset_def)
  with False assms(1) show ?thesis
    by (simp add: pg_prepare_def pg_exact_def pg_wf_def) (simp add: ps_reset_def ps_window_def pair_reset_def)
qed (use assms in \<open>simp add: pg_prepare_def pg_wf_def\<close>)

interpretation pair_grad_exact:
  accumulating_window pair_grad_op pg_wf "\<lambda>st. rp_capacity (fst st)" pg_window "pg_exact t" "fed t" for t
proof (unfold_locales, goal_cases)
  case (1 st p ws d st')
  note prep = pg_wf_prepare [OF 1(1), of exact p]
  note exact = pg_exact_prepare [OF 1(1,3)]
  from pg_exact_step [OF prep(1) exact, of d] 1(2,4) prep(2) show ?case
    by (auto simp: pair_grad_op_eq)
qed

definition covar_deriv :: "real \<Rightarrow> dual_pair list \<Rightarrow> real" where
  "covar_deriv t ws = (\<Sum>(f, f', h, h')\<leftarrow>ws. f' * h t + f t * h') -
     ((\<Sum>(f, f', h, h')\<leftarrow>ws. f') * (\<Sum>(f, f', h, h')\<leftarrow>ws. h t) +
      (\<Sum>(f, f', h, h')\<leftarrow>ws. f t) * (\<Sum>(f, f', h, h')\<leftarrow>ws. h')) / real (length ws)"

definition var_deriv :: "real \<Rightarrow> dual_pair list \<Rightarrow> real" where
  "var_deriv t ws = (\<Sum>(f, f', h, h')\<leftarrow>ws. 2 * f t * f') -
     2 * (\<Sum>(f, f', h, h')\<leftarrow>ws. f t) * (\<Sum>(f, f', h, h')\<leftarrow>ws. f') / real (length ws)"

lemma codev_at_param:
  "ws \<noteq> [] \<Longrightarrow> codev (map (at_param \<theta>) ws) = (\<Sum>(f, f', h, h')\<leftarrow>ws. f \<theta> * h \<theta>) -
     (\<Sum>(f, f', h, h')\<leftarrow>ws. f \<theta>) * (\<Sum>(f, f', h, h')\<leftarrow>ws. h \<theta>) / real (length ws)"
  by (simp add: codev_alt comp_def case_prod_unfold at_param_def)

lemma ssd_at_param:
  "ssd (map fst (map (at_param \<theta>) ws)) = (\<Sum>(f, f', h, h')\<leftarrow>ws. f \<theta> * f \<theta>) -
     (\<Sum>(f, f', h, h')\<leftarrow>ws. f \<theta>) * (\<Sum>(f, f', h, h')\<leftarrow>ws. f \<theta>) / real (length ws)"
  by (simp add: ssd_alt comp_def case_prod_unfold at_param_def power2_eq_square)

lemma window_sum_derivatives:
  assumes "\<forall>d\<in>set ws. differentiable_pair t d"
  shows "((\<lambda>\<theta>. \<Sum>(f, f', h, h')\<leftarrow>ws. f \<theta>) has_real_derivative (\<Sum>(f, f', h, h')\<leftarrow>ws. f')) (at t)"
    and "((\<lambda>\<theta>. \<Sum>(f, f', h, h')\<leftarrow>ws. h \<theta>) has_real_derivative (\<Sum>(f, f', h, h')\<leftarrow>ws. h')) (at t)"
    and "((\<lambda>\<theta>. \<Sum>(f, f', h, h')\<leftarrow>ws. f \<theta> * h \<theta>) has_real_derivative
           (\<Sum>(f, f', h, h')\<leftarrow>ws. f' * h t + f t * h')) (at t)"
    and "((\<lambda>\<theta>. \<Sum>(f, f', h, h')\<leftarrow>ws. f \<theta> * f \<theta>) has_real_derivative
           (\<Sum>(f, f', h, h')\<leftarrow>ws. 2 * f t * f')) (at t)"
  unfolding case_prod_unfold
  by (rule sum_list_derivative,
      use assms in \<open>force simp: differentiable_pair_def case_prod_unfold intro!: derivative_eq_intros\<close>)+

lemma moment_derivative:
  fixes A B S :: "real \<Rightarrow> real"
  assumes "(S has_real_derivative S') (at t)" "(A has_real_derivative A') (at t)" "(B has_real_derivative B') (at t)"
  shows "((\<lambda>\<theta>. S \<theta> - A \<theta> * B \<theta> / n) has_real_derivative S' - (A' * B t + A t * B') / n) (at t)"
  by (rule DERIV_cong [OF DERIV_diff [OF assms(1) DERIV_cdivide [OF DERIV_mult [OF assms(2,3)]]]])
    (simp add: algebra_simps)

lemma moment_derivatives:
  assumes "\<forall>d\<in>set ws. differentiable_pair t d" and "ws \<noteq> []"
  shows "((\<lambda>\<theta>. codev (map (at_param \<theta>) ws)) has_real_derivative covar_deriv t ws) (at t)"
    and "((\<lambda>\<theta>. ssd (map fst (map (at_param \<theta>) ws))) has_real_derivative var_deriv t ws) (at t)"
proof -
  note d = window_sum_derivatives [OF assms(1)]
  show "((\<lambda>\<theta>. codev (map (at_param \<theta>) ws)) has_real_derivative covar_deriv t ws) (at t)"
    unfolding codev_at_param [OF assms(2)] covar_deriv_def by (rule moment_derivative [OF d(3,1,2)])
  show "((\<lambda>\<theta>. ssd (map fst (map (at_param \<theta>) ws))) has_real_derivative var_deriv t ws) (at t)"
    unfolding ssd_at_param
    by (rule DERIV_cong [OF moment_derivative [OF d(4,1,1)]]) (simp add: var_deriv_def algebra_simps)
qed

text \<open>The readout of the helper when the window is full and the first series varies.\<close>

lemma beta_grad_value_exact:
  assumes "pg_exact t st ws" and "RollingPairFull (fst st)"
  defines "c \<equiv> codev (map (at_param t) ws)" and "v \<equiv> ssd (map fst (map (at_param t) ws))"
  assumes "v \<noteq> 0"
  shows "beta_grad_value exact st =
    (Some (c / v), Some ((covar_deriv t ws * v - c * var_deriv t ws) / (v * v)))"
proof -
  from assms(2) pg_exact_length [OF assms(1)] have ne: "ws \<noteq> []" and n: "rp_count (fst st) = length ws"
    by (auto simp: RollingPairFull_def)
  from assms(1) have primal: "rp_exact (fst st) (map (at_param t) ws)" by (simp add: pg_exact_def)
  from ne have "map (at_param t) ws \<noteq> []" by simp
  note m = rp_exact_moments [OF primal this]
  have sums: "rp_sum_x (fst st) = Some (\<Sum>(f, f', h, h')\<leftarrow>ws. f t)"
      "rp_sum_y (fst st) = Some (\<Sum>(f, f', h, h')\<leftarrow>ws. h t)"
    using primal by (simp_all add: rp_exact_def comp_def case_prod_unfold at_param_def)
  have "cov_prime exact (fst st) (snd st) (lnat exact (rp_count (fst st))) = Some (covar_deriv t ws)"
    and "var_prime exact (ps_sum_xx (snd st)) (rp_sum_x (fst st)) (ps_sum_x (snd st)) (lnat exact (rp_count (fst st))) =
      Some (var_deriv t ws)"
    using assms(1) ne by (simp_all add: cov_prime_def var_prime_def sums pg_exact_def n covar_deriv_def var_deriv_def)
  with m RollingPairBeta_exact [OF primal assms(2)] assms(2,5) show ?thesis
    by (simp add: beta_grad_value_def Let_def case_prod_unfold c_def v_def del: map_map)
qed

text \<open>A step that pushes and then reads out, along a stream.\<close>

lemma emit_pushes:
  assumes "\<And>s x. fst (f s x) = rbind (push s p x) (\<lambda>s'. Inr (readout s'))"
    and "\<And>s x s'. push s p x = Inr s' \<Longrightarrow> snd (f s x) = s'"
    and "push_all push p xs s = Inr s'" and "xs \<noteq> []"
  shows "last (emit f s xs) = Inr (readout s')"
  using assms(3,4)
proof (induction xs arbitrary: s)
  case (Cons x xs)
  then obtain s1 where s1: "push s p x = Inr s1" "push_all push p xs s1 = Inr s'"
    by (cases "push s p x") auto
  then have f: "f s x = (Inr (readout s1), s1)"
    using assms(1) [of s x] assms(2) [of s x s1] by (simp add: prod_eq_iff)
  show ?case
  proof (cases "xs = []")
    case False
    then have "emit f s1 xs \<noteq> []" by (metis length_0_conv length_emit)
    with Cons.IH [OF s1(2) False] f show ?thesis by simp
  qed (use s1 f in simp)
qed simp

lemma pair_grad_run:
  assumes "0 < p" and "p \<le> length ds"
  obtains st where "pg_exact t st (lastn p ds)" and "RollingPairFull (fst st)"
    and "\<And>readout. last (emit (\<lambda>st (x, y). pair_grad_step readout exact x y p st)
        (RollingPairState0 exact, RollingPairSensitivityState0 exact) (map (fed t) ds)) = Inr (readout st)"
proof -
  let ?st = "(RollingPairState0 exact, RollingPairSensitivityState0 exact)"
  have "pg_wf ?st"
    by (simp add: pg_wf_def)
      (simp add: RollingPairState0_def RollingPairSensitivityState0_def ring_wf_def)
  moreover have "rp_capacity (fst ?st) \<noteq> p" and "ds \<noteq> []" using assms by (auto simp: RollingPairState0_def)
  ultimately obtain st where st: "push_all pair_grad_op p (map (fed t) ds) ?st = Inr st"
      "rp_capacity (fst st) = p" "pg_exact t st (lastn p ds)"
    using pair_grad_exact.inv_fresh [OF assms(1)] by blast
  show ?thesis
  proof (rule that [OF st(3)])
    show "RollingPairFull (fst st)"
      using assms pg_exact_length [OF st(3)] st(2) by (simp add: RollingPairFull_def)
    show "last (emit (\<lambda>st (x, y). pair_grad_step readout exact x y p st) ?st (map (fed t) ds)) = Inr (readout st)"
      for readout
      by (rule emit_pushes [OF _ _ st(1)])
        (use \<open>ds \<noteq> []\<close> assms(1) in \<open>simp_all add: pair_grad_op_def pair_grad_step_def Let_def case_prod_unfold\<close>)
  qed
qed

text \<open>C20: In exact arithmetic the gradient helper of rolling_beta, fed with the values and derivatives
  at \<open>t\<close> of two series, returns after at least \<open>p\<close> samples the least-squares slope of the last \<open>p\<close>
  pairs and the derivative of that slope at \<open>t\<close>, provided the first series varies in the window.\<close>

theorem rolling_beta_gradient:
  assumes "0 < p" and "p \<le> length ds" and "\<forall>d\<in>set ds. differentiable_pair t d"
  defines "W \<equiv> \<lambda>\<theta>. map (at_param \<theta>) (lastn p ds)"
  assumes "ssd (map fst (W t)) \<noteq> 0"
  shows "\<exists>b'. last (emit (\<lambda>st (x, y). pair_grad_step (beta_grad_value exact) exact x y p st)
       (RollingPairState0 exact, RollingPairSensitivityState0 exact) (map (fed t) ds)) =
         Inr (Some (codev (W t) / ssd (map fst (W t))), Some b') \<and>
     ((\<lambda>\<theta>. codev (W \<theta>) / ssd (map fst (W \<theta>))) has_real_derivative b') (at t)"
proof -
  obtain st where st: "pg_exact t st (lastn p ds)" "RollingPairFull (fst st)"
      "\<And>readout. last (emit (\<lambda>st (x, y). pair_grad_step readout exact x y p st)
        (RollingPairState0 exact, RollingPairSensitivityState0 exact) (map (fed t) ds)) = Inr (readout st)"
    by (rule pair_grad_run [OF assms(1,2), where t = t]) (rule that)
  have "\<forall>d\<in>set (lastn p ds). differentiable_pair t d" and "lastn p ds \<noteq> []"
    using assms(1-3) by (auto simp: lastn_def dest: in_set_dropD)
  note d = moment_derivatives [OF this]
  from DERIV_divide [OF d] assms(5) beta_grad_value_exact [OF st(1,2)] show ?thesis
    unfolding st(3) W_def by blast
qed

theorem rolling_beta_gradient_witness:
  "\<exists>b'. last (emit (\<lambda>st (x, y). pair_grad_step (beta_grad_value exact) exact x y 2 st)
       (RollingPairState0 exact, RollingPairSensitivityState0 exact)
       (map (fed 3) [(\<lambda>\<theta>. 0, 0, \<lambda>\<theta>. 0, 0), (\<lambda>\<theta>. 1, 0, \<lambda>\<theta>. \<theta>, 1)])) = Inr (Some 3, Some b')"
  using rolling_beta_gradient [of 2 "[(\<lambda>\<theta>. 0, 0, \<lambda>\<theta>. 0, 0), (\<lambda>\<theta>. 1, 0, \<lambda>\<theta>. \<theta>, 1)]" 3]
  by (auto simp: differentiable_pair_def at_param_def lastn_def ssd_def codev_def avg_def power2_eq_square)

section \<open>Standard deviation\<close>

text \<open>The pushes of a stream on which the clamp acts.\<close>

definition clamped_state ::
    "nat \<Rightarrow> nat \<Rightarrow> real \<Rightarrow> real \<Rightarrow> xreal RingStatsState \<times> xreal RollingStdSensitivityState" where
  "clamped_state head cnt x x' =
     (\<lparr>rs_buffer = [Some x, Some 0], rs_capacity = 2, rs_head = head, rs_count = cnt, rs_sum = Some x,
       rs_mean = Some (x / 2), rs_m2 = Some (x * x / 2), rs_slides = (if x = 0 then 0 else 1)\<rparr>,
      \<lparr>ss_buffer = [Some x', Some 0], ss_capacity = 2, ss_head = head, ss_count = cnt,
       ss_mean = Some (x' / 2), ss_m2 = Some 0, ss_slides = (if x = 0 then 0 else 1)\<rparr>)"

lemma clamped_pushes:
  "std_grad_push exact (Some 0, Some 0) 2 (RingStatsState0 exact, RollingStdSensitivityState0 exact) =
     clamped_state 1 1 0 0"
  "std_grad_push exact (Some 0, Some 0) 2 (clamped_state 1 1 0 0) = clamped_state 0 2 0 0"
  "std_grad_push exact (Some 1, Some (- 1)) 2 (clamped_state 0 2 0 0) = clamped_state 1 2 1 (- 1)"
proof -
  note defs = std_grad_push_def ring_stats_accumulate_def ring_stats_write_def Let_def clamped_state_def
  show "std_grad_push exact (Some 0, Some 0) 2 (RingStatsState0 exact, RollingStdSensitivityState0 exact) =
     clamped_state 1 1 0 0"
    by (simp add: defs ss_reset_def ring_stats_reset_def RingStatsState0_def RollingStdSensitivityState0_def
        ss_add_def RingStatsUpdateMeanM2OnAdd_def numeral_2_eq_2)
  show "std_grad_push exact (Some 0, Some 0) 2 (clamped_state 1 1 0 0) = clamped_state 0 2 0 0"
    by (simp add: defs ss_add_def RingStatsUpdateMeanM2OnAdd_def)
  show "std_grad_push exact (Some 1, Some (- 1)) 2 (clamped_state 0 2 0 0) = clamped_state 1 2 1 (- 1)"
    by (simp add: defs ss_slide_def RingStatsUpdateMeanM2OnSlide_def)
qed

text \<open>C38: The sensitivity of the sum of squared deviations is clamped at 0 like the sum itself,
  although a derivative may be negative: for the samples 0, 0 and then a value of 1 that decreases
  with the parameter, the helper of rolling_std returns the derivative 0, where the standard
  deviation of the window has the derivative \<open>-1 / sqrt 2\<close>.\<close>

theorem rolling_std_grad_clamped:
  "emit (\<lambda>st x. RollingStdOrZscoreGradStep exact False x 2 st)
       (RingStatsState0 exact, RollingStdSensitivityState0 exact)
       [(Some 0, Some 0), (Some 0, Some 0), (Some 1, Some (- 1))] ! 2 =
     Inr (Some (sqrt (ssd [0, 1] / 1)), Some 0) \<and>
   ((\<lambda>\<theta>. sqrt (ssd [0, 1 - \<theta>] / 1)) has_real_derivative - 1 / sqrt 2) (at 0)"
proof
  have "std_grad_value exact False (Some 1, Some (- 1)) (clamped_state 1 2 1 (- 1)) =
      (Some (sqrt (ssd [0, 1] / 1)), Some 0)"
    by (simp add: std_grad_value_def clamped_state_def RingStatsFull_def RingStatsStddevSample_def
        stddev_readout_def ssd_def avg_def Let_def power2_eq_square)
  then show "emit (\<lambda>st x. RollingStdOrZscoreGradStep exact False x 2 st)
       (RingStatsState0 exact, RollingStdSensitivityState0 exact)
       [(Some 0, Some 0), (Some 0, Some 0), (Some 1, Some (- 1))] ! 2 =
     Inr (Some (sqrt (ssd [0, 1] / 1)), Some 0)"
    by (simp add: RollingStdOrZscoreGradStep_def Let_def clamped_pushes [unfolded One_nat_def])
  have "ssd [0, 1 - \<theta>] / 1 = (1 - \<theta>)\<^sup>2 / 2" for \<theta>
    by (simp add: ssd_def avg_def power2_eq_square field_simps)
  moreover have "((\<lambda>\<theta>. sqrt ((1 - \<theta>)\<^sup>2 / 2)) has_real_derivative - 1 / sqrt 2) (at 0)"
    by (rule derivative_eq_intros refl | simp add: real_sqrt_divide field_simps)+
  ultimately show "((\<lambda>\<theta>. sqrt (ssd [0, 1 - \<theta>] / 1)) has_real_derivative - 1 / sqrt 2) (at 0)"
    by (simp only:)
qed

end
