(* ===== verification/Forward_Gradient.thy ===== *)
theory Forward_Gradient
  imports Autodiff Gradient_Facts
begin

text \<open>
  The forward-mode evaluator of \<^verbatim>\<open>src/autodiff.cpp\<close>: an interpreter whose values are
  pairs of a value and its derivative with respect to one parameter, and whose stateful operators
  step the primal slot of the node together with the sensitivity slot of the node and the
  parameter. The steps that the file repeats from \<^verbatim>\<open>src/runtime.cpp\<close> are those of
  \<^verbatim>\<open>Gradient_Runtime\<close>. On a stateless tree the evaluator returns, bit for bit on every
  machine, the value of the tree and the value of its symbolic derivative.
\<close>

type_synonym 'f fg_state = "'f SignalContext \<times> (int \<rightharpoonup> 'f \<times> 'f)"

section \<open>Slots and arguments\<close>

definition fg_period :: "'f machine \<Rightarrow> 'f expr list \<Rightarrow> nat \<Rightarrow> string \<Rightarrow> int result" where
  "fg_period M as i fn_name =
     (if length as \<le> i then Inl (Undefined ''argument'')
      else case as ! i of
        NumberLiteral _ v \<Rightarrow>
          rbind (to_int32 M v) (\<lambda>period.
            if period \<le> 0 \<or> flt M (tol M) (off_integer M v period)
            then Inl (RuntimeError (fn_name @ '' period must be a positive integer''))
            else Inr period)
      | _ \<Rightarrow> Inl (RuntimeError (fn_name @ '' period must be a numeric literal'')))"

definition fg_arg :: "('e \<Rightarrow> ('s, 'a) prog) \<Rightarrow> 'e list \<Rightarrow> nat \<Rightarrow> ('s, 'a) prog" where
  "fg_arg ec as = (\<lambda>i. if i < length as then ec (as ! i) else throw (Undefined ''argument''))"

lemma fg_arg_cong [fundef_cong]:
  "as = as' \<Longrightarrow> (\<And>a. a \<in> set as' \<Longrightarrow> ec a = ec' a) \<Longrightarrow> fg_arg ec as = fg_arg ec' as'"
  by (auto simp: fg_arg_def)

definition fg_on ::
    "('f PrimalStates \<Rightarrow> 'a list) \<Rightarrow> (('a list \<Rightarrow> 'a list) \<Rightarrow> 'f PrimalStates \<Rightarrow> 'f PrimalStates) \<Rightarrow>
     ('f SensitivityStates \<Rightarrow> 'b list) \<Rightarrow> (('b list \<Rightarrow> 'b list) \<Rightarrow> 'f SensitivityStates \<Rightarrow> 'f SensitivityStates) \<Rightarrow>
       nat \<Rightarrow> nat \<Rightarrow> ('a \<times> 'b, 'c) prog \<Rightarrow> ('f fg_state, 'c) prog" where
  "fg_on get put gets puts i slot f = (\<lambda>(ctx, cache).
     if i < length (get (primal ctx)) \<and> slot < length (gets (sens ctx))
     then let (r, p, g) = f (get (primal ctx) ! i, gets (sens ctx) ! slot)
          in (r, ctx\<lparr>primal := put (\<lambda>xs. xs[i := p]) (primal ctx),
                     sens := puts (\<lambda>xs. xs[slot := g]) (sens ctx)\<rparr>, cache)
     else (Inl (Undefined ''operator slot''), ctx, cache))"

definition fg_on_deque ::
    "('f PrimalStates \<Rightarrow> 'f MonoDequeState list) \<Rightarrow>
     (('f MonoDequeState list \<Rightarrow> 'f MonoDequeState list) \<Rightarrow> 'f PrimalStates \<Rightarrow> 'f PrimalStates) \<Rightarrow>
     ('f PrimalStates \<Rightarrow> nat list) \<Rightarrow> ((nat list \<Rightarrow> nat list) \<Rightarrow> 'f PrimalStates \<Rightarrow> 'f PrimalStates) \<Rightarrow>
     ('f SensitivityStates \<Rightarrow> 'f LagState list) \<Rightarrow>
     (('f LagState list \<Rightarrow> 'f LagState list) \<Rightarrow> 'f SensitivityStates \<Rightarrow> 'f SensitivityStates) \<Rightarrow>
       nat \<Rightarrow> nat \<Rightarrow> ('f MonoDequeState \<times> nat \<times> 'f LagState, 'c) prog \<Rightarrow> ('f fg_state, 'c) prog" where
  "fg_on_deque get put get_idx put_idx gets puts i slot f = (\<lambda>(ctx, cache).
     if i < length (get (primal ctx)) \<and> i < length (get_idx (primal ctx)) \<and> slot < length (gets (sens ctx))
     then let (r, dq, idx, g) = f (get (primal ctx) ! i, get_idx (primal ctx) ! i, gets (sens ctx) ! slot)
          in (r, ctx\<lparr>primal := put (\<lambda>xs. xs[i := dq]) (put_idx (\<lambda>xs. xs[i := idx]) (primal ctx)),
                     sens := puts (\<lambda>xs. xs[slot := g]) (sens ctx)\<rparr>, cache)
     else (Inl (Undefined ''operator slot''), ctx, cache))"

section \<open>Operators on values with derivatives\<close>

fun fg_binary :: "'f machine \<Rightarrow> BinaryOpKind \<Rightarrow> 'f \<times> 'f \<Rightarrow> 'f \<times> 'f \<Rightarrow> 'f \<times> 'f" where
  "fg_binary M Add (l, l') (r, r') = (dadd M l r, dadd M l' r')"
| "fg_binary M Sub (l, l') (r, r') = (dsub M l r, dsub M l' r')"
| "fg_binary M Mul (l, l') (r, r') = (dmul M l r, dadd M (dmul M l' r) (dmul M l r'))"
| "fg_binary M Div (l, l') (r, r') =
     (ddiv M l r, ddiv M (dsub M (dmul M l' r) (dmul M l r')) (dmul M r r))"
| "fg_binary M k (l, l') (r, r') = (eval_binary M k l r, dlit M 0)"

definition fg_market ::
    "'f machine \<Rightarrow> SymbolTable \<Rightarrow> 'f MarketState \<Rightarrow> string \<Rightarrow> 'f expr list \<Rightarrow> int \<Rightarrow> ('f \<times> 'f) result" where
  "fg_market M symbols m name as symbol_id =
     rbind (ResolveSymbolSlot symbols name as symbol_id) (\<lambda>i. rbind (instrument m i) (\<lambda>ins.
       Inr (if name = ''mid'' then mid_of M ins else if name = ''bid'' then ins_bid ins
            else if name = ''ask'' then ins_ask ins else dsub M (ins_ask ins) (ins_bid ins), dlit M 0)))"

definition fg_abs :: "'f machine \<Rightarrow> 'f \<times> 'f \<Rightarrow> 'f \<times> 'f" where
  "fg_abs M x = (let (v, g) = x;
       sign = (if flt M (dlit M 0) v then dlit M 1 else if flt M v (dlit M 0) then dlit M (- 1) else dlit M 0)
     in (fabs M v, dmul M sign g))"

definition fg_log :: "'f machine \<Rightarrow> 'f \<times> 'f \<Rightarrow> 'f \<times> 'f" where
  "fg_log M x = (let (v, g) = x in (flog M v, ddiv M g v))"

definition fg_sqrt :: "'f machine \<Rightarrow> 'f \<times> 'f \<Rightarrow> 'f \<times> 'f" where
  "fg_sqrt M x = (let (v, g) = x; root = dsqrt M v in (root, ddiv M g (dmul M (dlit M 2) root)))"

section \<open>Stateful operators\<close>

definition fg_lag_step ::
    "'f machine \<Rightarrow> 'f \<times> 'f \<Rightarrow> nat \<Rightarrow> ('f LagState \<times> 'f LagState, 'f \<times> 'f) prog" where
  "fg_lag_step M x period st =
     (let lagged = (LagValue M (fst st), LagValue M (snd st))
      in case LagPush M (fst st) period (fst x) of
           Inl e \<Rightarrow> (Inl e, st)
         | Inr p \<Rightarrow>
             (case LagPush M (snd st) period (snd x) of
                Inl e \<Rightarrow> (Inl e, p, snd st)
              | Inr g \<Rightarrow> (Inr lagged, p, g)))"

definition fg_sma_step ::
    "'f machine \<Rightarrow> 'f \<times> 'f \<Rightarrow> nat \<Rightarrow> ('f RingStatsState \<times> 'f RingStatsState, 'f \<times> 'f) prog" where
  "fg_sma_step M x period st =
     (case RingStatsPush M (fst st) period (fst x) of
        Inl e \<Rightarrow> (Inl e, st)
      | Inr p \<Rightarrow>
          (case RingStatsPush M (snd st) period (snd x) of
             Inl e \<Rightarrow> (Inl e, p, snd st)
           | Inr g \<Rightarrow>
               (Inr (if \<not> RingStatsFull p then both_nan M else (RingStatsMean M p, RingStatsMean M g)), p, g)))"

definition fg_ema_step ::
    "'f machine \<Rightarrow> 'f \<times> 'f \<Rightarrow> 'f \<times> 'f \<Rightarrow> 'f EMAState \<times> 'f \<Rightarrow> ('f \<times> 'f) \<times> 'f EMAState \<times> 'f" where
  "fg_ema_step M x alpha st =
     (let (x, x_grad) = x; (alpha, alpha_grad) = alpha; (s, g) = st
      in if \<not> ema_initialized s
         then ((x, x_grad), s\<lparr>ema_value := x, ema_alpha := alpha, ema_initialized := True\<rparr>, x_grad)
         else
           let prev = ema_value s; prev_grad = g;
               v = dadd M (dmul M alpha x) (dmul M (dsub M (dlit M 1) alpha) prev);
               d = dadd M (dadd M (dmul M alpha x_grad) (dmul M (dsub M (dlit M 1) alpha) prev_grad))
                     (dmul M alpha_grad (dsub M x prev))
           in ((v, d), s\<lparr>ema_alpha := alpha, ema_value := v\<rparr>, d))"

text \<open>The filter, with the threshold \<open>1e-18\<close> where the helper of the runtime tests against 0.\<close>

definition fg_kalman_step ::
    "'f machine \<Rightarrow> 'f \<times> 'f \<Rightarrow> 'f \<times> 'f \<Rightarrow> 'f \<times> 'f \<Rightarrow> 'f Kalman1dState \<times> 'f Kalman1dSensitivityState \<Rightarrow>
       ('f \<times> 'f) \<times> 'f Kalman1dState \<times> 'f Kalman1dSensitivityState" where
  "fg_kalman_step M x q r st =
     (if ka_initialized (fst st) \<and>
         fle M (dadd M (dadd M (ka_p (fst st)) (fst q)) (fst r)) (dlit M (1 / 10 ^ 18))
      then ((ka_x_hat (fst st), ks_x_hat (snd st)), st)
      else kalman1d_grad_step M x q r st)"

definition fg_lag :: "'f machine \<Rightarrow> (nat \<Rightarrow> ('f fg_state, 'f \<times> 'f) prog) \<Rightarrow> 'f expr list \<Rightarrow> nat \<Rightarrow> nat \<Rightarrow>
    ('f fg_state, 'f \<times> 'f) prog" where
  "fg_lag M arg as i slot =
     bindm (lift_result (fg_period M as 1 ''lag()'')) (\<lambda>period. bindm (arg 0) (\<lambda>x.
       fg_on lag_states lag_states_update lag_sens lag_sens_update i slot (fg_lag_step M x (nat period))))"

definition fg_sma :: "'f machine \<Rightarrow> (nat \<Rightarrow> ('f fg_state, 'f \<times> 'f) prog) \<Rightarrow> 'f expr list \<Rightarrow> nat \<Rightarrow> nat \<Rightarrow>
    ('f fg_state, 'f \<times> 'f) prog" where
  "fg_sma M arg as i slot =
     bindm (lift_result (fg_period M as 1 ''sma()'')) (\<lambda>period. bindm (arg 0) (\<lambda>x.
       fg_on sma_states sma_states_update sma_sens sma_sens_update i slot (fg_sma_step M x (nat period))))"

definition fg_ema :: "'f machine \<Rightarrow> string \<Rightarrow> (nat \<Rightarrow> ('f fg_state, 'f \<times> 'f) prog) \<Rightarrow> 'f expr list \<Rightarrow> nat \<Rightarrow> nat \<Rightarrow>
    ('f fg_state, 'f \<times> 'f) prog" where
  "fg_ema M name arg as i slot =
     bindm (arg 0) (\<lambda>x.
       bindm (if name = ''ema''
              then bindm (lift_result (fg_period M as 1 ''ema()'')) (\<lambda>period. ret (ema_period_alpha M period, dlit M 0))
              else arg 1) (\<lambda>alpha.
         fg_on ema_states ema_states_update ema_sens ema_sens_update i slot
           (\<lambda>st. let (v, st') = fg_ema_step M x alpha st in (Inr v, st'))))"

definition fg_std :: "'f machine \<Rightarrow> string \<Rightarrow> (nat \<Rightarrow> ('f fg_state, 'f \<times> 'f) prog) \<Rightarrow> 'f expr list \<Rightarrow> nat \<Rightarrow> nat \<Rightarrow>
    ('f fg_state, 'f \<times> 'f) prog" where
  "fg_std M name arg as i slot =
     bindm (lift_result (fg_period M as 1 (name @ ''()''))) (\<lambda>period.
       if period < 2
       then throw (RuntimeError (name @ ''() requires period >= 2 (sample standard deviation of one sample is mathematically undefined)''))
       else bindm (arg 0) (\<lambda>x.
         if name = ''rolling_std''
         then fg_on rolling_std_states rolling_std_states_update rolling_std_sens rolling_std_sens_update i slot
           (RollingStdOrZscoreGradStep M False x (nat period))
         else fg_on zscore_states zscore_states_update zscore_sens zscore_sens_update i slot
           (RollingStdOrZscoreGradStep M True x (nat period))))"

definition fg_pair :: "'f machine \<Rightarrow> string \<Rightarrow> (nat \<Rightarrow> ('f fg_state, 'f \<times> 'f) prog) \<Rightarrow> 'f expr list \<Rightarrow> nat \<Rightarrow> nat \<Rightarrow>
    ('f fg_state, 'f \<times> 'f) prog" where
  "fg_pair M name arg as i slot =
     bindm (lift_result (fg_period M as 2 (name @ ''()''))) (\<lambda>period.
       bindm (arg 0) (\<lambda>x. bindm (arg 1) (\<lambda>y.
         if name = ''rolling_corr''
         then fg_on rolling_corr_states rolling_corr_states_update rolling_corr_sens rolling_corr_sens_update i slot
           (pair_grad_step (corr_grad_value M) M x y (nat period))
         else fg_on rolling_beta_states rolling_beta_states_update rolling_beta_sens rolling_beta_sens_update i slot
           (pair_grad_step (beta_grad_value M) M x y (nat period)))))"

definition fg_kalman1d :: "'f machine \<Rightarrow> (nat \<Rightarrow> ('f fg_state, 'f \<times> 'f) prog) \<Rightarrow> nat \<Rightarrow> nat \<Rightarrow>
    ('f fg_state, 'f \<times> 'f) prog" where
  "fg_kalman1d M arg i slot =
     bindm (arg 1) (\<lambda>q. bindm (arg 2) (\<lambda>r.
       if flt M (fst q) (dlit M 0) \<or> fle M (fst r) (dlit M 0)
       then throw (RuntimeError ''kalman1d() requires q >= 0 and r > 0'')
       else bindm (arg 0) (\<lambda>x.
         fg_on kalman1d_states kalman1d_states_update kalman1d_sens kalman1d_sens_update i slot
           (\<lambda>st. let (v, st') = fg_kalman_step M x q r st in (Inr v, st')))))"

definition fg_minmax :: "'f machine \<Rightarrow> string \<Rightarrow> (nat \<Rightarrow> ('f fg_state, 'f \<times> 'f) prog) \<Rightarrow> 'f expr list \<Rightarrow> nat \<Rightarrow> nat \<Rightarrow>
    ('f fg_state, 'f \<times> 'f) prog" where
  "fg_minmax M name arg as i slot =
     bindm (lift_result (fg_period M as 1 (name @ ''()''))) (\<lambda>period. bindm (arg 0) (\<lambda>x.
       if name = ''rolling_min''
       then fg_on_deque rolling_min_deques rolling_min_deques_update rolling_min_indices rolling_min_indices_update
         rolling_min_sens rolling_min_sens_update i slot
         (minmax_grad_step M (nat period) (\<lambda>dq idx. Inr (UpdateRollingMin M dq idx (nat period) (fst x))) (snd x))
       else fg_on_deque rolling_max_deques rolling_max_deques_update rolling_max_indices rolling_max_indices_update
         rolling_max_sens rolling_max_sens_update i slot
         (minmax_grad_step M (nat period) (\<lambda>dq idx. Inr (UpdateRollingMax M dq idx (nat period) (fst x))) (snd x))))"

definition fg_cross :: "'f machine \<Rightarrow> string \<Rightarrow> (nat \<Rightarrow> ('f fg_state, 'f \<times> 'f) prog) \<Rightarrow> nat \<Rightarrow>
    ('f fg_state, 'f \<times> 'f) prog" where
  "fg_cross M name arg i =
     bindm (arg 0) (\<lambda>a. bindm (arg 1) (\<lambda>b s.
       let (r, ctx) = on_primal cross_states cross_states_update (int i)
         (\<lambda>st. let (v, st') = (if name = ''cross_above'' then cross_above_step M st (fst a, fst b)
                               else cross_below_step M st (fst a, fst b)) in (Inr (v, dlit M 0), st')) (fst s)
       in (r, ctx, snd s)))"

section \<open>The evaluator\<close>

definition fg_stateful ::
    "'f machine \<Rightarrow> string \<Rightarrow> (nat \<Rightarrow> ('f fg_state, 'f \<times> 'f) prog) \<Rightarrow> 'f expr list \<Rightarrow> nat \<Rightarrow> nat \<Rightarrow>
       ('f fg_state, 'f \<times> 'f) prog" where
  "fg_stateful M name arg as i slot =
     (if name = ''lag'' then fg_lag M arg as i slot
      else if name = ''sma'' then fg_sma M arg as i slot
      else if name = ''ema'' \<or> name = ''ema_alpha'' then fg_ema M name arg as i slot
      else if name = ''rolling_std'' \<or> name = ''zscore'' then fg_std M name arg as i slot
      else if name = ''rolling_corr'' \<or> name = ''rolling_beta'' then fg_pair M name arg as i slot
      else if name = ''kalman1d'' then fg_kalman1d M arg i slot
      else if name = ''rolling_min'' \<or> name = ''rolling_max'' then fg_minmax M name arg as i slot
      else if name = ''cross_above'' \<or> name = ''cross_below'' then fg_cross M name arg i
      else throw (RuntimeError (''Unsupported function in EvaluateSignalGradient: '' @ name)))"

definition EvalFunction ::
    "'f machine \<Rightarrow> SymbolTable \<Rightarrow> 'f MarketState \<Rightarrow> nat \<Rightarrow> (nat \<Rightarrow> ('f fg_state, 'f \<times> 'f) prog) \<Rightarrow>
       string \<Rightarrow> 'f expr list \<Rightarrow> int \<Rightarrow> int \<Rightarrow> ('f fg_state, 'f \<times> 'f) prog" where
  "EvalFunction M symbols m target arg name as node_id symbol_id =
     (if name = ''mid'' \<or> name = ''bid'' \<or> name = ''ask'' \<or> name = ''spread''
      then lift_result (fg_market M symbols m name as symbol_id)
      else if name = ''abs'' then bindm (arg 0) (\<lambda>x. ret (fg_abs M x))
      else if name = ''log'' then bindm (arg 0) (\<lambda>x. ret (fg_log M x))
      else if name = ''sqrt'' then bindm (arg 0) (\<lambda>x. ret (fg_sqrt M x))
      else if node_id < 0 then throw (RuntimeError (''Stateful function missing node_id: '' @ name))
      else (\<lambda>s. bindm (lift_result (GradientSlot (fst s) (nat node_id) target))
        (fg_stateful M name arg as (nat node_id)) s))"

definition EvalCall ::
    "'f machine \<Rightarrow> SymbolTable \<Rightarrow> 'f MarketState \<Rightarrow> nat \<Rightarrow> (nat \<Rightarrow> ('f fg_state, 'f \<times> 'f) prog) \<Rightarrow>
       string \<Rightarrow> 'f expr list \<Rightarrow> int \<Rightarrow> int \<Rightarrow> ('f fg_state, 'f \<times> 'f) prog" where
  "EvalCall M symbols m target arg name as node_id symbol_id s =
     (case (if 0 < node_id then snd s node_id else None) of
        Some v \<Rightarrow> (Inr v, s)
      | None \<Rightarrow> bindm (EvalFunction M symbols m target arg name as node_id symbol_id)
          (\<lambda>v s. (Inr v, fst s, if 0 < node_id then (snd s)(node_id \<mapsto> v) else snd s)) s)"

definition fg_param :: "'f machine \<Rightarrow> nat \<Rightarrow> int \<Rightarrow> ('f fg_state, 'f \<times> 'f) prog" where
  "fg_param M target pid s =
     (case params (fst s) of
        Some ps \<Rightarrow>
          if 0 \<le> pid \<and> nat pid < length ps
          then (Inr (ps ! nat pid, if pid = int target then dlit M 1 else dlit M 0), s)
          else (Inl (Undefined ''parameter''), s)
      | None \<Rightarrow> (Inl (Undefined ''parameter''), s))"

fun EvalExpr ::
    "'f machine \<Rightarrow> SymbolTable \<Rightarrow> 'f MarketState \<Rightarrow> nat \<Rightarrow> 'f expr \<Rightarrow> ('f fg_state, 'f \<times> 'f) prog" where
  "EvalExpr M symbols m target (NumberLiteral l v) = ret (v, dlit M 0)"
| "EvalExpr M symbols m target (IdentifierExpr l n) =
     throw (RuntimeError ''Bare identifiers are not valid expressions'')"
| "EvalExpr M symbols m target (ParameterExpr l n pid) = fg_param M target pid"
| "EvalExpr M symbols m target (UnaryOp l k e) =
     bindm (EvalExpr M symbols m target e) (\<lambda>x. ret (if k = Plus then x else map_prod (fneg M) (fneg M) x))"
| "EvalExpr M symbols m target (BinaryOp l k a b) =
     bindm (EvalExpr M symbols m target a) (\<lambda>x. bindm (EvalExpr M symbols m target b) (\<lambda>y.
       ret (fg_binary M k x y)))"
| "EvalExpr M symbols m target (Conditional l c t e) =
     bindm (EvalExpr M symbols m target c) (\<lambda>v.
       if \<not> feq M (fst v) (dlit M 0) then EvalExpr M symbols m target t else EvalExpr M symbols m target e)"
| "EvalExpr M symbols m target (FunctionCall l name as node_id symbol_id) =
     EvalCall M symbols m target (fg_arg (\<lambda>a. EvalExpr M symbols m target a) as) name as node_id symbol_id"

definition EvaluateSignalGradient ::
    "'f machine \<Rightarrow> 'f SignalDef \<Rightarrow> SymbolTable \<Rightarrow> 'f MarketState \<Rightarrow> int \<Rightarrow> ('f SignalContext, 'f \<times> 'f) prog" where
  "EvaluateSignalGradient M signal symbols m pid ctx =
     (if params ctx = None \<or> num_params ctx = 0
      then (Inl (RuntimeError ''EvaluateSignalGradient requires initialized parameters''), ctx)
      else if pid < 0 \<or> num_params ctx \<le> nat pid
      then (Inl (RuntimeError ''EvaluateSignalGradient param_id out of range''), ctx)
      else let (r, s) = EvalExpr M symbols m (nat pid) (body signal) (ctx, Map.empty) in (r, fst s))"

section \<open>Forward mode computes the symbolic derivative\<close>

definition abs_free :: "'f expr \<Rightarrow> bool" where
  "abs_free e \<longleftrightarrow> (\<forall>(n, as, i, s) \<in> set (calls e). n \<noteq> ''abs'')"

lemma abs_free_simps [simp]:
  "abs_free (NumberLiteral l v)" "abs_free (IdentifierExpr l n)" "abs_free (ParameterExpr l n i)"
  "abs_free (UnaryOp l k e) \<longleftrightarrow> abs_free e"
  "abs_free (BinaryOp l bk a b) \<longleftrightarrow> abs_free a \<and> abs_free b"
  "abs_free (Conditional l c t e) \<longleftrightarrow> abs_free c \<and> abs_free t \<and> abs_free e"
  "abs_free (FunctionCall l n as i s) \<longleftrightarrow> n \<noteq> ''abs'' \<and> (\<forall>a \<in> set as. abs_free a)"
  by (simp_all add: abs_free_def ball_Un)

text \<open>The pair the evaluator returns, from a state whose cache it neither reads nor writes.\<close>

definition computes ::
    "'f machine \<Rightarrow> SymbolTable \<Rightarrow> 'f MarketState \<Rightarrow> nat \<Rightarrow> 'f SignalContext \<Rightarrow> 'f expr \<Rightarrow> 'f \<Rightarrow> 'f \<Rightarrow> bool" where
  "computes M symbols m target ctx e v g \<longleftrightarrow>
     (\<forall>cache. EvalExpr M symbols m target e (ctx, cache) = (Inr (v, g), ctx, cache))"

lemma computes_binary:
  assumes "computes M symbols m target ctx a v g" and "computes M symbols m target ctx b w h"
  shows "computes M symbols m target ctx (BinaryOp l k a b) (fst (fg_binary M k (v, g) (w, h))) (snd (fg_binary M k (v, g) (w, h)))"
  using assms by (simp add: computes_def bindm_def)

lemma fg_binary_diff:
  assumes "value_in M symbols m ctx a = Inr v" and "value_in M symbols m ctx b = Inr w"
    and "value_in M symbols m ctx da = Inr g" and "value_in M symbols m ctx db = Inr h"
    and "stateless a" and "stateless b" and "stateless da" and "stateless db" and "fresh a" and "fresh b"
  shows "fg_binary M k (v, g) (w, h) =
      (eval_binary M k v w, (case value_in M symbols m ctx (diff_binary M l k a b da db) of Inr x \<Rightarrow> x))"
    and "\<exists>x. value_in M symbols m ctx (diff_binary M l k a b da db) = Inr x"
  using assms by (cases k; simp add: value_in_simps CloneExpr_fresh Num_def)+

lemma forward_market:
  assumes "n = ''mid'' \<or> n = ''bid'' \<or> n = ''ask'' \<or> n = ''spread''"
    and "value_in M symbols m ctx (FunctionCall l n as i sy) = Inr v" and "i = -1"
  shows "computes M symbols m target ctx (FunctionCall l n as i sy) v (dlit M 0)"
proof -
  have "fg_market M symbols m n as sy = Inr (v, dlit M 0)"
    using assms(1,2) unfolding value_in_call dispatch_def
    by (elim disjE) (auto simp: fg_market_def EvalMid_def EvalBid_def EvalAsk_def EvalSpread_def
        rbind_eq_Inr_iff split: if_split_asm)
  with assms(1,3) show ?thesis by (auto simp: computes_def EvalCall_def EvalFunction_def bindm_def)
qed

lemma computes_call:
  assumes "computes M symbols m target ctx a v g" and "i = -1"
  shows "computes M symbols m target ctx (FunctionCall l ''log'' [a] i sy) (fst (fg_log M (v, g))) (snd (fg_log M (v, g)))"
    and "computes M symbols m target ctx (FunctionCall l ''sqrt'' [a] i sy) (fst (fg_sqrt M (v, g))) (snd (fg_sqrt M (v, g)))"
  using assms by (simp_all add: computes_def EvalCall_def EvalFunction_def fg_arg_def bindm_def)

lemma forward_function:
  assumes "n = ''log'' \<or> n = ''sqrt''" and "as \<noteq> []" and "i = -1"
    and ev: "value_in M symbols m ctx (FunctionCall l n as i sy) = Inr v"
    and d: "Differentiate M pid (FunctionCall l n as i sy) = Inr d"
    and pure: "\<forall>a \<in> set as. stateless a \<and> fresh a"
    and IH: "\<And>a w da. a \<in> set as \<Longrightarrow> value_in M symbols m ctx a = Inr w \<Longrightarrow> Differentiate M pid a = Inr da \<Longrightarrow>
      \<exists>g. computes M symbols m target ctx a w g \<and> value_in M symbols m ctx da = Inr g"
  shows "\<exists>g. computes M symbols m target ctx (FunctionCall l n as i sy) v g \<and> value_in M symbols m ctx d = Inr g"
proof -
  from ev assms(1) have "length as = 1"
    by (auto simp: value_in_call dispatch_def eval_unary_fn_def split: if_split_asm)
  then obtain a where a: "as = [a]" by (cases as) auto
  with pure have pa: "stateless a" "fresh a" by auto
  from ev a pa assms(1) obtain w where w: "value_in M symbols m ctx a = Inr w"
    by (cases "value_in M symbols m ctx a") (auto simp: value_in_functions)
  from d a assms(1) obtain da where da: "Differentiate M pid a = Inr da" by (cases "Differentiate M pid a") auto
  from IH [OF _ w da] a obtain g where g: "computes M symbols m target ctx a w g" "value_in M symbols m ctx da = Inr g"
    by auto
  note sd = stateless_Differentiate [OF da pa(1)]
  note clone = CloneExpr_fresh [OF pa(2)]
  from assms(1) show ?thesis
  proof
    assume n: "n = ''log''"
    then have "v = flog M w" and "d = BinaryOp l Div da (CloneExpr a)"
      using ev d da by (simp_all add: a value_in_functions pa w)
    with n computes_call(1) [OF g(1) assms(3), of l sy] g(2) sd w show ?thesis
      by (simp add: a fg_log_def clone value_in_simps pa)
  next
    assume n: "n = ''sqrt''"
    then have "v = dsqrt M w" and "d = diff_sqrt M l a da"
      using ev d da by (simp_all add: a value_in_functions pa w)
    with n computes_call(2) [OF g(1) assms(3), of l sy] g(2) sd w show ?thesis
      by (simp add: a fg_sqrt_def clone value_in_simps value_in_functions pa diff_sqrt_def Num_def Let_def IsStatelessBuiltin_def)
  qed
qed

lemma forward_symbolic:
  assumes "stateless e" and "fresh e" and "applied e" and "abs_free e"
    and "value_in M symbols m ctx e = Inr v" and "Differentiate M (int target) e = Inr d"
  shows "\<exists>g. computes M symbols m target ctx e v g \<and> value_in M symbols m ctx d = Inr g"
  using assms
proof (induction e arbitrary: v d)
  case (NumberLiteral l w)
  then show ?case by (auto simp: value_in_simps computes_def Num_def)
next
  case (IdentifierExpr l n)
  then show ?case by (simp add: value_in_def)
next
  case (ParameterExpr l n i)
  then show ?case
    by (auto simp: value_in_def visit_param_def computes_def fg_param_def Num_def
        split: option.splits if_split_asm)
next
  case (UnaryOp l k e)
  then obtain w de where w: "value_in M symbols m ctx e = Inr w" "v = (if k = Plus then w else fneg M w)"
    and de: "Differentiate M (int target) e = Inr de" "d = (if k = Plus then de else UnaryOp l Minus de)"
    by (auto simp: value_in_simps rbind_eq_Inr_iff)
  from UnaryOp.IH [OF _ _ _ _ w(1) de(1)] UnaryOp.prems obtain g where
    g: "computes M symbols m target ctx e w g" "value_in M symbols m ctx de = Inr g" by auto
  have "stateless de" using stateless_Differentiate [OF de(1)] UnaryOp.prems by simp
  with g w de show ?case by (auto simp: computes_def bindm_def value_in_simps)
next
  case (BinaryOp l k a b)
  then obtain x y where x: "value_in M symbols m ctx a = Inr x" "value_in M symbols m ctx b = Inr y" "v = eval_binary M k x y"
    by (auto simp: value_in_simps rbind_eq_Inr_iff)
  from BinaryOp.prems(6) obtain da db where d: "Differentiate M (int target) a = Inr da"
      "Differentiate M (int target) b = Inr db" "d = diff_binary M l k a b da db" by (auto simp: rbind_eq_Inr_iff)
  from BinaryOp.IH(1) [OF _ _ _ _ x(1) d(1)] BinaryOp.prems obtain g where
    g: "computes M symbols m target ctx a x g" "value_in M symbols m ctx da = Inr g" by auto
  from BinaryOp.IH(2) [OF _ _ _ _ x(2) d(2)] BinaryOp.prems obtain h where
    h: "computes M symbols m target ctx b y h" "value_in M symbols m ctx db = Inr h" by auto
  have pure: "stateless a" "stateless b" "stateless da" "stateless db" "fresh a" "fresh b"
    using BinaryOp.prems stateless_Differentiate [OF d(1)] stateless_Differentiate [OF d(2)] by auto
  note diff = fg_binary_diff [OF x(1,2) g(2) h(2) pure, where k = k and l = l]
  from computes_binary [OF g(1) h(1), where k = k and l = l] diff x(3) d(3) show ?case by auto
next
  case (Conditional l c t e)
  then obtain x where x: "value_in M symbols m ctx c = Inr x" by (auto simp: value_in_simps rbind_eq_Inr_iff)
  from Conditional.prems Differentiate_total [of c M "int target"] obtain dc where
    "Differentiate M (int target) c = Inr dc" by auto
  from Conditional.IH(1) [OF _ _ _ _ x this] Conditional.prems obtain g where
    g: "computes M symbols m target ctx c x g" by auto
  from Conditional.prems(6) obtain dt de where d: "Differentiate M (int target) t = Inr dt"
      "Differentiate M (int target) e = Inr de" "d = Conditional l (CloneExpr c) dt de" by (auto simp: rbind_eq_Inr_iff)
  have clone: "CloneExpr c = c" using Conditional.prems by (simp add: CloneExpr_fresh)
  show ?case
  proof (cases "feq M x (dlit M 0)")
    case True
    with Conditional.prems x have "value_in M symbols m ctx e = Inr v" by (simp add: value_in_simps)
    from Conditional.IH(3) [OF _ _ _ _ this d(2)] Conditional.prems obtain h where
      "computes M symbols m target ctx e v h" "value_in M symbols m ctx de = Inr h" by auto
    with True g x Conditional.prems(1) show ?thesis
      by (auto simp: computes_def bindm_def d(3) clone value_in_simps)
  next
    case False
    with Conditional.prems x have "value_in M symbols m ctx t = Inr v" by (simp add: value_in_simps)
    from Conditional.IH(2) [OF _ _ _ _ this d(1)] Conditional.prems obtain h where
      "computes M symbols m target ctx t v h" "value_in M symbols m ctx dt = Inr h" by auto
    with False g x Conditional.prems(1) show ?thesis
      by (auto simp: computes_def bindm_def d(3) clone value_in_simps)
  qed
next
  case (FunctionCall l n as i s)
  from FunctionCall.prems(1,4) have "(n = ''mid'' \<or> n = ''bid'' \<or> n = ''ask'' \<or> n = ''spread'') \<or> (n = ''log'' \<or> n = ''sqrt'')"
    by (auto simp: IsStatelessBuiltin_def)
  then show ?case
  proof
    assume n: "n = ''mid'' \<or> n = ''bid'' \<or> n = ''ask'' \<or> n = ''spread''"
    then have "d = Num M 0 l" using FunctionCall.prems(6) by auto
    with forward_market [OF n FunctionCall.prems(5)] FunctionCall.prems(2) show ?thesis
      by (auto simp: Num_def value_in_simps)
  next
    assume n: "n = ''log'' \<or> n = ''sqrt''"
    show ?thesis
      by (rule forward_function [OF n _ _ FunctionCall.prems(5,6)])
        (use FunctionCall in \<open>simp_all\<close>)
  qed
qed

lemma Evaluate_stateless:
  "stateless (body sg) \<Longrightarrow> Evaluate M symbols sg m ctx = (value_in M symbols m ctx (body sg), ctx)"
  using Visit_reads_only [of "body sg" M symbols m]
  by (auto simp: reads_only_def Evaluate_def value_in_def split: prod.splits) (metis prod.inject snd_conv)

text \<open>C14: On every machine, for a stateless signal without abs, the forward-mode evaluator returns
  bit for bit the value the interpreter computes for the signal and the value it computes for the
  symbolic derivative of the signal, and leaves the context as it is.\<close>

theorem forward_gradient_is_symbolic:
  assumes "stateless (body signal)" and "fresh (body signal)" and "applied (body signal)" and "abs_free (body signal)"
    and "params ctx \<noteq> None" and "0 \<le> pid" and "nat pid < num_params ctx"
    and "fst (Evaluate M symbols signal m ctx) = Inr v" and "Differentiate M pid (body signal) = Inr d"
  shows "\<exists>g. EvaluateSignalGradient M signal symbols m pid ctx = (Inr (v, g), ctx) \<and>
    fst (Evaluate M symbols (signal\<lparr>body := d\<rparr>) m ctx) = Inr g"
proof -
  have "value_in M symbols m ctx (body signal) = Inr v" using assms(8) by (simp add: Evaluate_value_in)
  moreover have "Differentiate M (int (nat pid)) (body signal) = Inr d" using assms(6,9) by simp
  ultimately obtain g where "computes M symbols m (nat pid) ctx (body signal) v g" "value_in M symbols m ctx d = Inr g"
    using forward_symbolic [OF assms(1-4)] by blast
  with assms(5-7) show ?thesis
    by (auto simp: EvaluateSignalGradient_def computes_def Evaluate_value_in)
qed

definition square_signal :: "'f SignalDef" where
  "square_signal = \<lparr>sig_name = ''s'',
     body = BinaryOp no_loc Mul (ParameterExpr no_loc ''a'' 0) (ParameterExpr no_loc ''a'' 0)\<rparr>"

theorem forward_gradient_is_symbolic_witness:
  "\<exists>g ctx. params ctx = Some [Fin 3] \<and>
     fst (EvaluateSignalGradient (ieee id) square_signal SymbolTable0 \<lparr>instruments = [], current_time_ns = 0\<rparr> 0 ctx) =
       Inr (dmul (ieee id) (Fin 3) (Fin 3), g)"
proof -
  define ctx :: "fp SignalContext" where "ctx = SignalContext0\<lparr>params := Some [Fin 3], num_params := 1\<rparr>"
  have ctx: "params ctx = Some [Fin 3]" "num_params ctx = 1" by (simp_all add: ctx_def)
  let ?m = "\<lparr>instruments = [], current_time_ns = 0\<rparr> :: fp MarketState"
  have "fst (Evaluate (ieee id) SymbolTable0 square_signal ?m ctx) = Inr (dmul (ieee id) (Fin 3) (Fin 3))"
    by (simp add: Evaluate_value_in square_signal_def value_in_simps) (simp add: value_in_def visit_param_def ctx)
  moreover have "\<exists>d. Differentiate (ieee id) 0 (body square_signal) = Inr d" by (simp add: square_signal_def)
  then obtain d where "Differentiate (ieee id) 0 (body square_signal) = Inr d" by blast
  ultimately have "\<exists>g. EvaluateSignalGradient (ieee id) square_signal SymbolTable0 ?m 0 ctx =
      (Inr (dmul (ieee id) (Fin 3) (Fin 3), g), ctx)"
    using forward_gradient_is_symbolic [of square_signal ctx 0 "ieee id" SymbolTable0 ?m] ctx
    by (auto simp: square_signal_def)
  with ctx show ?thesis by fastforce
qed

text \<open>C35: In exact arithmetic the forward-mode evaluator returns, at every regular value of the
  parameter, the value of a stateless signal without abs and its derivative.\<close>

theorem forward_gradient_derivative:
  assumes "stateless (body signal)" and "fresh (body signal)" and "applied (body signal)" and "abs_free (body signal)"
    and "params ctx \<noteq> None" and "0 \<le> pid" and "nat pid < num_params ctx"
    and "regular (V_at symbols m ctx pid) t (body signal)"
  defines "at_value \<equiv> \<lambda>\<theta>. with_param ctx pid (Some \<theta>)"
  shows "\<exists>f f'. (\<forall>\<^sub>F \<theta> in nhds t. fst (Evaluate exact symbols signal m (at_value \<theta>)) = Inr (Some (f \<theta>))) \<and>
    EvaluateSignalGradient exact signal symbols m pid (at_value t) = (Inr (Some (f t), Some f'), at_value t) \<and>
    (f has_real_derivative f') (at t)"
proof -
  obtain d where d: "Differentiate exact pid (body signal) = Inr d"
    using Differentiate_total [OF assms(1,3)] by blast
  from Differentiate_regular [OF assms(1,2,8) d assms(6)] obtain f f' where
    f: "\<forall>\<^sub>F \<theta> in nhds t. value_in exact symbols m (at_value \<theta>) (body signal) = Inr (Some (f \<theta>))"
      "value_in exact symbols m (at_value t) d = Inr (Some f')" "(f has_real_derivative f') (at t)"
    by (auto simp: derivative_tree_def V_at_def at_value_def)
  have "Differentiate exact (int (nat pid)) (body signal) = Inr d" using assms(6) d by simp
  from forward_symbolic [OF assms(1-4) eventually_nhds_x_imp_x [OF f(1)] this] f(2)
  have "EvaluateSignalGradient exact signal symbols m pid (at_value t) = (Inr (Some (f t), Some f'), at_value t)"
    using assms(5-7) by (auto simp: EvaluateSignalGradient_def computes_def at_value_def with_param_def)
  with f show ?thesis by (auto simp: Evaluate_value_in)
qed

theorem forward_gradient_derivative_witness:
  "\<exists>f'. fst (EvaluateSignalGradient exact square_signal SymbolTable0 \<lparr>instruments = [], current_time_ns = 0\<rparr> 0
     (with_param context_a 0 (Some 3))) = Inr (Some 9, Some f')"
proof -
  let ?m = "\<lparr>instruments = [], current_time_ns = 0\<rparr> :: xreal MarketState"
  have p: "V_at SymbolTable0 ?m context_a 0 \<theta> (ParameterExpr no_loc ''a'' 0) = Inr (Some \<theta>)" for \<theta>
    by (simp add: V_at_def value_in_def with_param_def context_a_def visit_param_def)
  then have reg: "regular (V_at SymbolTable0 ?m context_a 0) 3 (body square_signal)"
    by (simp add: square_signal_def is_arith_def)
  obtain f f' where f: "\<forall>\<^sub>F \<theta> in nhds 3. fst (Evaluate exact SymbolTable0 square_signal ?m (with_param context_a 0 (Some \<theta>))) =
        Inr (Some (f \<theta>))"
      "EvaluateSignalGradient exact square_signal SymbolTable0 ?m 0 (with_param context_a 0 (Some 3)) =
        (Inr (Some (f 3), Some f'), with_param context_a 0 (Some 3))"
    using forward_gradient_derivative [OF _ _ _ _ _ _ _ reg] by (auto simp: square_signal_def context_a_def)
  from eventually_nhds_x_imp_x [OF f(1)] p [of 3] have "f 3 = 9"
    by (simp add: Evaluate_value_in square_signal_def V_at_simps flip: V_at_def)
  with f(2) show ?thesis by auto
qed

definition abs_root_signal :: "'f SignalDef" where
  "abs_root_signal = \<lparr>sig_name = ''s'',
     body = FunctionCall no_loc ''abs'' [FunctionCall no_loc ''sqrt'' [ParameterExpr no_loc ''a'' 0] (-1) (-1)] (-1) (-1)\<rparr>"

text \<open>C37: With abs the two differ where the argument is 0 and its derivative is not finite: for
  \<open>abs(sqrt(a))\<close> at 0 the forward-mode evaluator multiplies 0 by infinity and returns NaN, and the
  symbolic derivative is 0.\<close>

theorem forward_abs_differs:
  assumes "params ctx = Some [Zero False]" and "num_params ctx = 1"
  shows "fst (EvaluateSignalGradient (ieee lg) abs_root_signal symbols m 0 ctx) = Inr (Zero False, NaN) \<and>
    (\<exists>d. Differentiate (ieee lg) 0 (body abs_root_signal) = Inr d \<and>
       fst (Evaluate (ieee lg) symbols (abs_root_signal\<lparr>body := d\<rparr>) m ctx) = Inr (Zero False))"
proof
  have two: "round_to binary64 2 = Fin 2" by code_simp
  show "fst (EvaluateSignalGradient (ieee lg) abs_root_signal symbols m 0 ctx) = Inr (Zero False, NaN)"
    using assms
    by (simp add: EvaluateSignalGradient_def abs_root_signal_def EvalCall_def EvalFunction_def fg_arg_def bindm_def
        fg_param_def fg_abs_def fg_sqrt_def Let_def ieee_simps two dlit_ieee_one round_to_zero fp_lt_def)
  let ?x = "ParameterExpr no_loc ''a'' 0 :: fp expr"
  let ?r = "FunctionCall no_loc ''sqrt'' [?x] (-1) (-1)"
  let ?d = "diff_abs (ieee lg) no_loc ?r (diff_sqrt (ieee lg) no_loc ?x (Num (ieee lg) 1 no_loc))"
  have "value_in (ieee lg) symbols m ctx ?x = Inr (Zero False)"
    using assms by (simp add: value_in_def visit_param_def)
  then have r: "value_in (ieee lg) symbols m ctx ?r = Inr (Zero False)"
    by (simp add: value_in_functions) (simp add: ieee_simps)
  have gt: "eval_binary (ieee lg) k (Zero False) (Zero False) = Zero False" if "k \<in> {Gt, Lt}" for k
    using that by (auto simp: ieee_simps dbool_def fp_lt_def round_to_zero)
  have feq: "feq (ieee lg) (Zero False) (Zero False)" and zero: "dlit (ieee lg) 0 = Zero False"
    by (simp_all add: ieee_simps fp_eq_def round_to_zero)
  have "value_in (ieee lg) symbols m ctx ?d = Inr (Zero False)"
    unfolding diff_abs_def Num_def
    by (simp add: value_in_simps r gt feq zero IsStatelessBuiltin_def del: eval_binary.simps)
  then show "\<exists>d. Differentiate (ieee lg) 0 (body abs_root_signal) = Inr d \<and>
       fst (Evaluate (ieee lg) symbols (abs_root_signal\<lparr>body := d\<rparr>) m ctx) = Inr (Zero False)"
    by (simp add: abs_root_signal_def Evaluate_value_in)
qed

theorem forward_abs_differs_witness:
  "fst (EvaluateSignalGradient (ieee id) abs_root_signal SymbolTable0 \<lparr>instruments = [], current_time_ns = 0\<rparr> 0
     (SignalContext0\<lparr>params := Some [Zero False], num_params := 1\<rparr>)) = Inr (Zero False, NaN)"
  using forward_abs_differs [of "SignalContext0\<lparr>params := Some [Zero False], num_params := 1\<rparr>" id] by simp

section \<open>The value beside the gradient\<close>

text \<open>The states of rolling_std and its helper that move together.\<close>

definition std_synced :: "'f RingStatsState \<times> 'f RollingStdSensitivityState \<Rightarrow> 'f RingStatsState \<Rightarrow> bool" where
  "std_synced st s \<longleftrightarrow> fst st = s \<and> ss_capacity (snd st) = rs_capacity s \<and> ss_slides (snd st) = rs_slides s \<and>
     length (ss_buffer (snd st)) = ss_capacity (snd st)"

lemma ss_fields [simp]:
  "ss_buffer (ss_add M s s' g x) = ss_buffer g" "ss_capacity (ss_add M s s' g x) = ss_capacity g"
  "ss_slides (ss_add M s s' g x) = ss_slides g" "ss_buffer (ss_slide M s s' g x) = ss_buffer g"
  "ss_capacity (ss_slide M s s' g x) = ss_capacity g" "ss_slides (ss_slide M s s' g x) = ss_slides g"
  by (simp_all add: ss_add_def ss_slide_def Let_def case_prod_unfold)

lemma refresh_fields [simp]:
  "ss_buffer (RollingStdRefreshSensitivity M g s) = ss_buffer g"
  "ss_capacity (RollingStdRefreshSensitivity M g s) = ss_capacity g"
  "ss_slides (RollingStdRefreshSensitivity M g s) = 0"
  "rs_capacity (RingStatsRefreshMeanM2FromBuffer M s) = rs_capacity s"
  "rs_slides (RingStatsRefreshMeanM2FromBuffer M s) = 0"
  by (simp_all add: RollingStdRefreshSensitivity_def RingStatsRefreshMeanM2FromBuffer_def Let_def)

lemma std_grad_push_prepared:
  assumes "ss_capacity g = rs_capacity s" and "ss_slides g = rs_slides s" and "length (ss_buffer g) = rs_capacity s"
    and "rs_capacity s = p" and "0 < p"
  shows "std_synced (std_grad_push M x p (s, g)) (ring_stats_step M s (fst x))"
proof (cases "rs_count s = rs_capacity s")
  case True
  with assms show ?thesis
    by (auto simp: std_grad_push_def std_synced_def ring_stats_step_def ring_stats_after_slide_def
        ring_stats_write_def RingStatsRefreshInterval_def Let_def)
next
  case False
  with assms show ?thesis
    by (auto simp: std_grad_push_def std_synced_def ring_stats_step_def ring_stats_write_def Let_def)
qed

lemma std_grad_push_primal:
  assumes "std_synced st s" and "0 < p"
  shows "std_synced (std_grad_push M x p st)
    (ring_stats_step M (if rs_capacity s \<noteq> p then ring_stats_reset M p s else s) (fst x))"
proof -
  let ?s = "if rs_capacity s \<noteq> p then ring_stats_reset M p s else s"
  let ?g = "if ss_capacity (snd st) \<noteq> rs_capacity ?s then ss_reset M (rs_capacity ?s) (snd st) else snd st"
  have g: "ss_capacity ?g = rs_capacity ?s" "ss_slides ?g = rs_slides ?s" "length (ss_buffer ?g) = rs_capacity ?s"
      "rs_capacity ?s = p"
    using assms(1) by (auto simp: std_synced_def ring_stats_reset_def ss_reset_def)
  have "std_grad_push M x p st = std_grad_push M x p (?s, ?g)"
    using assms(1) g by (simp add: std_grad_push_def std_synced_def)
  with std_grad_push_prepared [OF g assms(2)] show ?thesis by simp
qed

lemma fst_std_grad_value:
  "fst (std_grad_value M z x st) = (if z then zscore_value M (fst x) (fst st) else rolling_std_value M (fst st))"
  by (cases st) (auto simp: std_grad_value_def zscore_value_def rolling_std_value_def both_nan_def Let_def
      RingStatsStddevSample_def case_prod_unfold)



end
