(* ===== verification/Jit_Ir.thy ===== *)
theory Jit_Ir
  imports Multi_Symbol
begin

text \<open>
  The code \<^verbatim>\<open>src/jit_compiler.cpp\<close> emits: values, instructions and basic blocks as the
  builder calls of that file create them, and the memory the compiled function works on. What an
  arithmetic instruction or an intrinsic returns is a parameter of the later theories;
  \<open>documented\<close> states what the language reference of the target promises about the instructions
  the emitter uses.
\<close>

section \<open>Values\<close>

text \<open>The 64-bit integer of the state structs.\<close>

definition i64 :: "int \<Rightarrow> 64 word" where
  "i64 i = word_of_int i"

text \<open>The arrays of lowered operator states, in the order of \<^verbatim>\<open>LoweredStateBases\<close>.\<close>

datatype lowered_kind =
    SmaKind | EmaKind | LagKind | StdKind | ZscoreKind | MinKind | MaxKind | CrossKind
  | KalmanKind | VwapKind | CorrKind | BetaKind

definition base_kinds :: "lowered_kind list" where
  "base_kinds = [SmaKind, EmaKind, LagKind, StdKind, ZscoreKind, MinKind, MaxKind, CrossKind,
     KalmanKind, VwapKind, CorrKind, BetaKind]"

text \<open>Pointers: the roots the function is called with, and elements and fields reached from them.
  \<open>PBuffer c k w i\<close> is the storage of buffer \<open>i\<close> of kind \<open>k\<close> in context \<open>c\<close>, the second
  one of its kind when \<open>w\<close>; \<open>PRing c i\<close> is the buffer of a primal sma slot.\<close>

datatype ptr =
    PNull
  | PMarket nat
  | PLanes
  | PArena
  | PContext nat
  | POutputs
  | PLowered nat lowered_kind
  | PBuffer nat lowered_kind bool nat
  | PRing nat nat
  | PSlot nat
  | PLocal nat nat
  | PElem ptr "64 word"
  | PField ptr nat

datatype 'f rval =
    VF 'f
  | VX 'f
  | VI "64 word"
  | VW "32 word"
  | VB bool
  | VP ptr
  | VV "'f list"
  | VM "bool list"

datatype 'f operand =
    Reg nat nat
  | Hoisted nat
  | CtxVal
  | StackSlot nat
  | Argument string
  | ConstFP 'f
  | ConstSplat nat 'f
  | ConstInt "64 word"
  | ConstI32 "32 word"
  | NullPtr
  | UndefVec nat

section \<open>Instructions\<close>

datatype fcmp = OGT | OLT | OGE | OLE | UNE
datatype icmp = IEQ | INE | SGT | SGE

datatype opcode =
    FAddOp | FSubOp | FMulOp | FDivOp | FNegOp
  | FCmpOp fcmp | ICmpOp icmp
  | IAddOp | ISubOp | URemOp | IAndOp | IOrOp
  | SelectOp | UIToFPOp | FPTruncOp | FPExtOp
  | Intrinsic string
  | ExtractOp nat | InsertOp nat

datatype ir_type = F64 | F80 | I64 | PtrTy | Vec4Ty

datatype 'f instr =
    Op opcode "'f operand list"
  | GEP "'f operand" "'f operand"
  | StructGEP "'f operand" nat
  | Load ir_type "'f operand"
  | Store "'f operand" "'f operand"
  | Call string "'f operand list"
  | Phi "('f operand \<times> nat) list"
  | Alloca

datatype 'f terminator =
    Br nat
  | CondBr "'f operand" nat nat
  | Ret "'f operand"
  | RetVoid

record 'f block =
  code :: "'f instr list"
  final :: "'f terminator option"

text \<open>A function: its blocks, the first of them the entry block. The code of the entry block starts
  with the call that finds the context, if there is one, and the loads of base pointers the emitter
  inserts behind it; they are kept apart from the code that is appended.\<close>

record 'f func =
  calls_ctx :: bool
  hoists :: "nat list"
  fblocks :: "'f block list"

section \<open>Operations\<close>

definition fcmp_holds :: "'f machine \<Rightarrow> fcmp \<Rightarrow> 'f \<Rightarrow> 'f \<Rightarrow> bool" where
  "fcmp_holds M p a b =
     (case p of OGT \<Rightarrow> flt M b a | OLT \<Rightarrow> flt M a b | OGE \<Rightarrow> fle M b a | OLE \<Rightarrow> fle M a b
      | UNE \<Rightarrow> \<not> feq M a b)"

definition icmp_holds :: "icmp \<Rightarrow> 64 word \<Rightarrow> 64 word \<Rightarrow> bool" where
  "icmp_holds p a b =
     (case p of IEQ \<Rightarrow> a = b | INE \<Rightarrow> a \<noteq> b | SGT \<Rightarrow> sint b < sint a | SGE \<Rightarrow> sint b \<le> sint a)"

definition intrinsic :: "'f machine \<Rightarrow> string \<Rightarrow> ('f \<Rightarrow> 'f) option" where
  "intrinsic M name =
     (if name = ''fabs'' then Some (fabs M) else if name = ''sqrt'' then Some (dsqrt M)
      else if name = ''log'' then Some (flog M) else None)"

fun lift2 :: "('f \<Rightarrow> 'f \<Rightarrow> 'f) \<Rightarrow> 'f rval list \<Rightarrow> 'f rval option" where
  "lift2 f [VF a, VF b] = Some (VF (f a b))"
| "lift2 f [VV as, VV bs] = (if length as = length bs then Some (VV (map2 f as bs)) else None)"
| "lift2 f _ = None"

fun lift1 :: "('f \<Rightarrow> 'f) \<Rightarrow> 'f rval list \<Rightarrow> 'f rval option" where
  "lift1 f [VF a] = Some (VF (f a))"
| "lift1 f [VV as] = Some (VV (map f as))"
| "lift1 f _ = None"

fun logic2 :: "(bool \<Rightarrow> bool \<Rightarrow> bool) \<Rightarrow> 'f rval list \<Rightarrow> 'f rval option" where
  "logic2 f [VB a, VB b] = Some (VB (f a b))"
| "logic2 f [VM as, VM bs] = (if length as = length bs then Some (VM (map2 f as bs)) else None)"
| "logic2 f _ = None"

fun cmp2 :: "('f \<Rightarrow> 'f \<Rightarrow> bool) \<Rightarrow> 'f rval list \<Rightarrow> 'f rval option" where
  "cmp2 f [VF a, VF b] = Some (VB (f a b))"
| "cmp2 f [VV as, VV bs] = (if length as = length bs then Some (VM (map2 f as bs)) else None)"
| "cmp2 f _ = None"

fun icmp2 :: "(64 word \<Rightarrow> 64 word \<Rightarrow> bool) \<Rightarrow> 'f rval list \<Rightarrow> 'f rval option" where
  "icmp2 f [VI a, VI b] = Some (VB (f a b))"
| "icmp2 f _ = None"

fun iadd2 :: "'f rval list \<Rightarrow> 'f rval option" where
  "iadd2 [VI a, VI b] = Some (VI (a + b))"
| "iadd2 [VW a, VW b] = Some (VW (a + b))"
| "iadd2 _ = None"

fun isub2 :: "'f rval list \<Rightarrow> 'f rval option" where
  "isub2 [VI a, VI b] = Some (VI (a - b))"
| "isub2 _ = None"

fun urem2 :: "'f rval list \<Rightarrow> 'f rval option" where
  "urem2 [VI a, VI b] = (if b = 0 then None else Some (VI (a mod b)))"
| "urem2 _ = None"

fun select3 :: "'f rval list \<Rightarrow> 'f rval option" where
  "select3 [VB c, a, b] = Some (if c then a else b)"
| "select3 [VM cs, VV as, VV bs] =
     (if length cs = length as \<and> length as = length bs
      then Some (VV (map (\<lambda>(c, a, b). if c then a else b) (zip cs (zip as bs)))) else None)"
| "select3 _ = None"

fun widen_bool :: "(bool \<Rightarrow> 'f) \<Rightarrow> 'f rval list \<Rightarrow> 'f rval option" where
  "widen_bool f [VB c] = Some (VF (f c))"
| "widen_bool f [VM cs] = Some (VV (map f cs))"
| "widen_bool f _ = None"

fun fptrunc :: "('f \<Rightarrow> 'f) \<Rightarrow> 'f rval list \<Rightarrow> 'f rval option" where
  "fptrunc f [VX a] = Some (VF (f a))"
| "fptrunc f _ = None"

fun fpext :: "'f rval list \<Rightarrow> 'f rval option" where
  "fpext [VF a] = Some (VX a)"
| "fpext _ = None"

fun extract_lane :: "nat \<Rightarrow> 'f rval list \<Rightarrow> 'f rval option" where
  "extract_lane i [VV as] = (if i < length as then Some (VF (as ! i)) else None)"
| "extract_lane i _ = None"

fun insert2 :: "nat \<Rightarrow> 'f rval list \<Rightarrow> 'f rval option" where
  "insert2 i [VV as, VF a] = (if i < length as then Some (VV (as[i := a])) else None)"
| "insert2 i _ = None"

text \<open>The result of an instruction on operands of the types it is emitted with. Widening to the
  80-bit format keeps the value; a remainder by zero is undefined.\<close>

primrec op_value :: "'f machine \<Rightarrow> opcode \<Rightarrow> 'f rval list \<Rightarrow> 'f rval option" where
  "op_value M FAddOp = lift2 (dadd M)"
| "op_value M FSubOp = lift2 (dsub M)"
| "op_value M FMulOp = lift2 (dmul M)"
| "op_value M FDivOp = lift2 (ddiv M)"
| "op_value M FNegOp = lift1 (fneg M)"
| "op_value M (FCmpOp p) = cmp2 (fcmp_holds M p)"
| "op_value M (ICmpOp p) = icmp2 (icmp_holds p)"
| "op_value M IAddOp = iadd2"
| "op_value M ISubOp = isub2"
| "op_value M URemOp = urem2"
| "op_value M IAndOp = logic2 (\<and>)"
| "op_value M IOrOp = logic2 (\<or>)"
| "op_value M SelectOp = select3"
| "op_value M UIToFPOp = widen_bool (dbool M)"
| "op_value M FPTruncOp = fptrunc (narrow M)"
| "op_value M FPExtOp = fpext"
| "op_value M (Intrinsic n) = (case intrinsic M n of Some f \<Rightarrow> lift1 f | None \<Rightarrow> Map.empty)"
| "op_value M (ExtractOp i) = extract_lane i"
| "op_value M (InsertOp i) = insert2 i"

text \<open>What the emitter relies on: where the reference gives a result, the target computes it.\<close>

definition documented :: "'f machine \<Rightarrow> (opcode \<Rightarrow> 'f rval list \<Rightarrow> 'f rval option) \<Rightarrow> bool" where
  "documented M L \<longleftrightarrow> (\<forall>opc vs v. op_value M opc vs = Some v \<longrightarrow> L opc vs = Some v)"

lemma documented_reference: "documented M (op_value M)"
  by (simp add: documented_def)

fun double_of :: "'f rval \<Rightarrow> 'f option" where
  "double_of (VF x) = Some x"
| "double_of _ = None"

fun extended_of :: "'f rval \<Rightarrow> 'f option" where
  "extended_of (VX x) = Some x"
| "extended_of _ = None"

fun int_of :: "'f rval \<Rightarrow> 64 word option" where
  "int_of (VI w) = Some w"
| "int_of _ = None"

section \<open>Memory\<close>

record 'f memory =
  markets :: "'f MarketState list"
  contexts :: "'f SignalContext list"
  outs :: "'f list"
  slots :: "nat \<rightharpoonup> 'f rval"
  locals :: "nat \<times> nat \<rightharpoonup> 'f rval"

text \<open>The fields of a lowered slot, in the order of the structs of \<^verbatim>\<open>src/runtime.h\<close>; padding
  in front of an 80-bit field of \<^verbatim>\<open>RollingPairStateLowered\<close> is a field of its own once.\<close>

definition buffer_ptr :: "nat \<Rightarrow> lowered_kind \<Rightarrow> bool \<Rightarrow> nat option \<Rightarrow> 'f rval" where
  "buffer_ptr c k w owner = VP (case owner of None \<Rightarrow> PNull | Some i \<Rightarrow> PBuffer c k w i)"

definition sma_cells :: "nat \<Rightarrow> lowered_kind \<Rightarrow> 'f SmaStateLowered \<Rightarrow> 'f rval list" where
  "sma_cells c k st =
     [buffer_ptr c k False (sl_buffer st), VF (sl_sum st), VI (i64 (sl_head st)),
      VI (i64 (sl_count st)), VI (i64 (sl_capacity st))]"

definition ema_cells :: "nat \<Rightarrow> lowered_kind \<Rightarrow> 'f EmaStateLowered \<Rightarrow> 'f rval list" where
  "ema_cells c k st =
     [VF (el_value st), VI (i64 (el_initialized st))]"

definition lag_cells :: "nat \<Rightarrow> lowered_kind \<Rightarrow> LagStateLowered \<Rightarrow> 'f rval list" where
  "lag_cells c k st =
     [buffer_ptr c k False (ll_buffer st), VI (i64 (ll_head st)),
      VI (i64 (ll_count st)), VI (i64 (ll_capacity st))]"

definition ring_cells :: "nat \<Rightarrow> lowered_kind \<Rightarrow> 'f RollingStdStateLowered \<Rightarrow> 'f rval list" where
  "ring_cells c k st =
     [buffer_ptr c k False (rl_buffer st), VI (i64 (rl_capacity st)),
      VI (i64 (rl_head st)), VI (i64 (rl_count st)), VX (rl_sum st),
      VX (rl_mean st), VX (rl_m2 st), VI (i64 (rl_slides st))]"

definition deque_cells :: "nat \<Rightarrow> lowered_kind \<Rightarrow> RollingMinMaxStateLowered \<Rightarrow> 'f rval list" where
  "deque_cells c k st =
     [buffer_ptr c k False (ml_buf st), VI (i64 (ml_head st)),
      VI (i64 (ml_count st)), VI (i64 (ml_cap st)),
      VI (i64 (ml_idx st))]"

definition cross_cells :: "nat \<Rightarrow> lowered_kind \<Rightarrow> 'f CrossStateLowered \<Rightarrow> 'f rval list" where
  "cross_cells c k st =
     [VF (cl_prev_a st), VF (cl_prev_b st), VI (i64 (cl_initialized st))]"

definition kalman_cells :: "nat \<Rightarrow> lowered_kind \<Rightarrow> 'f Kalman1dStateLowered \<Rightarrow> 'f rval list" where
  "kalman_cells c k st =
     [VF (kl_x_hat st), VF (kl_p st), VI (i64 (kl_initialized st))]"

definition vwap_cells :: "nat \<Rightarrow> lowered_kind \<Rightarrow> 'f VwapStateLowered \<Rightarrow> 'f rval list" where
  "vwap_cells c k st =
     [buffer_ptr c k False (vl_price_buf st), buffer_ptr c k True (vl_vol_buf st),
      VI (i64 (vl_head st)), VI (i64 (vl_count st)),
      VI (i64 (vl_capacity st)), VF (vl_sum_pv st), VF (vl_sum_vol st)]"

definition pair_cells :: "nat \<Rightarrow> lowered_kind \<Rightarrow> 'f RollingPairStateLowered \<Rightarrow> 'f rval list" where
  "pair_cells c k st =
     [buffer_ptr c k False (pl_x_buf st), buffer_ptr c k True (pl_y_buf st),
      VI (i64 (pl_head st)), VI (i64 (pl_count st)),
      VI (i64 (pl_capacity st)), VI 0, VX (pl_sum_x st), VX (pl_sum_y st),
      VX (pl_sum_xy st), VX (pl_sum_xx st), VX (pl_sum_yy st)]"

text \<open>Stores to those fields; the emitted code never stores a pointer into a slot.\<close>

definition sma_put :: "nat \<Rightarrow> 'f rval \<Rightarrow> 'f SmaStateLowered \<Rightarrow> 'f SmaStateLowered option" where
  "sma_put j v st =
     (if j = 1 then map_option (\<lambda>x. st\<lparr>sl_sum := x\<rparr>) (double_of v)
      else if j = 2 then map_option (\<lambda>w. st\<lparr>sl_head := sint w\<rparr>) (int_of v)
      else if j = 3 then map_option (\<lambda>w. st\<lparr>sl_count := sint w\<rparr>) (int_of v)
      else if j = 4 then map_option (\<lambda>w. st\<lparr>sl_capacity := sint w\<rparr>) (int_of v)
      else None)"

definition ema_put :: "nat \<Rightarrow> 'f rval \<Rightarrow> 'f EmaStateLowered \<Rightarrow> 'f EmaStateLowered option" where
  "ema_put j v st =
     (if j = 0 then map_option (\<lambda>x. st\<lparr>el_value := x\<rparr>) (double_of v)
      else if j = 1 then map_option (\<lambda>w. st\<lparr>el_initialized := sint w\<rparr>) (int_of v)
      else None)"

definition lag_put :: "nat \<Rightarrow> 'f rval \<Rightarrow> LagStateLowered \<Rightarrow> LagStateLowered option" where
  "lag_put j v st =
     (if j = 1 then map_option (\<lambda>w. st\<lparr>ll_head := sint w\<rparr>) (int_of v)
      else if j = 2 then map_option (\<lambda>w. st\<lparr>ll_count := sint w\<rparr>) (int_of v)
      else if j = 3 then map_option (\<lambda>w. st\<lparr>ll_capacity := sint w\<rparr>) (int_of v)
      else None)"

definition ring_put :: "nat \<Rightarrow> 'f rval \<Rightarrow> 'f RollingStdStateLowered \<Rightarrow> 'f RollingStdStateLowered option" where
  "ring_put j v st =
     (if j = 1 then map_option (\<lambda>w. st\<lparr>rl_capacity := sint w\<rparr>) (int_of v)
      else if j = 2 then map_option (\<lambda>w. st\<lparr>rl_head := sint w\<rparr>) (int_of v)
      else if j = 3 then map_option (\<lambda>w. st\<lparr>rl_count := sint w\<rparr>) (int_of v)
      else if j = 4 then map_option (\<lambda>x. st\<lparr>rl_sum := x\<rparr>) (extended_of v)
      else if j = 5 then map_option (\<lambda>x. st\<lparr>rl_mean := x\<rparr>) (extended_of v)
      else if j = 6 then map_option (\<lambda>x. st\<lparr>rl_m2 := x\<rparr>) (extended_of v)
      else if j = 7 then map_option (\<lambda>w. st\<lparr>rl_slides := sint w\<rparr>) (int_of v)
      else None)"

definition deque_put :: "nat \<Rightarrow> 'f rval \<Rightarrow> RollingMinMaxStateLowered \<Rightarrow> RollingMinMaxStateLowered option" where
  "deque_put j v st =
     (if j = 1 then map_option (\<lambda>w. st\<lparr>ml_head := sint w\<rparr>) (int_of v)
      else if j = 2 then map_option (\<lambda>w. st\<lparr>ml_count := sint w\<rparr>) (int_of v)
      else if j = 3 then map_option (\<lambda>w. st\<lparr>ml_cap := sint w\<rparr>) (int_of v)
      else if j = 4 then map_option (\<lambda>w. st\<lparr>ml_idx := sint w\<rparr>) (int_of v)
      else None)"

definition cross_put :: "nat \<Rightarrow> 'f rval \<Rightarrow> 'f CrossStateLowered \<Rightarrow> 'f CrossStateLowered option" where
  "cross_put j v st =
     (if j = 0 then map_option (\<lambda>x. st\<lparr>cl_prev_a := x\<rparr>) (double_of v)
      else if j = 1 then map_option (\<lambda>x. st\<lparr>cl_prev_b := x\<rparr>) (double_of v)
      else if j = 2 then map_option (\<lambda>w. st\<lparr>cl_initialized := sint w\<rparr>) (int_of v)
      else None)"

definition kalman_put :: "nat \<Rightarrow> 'f rval \<Rightarrow> 'f Kalman1dStateLowered \<Rightarrow> 'f Kalman1dStateLowered option" where
  "kalman_put j v st =
     (if j = 0 then map_option (\<lambda>x. st\<lparr>kl_x_hat := x\<rparr>) (double_of v)
      else if j = 1 then map_option (\<lambda>x. st\<lparr>kl_p := x\<rparr>) (double_of v)
      else if j = 2 then map_option (\<lambda>w. st\<lparr>kl_initialized := sint w\<rparr>) (int_of v)
      else None)"

definition vwap_put :: "nat \<Rightarrow> 'f rval \<Rightarrow> 'f VwapStateLowered \<Rightarrow> 'f VwapStateLowered option" where
  "vwap_put j v st =
     (if j = 2 then map_option (\<lambda>w. st\<lparr>vl_head := sint w\<rparr>) (int_of v)
      else if j = 3 then map_option (\<lambda>w. st\<lparr>vl_count := sint w\<rparr>) (int_of v)
      else if j = 4 then map_option (\<lambda>w. st\<lparr>vl_capacity := sint w\<rparr>) (int_of v)
      else if j = 5 then map_option (\<lambda>x. st\<lparr>vl_sum_pv := x\<rparr>) (double_of v)
      else if j = 6 then map_option (\<lambda>x. st\<lparr>vl_sum_vol := x\<rparr>) (double_of v)
      else None)"

definition pair_put :: "nat \<Rightarrow> 'f rval \<Rightarrow> 'f RollingPairStateLowered \<Rightarrow> 'f RollingPairStateLowered option" where
  "pair_put j v st =
     (if j = 2 then map_option (\<lambda>w. st\<lparr>pl_head := sint w\<rparr>) (int_of v)
      else if j = 3 then map_option (\<lambda>w. st\<lparr>pl_count := sint w\<rparr>) (int_of v)
      else if j = 4 then map_option (\<lambda>w. st\<lparr>pl_capacity := sint w\<rparr>) (int_of v)
      else if j = 6 then map_option (\<lambda>x. st\<lparr>pl_sum_x := x\<rparr>) (extended_of v)
      else if j = 7 then map_option (\<lambda>x. st\<lparr>pl_sum_y := x\<rparr>) (extended_of v)
      else if j = 8 then map_option (\<lambda>x. st\<lparr>pl_sum_xy := x\<rparr>) (extended_of v)
      else if j = 9 then map_option (\<lambda>x. st\<lparr>pl_sum_xx := x\<rparr>) (extended_of v)
      else if j = 10 then map_option (\<lambda>x. st\<lparr>pl_sum_yy := x\<rparr>) (extended_of v)
      else None)"

definition cells_at :: "nat \<Rightarrow> 'a list \<Rightarrow> ('a \<Rightarrow> 'f rval list) \<Rightarrow> 'f rval list" where
  "cells_at n xs f = (if n < length xs then f (xs ! n) else [])"

primrec cells :: "'f LoweredStates \<Rightarrow> nat \<Rightarrow> nat \<Rightarrow> lowered_kind \<Rightarrow> 'f rval list" where
  "cells l c n SmaKind = cells_at n (sma_lowered l) (sma_cells c SmaKind)"
| "cells l c n EmaKind = cells_at n (ema_lowered l) (ema_cells c EmaKind)"
| "cells l c n LagKind = cells_at n (lag_lowered l) (lag_cells c LagKind)"
| "cells l c n StdKind = cells_at n (rolling_std_lowered l) (ring_cells c StdKind)"
| "cells l c n ZscoreKind = cells_at n (zscore_lowered l) (ring_cells c ZscoreKind)"
| "cells l c n MinKind = cells_at n (rolling_min_lowered l) (deque_cells c MinKind)"
| "cells l c n MaxKind = cells_at n (rolling_max_lowered l) (deque_cells c MaxKind)"
| "cells l c n CrossKind = cells_at n (cross_lowered l) (cross_cells c CrossKind)"
| "cells l c n KalmanKind = cells_at n (kalman1d_lowered l) (kalman_cells c KalmanKind)"
| "cells l c n VwapKind = cells_at n (vwap_lowered l) (vwap_cells c VwapKind)"
| "cells l c n CorrKind = cells_at n (rolling_corr_lowered l) (pair_cells c CorrKind)"
| "cells l c n BetaKind = cells_at n (rolling_beta_lowered l) (pair_cells c BetaKind)"

definition put_at :: "nat \<Rightarrow> ('a \<Rightarrow> 'a option) \<Rightarrow> 'a list \<Rightarrow> 'a list option" where
  "put_at n f xs = (if n < length xs then map_option (\<lambda>x. xs[n := x]) (f (xs ! n)) else None)"

primrec put_cell :: "'f LoweredStates \<Rightarrow> nat \<Rightarrow> nat \<Rightarrow> 'f rval \<Rightarrow> lowered_kind \<Rightarrow> 'f LoweredStates option" where
  "put_cell l n j v SmaKind =
     map_option (\<lambda>xs. l\<lparr>sma_lowered := xs\<rparr>) (put_at n (sma_put j v) (sma_lowered l))"
| "put_cell l n j v EmaKind =
     map_option (\<lambda>xs. l\<lparr>ema_lowered := xs\<rparr>) (put_at n (ema_put j v) (ema_lowered l))"
| "put_cell l n j v LagKind =
     map_option (\<lambda>xs. l\<lparr>lag_lowered := xs\<rparr>) (put_at n (lag_put j v) (lag_lowered l))"
| "put_cell l n j v StdKind =
     map_option (\<lambda>xs. l\<lparr>rolling_std_lowered := xs\<rparr>) (put_at n (ring_put j v) (rolling_std_lowered l))"
| "put_cell l n j v ZscoreKind =
     map_option (\<lambda>xs. l\<lparr>zscore_lowered := xs\<rparr>) (put_at n (ring_put j v) (zscore_lowered l))"
| "put_cell l n j v MinKind =
     map_option (\<lambda>xs. l\<lparr>rolling_min_lowered := xs\<rparr>) (put_at n (deque_put j v) (rolling_min_lowered l))"
| "put_cell l n j v MaxKind =
     map_option (\<lambda>xs. l\<lparr>rolling_max_lowered := xs\<rparr>) (put_at n (deque_put j v) (rolling_max_lowered l))"
| "put_cell l n j v CrossKind =
     map_option (\<lambda>xs. l\<lparr>cross_lowered := xs\<rparr>) (put_at n (cross_put j v) (cross_lowered l))"
| "put_cell l n j v KalmanKind =
     map_option (\<lambda>xs. l\<lparr>kalman1d_lowered := xs\<rparr>) (put_at n (kalman_put j v) (kalman1d_lowered l))"
| "put_cell l n j v VwapKind =
     map_option (\<lambda>xs. l\<lparr>vwap_lowered := xs\<rparr>) (put_at n (vwap_put j v) (vwap_lowered l))"
| "put_cell l n j v CorrKind =
     map_option (\<lambda>xs. l\<lparr>rolling_corr_lowered := xs\<rparr>) (put_at n (pair_put j v) (rolling_corr_lowered l))"
| "put_cell l n j v BetaKind =
     map_option (\<lambda>xs. l\<lparr>rolling_beta_lowered := xs\<rparr>) (put_at n (pair_put j v) (rolling_beta_lowered l))"

text \<open>The buffers, of numbers and of deque entries.\<close>

primrec buffers :: "'f LoweredStates \<Rightarrow> bool \<Rightarrow> lowered_kind \<Rightarrow> 'f list list" where
  "buffers l w SmaKind = (if w then [] else sma_lowered_buffers l)"
| "buffers l w EmaKind = []"
| "buffers l w LagKind = (if w then [] else lag_lowered_buffers l)"
| "buffers l w StdKind = (if w then [] else rolling_std_lowered_buffers l)"
| "buffers l w ZscoreKind = (if w then [] else zscore_lowered_buffers l)"
| "buffers l w MinKind = []"
| "buffers l w MaxKind = []"
| "buffers l w CrossKind = []"
| "buffers l w KalmanKind = []"
| "buffers l w VwapKind = (if w then vwap_vol_lowered_buffers l else vwap_price_lowered_buffers l)"
| "buffers l w CorrKind = (if w then rolling_corr_y_lowered_buffers l else rolling_corr_x_lowered_buffers l)"
| "buffers l w BetaKind = (if w then rolling_beta_y_lowered_buffers l else rolling_beta_x_lowered_buffers l)"

primrec set_buffers :: "'f list list \<Rightarrow> bool \<Rightarrow> 'f LoweredStates \<Rightarrow> lowered_kind \<Rightarrow> 'f LoweredStates" where
  "set_buffers bs w l SmaKind = (if w then l else l\<lparr>sma_lowered_buffers := bs\<rparr>)"
| "set_buffers bs w l EmaKind = l"
| "set_buffers bs w l LagKind = (if w then l else l\<lparr>lag_lowered_buffers := bs\<rparr>)"
| "set_buffers bs w l StdKind = (if w then l else l\<lparr>rolling_std_lowered_buffers := bs\<rparr>)"
| "set_buffers bs w l ZscoreKind = (if w then l else l\<lparr>zscore_lowered_buffers := bs\<rparr>)"
| "set_buffers bs w l MinKind = l"
| "set_buffers bs w l MaxKind = l"
| "set_buffers bs w l CrossKind = l"
| "set_buffers bs w l KalmanKind = l"
| "set_buffers bs w l VwapKind =
     (if w then l\<lparr>vwap_vol_lowered_buffers := bs\<rparr> else l\<lparr>vwap_price_lowered_buffers := bs\<rparr>)"
| "set_buffers bs w l CorrKind =
     (if w then l\<lparr>rolling_corr_y_lowered_buffers := bs\<rparr> else l\<lparr>rolling_corr_x_lowered_buffers := bs\<rparr>)"
| "set_buffers bs w l BetaKind =
     (if w then l\<lparr>rolling_beta_y_lowered_buffers := bs\<rparr> else l\<lparr>rolling_beta_x_lowered_buffers := bs\<rparr>)"

definition entries :: "'f LoweredStates \<Rightarrow> lowered_kind \<Rightarrow> (int \<times> 'f) list list" where
  "entries l k =
     (if k = MinKind then rolling_min_lowered_buffers l
      else if k = MaxKind then rolling_max_lowered_buffers l else [])"

definition set_entries :: "(int \<times> 'f) list list \<Rightarrow> 'f LoweredStates \<Rightarrow> lowered_kind \<Rightarrow> 'f LoweredStates" where
  "set_entries es l k =
     (if k = MinKind then l\<lparr>rolling_min_lowered_buffers := es\<rparr>
      else if k = MaxKind then l\<lparr>rolling_max_lowered_buffers := es\<rparr> else l)"

definition base_list :: "LoweredStateBases \<Rightarrow> nat option list" where
  "base_list b =
     [base_sma b, base_ema b, base_lag b, base_rolling_std b,
      base_zscore b, base_rolling_min b, base_rolling_max b, base_cross b,
      base_kalman1d b, base_vwap b, base_rolling_corr b, base_rolling_beta b]"

primrec slot_count :: "'f LoweredStates \<Rightarrow> lowered_kind \<Rightarrow> nat" where
  "slot_count l SmaKind = length (sma_lowered l)"
| "slot_count l EmaKind = length (ema_lowered l)"
| "slot_count l LagKind = length (lag_lowered l)"
| "slot_count l StdKind = length (rolling_std_lowered l)"
| "slot_count l ZscoreKind = length (zscore_lowered l)"
| "slot_count l MinKind = length (rolling_min_lowered l)"
| "slot_count l MaxKind = length (rolling_max_lowered l)"
| "slot_count l CrossKind = length (cross_lowered l)"
| "slot_count l KalmanKind = length (kalman1d_lowered l)"
| "slot_count l VwapKind = length (vwap_lowered l)"
| "slot_count l CorrKind = length (rolling_corr_lowered l)"
| "slot_count l BetaKind = length (rolling_beta_lowered l)"

definition float_cells :: "'f InstrumentState \<Rightarrow> 'f rval list" where
  "float_cells ins =
     [VF (ins_bid ins), VF (ins_ask ins), VF (ins_last_price ins), VF (ins_volume ins),
      VI (ins_last_update_ns ins)]"

definition nth_opt :: "'a list \<Rightarrow> nat \<Rightarrow> 'a option" where
  "nth_opt xs i = (if i < length xs then Some (xs ! i) else None)"

section \<open>Loads and stores\<close>

definition load_base :: "'f SignalContext \<Rightarrow> nat \<Rightarrow> nat \<Rightarrow> 'f rval option" where
  "load_base ctx c k =
     (if k < length base_kinds
      then case base_list (lowered_bases ctx) ! k of
          None \<Rightarrow> Some (VP PNull)
        | Some n \<Rightarrow> if n = slot_count (lowered ctx) (base_kinds ! k) then Some (VP (PLowered c (base_kinds ! k)))
                   else None
      else None)"

fun load_instrument :: "'f memory \<Rightarrow> nat \<Rightarrow> nat \<Rightarrow> nat \<Rightarrow> ptr \<Rightarrow> 'f rval option" where
  "load_instrument m j i k (PMarket a) =
     (if j = 0 \<and> a < length (markets m) \<and> i < length (instruments (markets m ! a))
      then nth_opt (float_cells (instruments (markets m ! a) ! i)) k else None)"
| "load_instrument m j i k _ = None"

definition entry_cells :: "int \<times> 'f \<Rightarrow> 'f rval list" where
  "entry_cells e = [VI (i64 (fst e)), VF (snd e)]"

fun load_cell :: "'f memory \<Rightarrow> nat \<Rightarrow> nat \<Rightarrow> ptr \<Rightarrow> 'f rval option" where
  "load_cell m i k (PLowered c kd) =
     (if c < length (contexts m) then nth_opt (cells (lowered (contexts m ! c)) c i kd) k else None)"
| "load_cell m i k (PBuffer c kd w n) =
     (if c < length (contexts m) \<and> n < length (entries (lowered (contexts m ! c)) kd) \<and>
         i < length (entries (lowered (contexts m ! c)) kd ! n)
      then nth_opt (entry_cells (entries (lowered (contexts m ! c)) kd ! n ! i)) k else None)"
| "load_cell m i k (PField p j) = load_instrument m j i k p"
| "load_cell m i k _ = None"

fun load_field :: "'f memory \<Rightarrow> nat \<Rightarrow> ptr \<Rightarrow> 'f rval option" where
  "load_field m k (PContext c) =
     (if c < length (contexts m) then load_base (contexts m ! c) c k else None)"
| "load_field m k (PElem p i) = load_cell m (unat i) k p"
| "load_field m k _ = None"

fun load_elem :: "'f memory \<Rightarrow> nat \<Rightarrow> ptr \<Rightarrow> 'f rval option" where
  "load_elem m i PLanes = (if i < length (markets m) then Some (VP (PMarket i)) else None)"
| "load_elem m i (PBuffer c kd w n) =
     (if c < length (contexts m) \<and> n < length (buffers (lowered (contexts m ! c)) w kd)
      then map_option VF (nth_opt (buffers (lowered (contexts m ! c)) w kd ! n) i) else None)"
| "load_elem m i (PRing c n) =
     (if c < length (contexts m) \<and> n < length (sma_states (primal (contexts m ! c)))
      then map_option VF (nth_opt (rs_buffer (sma_states (primal (contexts m ! c)) ! n)) i) else None)"
| "load_elem m i _ = None"

fun load_at :: "'f memory \<Rightarrow> ptr \<Rightarrow> 'f rval option" where
  "load_at m (PSlot a) = slots m a"
| "load_at m (PLocal l i) = locals m (l, i)"
| "load_at m (PField p k) = load_field m k p"
| "load_at m (PElem p i) = load_elem m (unat i) p"
| "load_at m _ = None"

text \<open>A load of a type yields a value of that type; a vector is four consecutive elements.\<close>

fun of_type :: "ir_type \<Rightarrow> 'f rval \<Rightarrow> bool" where
  "of_type F64 (VF x) = True"
| "of_type F80 (VX x) = True"
| "of_type I64 (VI x) = True"
| "of_type PtrTy (VP p) = True"
| "of_type ty v = False"

definition load_vec4 :: "'f memory \<Rightarrow> ptr \<Rightarrow> 'f rval option" where
  "load_vec4 m p =
     (case p of
        PElem q i \<Rightarrow>
          (case map (\<lambda>d. load_elem m (unat i + d) q) [0, 1, 2, 3] of
             [Some (VF a), Some (VF b), Some (VF c), Some (VF d)] \<Rightarrow> Some (VV [a, b, c, d])
           | _ \<Rightarrow> None)
      | _ \<Rightarrow> None)"

definition load_typed :: "'f memory \<Rightarrow> ir_type \<Rightarrow> 'f rval \<Rightarrow> 'f rval option" where
  "load_typed m ty v =
     (case v of
        VP p \<Rightarrow>
          if ty = Vec4Ty then load_vec4 m p
          else (case load_at m p of Some x \<Rightarrow> if of_type ty x then Some x else None | None \<Rightarrow> None)
      | _ \<Rightarrow> None)"

definition map_ctx :: "nat \<Rightarrow> ('f LoweredStates \<Rightarrow> 'f LoweredStates option) \<Rightarrow> 'f memory \<Rightarrow> 'f memory option" where
  "map_ctx c f m =
     (if c < length (contexts m)
      then map_option (\<lambda>l. m\<lparr>contexts := (contexts m)[c := (contexts m ! c)\<lparr>lowered := l\<rparr>]\<rparr>)
             (f (lowered (contexts m ! c)))
      else None)"

definition put_entry :: "nat \<Rightarrow> 'f rval \<Rightarrow> int \<times> 'f \<Rightarrow> (int \<times> 'f) option" where
  "put_entry k v e =
     (if k = 0 then map_option (\<lambda>w. (sint w, snd e)) (int_of v)
      else if k = 1 then map_option (\<lambda>x. (fst e, x)) (double_of v) else None)"

fun store_cell :: "nat \<Rightarrow> nat \<Rightarrow> 'f rval \<Rightarrow> 'f memory \<Rightarrow> ptr \<Rightarrow> 'f memory option" where
  "store_cell i k v m (PLowered c kd) = map_ctx c (\<lambda>l. put_cell l i k v kd) m"
| "store_cell i k v m (PBuffer c kd w n) =
     map_ctx c (\<lambda>l. map_option (\<lambda>es. set_entries es l kd)
       (put_at n (put_at i (put_entry k v)) (entries l kd))) m"
| "store_cell i k v m _ = None"

fun store_field :: "nat \<Rightarrow> 'f rval \<Rightarrow> 'f memory \<Rightarrow> ptr \<Rightarrow> 'f memory option" where
  "store_field k v m (PElem p i) = store_cell (unat i) k v m p"
| "store_field k v m _ = None"

fun store_elem :: "nat \<Rightarrow> 'f rval \<Rightarrow> 'f memory \<Rightarrow> ptr \<Rightarrow> 'f memory option" where
  "store_elem i v m (PBuffer c kd w n) =
     map_ctx c (\<lambda>l. map_option (\<lambda>bs. set_buffers bs w l kd)
       (put_at n (put_at i (\<lambda>_. double_of v)) (buffers l w kd))) m"
| "store_elem i v m POutputs =
     (case v of
        VF x \<Rightarrow> if i < length (outs m) then Some (m\<lparr>outs := (outs m)[i := x]\<rparr>) else None
      | VV xs \<Rightarrow> if i + length xs \<le> length (outs m)
               then Some (m\<lparr>outs := take i (outs m) @ xs @ drop (i + length xs) (outs m)\<rparr>) else None
      | _ \<Rightarrow> None)"
| "store_elem i v m _ = None"

fun store_at_ptr :: "'f rval \<Rightarrow> 'f memory \<Rightarrow> ptr \<Rightarrow> 'f memory option" where
  "store_at_ptr v m (PSlot a) = Some (m\<lparr>slots := (slots m)(a \<mapsto> v)\<rparr>)"
| "store_at_ptr v m (PLocal l i) = Some (m\<lparr>locals := (locals m)((l, i) \<mapsto> v)\<rparr>)"
| "store_at_ptr v m (PField p k) = store_field k v m p"
| "store_at_ptr v m (PElem p i) = store_elem (unat i) v m p"
| "store_at_ptr v m _ = None"

definition store_typed :: "'f memory \<Rightarrow> 'f rval \<Rightarrow> 'f rval \<Rightarrow> 'f memory option" where
  "store_typed m v q = (case q of VP p \<Rightarrow> store_at_ptr v m p | _ \<Rightarrow> None)"

end
