(* ===== verification/Jit_Exec.thy ===== *)
theory Jit_Exec
  imports Jit_Ir Gradient_Runtime
begin

text \<open>
  Execution of emitted code: the calls into \<^verbatim>\<open>src/runtime.cpp\<close>, one instruction at a
  position, one step of a function, and runs of steps. The effect of arithmetic instructions is the
  parameter \<open>L\<close>.
\<close>

section \<open>Calls of the runtime\<close>

text \<open>A helper run on one context of the arena; an exception of the helper is an exception of the
  compiled function.\<close>

definition on_ctx :: "('f SignalContext, 'b) prog \<Rightarrow> nat \<Rightarrow> 'f memory \<Rightarrow> ('b \<times> 'f memory) result" where
  "on_ctx f c m =
     (if c < length (contexts m)
      then case f (contexts m ! c) of
          (Inl e, ctx) \<Rightarrow> Inl e
        | (Inr v, ctx) \<Rightarrow> Inr (v, m\<lparr>contexts := (contexts m)[c := ctx]\<rparr>)
      else Inl (Undefined ''context''))"

definition as_value :: "('f \<times> 'f memory) result \<Rightarrow> ('f rval \<times> 'f memory) result" where
  "as_value r = rbind r (\<lambda>(v, m). Inr (VF v, m))"

definition with_grad :: "nat \<times> nat \<Rightarrow> (('f \<times> 'f) \<times> 'f memory) result \<Rightarrow> ('f rval \<times> 'f memory) result" where
  "with_grad p r = rbind r (\<lambda>((v, g), m). Inr (VF v, m\<lparr>locals := (locals m)(p \<mapsto> VF g)\<rparr>))"

definition bad_call :: "('f rval \<times> 'f memory) result" where
  "bad_call = Inl (Undefined ''call'')"

text \<open>Decoding of the arguments.\<close>

fun ctx_of :: "'f rval \<Rightarrow> nat option" where
  "ctx_of (VP p) = (case p of PContext c \<Rightarrow> Some c | _ \<Rightarrow> None)"
| "ctx_of _ = None"

fun market_of :: "'f rval \<Rightarrow> nat option" where
  "market_of (VP p) = (case p of PMarket c \<Rightarrow> Some c | _ \<Rightarrow> None)"
| "market_of _ = None"

fun slot_of :: "'f rval \<Rightarrow> nat option" where
  "slot_of (VP p) = (case p of PSlot c \<Rightarrow> Some c | _ \<Rightarrow> None)"
| "slot_of _ = None"

fun local_of :: "'f rval \<Rightarrow> (nat \<times> nat) option" where
  "local_of (VP p) = (case p of PLocal l i \<Rightarrow> Some (l, i) | _ \<Rightarrow> None)"
| "local_of _ = None"

fun symbol_of :: "'f rval \<Rightarrow> 32 word option" where
  "symbol_of (VW w) = Some w"
| "symbol_of _ = None"

definition call_symbol_ctx :: "'f rval list \<Rightarrow> 'f memory \<Rightarrow> ('f rval \<times> 'f memory) result" where
  "call_symbol_ctx vs m =
     (case vs of
        [a, s] \<Rightarrow>
          (case symbol_of s of
             Some s \<Rightarrow>
               if a = VP PArena
               then rbind (jit_rt_symbol_ctx \<lparr>arena = contexts m, arena_params = []\<rparr> s)
                      (\<lambda>_. Inr (VP (PContext (unat s)), m))
               else bad_call
           | None \<Rightarrow> bad_call)
      | _ \<Rightarrow> bad_call)"

definition call_param :: "'f rval list \<Rightarrow> 'f memory \<Rightarrow> ('f rval \<times> 'f memory) result" where
  "call_param vs m =
     (case vs of
        [c, i] \<Rightarrow>
          (case (ctx_of c, int_of i) of
             (Some c, Some i) \<Rightarrow> as_value (on_ctx (\<lambda>ctx. (jit_rt_param ctx (sint i), ctx)) c m)
           | _ \<Rightarrow> bad_call)
      | _ \<Rightarrow> bad_call)"

definition call_state ::
    "(int \<Rightarrow> 'f \<Rightarrow> int \<Rightarrow> ('f SignalContext, 'f) prog) \<Rightarrow> 'f rval list \<Rightarrow> 'f memory \<Rightarrow> ('f rval \<times> 'f memory) result" where
  "call_state f vs m =
     (case vs of
        [c, n, x, p] \<Rightarrow>
          (case (ctx_of c, int_of n, double_of x, int_of p) of
             (Some c, Some n, Some x, Some p) \<Rightarrow>
               as_value (on_ctx (f (sint n) x (sint p)) c m)
           | _ \<Rightarrow> bad_call)
      | _ \<Rightarrow> bad_call)"

definition call_pair ::
    "(int \<Rightarrow> 'f \<Rightarrow> 'f \<Rightarrow> int \<Rightarrow> ('f SignalContext, 'f) prog) \<Rightarrow> 'f rval list \<Rightarrow> 'f memory \<Rightarrow> ('f rval \<times> 'f memory) result" where
  "call_pair f vs m =
     (case vs of
        [c, n, x, y, p] \<Rightarrow>
          (case (ctx_of c, int_of n, double_of x, double_of y, int_of p) of
             (Some c, Some n, Some x, Some y, Some p) \<Rightarrow>
               as_value (on_ctx (f (sint n) x y (sint p)) c m)
           | _ \<Rightarrow> bad_call)
      | _ \<Rightarrow> bad_call)"

definition call_cross ::
    "(int \<Rightarrow> 'f \<Rightarrow> 'f \<Rightarrow> ('f SignalContext, 'f) prog) \<Rightarrow> 'f rval list \<Rightarrow> 'f memory \<Rightarrow> ('f rval \<times> 'f memory) result" where
  "call_cross f vs m =
     (case vs of
        [c, n, x, y] \<Rightarrow>
          (case (ctx_of c, int_of n, double_of x, double_of y) of
             (Some c, Some n, Some x, Some y) \<Rightarrow>
               as_value (on_ctx (f (sint n) x y) c m)
           | _ \<Rightarrow> bad_call)
      | _ \<Rightarrow> bad_call)"

definition call_kalman ::
    "(int \<Rightarrow> 'f \<Rightarrow> 'f \<Rightarrow> 'f \<Rightarrow> ('f SignalContext, 'f) prog) \<Rightarrow> 'f rval list \<Rightarrow> 'f memory \<Rightarrow> ('f rval \<times> 'f memory) result" where
  "call_kalman f vs m =
     (case vs of
        [c, n, x, q, r] \<Rightarrow>
          (case (ctx_of c, int_of n, double_of x, double_of q, double_of r) of
             (Some c, Some n, Some x, Some q, Some r) \<Rightarrow>
               as_value (on_ctx (f (sint n) x q r) c m)
           | _ \<Rightarrow> bad_call)
      | _ \<Rightarrow> bad_call)"

definition call_vwap ::
    "('f MarketState \<Rightarrow> int \<Rightarrow> int \<Rightarrow> int \<Rightarrow> ('f SignalContext, 'f) prog) \<Rightarrow> 'f rval list \<Rightarrow> 'f memory \<Rightarrow> ('f rval \<times> 'f memory) result" where
  "call_vwap f vs m =
     (case vs of
        [k, c, n, s, p] \<Rightarrow>
          (case (market_of k, ctx_of c, int_of n, int_of s, int_of p) of
             (Some k, Some c, Some n, Some s, Some p) \<Rightarrow>
               if k < length (markets m)
               then as_value (on_ctx (f (markets m ! k) (sint n) (sint s) (sint p)) c m)
               else Inl (Undefined ''market'')
           | _ \<Rightarrow> bad_call)
      | _ \<Rightarrow> bad_call)"

definition call_prepare ::
    "(int \<Rightarrow> 'f \<Rightarrow> int \<Rightarrow> ('f SignalContext, ('f list \<times> int) option) prog) \<Rightarrow> 'f rval list \<Rightarrow> 'f memory \<Rightarrow> ('f rval \<times> 'f memory) result" where
  "call_prepare f vs m =
     (case vs of
        [c, n, x, p, a, b] \<Rightarrow>
          (case (ctx_of c, int_of n, double_of x, int_of p, slot_of a, slot_of b) of
             (Some c, Some n, Some x, Some p, Some a, Some b) \<Rightarrow>
               rbind (on_ctx (f (sint n) x (sint p)) c m) (\<lambda>(r, m').
                 case r of
                   None \<Rightarrow> Inr (VB False, m')
                 | Some (buf, k) \<Rightarrow>
                     Inr (VB True, m'\<lparr>slots := (slots m')(a \<mapsto> VP (PRing c (unat n)), b \<mapsto> VI (i64 k))\<rparr>))
           | _ \<Rightarrow> bad_call)
      | _ \<Rightarrow> bad_call)"

definition call_state_grad ::
    "(int \<Rightarrow> 'f \<times> 'f \<Rightarrow> int \<Rightarrow> int \<Rightarrow> ('f SignalContext, 'f \<times> 'f) prog) \<Rightarrow> 'f rval list \<Rightarrow> 'f memory \<Rightarrow> ('f rval \<times> 'f memory) result" where
  "call_state_grad f vs m =
     (case vs of
        [c, n, x, x', p, q, a] \<Rightarrow>
          (case (ctx_of c, int_of n, double_of x, double_of x', int_of p, int_of q, local_of a) of
             (Some c, Some n, Some x, Some x', Some p, Some q, Some a) \<Rightarrow>
               with_grad a (on_ctx (f (sint n) (x, x') (sint p) (sint q)) c m)
           | _ \<Rightarrow> bad_call)
      | _ \<Rightarrow> bad_call)"

definition call_pair_grad ::
    "(int \<Rightarrow> 'f \<times> 'f \<Rightarrow> 'f \<times> 'f \<Rightarrow> int \<Rightarrow> int \<Rightarrow> ('f SignalContext, 'f \<times> 'f) prog) \<Rightarrow> 'f rval list \<Rightarrow> 'f memory \<Rightarrow> ('f rval \<times> 'f memory) result" where
  "call_pair_grad f vs m =
     (case vs of
        [c, n, x, x', y, y', p, q, a] \<Rightarrow>
          (case (ctx_of c, int_of n, double_of x, double_of x', double_of y, double_of y', int_of p, int_of q, local_of a) of
             (Some c, Some n, Some x, Some x', Some y, Some y', Some p, Some q, Some a) \<Rightarrow>
               with_grad a (on_ctx (f (sint n) (x, x') (y, y') (sint p) (sint q)) c m)
           | _ \<Rightarrow> bad_call)
      | _ \<Rightarrow> bad_call)"

definition call_kalman_grad ::
    "(int \<Rightarrow> 'f \<times> 'f \<Rightarrow> 'f \<times> 'f \<Rightarrow> 'f \<times> 'f \<Rightarrow> int \<Rightarrow> ('f SignalContext, 'f \<times> 'f) prog) \<Rightarrow> 'f rval list \<Rightarrow> 'f memory \<Rightarrow> ('f rval \<times> 'f memory) result" where
  "call_kalman_grad f vs m =
     (case vs of
        [c, n, x, x', q, q', r, r', p, a] \<Rightarrow>
          (case (ctx_of c, int_of n, double_of x, double_of x', double_of q, double_of q', double_of r, double_of r', int_of p, local_of a) of
             (Some c, Some n, Some x, Some x', Some q, Some q', Some r, Some r', Some p, Some a) \<Rightarrow>
               with_grad a (on_ctx (f (sint n) (x, x') (q, q') (r, r') (sint p)) c m)
           | _ \<Rightarrow> bad_call)
      | _ \<Rightarrow> bad_call)"

definition call_cross_grad ::
    "(int \<Rightarrow> 'f \<Rightarrow> 'f \<Rightarrow> int \<Rightarrow> ('f SignalContext, 'f \<times> 'f) prog) \<Rightarrow> 'f rval list \<Rightarrow> 'f memory \<Rightarrow> ('f rval \<times> 'f memory) result" where
  "call_cross_grad f vs m =
     (case vs of
        [c, n, x, y, p, a] \<Rightarrow>
          (case (ctx_of c, int_of n, double_of x, double_of y, int_of p, local_of a) of
             (Some c, Some n, Some x, Some y, Some p, Some a) \<Rightarrow>
               with_grad a (on_ctx (f (sint n) x y (sint p)) c m)
           | _ \<Rightarrow> bad_call)
      | _ \<Rightarrow> bad_call)"

definition rt_call :: "'f machine \<Rightarrow> string \<Rightarrow> 'f rval list \<Rightarrow> 'f memory \<Rightarrow> ('f rval \<times> 'f memory) result" where
  "rt_call M name =
     (if name = ''jit_rt_symbol_ctx'' then call_symbol_ctx
      else if name = ''jit_rt_param'' then call_param
      else if name = ''jit_rt_ema'' then call_state (jit_rt_ema M)
      else if name = ''jit_rt_ema_alpha'' then call_pair (jit_rt_ema_alpha M)
      else if name = ''jit_rt_sma'' then call_state (jit_rt_sma M)
      else if name = ''jit_rt_sma_prepare'' then call_prepare (jit_rt_sma_prepare M)
      else if name = ''jit_rt_rolling_std'' then call_state (jit_rt_rolling_std M)
      else if name = ''jit_rt_zscore'' then call_state (jit_rt_zscore M)
      else if name = ''jit_rt_rolling_min'' then call_state (jit_rt_rolling_min M)
      else if name = ''jit_rt_rolling_max'' then call_state (jit_rt_rolling_max M)
      else if name = ''jit_rt_lag'' then call_state (jit_rt_lag M)
      else if name = ''jit_rt_vwap'' then call_vwap (jit_rt_vwap M)
      else if name = ''jit_rt_cross_above'' then call_cross (jit_rt_cross_above M)
      else if name = ''jit_rt_cross_below'' then call_cross (jit_rt_cross_below M)
      else if name = ''jit_rt_rolling_corr'' then call_pair (jit_rt_rolling_corr M)
      else if name = ''jit_rt_rolling_beta'' then call_pair (jit_rt_rolling_beta M)
      else if name = ''jit_rt_kalman1d'' then call_kalman (jit_rt_kalman1d M)
      else if name = ''jit_rt_ema_alpha_grad'' then call_pair_grad (jit_rt_ema_alpha_grad M)
      else if name = ''jit_rt_sma_grad'' then call_state_grad (jit_rt_sma_grad M)
      else if name = ''jit_rt_lag_grad'' then call_state_grad (jit_rt_lag_grad M)
      else if name = ''jit_rt_rolling_std_grad'' then call_state_grad (jit_rt_rolling_std_grad M)
      else if name = ''jit_rt_zscore_grad'' then call_state_grad (jit_rt_zscore_grad M)
      else if name = ''jit_rt_rolling_corr_grad'' then call_pair_grad (jit_rt_rolling_corr_grad M)
      else if name = ''jit_rt_rolling_beta_grad'' then call_pair_grad (jit_rt_rolling_beta_grad M)
      else if name = ''jit_rt_kalman1d_grad'' then call_kalman_grad (jit_rt_kalman1d_grad M)
      else if name = ''jit_rt_rolling_min_grad'' then call_state_grad (jit_rt_rolling_min_grad M)
      else if name = ''jit_rt_rolling_max_grad'' then call_state_grad (jit_rt_rolling_max_grad M)
      else if name = ''jit_rt_cross_above_grad'' then call_cross_grad (jit_rt_cross_above_grad M)
      else if name = ''jit_rt_cross_below_grad'' then call_cross_grad (jit_rt_cross_below_grad M)
      else (\<lambda>_ _. Inl (Undefined ''symbol'')))"

section \<open>Execution\<close>

text \<open>A state: the results of the instructions executed so far, the values of the code at the start
  of the entry block, the arguments, the memory, and the block the current one was entered from.\<close>

record 'f exec =
  regs :: "nat \<times> nat \<rightharpoonup> 'f rval"
  hoisted :: "nat \<rightharpoonup> 'f rval"
  ctx_val :: "'f rval option"
  formals :: "string \<rightharpoonup> 'f rval"
  mem :: "'f memory"
  pred :: nat

primrec operand_value :: "'f machine \<Rightarrow> 'f exec \<Rightarrow> 'f operand \<Rightarrow> 'f rval option" where
  "operand_value M s (Reg l i) = regs s (l, i)"
| "operand_value M s (Hoisted k) = hoisted s k"
| "operand_value M s CtxVal = ctx_val s"
| "operand_value M s (StackSlot k) = Some (VP (PSlot k))"
| "operand_value M s (Argument a) = formals s a"
| "operand_value M s (ConstFP x) = Some (VF x)"
| "operand_value M s (ConstSplat n x) = Some (VV (replicate n x))"
| "operand_value M s (ConstInt w) = Some (VI w)"
| "operand_value M s (ConstI32 w) = Some (VW w)"
| "operand_value M s NullPtr = Some (VP PNull)"
| "operand_value M s (UndefVec n) = Some (VV (replicate n (qnan M)))"

fun operand_values :: "'f machine \<Rightarrow> 'f exec \<Rightarrow> 'f operand list \<Rightarrow> 'f rval list option" where
  "operand_values M s [] = Some []"
| "operand_values M s (a # as) =
     (case (operand_value M s a, operand_values M s as) of
        (Some v, Some vs) \<Rightarrow> Some (v # vs) | _ \<Rightarrow> None)"

fun elem_ptr :: "'f rval option \<Rightarrow> 'f rval option \<Rightarrow> 'f rval option" where
  "elem_ptr (Some (VP p)) (Some (VI i)) = Some (VP (PElem p i))"
| "elem_ptr _ _ = None"

fun field_ptr :: "'f rval option \<Rightarrow> nat \<Rightarrow> 'f rval option" where
  "field_ptr (Some (VP p)) k = Some (VP (PField p k))"
| "field_ptr _ k = None"

definition defined_value :: "string \<Rightarrow> 'a option \<Rightarrow> 'a result" where
  "defined_value msg x = (case x of None \<Rightarrow> Inl (Undefined msg) | Some v \<Rightarrow> Inr v)"

type_synonym 'f target = "opcode \<Rightarrow> 'f rval list \<Rightarrow> 'f rval option"

text \<open>One instruction at position \<open>(l, i)\<close>: its result and the memory after it. The element address
  of a pointer into an element (a chunk of a buffer) starts at that element. A store has no result;
  the null pointer stands for it.\<close>

fun run_instr ::
    "'f machine \<Rightarrow> 'f target \<Rightarrow> nat \<Rightarrow> nat \<Rightarrow> 'f exec \<Rightarrow> 'f instr \<Rightarrow> ('f rval \<times> 'f memory) result" where
  "run_instr M L l i s (Op opc as) =
     rbind (defined_value ''operands'' (operand_values M s as)) (\<lambda>vs.
       rbind (defined_value ''operation'' (L opc vs)) (\<lambda>v. Inr (v, mem s)))"
| "run_instr M L l i s (GEP p j) =
     rbind (defined_value ''address'' (elem_ptr (operand_value M s p) (operand_value M s j)))
       (\<lambda>v. Inr (v, mem s))"
| "run_instr M L l i s (StructGEP p k) =
     rbind (defined_value ''address'' (field_ptr (operand_value M s p) k)) (\<lambda>v. Inr (v, mem s))"
| "run_instr M L l i s (Load ty p) =
     rbind (defined_value ''operands'' (operand_value M s p)) (\<lambda>q.
       rbind (defined_value ''load'' (load_typed (mem s) ty q)) (\<lambda>v. Inr (v, mem s)))"
| "run_instr M L l i s (Store a p) =
     rbind (defined_value ''operands'' (operand_value M s a)) (\<lambda>v.
     rbind (defined_value ''operands'' (operand_value M s p)) (\<lambda>q.
       rbind (defined_value ''store'' (store_typed (mem s) v q)) (\<lambda>m. Inr (VP PNull, m))))"
| "run_instr M L l i s (Call f as) =
     rbind (defined_value ''operands'' (operand_values M s as)) (\<lambda>vs. rt_call M f vs (mem s))"
| "run_instr M L l i s (Phi ins) =
     (case filter (\<lambda>(a, b). b = pred s) ins of
        [] \<Rightarrow> Inl (Undefined ''phi'')
      | (a, b) # _ \<Rightarrow> rbind (defined_value ''operands'' (operand_value M s a)) (\<lambda>v. Inr (v, mem s)))"
| "run_instr M L l i s Alloca = Inr (VP (PLocal l i), mem s)"

definition set_result :: "nat \<Rightarrow> nat \<Rightarrow> 'f rval \<times> 'f memory \<Rightarrow> 'f exec \<Rightarrow> 'f exec" where
  "set_result l i r s = s\<lparr>regs := (regs s)((l, i) \<mapsto> fst r), mem := snd r\<rparr>"

text \<open>Where control is: at an instruction of a block, or returned.\<close>

datatype 'f point = At nat nat | Returned "'f rval option"

fun branch :: "'f machine \<Rightarrow> nat \<Rightarrow> 'f exec \<Rightarrow> 'f terminator \<Rightarrow> ('f point \<times> 'f exec) result" where
  "branch M l s (Br t) = Inr (At t 0, s\<lparr>pred := l\<rparr>)"
| "branch M l s (CondBr c t e) =
     (case operand_value M s c of
        Some (VB b) \<Rightarrow> Inr (At (if b then t else e) 0, s\<lparr>pred := l\<rparr>)
      | _ \<Rightarrow> Inl (Undefined ''branch''))"
| "branch M l s (Ret a) =
     (case operand_value M s a of Some v \<Rightarrow> Inr (Returned (Some v), s) | None \<Rightarrow> Inl (Undefined ''return''))"
| "branch M l s RetVoid = Inr (Returned None, s)"

definition block_at :: "'f block list \<Rightarrow> nat \<Rightarrow> 'f block" where
  "block_at bs l = (if l < length bs then bs ! l else \<lparr>code = [], final = None\<rparr>)"

fun step :: "'f machine \<Rightarrow> 'f target \<Rightarrow> 'f block list \<Rightarrow> 'f point \<times> 'f exec \<Rightarrow> ('f point \<times> 'f exec) result" where
  "step M L P (At l i, s) =
     (let b = block_at P l
      in if i < length (code b)
         then rbind (run_instr M L l i s (code b ! i)) (\<lambda>r. Inr (At l (Suc i), set_result l i r s))
         else case final b of None \<Rightarrow> Inl (Undefined ''block without terminator'') | Some t \<Rightarrow> branch M l s t)"
| "step M L P (Returned v, s) = Inl (Undefined ''returned'')"

inductive steps ::
    "'f machine \<Rightarrow> 'f target \<Rightarrow> 'f block list \<Rightarrow> 'f point \<times> 'f exec \<Rightarrow> 'f point \<times> 'f exec \<Rightarrow> bool"
  for M L P where
  steps_refl: "steps M L P c c"
| steps_step: "step M L P c = Inr c' \<Longrightarrow> steps M L P c' c'' \<Longrightarrow> steps M L P c c''"

lemma steps_trans: "steps M L P a b \<Longrightarrow> steps M L P b c \<Longrightarrow> steps M L P a c"
  by (induction rule: steps.induct) (auto intro: steps.intros)

text \<open>The function run by a fuel of steps, so that it can be evaluated.\<close>

fun run_from :: "nat \<Rightarrow> 'f machine \<Rightarrow> 'f target \<Rightarrow> 'f block list \<Rightarrow> 'f point \<times> 'f exec \<Rightarrow> ('f rval option \<times> 'f exec) result" where
  "run_from n M L P (Returned v, s) = Inr (v, s)"
| "run_from 0 M L P (At l i, s) = Inl OutOfFuel"
| "run_from (Suc n) M L P (At l i, s) = rbind (step M L P (At l i, s)) (run_from n M L P)"

lemma steps_run_from:
  assumes "steps M L P c d" and "d = (Returned v, s)"
  shows "\<exists>n. run_from n M L P c = Inr (v, s)"
  using assms
proof (induction rule: steps.induct)
  case (steps_refl c)
  then have "run_from 0 M L P c = Inr (v, s)" by simp
  then show ?case by blast
next
  case (steps_step c c' c'')
  then obtain n where n: "run_from n M L P c' = Inr (v, s)" by blast
  obtain p t where c: "c = (p, t)" by fastforce
  with steps_step(1) obtain l i where p: "p = At l i" by (cases p) auto
  have "run_from (Suc n) M L P c = Inr (v, s)"
    using n steps_step(1) by (simp add: c p del: step.simps)
  then show ?case by blast
qed

end
