(* ===== verification/Jit_Builder.thy ===== *)
theory Jit_Builder
  imports Jit_Exec
begin

text \<open>
  The state of code generation (\<^verbatim>\<open>CodegenContext\<close> of \<^verbatim>\<open>src/jit_compiler.cpp\<close> with
  the builder it refers to) and the helpers of the emitter: insertion of instructions and blocks,
  constants in scalar and vector mode, the lane fan-out, base pointers, market loads and node ids. A
  node of a tree is identified, as by its address, by its path from the root: the positions of the
  children, innermost first.
\<close>

unbundle bit_operations_syntax

section \<open>The context of code generation\<close>

type_synonym path = "nat list"

record 'f codegen =
  symbols :: SymbolTable
  market_arg :: "'f operand"
  arena_arg :: "'f operand"
  symbol_arg :: "'f operand"
  ctx_arg :: "'f operand"
  gradient_param_arg :: "'f operand option"
  node_ids :: "path \<rightharpoonup> int"
  signal_values :: "string \<rightharpoonup> 'f operand"
  signal_value_gradients :: "string \<rightharpoonup> 'f operand \<times> 'f operand"
  program_market_field_cache :: "64 word \<rightharpoonup> 'f operand"
  market_field_cache :: "64 word \<rightharpoonup> 'f operand \<times> nat"
  use_program_market_cache :: bool
  next_node_id :: int
  use_avx2 :: bool
  lowering :: "32 word"
  base_cached :: "nat \<rightharpoonup> 'f operand"
  per_lane_scalar_emit :: bool
  assume_warm :: bool
  warm_safe_calls :: "path list"
  lane_count :: nat
  per_lane_market_arg :: "'f operand"
  stateful_emit_cache :: "int \<rightharpoonup> 'f operand"
  stateful_grad_emit_cache :: "int \<rightharpoonup> 'f operand \<times> 'f operand"
  blocks :: "'f block list"
  here :: nat
  hoisted_loads :: "nat list"
  entry_slots :: nat

type_synonym ('f, 'a) emitter = "('f codegen, 'a) prog"

definition reading :: "('f codegen \<Rightarrow> 'a) \<Rightarrow> ('f, 'a) emitter" where
  "reading f cg = (Inr (f cg), cg)"

lemma reading_apply [simp, prog_simps]: "reading f cg = (Inr (f cg), cg)"
  by (simp add: reading_def)

section \<open>Flags\<close>

definition kSma :: "32 word" where "kSma = push_bit 0 1"
definition kEma :: "32 word" where "kEma = push_bit 1 1"
definition kLag :: "32 word" where "kLag = push_bit 2 1"
definition kRollingStd :: "32 word" where "kRollingStd = push_bit 3 1"
definition kZscore :: "32 word" where "kZscore = push_bit 4 1"
definition kRollingMin :: "32 word" where "kRollingMin = push_bit 5 1"
definition kRollingMax :: "32 word" where "kRollingMax = push_bit 6 1"
definition kVwap :: "32 word" where "kVwap = push_bit 7 1"
definition kCross :: "32 word" where "kCross = push_bit 8 1"
definition kRollingCorr :: "32 word" where "kRollingCorr = push_bit 9 1"
definition kRollingBeta :: "32 word" where "kRollingBeta = push_bit 10 1"
definition kKalman1d :: "32 word" where "kKalman1d = push_bit 11 1"

definition kAll :: "32 word" where
  "kAll = kSma OR kEma OR kLag OR kRollingStd OR kZscore OR kRollingMin OR kRollingMax OR kVwap OR
     kCross OR kRollingCorr OR kRollingBeta OR kKalman1d"

definition kNone :: "32 word" where "kNone = 0"

definition HasFlag :: "32 word \<Rightarrow> 32 word \<Rightarrow> bool" where
  "HasFlag v flag \<longleftrightarrow> v AND flag \<noteq> 0"

section \<open>Instructions and blocks\<close>

definition append_code :: "'f instr \<Rightarrow> 'f codegen \<Rightarrow> 'f codegen" where
  "append_code i cg =
     cg\<lparr>blocks := (blocks cg)[here cg := (blocks cg ! here cg)\<lparr>code := code (blocks cg ! here cg) @ [i]\<rparr>]\<rparr>"

text \<open>The value of an instruction is named by the position of the instruction.\<close>

definition emit_instr :: "'f instr \<Rightarrow> ('f, 'f operand) emitter" where
  "emit_instr i cg = (Inr (Reg (here cg) (length (code (blocks cg ! here cg)))), append_code i cg)"

definition CreateBlock :: "('f, nat) emitter" where
  "CreateBlock cg = (Inr (length (blocks cg)), cg\<lparr>blocks := blocks cg @ [\<lparr>code = [], final = None\<rparr>]\<rparr>)"

definition set_final :: "'f terminator \<Rightarrow> ('f, unit) emitter" where
  "set_final t cg =
     (Inr (), cg\<lparr>blocks := (blocks cg)[here cg := (blocks cg ! here cg)\<lparr>final := Some t\<rparr>]\<rparr>)"

abbreviation CreateBr :: "nat \<Rightarrow> ('f, unit) emitter" where
  "CreateBr l \<equiv> set_final (Br l)"

abbreviation CreateCondBr :: "'f operand \<Rightarrow> nat \<Rightarrow> nat \<Rightarrow> ('f, unit) emitter" where
  "CreateCondBr c t e \<equiv> set_final (CondBr c t e)"

definition SetInsertPoint :: "nat \<Rightarrow> ('f, unit) emitter" where
  "SetInsertPoint l cg = (Inr (), cg\<lparr>here := l\<rparr>)"

abbreviation GetInsertBlock :: "('f, nat) emitter" where
  "GetInsertBlock \<equiv> reading here"

abbreviation CreateFAdd :: "'f operand \<Rightarrow> 'f operand \<Rightarrow> ('f, 'f operand) emitter" where
  "CreateFAdd a b \<equiv> emit_instr (Op FAddOp [a, b])"

abbreviation CreateFSub :: "'f operand \<Rightarrow> 'f operand \<Rightarrow> ('f, 'f operand) emitter" where
  "CreateFSub a b \<equiv> emit_instr (Op FSubOp [a, b])"

abbreviation CreateFMul :: "'f operand \<Rightarrow> 'f operand \<Rightarrow> ('f, 'f operand) emitter" where
  "CreateFMul a b \<equiv> emit_instr (Op FMulOp [a, b])"

abbreviation CreateFDiv :: "'f operand \<Rightarrow> 'f operand \<Rightarrow> ('f, 'f operand) emitter" where
  "CreateFDiv a b \<equiv> emit_instr (Op FDivOp [a, b])"

abbreviation CreateFCmpOGT :: "'f operand \<Rightarrow> 'f operand \<Rightarrow> ('f, 'f operand) emitter" where
  "CreateFCmpOGT a b \<equiv> emit_instr (Op (FCmpOp OGT) [a, b])"

abbreviation CreateFCmpOLT :: "'f operand \<Rightarrow> 'f operand \<Rightarrow> ('f, 'f operand) emitter" where
  "CreateFCmpOLT a b \<equiv> emit_instr (Op (FCmpOp OLT) [a, b])"

abbreviation CreateFCmpOGE :: "'f operand \<Rightarrow> 'f operand \<Rightarrow> ('f, 'f operand) emitter" where
  "CreateFCmpOGE a b \<equiv> emit_instr (Op (FCmpOp OGE) [a, b])"

abbreviation CreateFCmpOLE :: "'f operand \<Rightarrow> 'f operand \<Rightarrow> ('f, 'f operand) emitter" where
  "CreateFCmpOLE a b \<equiv> emit_instr (Op (FCmpOp OLE) [a, b])"

abbreviation CreateFCmpUNE :: "'f operand \<Rightarrow> 'f operand \<Rightarrow> ('f, 'f operand) emitter" where
  "CreateFCmpUNE a b \<equiv> emit_instr (Op (FCmpOp UNE) [a, b])"

abbreviation CreateICmpEQ :: "'f operand \<Rightarrow> 'f operand \<Rightarrow> ('f, 'f operand) emitter" where
  "CreateICmpEQ a b \<equiv> emit_instr (Op (ICmpOp IEQ) [a, b])"

abbreviation CreateICmpNE :: "'f operand \<Rightarrow> 'f operand \<Rightarrow> ('f, 'f operand) emitter" where
  "CreateICmpNE a b \<equiv> emit_instr (Op (ICmpOp INE) [a, b])"

abbreviation CreateICmpSGT :: "'f operand \<Rightarrow> 'f operand \<Rightarrow> ('f, 'f operand) emitter" where
  "CreateICmpSGT a b \<equiv> emit_instr (Op (ICmpOp SGT) [a, b])"

abbreviation CreateICmpSGE :: "'f operand \<Rightarrow> 'f operand \<Rightarrow> ('f, 'f operand) emitter" where
  "CreateICmpSGE a b \<equiv> emit_instr (Op (ICmpOp SGE) [a, b])"

abbreviation CreateAdd :: "'f operand \<Rightarrow> 'f operand \<Rightarrow> ('f, 'f operand) emitter" where
  "CreateAdd a b \<equiv> emit_instr (Op IAddOp [a, b])"

abbreviation CreateSub :: "'f operand \<Rightarrow> 'f operand \<Rightarrow> ('f, 'f operand) emitter" where
  "CreateSub a b \<equiv> emit_instr (Op ISubOp [a, b])"

abbreviation CreateURem :: "'f operand \<Rightarrow> 'f operand \<Rightarrow> ('f, 'f operand) emitter" where
  "CreateURem a b \<equiv> emit_instr (Op URemOp [a, b])"

abbreviation CreateAnd :: "'f operand \<Rightarrow> 'f operand \<Rightarrow> ('f, 'f operand) emitter" where
  "CreateAnd a b \<equiv> emit_instr (Op IAndOp [a, b])"

abbreviation CreateOr :: "'f operand \<Rightarrow> 'f operand \<Rightarrow> ('f, 'f operand) emitter" where
  "CreateOr a b \<equiv> emit_instr (Op IOrOp [a, b])"

abbreviation CreateFNeg :: "'f operand \<Rightarrow> ('f, 'f operand) emitter" where
  "CreateFNeg a \<equiv> emit_instr (Op FNegOp [a])"

abbreviation CreateUIToFP :: "'f operand \<Rightarrow> ('f, 'f operand) emitter" where
  "CreateUIToFP a \<equiv> emit_instr (Op UIToFPOp [a])"

abbreviation CreateFPTrunc :: "'f operand \<Rightarrow> ('f, 'f operand) emitter" where
  "CreateFPTrunc a \<equiv> emit_instr (Op FPTruncOp [a])"

abbreviation CreateFPExt :: "'f operand \<Rightarrow> ('f, 'f operand) emitter" where
  "CreateFPExt a \<equiv> emit_instr (Op FPExtOp [a])"

abbreviation CreateSelect :: "'f operand \<Rightarrow> 'f operand \<Rightarrow> 'f operand \<Rightarrow> ('f, 'f operand) emitter" where
  "CreateSelect c a b \<equiv> emit_instr (Op SelectOp [c, a, b])"

abbreviation CallIntrinsic :: "string \<Rightarrow> 'f operand \<Rightarrow> ('f, 'f operand) emitter" where
  "CallIntrinsic n a \<equiv> emit_instr (Op (Intrinsic n) [a])"

abbreviation CreateGEP :: "'f operand \<Rightarrow> 'f operand \<Rightarrow> ('f, 'f operand) emitter" where
  "CreateGEP p i \<equiv> emit_instr (GEP p i)"

abbreviation CreateStructGEP :: "'f operand \<Rightarrow> nat \<Rightarrow> ('f, 'f operand) emitter" where
  "CreateStructGEP p k \<equiv> emit_instr (StructGEP p k)"

abbreviation CreateLoad :: "ir_type \<Rightarrow> 'f operand \<Rightarrow> ('f, 'f operand) emitter" where
  "CreateLoad ty p \<equiv> emit_instr (Load ty p)"

abbreviation CreateStore :: "'f operand \<Rightarrow> 'f operand \<Rightarrow> ('f, 'f operand) emitter" where
  "CreateStore v p \<equiv> emit_instr (Store v p)"

abbreviation CreateCall :: "string \<Rightarrow> 'f operand list \<Rightarrow> ('f, 'f operand) emitter" where
  "CreateCall f as \<equiv> emit_instr (Call f as)"

abbreviation CreatePHI :: "('f operand \<times> nat) list \<Rightarrow> ('f, 'f operand) emitter" where
  "CreatePHI ins \<equiv> emit_instr (Phi ins)"

abbreviation ConstI64 :: "int \<Rightarrow> 'f operand" where
  "ConstI64 i \<equiv> ConstInt (i64 i)"

section \<open>Vector mode\<close>

definition SplatConst :: "'f \<Rightarrow> ('f, 'f operand) emitter" where
  "SplatConst v = reading (\<lambda>cg. if lane_count cg \<le> 1 then ConstFP v else ConstSplat (lane_count cg) v)"

abbreviation NaNConst :: "'f machine \<Rightarrow> 'f operand" where
  "NaNConst M \<equiv> ConstFP (qnan M)"

definition IsVectorized :: "'f codegen \<Rightarrow> bool" where
  "IsVectorized cg \<longleftrightarrow> lane_count cg > 1"

definition ClearLoweredBaseCaches :: "'f codegen \<Rightarrow> 'f codegen" where
  "ClearLoweredBaseCaches cg = cg\<lparr>base_cached := Map.empty\<rparr>"

definition LaneEmitScope :: "'f operand \<Rightarrow> 'f operand \<Rightarrow> ('f, 'a) emitter \<Rightarrow> ('f, 'a) emitter" where
  "LaneEmitScope lane_ctx lane_market m cg =
     (let (r, cg') = m (ClearLoweredBaseCaches
             (cg\<lparr>ctx_arg := lane_ctx, market_arg := lane_market, per_lane_scalar_emit := True\<rparr>))
      in (r, ClearLoweredBaseCaches
            (cg'\<lparr>ctx_arg := ctx_arg cg, market_arg := market_arg cg,
                 per_lane_scalar_emit := per_lane_scalar_emit cg\<rparr>)))"

primrec over_lanes :: "(nat \<Rightarrow> ('f, 'f operand) emitter) \<Rightarrow> nat list \<Rightarrow> 'f operand \<Rightarrow> ('f, 'f operand) emitter" where
  "over_lanes f [] acc = ret acc"
| "over_lanes f (k # ks) acc =
     bindm (f k) (\<lambda>x. bindm (emit_instr (Op (InsertOp k) [acc, x])) (over_lanes f ks))"

definition fan_out_lane ::
    "(nat \<Rightarrow> 'f operand \<Rightarrow> 'f operand \<Rightarrow> ('f, 'f operand) emitter) \<Rightarrow> nat \<Rightarrow> ('f, 'f operand) emitter" where
  "fan_out_lane build lane =
     bindm (reading symbol_arg) (\<lambda>symbol_arg.
     bindm (reading arena_arg) (\<lambda>arena_arg.
     bindm (reading per_lane_market_arg) (\<lambda>per_lane_market_arg.
     bindm (CreateAdd symbol_arg (ConstI32 (word_of_nat lane))) (\<lambda>lane_sym.
     bindm (CreateCall ''jit_rt_symbol_ctx'' [arena_arg, lane_sym]) (\<lambda>lane_ctx.
     bindm (CreateGEP per_lane_market_arg (ConstI64 (int lane))) (\<lambda>lane_market_slot.
     bindm (CreateLoad PtrTy lane_market_slot) (\<lambda>lane_market.
     build lane lane_ctx lane_market)))))))"

definition EmitScalarizedFanOut ::
    "(nat \<Rightarrow> 'f operand \<Rightarrow> 'f operand \<Rightarrow> ('f, 'f operand) emitter) \<Rightarrow> ('f, 'f operand) emitter" where
  "EmitScalarizedFanOut build =
     bindm (reading lane_count) (\<lambda>k. over_lanes (fan_out_lane build) [0..<k] (UndefVec k))"

text \<open>Whether a value is a vector: constants and results of the instructions that make one.\<close>

definition ExtractLane :: "'f operand \<Rightarrow> nat \<Rightarrow> ('f, 'f operand) emitter" where
  "ExtractLane v lane =
     (case v of
        ConstFP x \<Rightarrow> ret v
      | _ \<Rightarrow> emit_instr (Op (ExtractOp lane) [v]))"

section \<open>Market loads\<close>

definition MarketFieldCacheKey :: "nat \<Rightarrow> nat \<Rightarrow> 64 word" where
  "MarketFieldCacheKey sym_id field_index = (push_bit 2 (word_of_nat sym_id)) OR word_of_nat field_index"

definition load_market_field :: "'f operand \<Rightarrow> nat \<Rightarrow> nat \<Rightarrow> ('f, 'f operand) emitter" where
  "load_market_field market sym_id field_index =
     bindm (CreateStructGEP market 0) (\<lambda>instruments_ptr.
     bindm (CreateGEP instruments_ptr (ConstI64 (int sym_id))) (\<lambda>instrument_ptr.
     bindm (CreateStructGEP instrument_ptr field_index) (\<lambda>field_ptr.
     CreateLoad F64 field_ptr)))"

definition load_lane_market_field :: "nat \<Rightarrow> nat \<Rightarrow> nat \<Rightarrow> ('f, 'f operand) emitter" where
  "load_lane_market_field sym_id field_index lane =
     bindm (reading per_lane_market_arg) (\<lambda>per_lane_market_arg.
     bindm (CreateGEP per_lane_market_arg (ConstI64 (int lane))) (\<lambda>slot_ptr.
     bindm (CreateLoad PtrTy slot_ptr) (\<lambda>mst.
     load_market_field mst sym_id field_index)))"

definition cached_market_field :: "nat \<Rightarrow> nat \<Rightarrow> 'f codegen \<Rightarrow> 'f operand option" where
  "cached_market_field sym_id field_index cg =
     (let key = MarketFieldCacheKey sym_id field_index
      in if use_program_market_cache cg \<and> \<not> per_lane_scalar_emit cg then program_market_field_cache cg key
         else if \<not> use_program_market_cache cg
         then (case market_field_cache cg key of
                 Some (v, block) \<Rightarrow> if block = here cg then Some v else None
               | None \<Rightarrow> None)
         else None)"

definition remember_market_field :: "nat \<Rightarrow> nat \<Rightarrow> 'f operand \<Rightarrow> 'f codegen \<Rightarrow> 'f codegen" where
  "remember_market_field sym_id field_index loaded cg =
     (let key = MarketFieldCacheKey sym_id field_index
      in if use_program_market_cache cg \<and> \<not> per_lane_scalar_emit cg
         then cg\<lparr>program_market_field_cache := (program_market_field_cache cg)(key \<mapsto> loaded)\<rparr>
         else if \<not> use_program_market_cache cg
         then cg\<lparr>market_field_cache := (market_field_cache cg)(key \<mapsto> (loaded, here cg))\<rparr>
         else cg)"

definition EmitMarketFieldLoad :: "nat \<Rightarrow> nat \<Rightarrow> ('f, 'f operand) emitter" where
  "EmitMarketFieldLoad sym_id field_index cg =
     (case cached_market_field sym_id field_index cg of
        Some v \<Rightarrow> (Inr v, cg)
      | None \<Rightarrow>
          bindm
            (if IsVectorized cg \<and> \<not> per_lane_scalar_emit cg
             then over_lanes (load_lane_market_field sym_id field_index) [0..<lane_count cg] (UndefVec (lane_count cg))
             else load_market_field (market_arg cg) sym_id field_index)
            (\<lambda>loaded cg'. (Inr loaded, remember_market_field sym_id field_index loaded cg')) cg)"

section \<open>Base pointers and node ids\<close>

text \<open>The entry block holds nothing behind the call that finds the context.\<close>

definition nothing_after_ctx :: "'f codegen \<Rightarrow> bool" where
  "nothing_after_ctx cg \<longleftrightarrow>
     hoisted_loads cg = [] \<and> code (blocks cg ! 0) = [] \<and> final (blocks cg ! 0) = None"

text \<open>Outside a lane the two instructions go in front of the instruction that follows the call, which
  must exist: the builder is pointed at it. In vector mode there is no such call, and they go to the
  start of the entry block.\<close>

definition LoadLoweredBaseField :: "nat \<Rightarrow> ('f, 'f operand) emitter" where
  "LoadLoweredBaseField field_idx cg =
     (if per_lane_scalar_emit cg
      then bindm (CreateStructGEP (ctx_arg cg) field_idx) (CreateLoad PtrTy) cg
      else case base_cached cg field_idx of
          Some v \<Rightarrow> (Inr v, cg)
        | None \<Rightarrow>
            if ctx_arg cg = CtxVal \<and> nothing_after_ctx cg
            then (Inl (Undefined ''insertion point''), cg)
            else (Inr (Hoisted field_idx),
                  cg\<lparr>hoisted_loads := field_idx # hoisted_loads cg,
                     base_cached := (base_cached cg)(field_idx \<mapsto> Hoisted field_idx)\<rparr>))"

definition GetSmaBase :: "('f, 'f operand) emitter" where
  "GetSmaBase = LoadLoweredBaseField 0"

definition GetEmaBase :: "('f, 'f operand) emitter" where
  "GetEmaBase = LoadLoweredBaseField 1"

definition GetLagBase :: "('f, 'f operand) emitter" where
  "GetLagBase = LoadLoweredBaseField 2"

definition GetRollingStdBase :: "('f, 'f operand) emitter" where
  "GetRollingStdBase = LoadLoweredBaseField 3"

definition GetZscoreBase :: "('f, 'f operand) emitter" where
  "GetZscoreBase = LoadLoweredBaseField 4"

definition GetRollingMinBase :: "('f, 'f operand) emitter" where
  "GetRollingMinBase = LoadLoweredBaseField 5"

definition GetRollingMaxBase :: "('f, 'f operand) emitter" where
  "GetRollingMaxBase = LoadLoweredBaseField 6"

definition GetCrossBase :: "('f, 'f operand) emitter" where
  "GetCrossBase = LoadLoweredBaseField 7"

definition GetKalman1dBase :: "('f, 'f operand) emitter" where
  "GetKalman1dBase = LoadLoweredBaseField 8"

definition GetVwapBase :: "('f, 'f operand) emitter" where
  "GetVwapBase = LoadLoweredBaseField 9"

definition GetRollingCorrBase :: "('f, 'f operand) emitter" where
  "GetRollingCorrBase = LoadLoweredBaseField 10"

definition GetRollingBetaBase :: "('f, 'f operand) emitter" where
  "GetRollingBetaBase = LoadLoweredBaseField 11"

lemmas base_getters = GetSmaBase_def GetEmaBase_def GetLagBase_def GetRollingStdBase_def GetZscoreBase_def GetRollingMinBase_def
  GetRollingMaxBase_def GetCrossBase_def GetKalman1dBase_def GetVwapBase_def GetRollingCorrBase_def GetRollingBetaBase_def

text \<open>The id of a call: the one in its node, which the first lookup of an unnumbered call sets.\<close>

definition node_id_at :: "'f codegen \<Rightarrow> path \<Rightarrow> int \<Rightarrow> int" where
  "node_id_at cg p node_id = (if node_id > 0 then node_id else case node_ids cg p of Some i \<Rightarrow> i | None \<Rightarrow> node_id)"

definition GetNodeId :: "path \<Rightarrow> int \<Rightarrow> ('f, int) emitter" where
  "GetNodeId p node_id cg =
     (if node_id > 0 then (Inr node_id, cg)
      else case node_ids cg p of
          Some i \<Rightarrow> (Inr i, cg)
        | None \<Rightarrow> (Inr (next_node_id cg),
                  cg\<lparr>next_node_id := next_node_id cg + 1, node_ids := (node_ids cg)(p \<mapsto> next_node_id cg)\<rparr>))"

definition is_warm :: "path \<Rightarrow> ('f, bool) emitter" where
  "is_warm p = reading (\<lambda>cg. assume_warm cg \<and> p \<in> set (warm_safe_calls cg))"

end
