(* ===== verification/Jit_Lowered.thy ===== *)
theory Jit_Lowered
  imports Jit_Builder
begin

text \<open>
  The inline code of the stateful operators (the \<^verbatim>\<open>EmitLowered\<close> functions of
  \<^verbatim>\<open>src/jit_compiler.cpp\<close>), one definition each, in the order the builder is called.
\<close>

section \<open>Averages and lags\<close>

definition state_pointer :: "'f operand \<Rightarrow> int \<Rightarrow> ('f, 'f operand) emitter" where
  "state_pointer base node_id = CreateGEP base (ConstI64 node_id)"

text \<open>The advance of the head, \<open>(head + 1) % period\<close>, stored back.\<close>

definition next_head :: "'f operand \<Rightarrow> int \<Rightarrow> ('f, 'f operand) emitter" where
  "next_head head period =
     bindm (CreateAdd head (ConstI64 1)) (\<lambda>head_plus. CreateURem head_plus (ConstI64 period))"

definition EmitLoweredSma :: "'f machine \<Rightarrow> path \<Rightarrow> 'f operand \<Rightarrow> int \<Rightarrow> int \<Rightarrow> ('f, 'f operand) emitter" where
  "EmitLoweredSma M p x node_id period =
     bindm (is_warm p) (\<lambda>warm.
     bindm GetSmaBase (\<lambda>base.
     bindm (state_pointer base node_id) (\<lambda>state_ptr.
     bindm (CreateStructGEP state_ptr 0) (\<lambda>buf_pp.
     bindm (CreateStructGEP state_ptr 1) (\<lambda>sum_pp.
     bindm (CreateStructGEP state_ptr 2) (\<lambda>head_pp.
     bindm (CreateStructGEP state_ptr 3) (\<lambda>count_pp.
     bindm (CreateLoad PtrTy buf_pp) (\<lambda>buf.
     bindm (CreateLoad F64 sum_pp) (\<lambda>sum.
     bindm (CreateLoad I64 head_pp) (\<lambda>head.
     bindm (CreateGEP buf head) (\<lambda>slot_ptr.
     if warm
     then
       bindm (CreateLoad F64 slot_ptr) (\<lambda>old_val.
       bindm (CreateFAdd sum x) (\<lambda>sum_plus_x.
       bindm (CreateFSub sum_plus_x old_val) (\<lambda>sum_new.
       bindm (CreateStore x slot_ptr) (\<lambda>_.
       bindm (next_head head period) (\<lambda>head_new.
       bindm (CreateStore sum_new sum_pp) (\<lambda>_.
       bindm (CreateStore head_new head_pp) (\<lambda>_.
       CreateFDiv sum_new (ConstFP (dlit M (of_int period))))))))))
     else
       bindm (CreateLoad I64 count_pp) (\<lambda>count.
       bindm (CreateICmpEQ count (ConstI64 period)) (\<lambda>was_full.
       bindm (CreateLoad F64 slot_ptr) (\<lambda>old_val.
       bindm (CreateSelect was_full old_val (ConstFP (dlit M 0))) (\<lambda>old_or_zero.
       bindm (CreateFAdd sum x) (\<lambda>sum_plus_x.
       bindm (CreateFSub sum_plus_x old_or_zero) (\<lambda>sum_new.
       bindm (CreateAdd count (ConstI64 1)) (\<lambda>count_plus_one.
       bindm (CreateSelect was_full count count_plus_one) (\<lambda>count_new.
       bindm (CreateStore x slot_ptr) (\<lambda>_.
       bindm (next_head head period) (\<lambda>head_new.
       bindm (CreateStore sum_new sum_pp) (\<lambda>_.
       bindm (CreateStore head_new head_pp) (\<lambda>_.
       bindm (CreateStore count_new count_pp) (\<lambda>_.
       bindm (CreateICmpEQ count_new (ConstI64 period)) (\<lambda>is_full.
       bindm (CreateFDiv sum_new (ConstFP (dlit M (of_int period)))) (\<lambda>mean.
       CreateSelect is_full mean (NaNConst M)))))))))))))))))))))))))))"

definition EmitLoweredEma :: "'f machine \<Rightarrow> path \<Rightarrow> 'f operand \<Rightarrow> int \<Rightarrow> int \<Rightarrow> ('f, 'f operand) emitter" where
  "EmitLoweredEma M p x node_id period =
     bindm (is_warm p) (\<lambda>warm.
     bindm GetEmaBase (\<lambda>base.
     bindm (state_pointer base node_id) (\<lambda>state_ptr.
     bindm (CreateStructGEP state_ptr 0) (\<lambda>val_pp.
     bindm (CreateStructGEP state_ptr 1) (\<lambda>init_pp.
     bindm (CreateLoad F64 val_pp) (\<lambda>prev.
     bindm (CreateFMul (ConstFP (ema_period_alpha M period)) x) (\<lambda>ax.
     bindm (CreateFMul (ConstFP (dsub M (dlit M 1) (ema_period_alpha M period))) prev) (\<lambda>bp.
     bindm (CreateFAdd ax bp) (\<lambda>blended.
     if warm
     then
       bindm (CreateStore blended val_pp) (\<lambda>_.
       ret blended)
     else
       bindm (CreateLoad I64 init_pp) (\<lambda>init.
       bindm (CreateICmpNE init (ConstI64 0)) (\<lambda>is_init.
       bindm (CreateSelect is_init blended x) (\<lambda>new_val.
       bindm (CreateStore new_val val_pp) (\<lambda>_.
       bindm (CreateStore (ConstI64 1) init_pp) (\<lambda>_.
       ret new_val))))))))))))))"

definition EmitLoweredLag :: "'f machine \<Rightarrow> path \<Rightarrow> 'f operand \<Rightarrow> int \<Rightarrow> int \<Rightarrow> ('f, 'f operand) emitter" where
  "EmitLoweredLag M p x node_id period =
     bindm (is_warm p) (\<lambda>warm.
     bindm GetLagBase (\<lambda>base.
     bindm (state_pointer base node_id) (\<lambda>state_ptr.
     bindm (CreateStructGEP state_ptr 0) (\<lambda>buf_pp.
     bindm (CreateStructGEP state_ptr 1) (\<lambda>head_pp.
     bindm (CreateStructGEP state_ptr 2) (\<lambda>count_pp.
     bindm (CreateLoad PtrTy buf_pp) (\<lambda>buf.
     bindm (CreateLoad I64 head_pp) (\<lambda>head.
     bindm (CreateGEP buf head) (\<lambda>slot_ptr.
     bindm (CreateLoad F64 slot_ptr) (\<lambda>lagged_buf.
     if warm
     then
       bindm (CreateStore x slot_ptr) (\<lambda>_.
       bindm (next_head head period) (\<lambda>head_new.
       bindm (CreateStore head_new head_pp) (\<lambda>_.
       ret lagged_buf)))
     else
       bindm (CreateLoad I64 count_pp) (\<lambda>count.
       bindm (CreateICmpEQ count (ConstI64 period)) (\<lambda>is_full.
       bindm (CreateSelect is_full lagged_buf (NaNConst M)) (\<lambda>lagged.
       bindm (CreateStore x slot_ptr) (\<lambda>_.
       bindm (next_head head period) (\<lambda>head_new.
       bindm (CreateStore head_new head_pp) (\<lambda>_.
       bindm (CreateAdd count (ConstI64 1)) (\<lambda>count_plus.
       bindm (CreateSelect is_full count count_plus) (\<lambda>count_new.
       bindm (CreateStore count_new count_pp) (\<lambda>_.
       ret lagged)))))))))))))))))))"

section \<open>Deviations\<close>

text \<open>The update of the window and of the two running sums, which rolling_std and zscore repeat: the
  new sum, the new sum of squares and the new count.\<close>

definition emit_ring_push ::
    "'f machine \<Rightarrow> bool \<Rightarrow> 'f operand \<Rightarrow> 'f operand \<Rightarrow> int \<Rightarrow> int \<Rightarrow>
       ('f, 'f operand \<times> 'f operand \<times> 'f operand) emitter" where
  "emit_ring_push M warm base x node_id period =
     bindm (state_pointer base node_id) (\<lambda>state_ptr.
     bindm (CreateStructGEP state_ptr 0) (\<lambda>buf_pp.
     bindm (CreateStructGEP state_ptr 2) (\<lambda>head_pp.
     bindm (CreateStructGEP state_ptr 3) (\<lambda>count_pp.
     bindm (CreateStructGEP state_ptr 4) (\<lambda>sum_pp.
     bindm (CreateStructGEP state_ptr 6) (\<lambda>sumsq_pp.
     bindm (CreateLoad PtrTy buf_pp) (\<lambda>buf.
     bindm (CreateLoad I64 head_pp) (\<lambda>head.
     bindm (CreateGEP buf head) (\<lambda>slot_ptr.
     bindm (CreateLoad F64 slot_ptr) (\<lambda>old_val.
     bindm (CreateLoad F80 sum_pp) (\<lambda>sum_ld.
     bindm (CreateLoad F80 sumsq_pp) (\<lambda>sumsq_ld.
     bindm (CreateFPTrunc sum_ld) (\<lambda>sum.
     bindm (CreateFPTrunc sumsq_ld) (\<lambda>sumsq.
     bindm (CreateFMul x x) (\<lambda>x2.
     bindm
       (if warm then
         bindm (CreateFAdd sum x) (\<lambda>sum_plus_x.
         bindm (CreateFSub sum_plus_x old_val) (\<lambda>sum_new.
         bindm (CreateFMul old_val old_val) (\<lambda>old2.
         bindm (CreateFAdd sumsq x2) (\<lambda>sumsq_plus_x2.
         bindm (CreateFSub sumsq_plus_x2 old2) (\<lambda>sumsq_new.
         ret (sum_new, sumsq_new, ConstI64 period))))))
        else
         bindm (CreateLoad I64 count_pp) (\<lambda>count.
         bindm (CreateICmpEQ count (ConstI64 period)) (\<lambda>was_full.
         bindm (CreateSelect was_full old_val (ConstFP (dlit M 0))) (\<lambda>old_or_zero.
         bindm (CreateFMul old_or_zero old_or_zero) (\<lambda>old2.
         bindm (CreateFAdd sum x) (\<lambda>sum_plus_x.
         bindm (CreateFSub sum_plus_x old_or_zero) (\<lambda>sum_new.
         bindm (CreateFAdd sumsq x2) (\<lambda>sumsq_plus_x2.
         bindm (CreateFSub sumsq_plus_x2 old2) (\<lambda>sumsq_new.
         bindm (CreateAdd count (ConstI64 1)) (\<lambda>count_plus_one.
         bindm (CreateSelect was_full count count_plus_one) (\<lambda>count_new.
         bindm (CreateStore count_new count_pp) (\<lambda>_.
         ret (sum_new, sumsq_new, count_new)))))))))))))
       (\<lambda>(sum_new, sumsq_new, count_new).
     bindm (CreateStore x slot_ptr) (\<lambda>_.
     bindm (next_head head period) (\<lambda>head_new.
     bindm (CreateStore head_new head_pp) (\<lambda>_.
     bindm (CreateFPExt sum_new) (\<lambda>sum80.
     bindm (CreateStore sum80 sum_pp) (\<lambda>_.
     bindm (CreateFPExt sumsq_new) (\<lambda>sumsq80.
     bindm (CreateStore sumsq80 sumsq_pp) (\<lambda>_.
     ret (sum_new, sumsq_new, count_new))))))))))))))))))))))))"

text \<open>Mean and sample deviation from the sums; a variance below 0 counts as 0.\<close>

definition emit_stddev ::
    "'f machine \<Rightarrow> 'f operand \<Rightarrow> 'f operand \<Rightarrow> int \<Rightarrow> ('f, 'f operand \<times> 'f operand) emitter" where
  "emit_stddev M sum_new sumsq_new period =
     bindm (CreateFDiv sum_new (ConstFP (dlit M (of_int period)))) (\<lambda>mean.
     bindm (CreateFMul mean mean) (\<lambda>mean_sq.
     bindm (CreateFMul (ConstFP (dlit M (of_int period))) mean_sq) (\<lambda>corr.
     bindm (CreateFSub sumsq_new corr) (\<lambda>ss.
     bindm (CreateFDiv ss (ConstFP (dlit M (of_int (period - 1))))) (\<lambda>var.
     bindm (CreateFCmpOLT var (ConstFP (dlit M 0))) (\<lambda>negative.
     bindm (CreateSelect negative (ConstFP (dlit M 0)) var) (\<lambda>var_clamped.
     bindm (CallIntrinsic ''sqrt'' var_clamped) (\<lambda>stdv.
     ret (mean, stdv)))))))))"

definition EmitLoweredRollingStd :: "'f machine \<Rightarrow> path \<Rightarrow> 'f operand \<Rightarrow> int \<Rightarrow> int \<Rightarrow> ('f, 'f operand) emitter" where
  "EmitLoweredRollingStd M p x node_id period =
     bindm (is_warm p) (\<lambda>warm.
     bindm GetRollingStdBase (\<lambda>base.
     bindm (emit_ring_push M warm base x node_id period) (\<lambda>(sum_new, sumsq_new, count_new).
     bindm (emit_stddev M sum_new sumsq_new period) (\<lambda>(mean, stdv).
     if warm
     then
       ret stdv
     else
       bindm (CreateICmpEQ count_new (ConstI64 period)) (\<lambda>is_full.
       CreateSelect is_full stdv (NaNConst M))))))"

definition EmitLoweredZscore :: "'f machine \<Rightarrow> path \<Rightarrow> 'f operand \<Rightarrow> int \<Rightarrow> int \<Rightarrow> ('f, 'f operand) emitter" where
  "EmitLoweredZscore M p x node_id period =
     bindm (is_warm p) (\<lambda>warm.
     bindm GetZscoreBase (\<lambda>base.
     bindm (emit_ring_push M warm base x node_id period) (\<lambda>(sum_new, sumsq_new, count_new).
     bindm (emit_stddev M sum_new sumsq_new period) (\<lambda>(mean, stdv).
     bindm (CallIntrinsic ''fabs'' stdv) (\<lambda>stdv_abs.
     bindm (CreateFCmpOGE stdv_abs (ConstFP (dlit M (1 / 10 ^ 18)))) (\<lambda>stdv_ok.
     bindm (CreateFSub x mean) (\<lambda>z_num.
     bindm (CreateFDiv z_num stdv) (\<lambda>z.
     bindm (CreateSelect stdv_ok z (NaNConst M)) (\<lambda>z_or_nan.
     if warm
     then
       ret z_or_nan
     else
       bindm (CreateICmpEQ count_new (ConstI64 period)) (\<lambda>is_full.
       CreateSelect is_full z_or_nan (NaNConst M)))))))))))"

section \<open>Extrema\<close>

datatype MonoDequeKind = MinDeque | MaxDeque
datatype CrossKind = Above | Below
datatype RollingPairKind = Corr | Beta

text \<open>The loop that drops entries the sample supersedes from the back.\<close>

definition mono_pop_back ::
    "'f machine \<Rightarrow> 'f operand \<Rightarrow> MonoDequeKind \<Rightarrow> 'f operand \<Rightarrow> 'f operand \<Rightarrow> 'f operand \<Rightarrow> 'f operand \<Rightarrow>
       nat \<Rightarrow> nat \<Rightarrow> nat \<Rightarrow> nat \<Rightarrow> ('f, unit) emitter" where
  "mono_pop_back M sample kind head_pp count_pp cap_pp buf_pp hdr chk body_bb push_bb =
     bindm (SetInsertPoint hdr) (\<lambda>_.
     bindm (CreateLoad I64 count_pp) (\<lambda>count.
     bindm (CreateICmpSGT count (ConstI64 0)) (\<lambda>some.
     bindm (CreateCondBr some chk push_bb) (\<lambda>_.
     bindm (SetInsertPoint chk) (\<lambda>_.
     bindm (CreateLoad I64 head_pp) (\<lambda>head.
     bindm (CreateLoad I64 cap_pp) (\<lambda>cap.
     bindm (CreateLoad PtrTy buf_pp) (\<lambda>buf.
     bindm (CreateAdd head count) (\<lambda>end_idx.
     bindm (CreateSub end_idx (ConstI64 1)) (\<lambda>last_idx.
     bindm (CreateURem last_idx cap) (\<lambda>tail_idx.
     bindm (CreateGEP buf tail_idx) (\<lambda>back_entry.
     bindm (CreateStructGEP back_entry 1) (\<lambda>back_val_ptr.
     bindm (CreateLoad F64 back_val_ptr) (\<lambda>back_val.
     bindm (if kind = MinDeque then CreateFCmpOGE back_val sample else CreateFCmpOLE back_val sample) (\<lambda>should_pop.
     bindm (CreateCondBr should_pop body_bb push_bb) (\<lambda>_.
     bindm (SetInsertPoint body_bb) (\<lambda>_.
     bindm (CreateLoad I64 count_pp) (\<lambda>count_now.
     bindm (CreateSub count_now (ConstI64 1)) (\<lambda>count_less.
     bindm (CreateStore count_less count_pp) (\<lambda>_.
     CreateBr hdr))))))))))))))))))))"

definition mono_push ::
    "'f operand \<Rightarrow> 'f operand \<Rightarrow> 'f operand \<Rightarrow> 'f operand \<Rightarrow> 'f operand \<Rightarrow> 'f operand \<Rightarrow> nat \<Rightarrow> nat \<Rightarrow>
       ('f, unit) emitter" where
  "mono_push sample head_pp count_pp cap_pp buf_pp idx_pp push_bb pop_front_hdr =
     bindm (SetInsertPoint push_bb) (\<lambda>_.
     bindm (CreateLoad I64 head_pp) (\<lambda>head2.
     bindm (CreateLoad I64 count_pp) (\<lambda>count2.
     bindm (CreateLoad I64 cap_pp) (\<lambda>cap2.
     bindm (CreateLoad PtrTy buf_pp) (\<lambda>buf2.
     bindm (CreateLoad I64 idx_pp) (\<lambda>idx.
     bindm (CreateAdd head2 count2) (\<lambda>end_idx.
     bindm (CreateURem end_idx cap2) (\<lambda>write_idx.
     bindm (CreateGEP buf2 write_idx) (\<lambda>write_entry.
     bindm (CreateStructGEP write_entry 0) (\<lambda>tick_ptr.
     bindm (CreateStore idx tick_ptr) (\<lambda>_.
     bindm (CreateStructGEP write_entry 1) (\<lambda>val_ptr.
     bindm (CreateStore sample val_ptr) (\<lambda>_.
     bindm (CreateAdd count2 (ConstI64 1)) (\<lambda>count_more.
     bindm (CreateStore count_more count_pp) (\<lambda>_.
     CreateBr pop_front_hdr)))))))))))))))"

text \<open>The loop that drops expired entries from the front.\<close>

definition mono_pop_front ::
    "int \<Rightarrow> 'f operand \<Rightarrow> 'f operand \<Rightarrow> 'f operand \<Rightarrow> 'f operand \<Rightarrow> 'f operand \<Rightarrow>
       nat \<Rightarrow> nat \<Rightarrow> nat \<Rightarrow> nat \<Rightarrow> ('f, unit) emitter" where
  "mono_pop_front period head_pp count_pp cap_pp buf_pp idx_pp hdr chk body_bb done_bb =
     bindm (SetInsertPoint hdr) (\<lambda>_.
     bindm (CreateLoad I64 count_pp) (\<lambda>count3.
     bindm (CreateICmpSGT count3 (ConstI64 0)) (\<lambda>some.
     bindm (CreateCondBr some chk done_bb) (\<lambda>_.
     bindm (SetInsertPoint chk) (\<lambda>_.
     bindm (CreateLoad I64 head_pp) (\<lambda>head3.
     bindm (CreateLoad PtrTy buf_pp) (\<lambda>buf3.
     bindm (CreateLoad I64 idx_pp) (\<lambda>idx_now.
     bindm (CreateGEP buf3 head3) (\<lambda>front_entry.
     bindm (CreateStructGEP front_entry 0) (\<lambda>tick_ptr.
     bindm (CreateLoad I64 tick_ptr) (\<lambda>front_tick.
     bindm (CreateAdd idx_now (ConstI64 1)) (\<lambda>now_plus.
     bindm (CreateSub now_plus front_tick) (\<lambda>age.
     bindm (CreateICmpSGT age (ConstI64 period)) (\<lambda>expired.
     bindm (CreateCondBr expired body_bb done_bb) (\<lambda>_.
     bindm (SetInsertPoint body_bb) (\<lambda>_.
     bindm (CreateLoad I64 head_pp) (\<lambda>head4.
     bindm (CreateLoad I64 cap_pp) (\<lambda>cap4.
     bindm (CreateAdd head4 (ConstI64 1)) (\<lambda>head_plus.
     bindm (CreateURem head_plus cap4) (\<lambda>head_new.
     bindm (CreateStore head_new head_pp) (\<lambda>_.
     bindm (CreateLoad I64 count_pp) (\<lambda>count_now.
     bindm (CreateSub count_now (ConstI64 1)) (\<lambda>count_less.
     bindm (CreateStore count_less count_pp) (\<lambda>_.
     CreateBr hdr))))))))))))))))))))))))"

definition mono_finish ::
    "'f machine \<Rightarrow> int \<Rightarrow> 'f operand \<Rightarrow> 'f operand \<Rightarrow> 'f operand \<Rightarrow> nat \<Rightarrow> ('f, 'f operand) emitter" where
  "mono_finish M period head_pp buf_pp idx_pp done_bb =
     bindm (SetInsertPoint done_bb) (\<lambda>_.
     bindm (CreateLoad I64 idx_pp) (\<lambda>idx_now.
     bindm (CreateAdd idx_now (ConstI64 1)) (\<lambda>idx_new.
     bindm (CreateStore idx_new idx_pp) (\<lambda>_.
     bindm (CreateLoad PtrTy buf_pp) (\<lambda>buf.
     bindm (CreateLoad I64 head_pp) (\<lambda>head.
     bindm (CreateGEP buf head) (\<lambda>front.
     bindm (CreateStructGEP front 1) (\<lambda>val_ptr.
     bindm (CreateLoad F64 val_ptr) (\<lambda>result.
     bindm (CreateICmpSGE idx_new (ConstI64 period)) (\<lambda>warm_enough.
     CreateSelect warm_enough result (NaNConst M)))))))))))"

definition EmitLoweredMonoDequeRolling ::
    "'f machine \<Rightarrow> 'f operand \<Rightarrow> int \<Rightarrow> int \<Rightarrow> MonoDequeKind \<Rightarrow> 'f operand \<Rightarrow> ('f, 'f operand) emitter" where
  "EmitLoweredMonoDequeRolling M sample node_id period kind base =
     bindm (state_pointer base node_id) (\<lambda>state_ptr.
     bindm (CreateStructGEP state_ptr 0) (\<lambda>buf_pp.
     bindm (CreateStructGEP state_ptr 1) (\<lambda>head_pp.
     bindm (CreateStructGEP state_ptr 2) (\<lambda>count_pp.
     bindm (CreateStructGEP state_ptr 3) (\<lambda>cap_pp.
     bindm (CreateStructGEP state_ptr 4) (\<lambda>idx_pp.
     bindm CreateBlock (\<lambda>pop_back_hdr.
     bindm CreateBlock (\<lambda>pop_back_chk.
     bindm CreateBlock (\<lambda>pop_back_body.
     bindm CreateBlock (\<lambda>push_bb.
     bindm CreateBlock (\<lambda>pop_front_hdr.
     bindm CreateBlock (\<lambda>pop_front_chk.
     bindm CreateBlock (\<lambda>pop_front_body.
     bindm CreateBlock (\<lambda>done_bb.
     bindm (CreateBr pop_back_hdr) (\<lambda>_.
     bindm (mono_pop_back M sample kind head_pp count_pp cap_pp buf_pp pop_back_hdr pop_back_chk pop_back_body push_bb) (\<lambda>_.
     bindm (mono_push sample head_pp count_pp cap_pp buf_pp idx_pp push_bb pop_front_hdr) (\<lambda>_.
     bindm (mono_pop_front period head_pp count_pp cap_pp buf_pp idx_pp pop_front_hdr pop_front_chk pop_front_body done_bb) (\<lambda>_.
     mono_finish M period head_pp buf_pp idx_pp done_bb))))))))))))))))))"

definition EmitLoweredRollingMin :: "'f machine \<Rightarrow> 'f operand \<Rightarrow> int \<Rightarrow> int \<Rightarrow> ('f, 'f operand) emitter" where
  "EmitLoweredRollingMin M x node_id period =
     bindm GetRollingMinBase (EmitLoweredMonoDequeRolling M x node_id period MinDeque)"

definition EmitLoweredRollingMax :: "'f machine \<Rightarrow> 'f operand \<Rightarrow> int \<Rightarrow> int \<Rightarrow> ('f, 'f operand) emitter" where
  "EmitLoweredRollingMax M x node_id period =
     bindm GetRollingMaxBase (EmitLoweredMonoDequeRolling M x node_id period MaxDeque)"

section \<open>Crossings and the Kalman filter\<close>

definition emit_crossed ::
    "CrossKind \<Rightarrow> 'f operand \<Rightarrow> 'f operand \<Rightarrow> 'f operand \<Rightarrow> 'f operand \<Rightarrow> ('f, 'f operand) emitter" where
  "emit_crossed kind prev_a prev_b a b =
     (if kind = Above
      then bindm (CreateFCmpOLE prev_a prev_b) (\<lambda>was_below.
           bindm (CreateFCmpOGT a b) (CreateAnd was_below))
      else bindm (CreateFCmpOGE prev_a prev_b) (\<lambda>was_above.
           bindm (CreateFCmpOLT a b) (CreateAnd was_above)))"

definition EmitLoweredCross ::
    "'f machine \<Rightarrow> 'f operand \<Rightarrow> 'f operand \<Rightarrow> int \<Rightarrow> CrossKind \<Rightarrow> ('f, 'f operand) emitter" where
  "EmitLoweredCross M a b node_id kind =
     bindm GetCrossBase (\<lambda>base.
     bindm (state_pointer base node_id) (\<lambda>state_ptr.
     bindm (CreateStructGEP state_ptr 0) (\<lambda>prev_a_pp.
     bindm (CreateStructGEP state_ptr 1) (\<lambda>prev_b_pp.
     bindm (CreateStructGEP state_ptr 2) (\<lambda>init_pp.
     bindm (CreateLoad I64 init_pp) (\<lambda>init.
     bindm (CreateICmpNE init (ConstI64 0)) (\<lambda>is_init.
     bindm CreateBlock (\<lambda>init_bb.
     bindm CreateBlock (\<lambda>steady_bb.
     bindm CreateBlock (\<lambda>merge_bb.
     bindm (CreateCondBr is_init steady_bb init_bb) (\<lambda>_.
     bindm (SetInsertPoint init_bb) (\<lambda>_.
     bindm (CreateStore a prev_a_pp) (\<lambda>_.
     bindm (CreateStore b prev_b_pp) (\<lambda>_.
     bindm (CreateStore (ConstI64 1) init_pp) (\<lambda>_.
     bindm (CreateBr merge_bb) (\<lambda>_.
     bindm (SetInsertPoint steady_bb) (\<lambda>_.
     bindm (CreateLoad F64 prev_a_pp) (\<lambda>prev_a.
     bindm (CreateLoad F64 prev_b_pp) (\<lambda>prev_b.
     bindm (emit_crossed kind prev_a prev_b a b) (\<lambda>crossed.
     bindm (CreateStore a prev_a_pp) (\<lambda>_.
     bindm (CreateStore b prev_b_pp) (\<lambda>_.
     bindm (CreateSelect crossed (ConstFP (dlit M 1)) (ConstFP (dlit M 0))) (\<lambda>steady_out.
     bindm (CreateBr merge_bb) (\<lambda>_.
     bindm (SetInsertPoint merge_bb) (\<lambda>_.
     CreatePHI [(ConstFP (dlit M 0), init_bb), (steady_out, steady_bb)])))))))))))))))))))))))))"

definition emit_kalman_update ::
    "'f machine \<Rightarrow> 'f operand \<Rightarrow> 'f \<Rightarrow> 'f \<Rightarrow> 'f operand \<Rightarrow> 'f operand \<Rightarrow> ('f, 'f operand) emitter" where
  "emit_kalman_update M x q r xhat_pp p_pp =
     bindm (CreateLoad F64 xhat_pp) (\<lambda>x_hat.
     bindm (CreateLoad F64 p_pp) (\<lambda>p.
     bindm (CreateFAdd p (ConstFP q)) (\<lambda>p_pred.
     bindm (CreateFAdd p_pred (ConstFP r)) (\<lambda>denom.
     bindm (CreateFCmpOGT denom (ConstFP (dlit M 0))) (\<lambda>denom_pos.
     bindm (CreateFDiv p_pred denom) (\<lambda>k_gain.
     bindm (CreateFSub x x_hat) (\<lambda>innov.
     bindm (CreateFMul k_gain innov) (\<lambda>k_innov.
     bindm (CreateFAdd x_hat k_innov) (\<lambda>x_hat_new.
     bindm (CreateFSub (ConstFP (dlit M 1)) k_gain) (\<lambda>one_minus_k.
     bindm (CreateFMul one_minus_k p_pred) (\<lambda>p_new_raw.
     bindm (CreateFCmpOLT p_new_raw (ConstFP (dlit M 0))) (\<lambda>negative.
     bindm (CreateSelect negative (ConstFP (dlit M 0)) p_new_raw) (\<lambda>p_new.
     bindm (CreateSelect denom_pos x_hat_new x_hat) (\<lambda>update_out.
     bindm (CreateStore update_out xhat_pp) (\<lambda>_.
     bindm (CreateSelect denom_pos p_new p) (\<lambda>p_store.
     bindm (CreateStore p_store p_pp) (\<lambda>_.
     ret update_out)))))))))))))))))"

definition EmitLoweredKalman1d :: "'f machine \<Rightarrow> 'f operand \<Rightarrow> int \<Rightarrow> 'f \<Rightarrow> 'f \<Rightarrow> ('f, 'f operand) emitter" where
  "EmitLoweredKalman1d M x node_id q r =
     bindm GetKalman1dBase (\<lambda>base.
     bindm (state_pointer base node_id) (\<lambda>state_ptr.
     bindm (CreateStructGEP state_ptr 0) (\<lambda>xhat_pp.
     bindm (CreateStructGEP state_ptr 1) (\<lambda>p_pp.
     bindm (CreateStructGEP state_ptr 2) (\<lambda>init_pp.
     bindm (CreateLoad I64 init_pp) (\<lambda>init.
     bindm (CreateICmpNE init (ConstI64 0)) (\<lambda>is_init.
     bindm CreateBlock (\<lambda>init_bb.
     bindm CreateBlock (\<lambda>update_bb.
     bindm CreateBlock (\<lambda>merge_bb.
     bindm (CreateCondBr is_init update_bb init_bb) (\<lambda>_.
     bindm (SetInsertPoint init_bb) (\<lambda>_.
     bindm (CreateStore x xhat_pp) (\<lambda>_.
     bindm (CreateStore (ConstFP r) p_pp) (\<lambda>_.
     bindm (CreateStore (ConstI64 1) init_pp) (\<lambda>_.
     bindm (CreateBr merge_bb) (\<lambda>_.
     bindm (SetInsertPoint update_bb) (\<lambda>_.
     bindm (emit_kalman_update M x q r xhat_pp p_pp) (\<lambda>update_out.
     bindm (CreateBr merge_bb) (\<lambda>_.
     bindm (SetInsertPoint merge_bb) (\<lambda>_.
     CreatePHI [(x, init_bb), (update_out, update_bb)]))))))))))))))))))))"

section \<open>Weighted averages and pairs\<close>

definition vwap_push ::
    "'f machine \<Rightarrow> 'f operand \<Rightarrow> 'f operand \<Rightarrow> 'f operand \<Rightarrow> int \<Rightarrow> int \<Rightarrow> ('f, 'f operand) emitter" where
  "vwap_push M base price vol node_id period =
     bindm (state_pointer base node_id) (\<lambda>state_ptr.
     bindm (CreateStructGEP state_ptr 0) (\<lambda>price_buf_pp.
     bindm (CreateStructGEP state_ptr 1) (\<lambda>vol_buf_pp.
     bindm (CreateStructGEP state_ptr 2) (\<lambda>head_pp.
     bindm (CreateStructGEP state_ptr 3) (\<lambda>count_pp.
     bindm (CreateStructGEP state_ptr 5) (\<lambda>sum_pv_pp.
     bindm (CreateStructGEP state_ptr 6) (\<lambda>sum_vol_pp.
     bindm (CreateLoad PtrTy price_buf_pp) (\<lambda>price_buf.
     bindm (CreateLoad PtrTy vol_buf_pp) (\<lambda>vol_buf.
     bindm (CreateLoad I64 head_pp) (\<lambda>head.
     bindm (CreateLoad I64 count_pp) (\<lambda>count.
     bindm (CreateGEP price_buf head) (\<lambda>price_slot.
     bindm (CreateGEP vol_buf head) (\<lambda>vol_slot.
     bindm (CreateLoad F64 price_slot) (\<lambda>old_p.
     bindm (CreateLoad F64 vol_slot) (\<lambda>old_v.
     bindm (CreateICmpEQ count (ConstI64 period)) (\<lambda>was_full.
     bindm (CreateFMul old_p old_v) (\<lambda>old_pv.
     bindm (CreateFMul price vol) (\<lambda>new_pv.
     bindm (CreateLoad F64 sum_pv_pp) (\<lambda>sum_pv.
     bindm (CreateLoad F64 sum_vol_pp) (\<lambda>sum_vol.
     bindm (CreateFSub sum_pv old_pv) (\<lambda>pv_less.
     bindm (CreateSelect was_full pv_less sum_pv) (\<lambda>sum_pv_adj.
     bindm (CreateFSub sum_vol old_v) (\<lambda>vol_less.
     bindm (CreateSelect was_full vol_less sum_vol) (\<lambda>sum_vol_adj.
     bindm (CreateFAdd sum_pv_adj new_pv) (\<lambda>sum_pv_new.
     bindm (CreateFAdd sum_vol_adj vol) (\<lambda>sum_vol_new.
     bindm (CreateAdd count (ConstI64 1)) (\<lambda>count_plus.
     bindm (CreateSelect was_full count count_plus) (\<lambda>count_new.
     bindm (CreateStore price price_slot) (\<lambda>_.
     bindm (CreateStore vol vol_slot) (\<lambda>_.
     bindm (next_head head period) (\<lambda>head_new.
     bindm (CreateStore head_new head_pp) (\<lambda>_.
     bindm (CreateStore count_new count_pp) (\<lambda>_.
     bindm (CreateStore sum_pv_new sum_pv_pp) (\<lambda>_.
     bindm (CreateStore sum_vol_new sum_vol_pp) (\<lambda>_.
     bindm (CreateICmpEQ count_new (ConstI64 period)) (\<lambda>is_full.
     bindm (CreateFCmpOGT sum_vol_new (ConstFP (dlit M 0))) (\<lambda>vol_pos.
     bindm (CreateAnd is_full vol_pos) (\<lambda>can_value.
     bindm (CreateFDiv sum_pv_new sum_vol_new) (\<lambda>vwap_val.
     CreateSelect can_value vwap_val (NaNConst M))))))))))))))))))))))))))))))))))))))))"

definition EmitLoweredVwap :: "'f machine \<Rightarrow> nat \<Rightarrow> int \<Rightarrow> int \<Rightarrow> ('f, 'f operand) emitter" where
  "EmitLoweredVwap M sym_id node_id period =
     bindm GetVwapBase (\<lambda>base.
     bindm (EmitMarketFieldLoad sym_id 0) (\<lambda>bid.
     bindm (EmitMarketFieldLoad sym_id 1) (\<lambda>ask.
     bindm (CreateFAdd bid ask) (\<lambda>sum.
     bindm (CreateFMul sum (ConstFP (dlit M (1 / 2)))) (\<lambda>price.
     bindm (EmitMarketFieldLoad sym_id 3) (\<lambda>vol_raw.
     bindm (CreateFCmpOGT vol_raw (ConstFP (dlit M 0))) (\<lambda>positive.
     bindm (CreateSelect positive vol_raw (ConstFP (dlit M 1))) (\<lambda>vol.
     vwap_push M base price vol node_id period))))))))"

definition load_sum :: "'f operand \<Rightarrow> ('f, 'f operand) emitter" where
  "load_sum pp = bindm (CreateLoad F80 pp) CreateFPTrunc"

definition maybe_sub :: "'f operand \<Rightarrow> 'f operand \<Rightarrow> 'f operand \<Rightarrow> ('f, 'f operand) emitter" where
  "maybe_sub was_full acc sub = bindm (CreateFSub acc sub) (\<lambda>d. CreateSelect was_full d acc)"

definition store_sum :: "'f operand \<Rightarrow> 'f operand \<Rightarrow> ('f, 'f operand) emitter" where
  "store_sum acc pp = bindm (CreateFPExt acc) (\<lambda>s. CreateStore s pp)"

definition pair_push ::
    "'f operand \<Rightarrow> 'f operand \<Rightarrow> 'f operand \<Rightarrow> int \<Rightarrow> int \<Rightarrow>
       ('f, 'f operand \<times> 'f operand \<times> 'f operand \<times> 'f operand \<times> 'f operand \<times> 'f operand) emitter" where
  "pair_push base x y node_id period =
     bindm (state_pointer base node_id) (\<lambda>state_ptr.
     bindm (CreateStructGEP state_ptr 0) (\<lambda>x_buf_pp.
     bindm (CreateStructGEP state_ptr 1) (\<lambda>y_buf_pp.
     bindm (CreateStructGEP state_ptr 2) (\<lambda>head_pp.
     bindm (CreateStructGEP state_ptr 3) (\<lambda>count_pp.
     bindm (CreateStructGEP state_ptr 6) (\<lambda>sum_x_pp.
     bindm (CreateStructGEP state_ptr 7) (\<lambda>sum_y_pp.
     bindm (CreateStructGEP state_ptr 8) (\<lambda>sum_xy_pp.
     bindm (CreateStructGEP state_ptr 9) (\<lambda>sum_xx_pp.
     bindm (CreateStructGEP state_ptr 10) (\<lambda>sum_yy_pp.
     bindm (CreateLoad PtrTy x_buf_pp) (\<lambda>x_buf.
     bindm (CreateLoad PtrTy y_buf_pp) (\<lambda>y_buf.
     bindm (CreateLoad I64 head_pp) (\<lambda>head.
     bindm (CreateLoad I64 count_pp) (\<lambda>count.
     bindm (CreateGEP x_buf head) (\<lambda>x_slot.
     bindm (CreateGEP y_buf head) (\<lambda>y_slot.
     bindm (CreateLoad F64 x_slot) (\<lambda>ox.
     bindm (CreateLoad F64 y_slot) (\<lambda>oy.
     bindm (CreateICmpEQ count (ConstI64 period)) (\<lambda>was_full.
     bindm (load_sum sum_x_pp) (\<lambda>sum_x.
     bindm (load_sum sum_y_pp) (\<lambda>sum_y.
     bindm (load_sum sum_xy_pp) (\<lambda>sum_xy.
     bindm (load_sum sum_xx_pp) (\<lambda>sum_xx.
     bindm (load_sum sum_yy_pp) (\<lambda>sum_yy.
     bindm (CreateFMul ox ox) (\<lambda>ox2.
     bindm (CreateFMul oy oy) (\<lambda>oy2.
     bindm (CreateFMul ox oy) (\<lambda>oxoy.
     bindm (CreateFMul x x) (\<lambda>x2.
     bindm (CreateFMul y y) (\<lambda>y2.
     bindm (CreateFMul x y) (\<lambda>xy.
     bindm (maybe_sub was_full sum_x ox) (\<lambda>adj_x.
     bindm (maybe_sub was_full sum_y oy) (\<lambda>adj_y.
     bindm (maybe_sub was_full sum_xy oxoy) (\<lambda>adj_xy.
     bindm (maybe_sub was_full sum_xx ox2) (\<lambda>adj_xx.
     bindm (maybe_sub was_full sum_yy oy2) (\<lambda>adj_yy.
     bindm (CreateFAdd adj_x x) (\<lambda>new_x.
     bindm (CreateFAdd adj_y y) (\<lambda>new_y.
     bindm (CreateFAdd adj_xy xy) (\<lambda>new_xy.
     bindm (CreateFAdd adj_xx x2) (\<lambda>new_xx.
     bindm (CreateFAdd adj_yy y2) (\<lambda>new_yy.
     bindm (CreateAdd count (ConstI64 1)) (\<lambda>count_plus.
     bindm (CreateSelect was_full count count_plus) (\<lambda>count_new.
     bindm (CreateStore x x_slot) (\<lambda>_.
     bindm (CreateStore y y_slot) (\<lambda>_.
     bindm (next_head head period) (\<lambda>head_new.
     bindm (CreateStore head_new head_pp) (\<lambda>_.
     bindm (CreateStore count_new count_pp) (\<lambda>_.
     bindm (store_sum new_x sum_x_pp) (\<lambda>_.
     bindm (store_sum new_y sum_y_pp) (\<lambda>_.
     bindm (store_sum new_xy sum_xy_pp) (\<lambda>_.
     bindm (store_sum new_xx sum_xx_pp) (\<lambda>_.
     bindm (store_sum new_yy sum_yy_pp) (\<lambda>_.
     ret (count_new, new_x, new_y, new_xy, new_xx, new_yy)))))))))))))))))))))))))))))))))))))))))))))))))))))"

definition pair_value ::
    "'f machine \<Rightarrow> RollingPairKind \<Rightarrow> int \<Rightarrow>
       'f operand \<times> 'f operand \<times> 'f operand \<times> 'f operand \<times> 'f operand \<times> 'f operand \<Rightarrow> ('f, 'f operand) emitter" where
  "pair_value M kind period = (\<lambda>(count_new, sum_x, sum_y, sum_xy, sum_xx, sum_yy).
     bindm (CreateFMul sum_x sum_y) (\<lambda>cov_prod.
     bindm (CreateFDiv cov_prod (ConstFP (dlit M (of_int period)))) (\<lambda>cov_n.
     bindm (CreateFSub sum_xy cov_n) (\<lambda>cov.
     bindm (CreateFMul sum_x sum_x) (\<lambda>var_x_prod.
     bindm (CreateFDiv var_x_prod (ConstFP (dlit M (of_int period)))) (\<lambda>var_x_n.
     bindm (CreateFSub sum_xx var_x_n) (\<lambda>var_x.
     bindm (CreateICmpEQ count_new (ConstI64 period)) (\<lambda>is_full.
     bindm (CreateFCmpOGT var_x (ConstFP (dlit M 0))) (\<lambda>var_x_pos.
     if kind = Corr
     then
       bindm (CreateFMul sum_y sum_y) (\<lambda>var_y_prod.
       bindm (CreateFDiv var_y_prod (ConstFP (dlit M (of_int period)))) (\<lambda>var_y_n.
       bindm (CreateFSub sum_yy var_y_n) (\<lambda>var_y.
       bindm (CreateFCmpOGT var_y (ConstFP (dlit M 0))) (\<lambda>var_y_pos.
       bindm (CreateAnd var_x_pos var_y_pos) (\<lambda>vars_pos.
       bindm (CreateFMul var_x var_y) (\<lambda>var_prod.
       bindm (CallIntrinsic ''sqrt'' var_prod) (\<lambda>denom.
       bindm (CreateFCmpOGT denom (ConstFP (dlit M 0))) (\<lambda>denom_pos.
       bindm (CreateAnd is_full vars_pos) (\<lambda>full_pos.
       bindm (CreateAnd full_pos denom_pos) (\<lambda>can_corr.
       bindm (CreateFDiv cov denom) (\<lambda>r_raw.
       bindm (CreateFCmpOGT r_raw (ConstFP (dlit M 1))) (\<lambda>too_high.
       bindm (CreateFCmpOLT r_raw (ConstFP (dlit M (- 1)))) (\<lambda>too_low.
       bindm (CreateSelect too_low (ConstFP (dlit M (- 1))) r_raw) (\<lambda>r_lo.
       bindm (CreateSelect too_high (ConstFP (dlit M 1)) r_lo) (\<lambda>r_clamped.
       CreateSelect can_corr r_clamped (NaNConst M))))))))))))))))
     else
       bindm (CreateAnd is_full var_x_pos) (\<lambda>can_beta.
       bindm (CreateFDiv cov var_x) (\<lambda>beta.
       CreateSelect can_beta beta (NaNConst M))))))))))))"

definition EmitLoweredRollingPair ::
    "'f machine \<Rightarrow> 'f operand \<Rightarrow> 'f operand \<Rightarrow> int \<Rightarrow> int \<Rightarrow> RollingPairKind \<Rightarrow> 'f operand \<Rightarrow> ('f, 'f operand) emitter" where
  "EmitLoweredRollingPair M x y node_id period kind base =
     bindm (pair_push base x y node_id period) (pair_value M kind period)"

end
