(* ===== verification/Jit_Emit.thy ===== *)
theory Jit_Emit
  imports Jit_Lowered
begin

text \<open>
  \<^verbatim>\<open>EmitExpr\<close> of \<^verbatim>\<open>src/jit_compiler.cpp\<close>: the code of an expression, in scalar and
  in vector mode, inline or through the runtime, case by case; and the code of a program
  (\<^verbatim>\<open>Compile\<close>, \<^verbatim>\<open>CompileProgramImpl\<close>,
  \<^verbatim>\<open>CompileProgramVectorizedImpl\<close>). The emitter of the children of a node is a parameter of
  the cases; it takes the position of the child.
\<close>

section \<open>Leaves and operators\<close>

definition emit_param_call :: "int \<Rightarrow> ('f, 'f operand) emitter" where
  "emit_param_call pid = bindm (reading ctx_arg) (\<lambda>ctx. CreateCall ''jit_rt_param'' [ctx, ConstI64 pid])"

definition emit_param :: "string \<Rightarrow> int \<Rightarrow> ('f, 'f operand) emitter" where
  "emit_param name pid =
     (if pid < 0 then throw (RuntimeError (''Unresolved parameter in JIT expression: '' @ name))
      else bindm (reading (\<lambda>cg. lane_count cg > 1 \<and> \<not> per_lane_scalar_emit cg)) (\<lambda>vec.
        if vec
        then EmitScalarizedFanOut (\<lambda>lane lane_ctx lane_market.
               LaneEmitScope lane_ctx lane_market (emit_param_call pid))
        else emit_param_call pid))"

primrec emit_binary :: "'f machine \<Rightarrow> 'f operand \<Rightarrow> 'f operand \<Rightarrow> BinaryOpKind \<Rightarrow> ('f, 'f operand) emitter" where
  "emit_binary M l r Add =
     CreateFAdd l r"
| "emit_binary M l r Sub =
     CreateFSub l r"
| "emit_binary M l r Mul =
     CreateFMul l r"
| "emit_binary M l r Div =
     CreateFDiv l r"
| "emit_binary M l r Gt =
     bindm (CreateFCmpOGT l r) (\<lambda>c.
     CreateUIToFP c)"
| "emit_binary M l r Lt =
     bindm (CreateFCmpOLT l r) (\<lambda>c.
     CreateUIToFP c)"
| "emit_binary M l r Gte =
     bindm (CreateFCmpOGE l r) (\<lambda>c.
     CreateUIToFP c)"
| "emit_binary M l r Lte =
     bindm (CreateFCmpOLE l r) (\<lambda>c.
     CreateUIToFP c)"
| "emit_binary M l r Eq =
     bindm (CreateFSub l r) (\<lambda>d.
     bindm (CallIntrinsic ''fabs'' d) (\<lambda>ad.
     bindm (SplatConst (tol M)) (\<lambda>eps.
     bindm (CreateFCmpOLT ad eps) (\<lambda>c.
     CreateUIToFP c))))"
| "emit_binary M l r NotEq =
     bindm (CreateFSub l r) (\<lambda>d.
     bindm (CallIntrinsic ''fabs'' d) (\<lambda>ad.
     bindm (SplatConst (tol M)) (\<lambda>eps.
     bindm (CreateFCmpOGE ad eps) (\<lambda>c.
     CreateUIToFP c))))"
| "emit_binary M l r And =
     bindm (SplatConst (dlit M 0)) (\<lambda>zero.
     bindm (CreateFCmpUNE l zero) (\<lambda>lnz.
     bindm (CreateFCmpUNE r zero) (\<lambda>rnz.
     bindm (CreateAnd lnz rnz) (\<lambda>both.
     CreateUIToFP both))))"
| "emit_binary M l r Or =
     bindm (SplatConst (dlit M 0)) (\<lambda>zero.
     bindm (CreateFCmpUNE l zero) (\<lambda>lnz.
     bindm (CreateFCmpUNE r zero) (\<lambda>rnz.
     bindm (CreateOr lnz rnz) (\<lambda>both.
     CreateUIToFP both))))"

definition emit_select :: "'f machine \<Rightarrow> ('f, 'f operand) emitter \<Rightarrow> ('f, 'f operand) emitter \<Rightarrow> ('f, 'f operand) emitter \<Rightarrow> ('f, 'f operand) emitter" where
  "emit_select M cond then_branch else_branch =
     bindm cond (\<lambda>cond_v.
     bindm (SplatConst (dlit M 0)) (\<lambda>zero.
     bindm (CreateFCmpUNE cond_v zero) (\<lambda>cond_mask.
     bindm then_branch (\<lambda>then_v.
     bindm else_branch (\<lambda>else_v.
     CreateSelect cond_mask then_v else_v)))))"

definition emit_branches :: "'f machine \<Rightarrow> ('f, 'f operand) emitter \<Rightarrow> ('f, 'f operand) emitter \<Rightarrow> ('f, 'f operand) emitter \<Rightarrow> ('f, 'f operand) emitter" where
  "emit_branches M cond then_branch else_branch =
     bindm CreateBlock (\<lambda>then_bb.
     bindm CreateBlock (\<lambda>else_bb.
     bindm CreateBlock (\<lambda>merge_bb.
     bindm cond (\<lambda>cond_v.
     bindm (CreateFCmpUNE cond_v (ConstFP (dlit M 0))) (\<lambda>cond_b.
     bindm (CreateCondBr cond_b then_bb else_bb) (\<lambda>_.
     bindm (SetInsertPoint then_bb) (\<lambda>_.
     bindm then_branch (\<lambda>then_v.
     bindm (CreateBr merge_bb) (\<lambda>_.
     bindm GetInsertBlock (\<lambda>then_end.
     bindm (SetInsertPoint else_bb) (\<lambda>_.
     bindm else_branch (\<lambda>else_v.
     bindm (CreateBr merge_bb) (\<lambda>_.
     bindm GetInsertBlock (\<lambda>else_end.
     bindm (SetInsertPoint merge_bb) (\<lambda>_.
     CreatePHI [(then_v, then_end), (else_v, else_end)])))))))))))))))"

definition emit_conditional :: "'f machine \<Rightarrow> ('f, 'f operand) emitter \<Rightarrow> ('f, 'f operand) emitter \<Rightarrow> ('f, 'f operand) emitter \<Rightarrow> ('f, 'f operand) emitter" where
  "emit_conditional M cond then_branch else_branch =
     bindm (reading IsVectorized) (\<lambda>vec.
       if vec then emit_select M cond then_branch else_branch
       else emit_branches M cond then_branch else_branch)"

section \<open>Calls\<close>

text \<open>The slot of the instrument a call names.\<close>

definition ticker_of :: "'f expr list \<Rightarrow> string option" where
  "ticker_of as = (case as of IdentifierExpr l t # _ \<Rightarrow> Some t | _ \<Rightarrow> None)"

definition symbol_slot :: "string \<Rightarrow> int \<Rightarrow> ('f, nat) emitter" where
  "symbol_slot ticker symbol_id cg =
     (if symbol_id \<ge> 0 then (Inr (nat symbol_id), cg) else (LookupId (symbols cg) ticker, cg))"

definition cache_stateful :: "path \<Rightarrow> int \<Rightarrow> 'f operand \<Rightarrow> ('f, 'f operand) emitter" where
  "cache_stateful p node_id v cg =
     (let i = node_id_at cg p node_id
      in (Inr v, if i > 0 then cg\<lparr>stateful_emit_cache := (stateful_emit_cache cg)(i \<mapsto> v)\<rparr> else cg))"

definition cached_stateful :: "path \<Rightarrow> int \<Rightarrow> 'f codegen \<Rightarrow> 'f operand option" where
  "cached_stateful p node_id cg =
     (let i = node_id_at cg p node_id in if i > 0 then stateful_emit_cache cg i else None)"

definition emit_field :: "'f machine \<Rightarrow> string \<Rightarrow> nat \<Rightarrow> ('f, 'f operand) emitter" where
  "emit_field M name sym_id =
     (if name = ''bid'' then EmitMarketFieldLoad sym_id 0
      else if name = ''ask'' then EmitMarketFieldLoad sym_id 1
      else if name = ''mid'' then
        bindm (EmitMarketFieldLoad sym_id 0) (\<lambda>bid.
        bindm (EmitMarketFieldLoad sym_id 1) (\<lambda>ask.
        bindm (CreateFAdd bid ask) (\<lambda>sum.
        bindm (SplatConst (dlit M (1 / 2))) (\<lambda>half.
        CreateFMul sum half))))
      else
        bindm (EmitMarketFieldLoad sym_id 0) (\<lambda>bid.
        bindm (EmitMarketFieldLoad sym_id 1) (\<lambda>ask.
        CreateFSub ask bid)))"

definition emit_market :: "'f machine \<Rightarrow> string \<Rightarrow> 'f expr list \<Rightarrow> int \<Rightarrow> ('f, 'f operand) emitter" where
  "emit_market M name as symbol_id =
     (if length as \<noteq> 1 then throw (RuntimeError (name @ ''() expects exactly one argument''))
      else case ticker_of as of
          None \<Rightarrow> throw (RuntimeError (name @ ''() argument must be ticker identifier''))
        | Some t \<Rightarrow> bindm (symbol_slot t symbol_id) (emit_field M name))"

text \<open>The literal period of a windowed call.\<close>

definition literal_period :: "'f machine \<Rightarrow> string \<Rightarrow> 'f expr \<Rightarrow> int result" where
  "literal_period M name e =
     (case e of
        NumberLiteral l v \<Rightarrow>
          rbind (to_int32 M v) (\<lambda>period.
            if period \<le> 0 \<or> flt M (tol M) (off_integer M v period)
            then Inl (RuntimeError (name @ ''() period must be positive integer''))
            else Inr period)
      | _ \<Rightarrow> Inl (RuntimeError (name @ ''() period must be numeric literal'')))"

primrec extract_lanes :: "nat \<Rightarrow> 'f operand list \<Rightarrow> ('f, 'f operand list) emitter" where
  "extract_lanes lane [] = ret []"
| "extract_lanes lane (x # xs) =
     bindm (ExtractLane x lane) (\<lambda>y. bindm (extract_lanes lane xs) (\<lambda>ys. ret (y # ys)))"

text \<open>A stateful call in the two modes: inline when the flag is set, otherwise through the runtime; in
  vector mode once per lane. The operands come as functions of the lane.\<close>

definition emit_stateful ::
    "32 word \<Rightarrow> ('f operand list \<Rightarrow> ('f, 'f operand) emitter) \<Rightarrow> ('f operand \<Rightarrow> 'f operand \<Rightarrow> 'f operand list \<Rightarrow> ('f, 'f operand) emitter) \<Rightarrow>
       'f operand list \<Rightarrow> ('f, 'f operand) emitter" where
  "emit_stateful flag inline helper xs =
     bindm (reading (\<lambda>cg. HasFlag (lowering cg) flag)) (\<lambda>lower.
     bindm (reading IsVectorized) (\<lambda>vec.
       if vec
       then EmitScalarizedFanOut (\<lambda>lane lane_ctx lane_market.
              if lower
              then LaneEmitScope lane_ctx lane_market (bindm (extract_lanes lane xs) inline)
              else bindm (extract_lanes lane xs) (helper lane_ctx lane_market))
       else if lower then inline xs
       else bindm (reading ctx_arg) (\<lambda>ctx. bindm (reading market_arg) (\<lambda>market. helper ctx market xs))))"

definition emit_vwap :: "'f machine \<Rightarrow> path \<Rightarrow> 'f expr list \<Rightarrow> int \<Rightarrow> int \<Rightarrow> ('f, 'f operand) emitter" where
  "emit_vwap M p as node_id symbol_id =
     (if length as \<noteq> 2 then throw (RuntimeError ''vwap() expects two args'')
      else case ticker_of as of
          None \<Rightarrow> throw (RuntimeError ''vwap() first arg must be ticker identifier'')
        | Some t \<Rightarrow>
            bindm (lift_result (literal_period M ''vwap'' (as ! 1))) (\<lambda>period.
            bindm (symbol_slot t symbol_id) (\<lambda>sym_id.
            bindm (GetNodeId p node_id) (\<lambda>i.
            bindm (emit_stateful kVwap (\<lambda>_. EmitLoweredVwap M sym_id i period)
                (\<lambda>ctx market _. CreateCall ''jit_rt_vwap''
                   [market, ctx, ConstI64 i, ConstI64 (int sym_id), ConstI64 period]) [])
              (cache_stateful p node_id)))))"

definition emit_unary_fn :: "string \<Rightarrow> string \<Rightarrow> (nat \<Rightarrow> 'f expr \<Rightarrow> ('f, 'f operand) emitter) \<Rightarrow> 'f expr list \<Rightarrow> ('f, 'f operand) emitter" where
  "emit_unary_fn name fn ec as =
     (if length as \<noteq> 1 then throw (RuntimeError (name @ ''() expects one argument''))
      else bindm (ec 0 (as ! 0)) (CallIntrinsic fn))"

text \<open>The coefficient of ema_alpha is never lowered.\<close>

definition emit_ema_alpha :: "(nat \<Rightarrow> 'f expr \<Rightarrow> ('f, 'f operand) emitter) \<Rightarrow> path \<Rightarrow> 'f expr list \<Rightarrow> int \<Rightarrow> ('f, 'f operand) emitter" where
  "emit_ema_alpha ec p as node_id =
     (if length as \<noteq> 2 then throw (RuntimeError ''ema_alpha() expects two args'')
      else
       bindm (ec 0 (as ! 0)) (\<lambda>x.
       bindm (ec 1 (as ! 1)) (\<lambda>alpha.
       bindm (GetNodeId p node_id) (\<lambda>i.
       bindm (emit_stateful kNone (\<lambda>_. throw (RuntimeError []))
           (\<lambda>ctx _ vs. CreateCall ''jit_rt_ema_alpha'' [ctx, ConstI64 i, vs ! 0, vs ! 1, ConstI64 0]) [x, alpha])
         (cache_stateful p node_id)))))"

definition lowered_flag_for :: "string \<Rightarrow> 32 word" where
  "lowered_flag_for name =
     (if name = ''sma'' then kSma else if name = ''ema'' then kEma else if name = ''lag'' then kLag
      else if name = ''rolling_std'' then kRollingStd else if name = ''zscore'' then kZscore
      else if name = ''rolling_min'' then kRollingMin else if name = ''rolling_max'' then kRollingMax
      else kNone)"

definition EmitLoweredWindow :: "'f machine \<Rightarrow> path \<Rightarrow> string \<Rightarrow> int \<Rightarrow> int \<Rightarrow> 'f operand \<Rightarrow> ('f, 'f operand) emitter" where
  "EmitLoweredWindow M p name node_id period x =
     (if name = ''ema'' then EmitLoweredEma M p x node_id period
      else if name = ''sma'' then EmitLoweredSma M p x node_id period
      else if name = ''lag'' then EmitLoweredLag M p x node_id period
      else if name = ''rolling_std'' then EmitLoweredRollingStd M p x node_id period
      else if name = ''zscore'' then EmitLoweredZscore M p x node_id period
      else if name = ''rolling_min'' then EmitLoweredRollingMin M x node_id period
      else EmitLoweredRollingMax M x node_id period)"

text \<open>The call of the runtime; an ema calls the helper of ema_alpha with the coefficient of its
  period.\<close>

definition CallWindow :: "'f machine \<Rightarrow> string \<Rightarrow> int \<Rightarrow> int \<Rightarrow> 'f operand \<Rightarrow> 'f operand \<Rightarrow> ('f, 'f operand) emitter" where
  "CallWindow M name node_id period ctx x =
     (if name = ''ema''
      then CreateCall ''jit_rt_ema_alpha''
             [ctx, ConstI64 node_id, x, ConstFP (ema_period_alpha M period), ConstI64 period]
      else CreateCall (''jit_rt_'' @ name) [ctx, ConstI64 node_id, x, ConstI64 period])"

section \<open>The mean over four lanes\<close>

text \<open>Without the inline code, and with the vector unit, the mean of a full window is summed by the
  compiled code over the buffer the runtime hands out.\<close>

definition CreateEntryAlloca :: "('f, 'f operand) emitter" where
  "CreateEntryAlloca cg = (Inr (StackSlot (entry_slots cg)), cg\<lparr>entry_slots := entry_slots cg + 1\<rparr>)"

primrec add_chunks :: "'f operand \<Rightarrow> nat list \<Rightarrow> 'f operand \<Rightarrow> ('f, 'f operand) emitter" where
  "add_chunks buf [] acc = ret acc"
| "add_chunks buf (c # cs) acc =
     bindm (CreateGEP buf (ConstI64 (int (c * 4)))) (\<lambda>chunk_ptr.
     bindm (CreateLoad Vec4Ty chunk_ptr) (\<lambda>v.
     bindm (CreateFAdd acc v) (\<lambda>acc'.
     add_chunks buf cs acc')))"

primrec add_lanes :: "'f operand \<Rightarrow> nat list \<Rightarrow> 'f operand \<Rightarrow> ('f, 'f operand) emitter" where
  "add_lanes vec [] acc = ret acc"
| "add_lanes vec (k # ks) acc =
     bindm (emit_instr (Op (ExtractOp k) [vec])) (\<lambda>lane_v.
     bindm (CreateFAdd acc lane_v) (\<lambda>acc'.
     add_lanes vec ks acc'))"

primrec add_tail :: "'f operand \<Rightarrow> nat list \<Rightarrow> 'f operand \<Rightarrow> ('f, 'f operand) emitter" where
  "add_tail buf [] acc = ret acc"
| "add_tail buf (t # ts) acc =
     bindm (CreateGEP buf (ConstI64 (int t))) (\<lambda>p.
     bindm (CreateLoad F64 p) (\<lambda>x_tail.
     bindm (CreateFAdd acc x_tail) (\<lambda>acc'.
     add_tail buf ts acc')))"

definition emit_sma_simd :: "'f machine \<Rightarrow> int \<Rightarrow> int \<Rightarrow> 'f operand \<Rightarrow> ('f, 'f operand) emitter" where
  "emit_sma_simd M node_id period x =
     bindm CreateBlock (\<lambda>simd_bb.
     bindm CreateBlock (\<lambda>nan_bb.
     bindm CreateBlock (\<lambda>merge_bb.
     bindm CreateEntryAlloca (\<lambda>buffer_ptr_addr.
     bindm CreateEntryAlloca (\<lambda>size_addr.
     bindm (reading ctx_arg) (\<lambda>ctx.
     bindm (CreateCall ''jit_rt_sma_prepare'' [ctx, ConstI64 node_id, x, ConstI64 period, buffer_ptr_addr, size_addr]) (\<lambda>is_full.
     bindm (CreateCondBr is_full simd_bb nan_bb) (\<lambda>_.
     bindm (SetInsertPoint nan_bb) (\<lambda>_.
     bindm (CreateBr merge_bb) (\<lambda>_.
     bindm (SetInsertPoint simd_bb) (\<lambda>_.
     bindm (CreateLoad PtrTy buffer_ptr_addr) (\<lambda>buf.
     bindm (add_chunks buf [0..<nat period div 4] (ConstSplat 4 (dlit M 0))) (\<lambda>sum_vec.
     bindm (add_lanes sum_vec [0, 1, 2, 3] (ConstFP (dlit M 0))) (\<lambda>lanes.
     bindm (add_tail buf [nat period div 4 * 4..<nat period] lanes) (\<lambda>total_sum.
     bindm (CreateFDiv total_sum (ConstFP (dlit M (of_int period)))) (\<lambda>mean.
     bindm (CreateBr merge_bb) (\<lambda>_.
     bindm (SetInsertPoint merge_bb) (\<lambda>_.
     CreatePHI [(mean, simd_bb), (NaNConst M, nan_bb)]))))))))))))))))))"

section \<open>Windowed operators\<close>

definition emit_window_op :: "'f machine \<Rightarrow> path \<Rightarrow> string \<Rightarrow> int \<Rightarrow> int \<Rightarrow> 'f operand \<Rightarrow> ('f, 'f operand) emitter" where
  "emit_window_op M p name i period x =
     bindm (reading (\<lambda>cg. name = ''sma'' \<and> \<not> IsVectorized cg \<and> \<not> HasFlag (lowering cg) kSma \<and>
         use_avx2 cg \<and> \<not> period < 4)) (\<lambda>simd.
       if simd then emit_sma_simd M i period x
       else emit_stateful (lowered_flag_for name) (\<lambda>vs. EmitLoweredWindow M p name i period (vs ! 0))
              (\<lambda>ctx _ vs. CallWindow M name i period ctx (vs ! 0)) [x])"

definition emit_window ::
    "'f machine \<Rightarrow> (nat \<Rightarrow> 'f expr \<Rightarrow> ('f, 'f operand) emitter) \<Rightarrow> path \<Rightarrow> string \<Rightarrow> 'f expr list \<Rightarrow> int \<Rightarrow> ('f, 'f operand) emitter" where
  "emit_window M ec p name as node_id =
     (if length as \<noteq> 2 then throw (RuntimeError (name @ ''() expects two args''))
      else bindm (lift_result (literal_period M name (as ! 1))) (\<lambda>period.
        if (name = ''rolling_std'' \<or> name = ''zscore'') \<and> period < 2
        then throw (RuntimeError (name @ ''() requires period >= 2 (sample standard deviation of one sample is mathematically undefined)''))
        else
       bindm (ec 0 (as ! 0)) (\<lambda>x.
       bindm (GetNodeId p node_id) (\<lambda>i.
       bindm (emit_window_op M p name i period x) (cache_stateful p node_id)))))"

definition emit_cross ::
    "'f machine \<Rightarrow> (nat \<Rightarrow> 'f expr \<Rightarrow> ('f, 'f operand) emitter) \<Rightarrow> path \<Rightarrow> string \<Rightarrow> 'f expr list \<Rightarrow> int \<Rightarrow> ('f, 'f operand) emitter" where
  "emit_cross M ec p name as node_id =
     (if length as \<noteq> 2 then throw (RuntimeError (name @ ''() expects two args''))
      else
       bindm (ec 0 (as ! 0)) (\<lambda>a.
       bindm (ec 1 (as ! 1)) (\<lambda>b.
       bindm (GetNodeId p node_id) (\<lambda>i.
       bindm (emit_stateful kCross
           (\<lambda>vs. EmitLoweredCross M (vs ! 0) (vs ! 1) i (if name = ''cross_above'' then Above else Below))
           (\<lambda>ctx _ vs. CreateCall (''jit_rt_'' @ name) [ctx, ConstI64 i, vs ! 0, vs ! 1]) [a, b])
         (cache_stateful p node_id)))))"

definition emit_pair ::
    "'f machine \<Rightarrow> (nat \<Rightarrow> 'f expr \<Rightarrow> ('f, 'f operand) emitter) \<Rightarrow> path \<Rightarrow> string \<Rightarrow> 'f expr list \<Rightarrow> int \<Rightarrow> ('f, 'f operand) emitter" where
  "emit_pair M ec p name as node_id =
     (if length as \<noteq> 3
      then throw (RuntimeError (name @ ''() expects three args: '' @ name @ ''(x, y, period)''))
      else bindm (lift_result (literal_period M name (as ! 2))) (\<lambda>period.
       bindm (ec 0 (as ! 0)) (\<lambda>x.
       bindm (ec 1 (as ! 1)) (\<lambda>y.
       bindm (GetNodeId p node_id) (\<lambda>i.
       bindm (emit_stateful (if name = ''rolling_corr'' then kRollingCorr else kRollingBeta)
           (\<lambda>vs. bindm (if name = ''rolling_corr'' then GetRollingCorrBase else GetRollingBetaBase)
              (EmitLoweredRollingPair M (vs ! 0) (vs ! 1) i period (if name = ''rolling_corr'' then Corr else Beta)))
           (\<lambda>ctx _ vs. CreateCall (''jit_rt_'' @ name) [ctx, ConstI64 i, vs ! 0, vs ! 1, ConstI64 period]) [x, y])
         (cache_stateful p node_id))))))"

text \<open>The inline filter needs literal variances the filter is defined for.\<close>

definition lowerable_kalman :: "'f machine \<Rightarrow> 'f expr \<Rightarrow> 'f expr \<Rightarrow> ('f \<times> 'f) option" where
  "lowerable_kalman M q r =
     (case (q, r) of
        (NumberLiteral l1 a, NumberLiteral l2 b) \<Rightarrow>
          if fle M (dlit M 0) a \<and> flt M (dlit M 0) b then Some (a, b) else None
      | _ \<Rightarrow> None)"

definition emit_kalman ::
    "'f machine \<Rightarrow> (nat \<Rightarrow> 'f expr \<Rightarrow> ('f, 'f operand) emitter) \<Rightarrow> path \<Rightarrow> 'f expr list \<Rightarrow> int \<Rightarrow> ('f, 'f operand) emitter" where
  "emit_kalman M ec p as node_id =
     (if length as \<noteq> 3 then throw (RuntimeError ''kalman1d() expects three args: kalman1d(x, q, r)'')
      else
       bindm (ec 0 (as ! 0)) (\<lambda>x.
       bindm (ec 1 (as ! 1)) (\<lambda>q_v.
       bindm (ec 2 (as ! 2)) (\<lambda>r_v.
       bindm (GetNodeId p node_id) (\<lambda>i.
       bindm (case lowerable_kalman M (as ! 1) (as ! 2) of
            Some (q, r) \<Rightarrow>
              emit_stateful kKalman1d (\<lambda>vs. EmitLoweredKalman1d M (vs ! 0) i q r)
                (\<lambda>ctx _ vs. CreateCall ''jit_rt_kalman1d'' [ctx, ConstI64 i, vs ! 0, vs ! 1, vs ! 2]) [x, q_v, r_v]
          | None \<Rightarrow>
              emit_stateful kNone (\<lambda>_. throw (RuntimeError []))
                (\<lambda>ctx _ vs. CreateCall ''jit_rt_kalman1d'' [ctx, ConstI64 i, vs ! 0, vs ! 1, vs ! 2]) [x, q_v, r_v])
         (cache_stateful p node_id))))))"

section \<open>Expressions\<close>

definition emit_function ::
    "'f machine \<Rightarrow> (nat \<Rightarrow> 'f expr \<Rightarrow> ('f, 'f operand) emitter) \<Rightarrow> path \<Rightarrow> string \<Rightarrow> 'f expr list \<Rightarrow> int \<Rightarrow> int \<Rightarrow> ('f, 'f operand) emitter" where
  "emit_function M ec p name as node_id symbol_id =
     (if name = ''mid'' \<or> name = ''bid'' \<or> name = ''ask'' \<or> name = ''spread'' then emit_market M name as symbol_id
      else if name = ''vwap'' then emit_vwap M p as node_id symbol_id
      else if name = ''abs'' then emit_unary_fn name ''fabs'' ec as
      else if name = ''sqrt'' then emit_unary_fn name ''sqrt'' ec as
      else if name = ''log'' then emit_unary_fn name ''log'' ec as
      else if name = ''ema_alpha'' then emit_ema_alpha ec p as node_id
      else if name = ''ema'' \<or> name = ''sma'' \<or> name = ''rolling_std'' \<or> name = ''zscore'' \<or> name = ''lag'' \<or>
          name = ''rolling_min'' \<or> name = ''rolling_max''
        then emit_window M ec p name as node_id
      else if name = ''cross_above'' \<or> name = ''cross_below'' then emit_cross M ec p name as node_id
      else if name = ''rolling_corr'' \<or> name = ''rolling_beta'' then emit_pair M ec p name as node_id
      else if name = ''kalman1d'' then emit_kalman M ec p as node_id
      else throw (RuntimeError (''Unsupported function in JIT: '' @ name)))"

definition emit_call ::
    "'f machine \<Rightarrow> (nat \<Rightarrow> 'f expr \<Rightarrow> ('f, 'f operand) emitter) \<Rightarrow> path \<Rightarrow> string \<Rightarrow> 'f expr list \<Rightarrow> int \<Rightarrow> int \<Rightarrow> ('f, 'f operand) emitter" where
  "emit_call M ec p name as node_id symbol_id cg =
     (case cached_stateful p node_id cg of
        Some v \<Rightarrow> (Inr v, cg)
      | None \<Rightarrow> emit_function M ec p name as node_id symbol_id cg)"

definition emit_identifier :: "string \<Rightarrow> ('f, 'f operand) emitter" where
  "emit_identifier name cg =
     (case signal_values cg name of
        Some v \<Rightarrow> (Inr v, cg)
      | None \<Rightarrow> (Inl (RuntimeError (''Unresolved identifier in JIT expression: '' @ name)), cg))"

lemma emit_function_cong:
  assumes "\<And>k a. a \<in> set as \<Longrightarrow> ec k a = ec' k a"
  shows "emit_function M ec p name as i sy = emit_function M ec' p name as i sy"
proof -
  have e: "k < length as \<Longrightarrow> ec j (as ! k) = ec' j (as ! k)" for k j by (simp add: assms)
  show ?thesis
    by (simp add: emit_function_def emit_unary_fn_def emit_ema_alpha_def emit_window_def emit_cross_def
        emit_pair_def emit_kalman_def e cong: if_cong)
qed

lemma emit_call_cong [fundef_cong]:
  assumes "as = as'" and "\<And>k a. a \<in> set as' \<Longrightarrow> ec k a = ec' k a"
  shows "emit_call M ec p n as i sy = emit_call M ec' p n as' i sy"
proof -
  have "emit_function M ec p n as' i sy = emit_function M ec' p n as' i sy"
    using assms(2) by (rule emit_function_cong)
  then show ?thesis by (simp only: emit_call_def fun_eq_iff assms(1) simp_thms)
qed

fun EmitExpr :: "'f machine \<Rightarrow> path \<Rightarrow> 'f expr \<Rightarrow> ('f, 'f operand) emitter" where
  "EmitExpr M p (NumberLiteral l v) = SplatConst v"
| "EmitExpr M p (ParameterExpr l n pid) = emit_param n pid"
| "EmitExpr M p (UnaryOp l k e) =
     bindm (EmitExpr M (0 # p) e) (\<lambda>v. if k = Plus then ret v else CreateFNeg v)"
| "EmitExpr M p (BinaryOp l k a b) =
     bindm (EmitExpr M (0 # p) a) (\<lambda>x. bindm (EmitExpr M (1 # p) b) (\<lambda>y. emit_binary M x y k))"
| "EmitExpr M p (Conditional l c t e) =
     emit_conditional M (EmitExpr M (0 # p) c) (EmitExpr M (1 # p) t) (EmitExpr M (2 # p) e)"
| "EmitExpr M p (FunctionCall l n as i sy) = emit_call M (\<lambda>k a. EmitExpr M (k # p) a) p n as i sy"
| "EmitExpr M p (IdentifierExpr l n) = emit_identifier n"

end
