(* ===== verification/Jit_Program.thy ===== *)
theory Jit_Program
  imports Jit_Emit Signal_Graph
begin

text \<open>
  The code of a signal, of a program of signals and of its vectorized form
  (\<^verbatim>\<open>Compile\<close>, \<^verbatim>\<open>CompileProgramImpl\<close> and
  \<^verbatim>\<open>CompileProgramVectorizedImpl\<close> of \<^verbatim>\<open>src/jit_compiler.cpp\<close>), up to the
  verification and optimization of the module, and the call of a compiled function. The order in
  which an \<^verbatim>\<open>unordered_set\<close> is iterated is a parameter \<open>ord\<close>.
\<close>

section \<open>Calls that are warm after enough ticks\<close>

lemma size_enumerate [termination_simp]:
  "(k, a) \<in> set (enumerate n as) \<Longrightarrow> size a < Suc (size_list size as)"
  by (auto simp: in_set_enumerate_eq intro!: size_list_estimation' le_imp_less_Suc)

fun warm_safe :: "path \<Rightarrow> nat \<Rightarrow> 'f expr \<Rightarrow> path list" where
  "warm_safe p depth (UnaryOp l k e) = warm_safe (0 # p) depth e"
| "warm_safe p depth (BinaryOp l k a b) = warm_safe (0 # p) depth a @ warm_safe (1 # p) depth b"
| "warm_safe p depth (Conditional l c t e) =
     warm_safe (0 # p) depth c @ warm_safe (1 # p) (depth + 1) t @ warm_safe (2 # p) (depth + 1) e"
| "warm_safe p depth (FunctionCall l n as i sy) =
     (if (n = ''sma'' \<or> n = ''ema'' \<or> n = ''lag'') \<and> depth = 0 then [p] else []) @
     concat (map (\<lambda>(k, a). warm_safe (k # p) depth a) (enumerate 0 as))"
| "warm_safe p depth _ = []"

definition CollectWarmSafeStatefulCalls :: "'f SignalDef list \<Rightarrow> path list" where
  "CollectWarmSafeStatefulCalls sgs = concat (map (\<lambda>(i, sg). warm_safe [i] 0 (body sg)) (enumerate 0 sgs))"

section \<open>The start of a function\<close>

text \<open>A code generator at the entry block, behind the call that finds the context.\<close>

definition codegen0 :: "SymbolTable \<Rightarrow> 32 word \<Rightarrow> bool \<Rightarrow> 'f codegen" where
  "codegen0 sy flags avx2 = \<lparr>symbols = sy, market_arg = Argument ''market'', arena_arg = Argument ''arena'',
     symbol_arg = Argument ''symbol_id'', ctx_arg = CtxVal, gradient_param_arg = None, node_ids = Map.empty,
     signal_values = Map.empty, signal_value_gradients = Map.empty, program_market_field_cache = Map.empty,
     market_field_cache = Map.empty, use_program_market_cache = True, next_node_id = 1, use_avx2 = avx2,
     lowering = flags, base_cached = Map.empty, per_lane_scalar_emit = False, assume_warm = False,
     warm_safe_calls = [], lane_count = 1, per_lane_market_arg = NullPtr, stateful_emit_cache = Map.empty,
     stateful_grad_emit_cache = Map.empty, blocks = [\<lparr>code = [], final = None\<rparr>], here = 0,
     hoisted_loads = [], entry_slots = 0\<rparr>"

primrec each :: "('b \<Rightarrow> ('f, 'a) emitter) \<Rightarrow> 'b list \<Rightarrow> ('f, unit) emitter" where
  "each f [] = ret ()"
| "each f (x # xs) = bindm (f x) (\<lambda>_. each f xs)"

definition finish :: "'f codegen \<Rightarrow> 'f func" where
  "finish cg = \<lparr>calls_ctx = (ctx_arg cg = CtxVal), hoists = rev (hoisted_loads cg), fblocks = blocks cg\<rparr>"

text \<open>An exception of the emitter is the error of the compilation.\<close>

definition compiled :: "('f, unit) emitter \<Rightarrow> 'f codegen \<Rightarrow> 'f func result" where
  "compiled m cg = (case m cg of (Inl e, cg') \<Rightarrow> Inl e | (Inr _, cg') \<Rightarrow> Inr (finish cg'))"

section \<open>One signal\<close>

definition load_ticker :: "nat list \<Rightarrow> string \<Rightarrow> ('f, unit) emitter" where
  "load_ticker fs ticker =
     bindm (reading symbols) (\<lambda>sy.
     bindm (lift_result (LookupId sy ticker)) (\<lambda>sym_id.
     each (EmitMarketFieldLoad sym_id) fs))"

definition emit_signal :: "'f machine \<Rightarrow> (string set \<Rightarrow> string list) \<Rightarrow> 'f SignalDef \<Rightarrow> ('f, unit) emitter" where
  "emit_signal M ord sg =
     bindm (each (load_ticker [0, 1, 3]) (ord (CollectTickerSymbols (body sg)))) (\<lambda>_.
     bindm (EmitExpr M [] (body sg)) (\<lambda>ret_v.
     set_final (Ret ret_v)))"

definition Compile ::
    "'f machine \<Rightarrow> (string set \<Rightarrow> string list) \<Rightarrow> SymbolTable \<Rightarrow> 32 word \<Rightarrow> bool \<Rightarrow> 'f SignalDef \<Rightarrow> 'f func result" where
  "Compile M ord sy flags avx2 sg = compiled (emit_signal M ord sg) (codegen0 sy flags avx2)"

section \<open>Programs\<close>

text \<open>The slots of the tickers of all signals, looked up first, then the loads.\<close>

primrec ticker_ids :: "string list \<Rightarrow> ('f, nat list) emitter" where
  "ticker_ids [] = ret []"
| "ticker_ids (t # ts) =
     bindm (reading symbols) (\<lambda>sy.
     bindm (lift_result (LookupId sy t)) (\<lambda>i.
     bindm (ticker_ids ts) (\<lambda>is. ret (i # is))))"

definition PrewarmProgramMarketLoads ::
    "(string set \<Rightarrow> string list) \<Rightarrow> (nat set \<Rightarrow> nat list) \<Rightarrow> 'f SignalDef list \<Rightarrow> ('f, unit) emitter" where
  "PrewarmProgramMarketLoads ord ord_ids sgs =
     bindm (ticker_ids (concat (map (\<lambda>sg. ord (CollectTickerSymbols (body sg))) sgs))) (\<lambda>is.
     each (\<lambda>sym_id. each (EmitMarketFieldLoad sym_id) [0, 1]) (ord_ids (set is)))"

definition set_signal_value :: "string \<Rightarrow> 'f operand \<Rightarrow> ('f, unit) emitter" where
  "set_signal_value name v cg = (Inr (), cg\<lparr>signal_values := (signal_values cg)(name \<mapsto> v)\<rparr>)"

text \<open>The value of signal \<open>i\<close> goes to element \<open>i * stride\<close> of the outputs.\<close>

definition emit_output :: "'f machine \<Rightarrow> nat \<Rightarrow> nat \<times> 'f SignalDef \<Rightarrow> ('f, unit) emitter" where
  "emit_output M stride = (\<lambda>(i, sg).
     bindm (EmitExpr M [i] (body sg)) (\<lambda>v.
     bindm (set_signal_value (sig_name sg) v) (\<lambda>_.
     bindm (CreateGEP (Argument ''outputs'') (ConstI64 (int (i * stride)))) (\<lambda>out_ptr.
     bindm (CreateStore v out_ptr) (\<lambda>_. ret ())))))"

definition emit_program ::
    "'f machine \<Rightarrow> (string set \<Rightarrow> string list) \<Rightarrow> (nat set \<Rightarrow> nat list) \<Rightarrow> nat \<Rightarrow> 'f SignalDef list \<Rightarrow> ('f, unit) emitter" where
  "emit_program M ord ord_ids stride sgs =
     bindm (PrewarmProgramMarketLoads ord ord_ids sgs) (\<lambda>_.
     bindm (each (emit_output M stride) (enumerate 0 sgs)) (\<lambda>_.
     set_final RetVoid))"

definition CompileProgramImpl ::
    "'f machine \<Rightarrow> (string set \<Rightarrow> string list) \<Rightarrow> (nat set \<Rightarrow> nat list) \<Rightarrow> SymbolTable \<Rightarrow> 32 word \<Rightarrow> bool \<Rightarrow> bool \<Rightarrow>
       'f SignalDef list \<Rightarrow> 'f func result" where
  "CompileProgramImpl M ord ord_ids sy flags warm avx2 sgs =
     (if sgs = [] then Inl (RuntimeError ''CompileProgram requires at least one signal'')
      else compiled (emit_program M ord ord_ids 1 sgs)
        ((codegen0 sy flags avx2)\<lparr>assume_warm := warm,
           warm_safe_calls := if warm then CollectWarmSafeStatefulCalls sgs else []\<rparr>))"

text \<open>The vectorized function takes the markets of the lanes and has no single context.\<close>

definition CompileProgramVectorizedImpl ::
    "'f machine \<Rightarrow> (string set \<Rightarrow> string list) \<Rightarrow> (nat set \<Rightarrow> nat list) \<Rightarrow> SymbolTable \<Rightarrow> nat \<Rightarrow> 32 word \<Rightarrow> bool \<Rightarrow>
       'f SignalDef list \<Rightarrow> 'f func result" where
  "CompileProgramVectorizedImpl M ord ord_ids sy lanes flags avx2 sgs =
     (if sgs = [] then Inl (RuntimeError ''CompileProgramVectorized requires at least one signal'')
      else if lanes \<noteq> 2 \<and> lanes \<noteq> 4 \<and> lanes \<noteq> 8
      then Inl (RuntimeError ''CompileProgramVectorized: lane_count must be 2, 4, or 8'')
      else compiled (emit_program M ord ord_ids lanes sgs)
        ((codegen0 sy flags avx2)\<lparr>market_arg := NullPtr, ctx_arg := NullPtr, lane_count := lanes,
           per_lane_market_arg := Argument ''per_lane_markets''\<rparr>))"

section \<open>Calls of a compiled function\<close>

definition call_args :: "32 word \<Rightarrow> string \<rightharpoonup> 'f rval" where
  "call_args symbol = [''market'' \<mapsto> VP (PMarket 0), ''arena'' \<mapsto> VP PArena, ''symbol_id'' \<mapsto> VW symbol,
     ''outputs'' \<mapsto> VP POutputs, ''per_lane_markets'' \<mapsto> VP PLanes]"

primrec load_hoists :: "'f memory \<Rightarrow> 'f rval \<Rightarrow> nat list \<Rightarrow> (nat \<rightharpoonup> 'f rval) \<Rightarrow> (nat \<rightharpoonup> 'f rval) result" where
  "load_hoists m ctx [] h = Inr h"
| "load_hoists m ctx (k # ks) h =
     rbind (defined_value ''address'' (field_ptr (Some ctx) k)) (\<lambda>p.
     rbind (defined_value ''load'' (load_typed m PtrTy p)) (\<lambda>v. load_hoists m ctx ks (h(k \<mapsto> v))))"

definition enter :: "'f machine \<Rightarrow> 'f func \<Rightarrow> 32 word \<Rightarrow> 'f memory \<Rightarrow> 'f exec result" where
  "enter M f symbol m =
     (if calls_ctx f
      then rbind (rt_call M ''jit_rt_symbol_ctx'' [VP PArena, VW symbol] m) (\<lambda>(ctx, m').
           rbind (load_hoists m' ctx (hoists f) Map.empty) (\<lambda>h.
             Inr \<lparr>regs = Map.empty, hoisted = h, ctx_val = Some ctx, formals = call_args symbol, mem = m', pred = 0\<rparr>))
      else Inr \<lparr>regs = Map.empty, hoisted = Map.empty, ctx_val = None, formals = call_args symbol, mem = m, pred = 0\<rparr>)"

definition call_compiled ::
    "nat \<Rightarrow> 'f machine \<Rightarrow> 'f target \<Rightarrow> 'f func \<Rightarrow> 32 word \<Rightarrow> 'f memory \<Rightarrow> ('f rval option \<times> 'f memory) result" where
  "call_compiled n M L f symbol m =
     rbind (enter M f symbol m) (\<lambda>s.
     rbind (run_from n M L (fblocks f) (At 0 0, s)) (\<lambda>(v, s'). Inr (v, mem s')))"

end
