(* ===== verification/Jit_Sim.thy ===== *)
theory Jit_Sim
  imports Jit_Lowered
begin

text \<open>
  The relation between emission and execution. A code generator that has emitted more code extends
  one that has emitted less; code emitted in one block runs as a list of instructions; and the memory
  of the lowered slots of one context is isolated so that loads and stores evaluate by rewriting.
\<close>

section \<open>Extension\<close>

definition block_ext :: "'f block \<Rightarrow> 'f block \<Rightarrow> bool" where
  "block_ext b b' \<longleftrightarrow> (if final b = None then prefix (code b) (code b') else b' = b)"

definition extends :: "'f codegen \<Rightarrow> 'f codegen \<Rightarrow> bool" where
  "extends cg cg' \<longleftrightarrow> length (blocks cg) \<le> length (blocks cg') \<and>
     (\<forall>l < length (blocks cg). block_ext (blocks cg ! l) (blocks cg' ! l)) \<and>
     set (hoisted_loads cg) \<subseteq> set (hoisted_loads cg')"

lemma block_ext_refl [simp]: "block_ext b b"
  by (simp add: block_ext_def)

lemma block_ext_trans: "block_ext a b \<Longrightarrow> block_ext b c \<Longrightarrow> block_ext a c"
  by (auto simp: block_ext_def split: if_splits intro: prefix_order.trans)

lemma extends_refl [simp]: "extends cg cg"
  by (simp add: extends_def)

lemma extends_trans: "extends a b \<Longrightarrow> extends b c \<Longrightarrow> extends a c"
  by (force simp: extends_def intro: block_ext_trans)

definition at_open :: "'f codegen \<Rightarrow> bool" where
  "at_open cg \<longleftrightarrow> here cg < length (blocks cg) \<and> final (blocks cg ! here cg) = None"

definition point :: "'f codegen \<Rightarrow> 'f point" where
  "point cg = At (here cg) (length (code (blocks cg ! here cg)))"

section \<open>Code within a block\<close>

text \<open>\<open>k\<close> instructions appended to the current block.\<close>

definition appends :: "nat \<Rightarrow> 'f instr list \<Rightarrow> 'f codegen \<Rightarrow> 'f codegen" where
  "appends k is cg =
     cg\<lparr>blocks := (blocks cg)[here cg := (blocks cg ! here cg)\<lparr>code := code (blocks cg ! here cg) @ is\<rparr>]\<rparr>"

abbreviation code_length :: "'f codegen \<Rightarrow> nat" where
  "code_length cg \<equiv> length (code (blocks cg ! here cg))"

text \<open>Position \<open>k\<close> behind \<open>b\<close>, kept apart from arithmetic.\<close>

definition pos :: "nat \<Rightarrow> nat \<Rightarrow> nat" where
  "pos b k = b + k"

lemma pos_eq [simp]: "pos b k = pos b j \<longleftrightarrow> k = j"
  by (simp add: pos_def)

lemma appends_Nil: "at_open cg \<Longrightarrow> appends 0 [] cg = cg"
  by (simp add: appends_def)

lemma emit_appends:
  assumes "at_open cg" and "k = length is"
  shows "emit_instr i (appends k is cg) = (Inr (Reg (here cg) (pos (code_length cg) k)), appends (k + 1) (is @ [i]) cg)"
  using assms by (simp add: emit_instr_def appends_def append_code_def at_open_def pos_def)

lemma emit_first:
  assumes "at_open cg"
  shows "emit_instr i cg = (Inr (Reg (here cg) (pos (code_length cg) 0)), appends 1 [i] cg)"
  using emit_appends [OF assms, of 0 "[]" i] by (simp add: appends_Nil [OF assms])

fun run_list ::
    "'f machine \<Rightarrow> 'f target \<Rightarrow> nat \<Rightarrow> nat \<Rightarrow> nat \<Rightarrow> 'f instr list \<Rightarrow> 'f exec \<Rightarrow> 'f exec result" where
  "run_list M L l b k [] s = Inr s"
| "run_list M L l b k (i # is) s =
     rbind (run_instr M L l (pos b k) s i) (\<lambda>r. run_list M L l b (k + 1) is (set_result l (pos b k) r s))"

lemma run_list_steps:
  assumes "run_list M L l b k is s = Inr s'" and "l < length P"
    and "prefix (pre @ is) (code (P ! l))" and "b + k = length pre"
  shows "steps M L P (At l (b + k), s) (At l (b + k + length is), s')"
  using assms
proof (induction "is" arbitrary: pre k s)
  case Nil
  then show ?case by (simp add: steps_refl)
next
  case (Cons i "is")
  then obtain r where r: "run_instr M L l (b + k) s i = Inr r"
      "run_list M L l b (k + 1) is (set_result l (b + k) r s) = Inr s'"
    by (auto simp: rbind_eq_Inr_iff pos_def)
  from Cons.prems(3) obtain suf where suf: "code (P ! l) = pre @ i # is @ suf" by (auto simp: prefix_def)
  then have "step M L P (At l (b + k), s) = Inr (At l (Suc (b + k)), set_result l (b + k) r s)"
    using Cons.prems r(1) by (simp add: block_at_def Let_def nth_append)
  moreover have "steps M L P (At l (b + (k + 1)), set_result l (b + k) r s) (At l (b + (k + 1) + length is), s')"
    by (rule Cons.IH [OF r(2) Cons.prems(2), of "pre @ [i]"]) (use suf Cons.prems(4) in auto)
  ultimately show ?case by (auto intro: steps_step)
qed

lemma extends_appends: "at_open cg \<Longrightarrow> extends cg (appends k is cg)"
  by (auto simp: extends_def appends_def at_open_def nth_list_update block_ext_def)

lemma appends_fields [simp]:
  "here (appends k is cg) = here cg" "hoisted_loads (appends k is cg) = hoisted_loads cg"
  "at_open cg \<Longrightarrow> at_open (appends k is cg)"
  "at_open cg \<Longrightarrow> blocks (appends k is cg) ! here cg =
     (blocks cg ! here cg)\<lparr>code := code (blocks cg ! here cg) @ is\<rparr>"
  by (auto simp: appends_def at_open_def)

text \<open>Emitted code that the final program extends runs to its end.\<close>

lemma appends_steps:
  assumes "at_open cg" and "extends (appends k is cg) P"
    and "run_list M L (here cg) (code_length cg) 0 is s = Inr s'"
  shows "steps M L (blocks P) (point cg, s) (point (appends k is cg), s')"
proof -
  have "prefix (code (blocks cg ! here cg) @ is) (code (blocks P ! here cg))" "here cg < length (blocks P)"
    using assms(1,2) by (auto simp: extends_def appends_def at_open_def block_ext_def split: if_splits)
  with run_list_steps [OF assms(3), of "blocks P" "code (blocks cg ! here cg)"] assms(1)
  show ?thesis by (simp add: point_def)
qed

section \<open>States and memory in normal form\<close>

definition with_state :: "'f exec \<Rightarrow> (nat \<times> nat \<rightharpoonup> 'f rval) \<Rightarrow> 'f memory \<Rightarrow> 'f exec" where
  "with_state s r m = s\<lparr>regs := r, mem := m\<rparr>"

definition put_low :: "nat \<Rightarrow> 'f LoweredStates \<Rightarrow> 'f memory \<Rightarrow> 'f memory" where
  "put_low c l m = m\<lparr>contexts := (contexts m)[c := (contexts m ! c)\<lparr>lowered := l\<rparr>]\<rparr>"

lemma with_state_id: "s = with_state s (regs s) (mem s)"
  by (simp add: with_state_def)

lemma put_low_id: "c < length (contexts m) \<Longrightarrow> m = put_low c (lowered (contexts m ! c)) m"
  by (simp add: put_low_def)

text \<open>Evaluation in order: the rest of a program is left alone until its first part has a result.\<close>

lemma rbind_first: "r = r' \<Longrightarrow> rbind r f = rbind r' f"
  by simp

text \<open>The value of an operand depends on the results, not on the memory.\<close>

primrec opv :: "'f machine \<Rightarrow> 'f exec \<Rightarrow> (nat \<times> nat \<rightharpoonup> 'f rval) \<Rightarrow> 'f operand \<Rightarrow> 'f rval option" where
  "opv M s r (Reg l i) = r (l, i)"
| "opv M s r (Hoisted k) = hoisted s k"
| "opv M s r CtxVal = ctx_val s"
| "opv M s r (StackSlot k) = Some (VP (PSlot k))"
| "opv M s r (Argument a) = formals s a"
| "opv M s r (ConstFP x) = Some (VF x)"
| "opv M s r (ConstSplat n x) = Some (VV (replicate n x))"
| "opv M s r (ConstInt w) = Some (VI w)"
| "opv M s r (ConstI32 w) = Some (VW w)"
| "opv M s r NullPtr = Some (VP PNull)"
| "opv M s r (UndefVec n) = Some (VV (replicate n (qnan M)))"

lemma operand_with_state [simp]:
  "operand_value M (with_state s r m) a = opv M s r a"
  "mem (with_state s r m) = m" "pred (with_state s r m) = pred s" "regs (with_state s r m) = r"
  "hoisted (with_state s r m) = hoisted s" "ctx_val (with_state s r m) = ctx_val s"
  "formals (with_state s r m) = formals s"
  "set_result l i (v, m') (with_state s r m) = with_state s (r((l, i) \<mapsto> v)) m'"
  by (cases a; simp add: with_state_def) (simp_all add: with_state_def set_result_def)

text \<open>Operands from before position \<open>n\<close> of block \<open>l\<close> keep their values.\<close>

definition older :: "nat \<Rightarrow> nat \<Rightarrow> 'f operand \<Rightarrow> bool" where
  "older l n a \<longleftrightarrow> (case a of Reg l' i \<Rightarrow> l' \<noteq> l \<or> i < n | _ \<Rightarrow> True)"

lemma opv_older [simp]:
  "older l n a \<Longrightarrow> opv M s (r((l, pos n k) \<mapsto> v)) a = opv M s r a"
  by (cases a; auto simp: older_def pos_def)

text \<open>Integers the code counts with fit far below the width of a word.\<close>

definition small :: "int \<Rightarrow> bool" where
  "small i \<longleftrightarrow> 0 \<le> i \<and> i < 2 ^ 62"

lemma small_i64 [simp]:
  assumes "small i"
  shows "unat (i64 i) = nat i" "sint (i64 i) = i" "uint (i64 i) = i"
proof -
  have i: "0 \<le> i" "i < 2 ^ 63" using assms by (auto simp: small_def)
  then show u: "uint (i64 i) = i"
    by (simp add: i64_def uint_word_of_int take_bit_int_eq_self)
  then show "unat (i64 i) = nat i" by (simp flip: nat_uint_eq)
  show "sint (i64 i) = i"
    using i by (simp add: i64_def sint_sbintrunc' signed_take_bit_int_eq_self)
qed

lemma small_eq [simp]: "small i \<Longrightarrow> small j \<Longrightarrow> i64 i = i64 j \<longleftrightarrow> i = j"
  using small_i64(3) by metis

lemma i64_nonzero: "small i \<Longrightarrow> 0 < i \<Longrightarrow> i64 i \<noteq> 0"
  using small_eq [of i 0] by (simp add: i64_def small_def)

lemma i64_add [simp]: "i64 i + i64 j = i64 (i + j)" "i64 i - i64 j = i64 (i - j)"
  by (simp_all add: i64_def)

lemma small_mod [simp]:
  assumes "small i" "small j"
  shows "i64 i mod i64 j = i64 (i mod j)"
proof -
  have "i64 i mod i64 j = word_of_int (uint (i64 i) mod uint (i64 j))"
    by (simp add: word_mod_def)
  then show ?thesis by (simp add: assms) (simp add: i64_def)
qed

section \<open>Loads and stores in the slots of one context\<close>

lemma lowered_put_low [simp]:
  assumes "c < length (contexts m)"
  shows "lowered (contexts (put_low c l m) ! c) = l" "length (contexts (put_low c l m)) = length (contexts m)"
    "map_ctx c f (put_low c l m) = map_option (\<lambda>l'. put_low c l' m) (f l)"
  using assms by (simp_all add: put_low_def map_ctx_def)

lemma low_load_cell:
  assumes "c < length (contexts m)" and "ty \<noteq> Vec4Ty"
  shows "load_typed (put_low c l m) ty (VP (PField (PElem (PLowered c kd) i) k)) =
    (case nth_opt (cells l c (unat i) kd) k of Some x \<Rightarrow> if of_type ty x then Some x else None | None \<Rightarrow> None)"
  using assms by (simp add: load_typed_def)

lemma low_load_elem:
  assumes "c < length (contexts m)" and "n < length (buffers l w kd)" and "unat i < length (buffers l w kd ! n)"
  shows "load_typed (put_low c l m) F64 (VP (PElem (PBuffer c kd w n) i)) = Some (VF (buffers l w kd ! n ! unat i))"
  using assms by (simp add: load_typed_def nth_opt_def)

lemma low_load_entry:
  assumes "c < length (contexts m)" and "ty \<noteq> Vec4Ty"
    and "n < length (entries l kd)" and "unat i < length (entries l kd ! n)"
  shows "load_typed (put_low c l m) ty (VP (PField (PElem (PBuffer c kd w n) i) k)) =
    (case nth_opt (entry_cells (entries l kd ! n ! unat i)) k of
       Some x \<Rightarrow> if of_type ty x then Some x else None | None \<Rightarrow> None)"
  using assms by (simp add: load_typed_def)

lemma low_store_cell:
  assumes "c < length (contexts m)"
  shows "store_typed (put_low c l m) v (VP (PField (PElem (PLowered c kd) i) k)) =
    map_option (\<lambda>l'. put_low c l' m) (put_cell l (unat i) k v kd)"
  using assms by (simp add: store_typed_def)

lemma low_store_elem:
  assumes "c < length (contexts m)" and "n < length (buffers l w kd)" and "unat i < length (buffers l w kd ! n)"
  shows "store_typed (put_low c l m) (VF x) (VP (PElem (PBuffer c kd w n) i)) =
    Some (put_low c (set_buffers ((buffers l w kd)[n := (buffers l w kd ! n)[unat i := x]]) w l kd) m)"
  using assms by (simp add: store_typed_def put_at_def)

lemma low_store_entry:
  assumes "c < length (contexts m)" and "n < length (entries l kd)" and "unat i < length (entries l kd ! n)"
  shows "store_typed (put_low c l m) v (VP (PField (PElem (PBuffer c kd w n) i) k)) =
    map_option (\<lambda>e. put_low c (set_entries ((entries l kd)[n := (entries l kd ! n)[unat i := e]]) l kd) m)
      (put_entry k v (entries l kd ! n ! unat i))"
  using assms by (simp add: store_typed_def put_at_def option.map_comp comp_def)

lemmas low_access = low_load_cell low_load_elem low_load_entry low_store_cell low_store_elem low_store_entry

lemma defined_value_simps [simp]: "defined_value msg (Some v) = Inr v" "defined_value msg None = Inl (Undefined msg)"
  by (simp_all add: defined_value_def)

text \<open>What the code generator starts from: scalar mode, with the context of the call.\<close>

definition scalar_mode :: "'f codegen \<Rightarrow> bool" where
  "scalar_mode cg \<longleftrightarrow> lane_count cg \<le> 1 \<and> \<not> per_lane_scalar_emit cg \<and> use_program_market_cache cg \<and>
     ctx_arg cg = CtxVal \<and> market_arg cg = Argument ''market'' \<and>
     (\<forall>k v. base_cached cg k = Some v \<longrightarrow> v = Hoisted k \<and> k \<in> set (hoisted_loads cg))"

definition hoist :: "nat \<Rightarrow> 'f codegen \<Rightarrow> 'f codegen" where
  "hoist k cg =
     (if k \<in> dom (base_cached cg) then cg
      else cg\<lparr>hoisted_loads := k # hoisted_loads cg, base_cached := (base_cached cg)(k \<mapsto> Hoisted k)\<rparr>)"

lemma LoadLoweredBaseField_hoists:
  assumes "scalar_mode cg" and "LoadLoweredBaseField k cg = (Inr v, cg')"
  shows "v = Hoisted k" "cg' = hoist k cg" "k \<in> set (hoisted_loads cg')"
  using assms by (auto simp: LoadLoweredBaseField_def scalar_mode_def hoist_def split: option.splits if_splits)

lemma hoist_fields [simp]:
  "blocks (hoist k cg) = blocks cg" "here (hoist k cg) = here cg" "at_open (hoist k cg) = at_open cg"
  "point (hoist k cg) = point cg"
  by (simp_all add: hoist_def at_open_def point_def)

end
