(* ===== verification/Lowered_Steps.thy ===== *)
theory Lowered_Steps
  imports Jit_Exec
begin

text \<open>
  What the inline code of each stateful operator does to its slot, as a function: the value of the
  tick and the slot after it. The integers of a slot stay far below the width of a word, so the
  functions count with integers; the buffers are lists. \<open>Jit_Low_Exec\<close> shows that the emitted
  instructions compute these functions.
\<close>

section \<open>Slots\<close>

definition small_period :: "int \<Rightarrow> bool" where
  "small_period p \<longleftrightarrow> 0 < p \<and> p < 2 ^ 32"

definition sma_slot :: "int \<Rightarrow> nat \<Rightarrow> 'f LoweredStates \<Rightarrow> bool" where
  "sma_slot p n l \<longleftrightarrow> small_period p \<and> n < length (sma_lowered l) \<and> n < length (sma_lowered_buffers l) \<and>
     (let st = sma_lowered l ! n
      in sl_buffer st = Some n \<and> int (length (sma_lowered_buffers l ! n)) = p \<and>
         0 \<le> sl_head st \<and> sl_head st < p \<and> 0 \<le> sl_count st \<and> sl_count st \<le> p)"

definition ema_slot :: "nat \<Rightarrow> 'f LoweredStates \<Rightarrow> bool" where
  "ema_slot n l \<longleftrightarrow> n < length (ema_lowered l) \<and> el_initialized (ema_lowered l ! n) \<in> {0, 1}"

definition lag_slot :: "int \<Rightarrow> nat \<Rightarrow> 'f LoweredStates \<Rightarrow> bool" where
  "lag_slot p n l \<longleftrightarrow> small_period p \<and> n < length (lag_lowered l) \<and> n < length (lag_lowered_buffers l) \<and>
     (let st = lag_lowered l ! n
      in ll_buffer st = Some n \<and> int (length (lag_lowered_buffers l ! n)) = p \<and>
         0 \<le> ll_head st \<and> ll_head st < p \<and> 0 \<le> ll_count st \<and> ll_count st \<le> p)"

definition ring_slot :: "int \<Rightarrow> nat \<Rightarrow> 'f RollingStdStateLowered list \<Rightarrow> 'f list list \<Rightarrow> bool" where
  "ring_slot p n sts bufs \<longleftrightarrow> small_period p \<and> n < length sts \<and> n < length bufs \<and>
     rl_buffer (sts ! n) = Some n \<and> int (length (bufs ! n)) = p \<and>
     0 \<le> rl_head (sts ! n) \<and> rl_head (sts ! n) < p \<and> 0 \<le> rl_count (sts ! n) \<and> rl_count (sts ! n) \<le> p"

text \<open>The entries of a deque are no newer than the next tick.\<close>

definition deque_ok :: "int \<Rightarrow> nat \<Rightarrow> RollingMinMaxStateLowered \<Rightarrow> (int \<times> 'f) list \<Rightarrow> bool" where
  "deque_ok p n st b \<longleftrightarrow> small_period p \<and> ml_buf st = Some n \<and> int (length b) = p + 1 \<and> ml_cap st = p + 1 \<and>
     0 \<le> ml_head st \<and> ml_head st < p + 1 \<and> 0 \<le> ml_count st \<and> ml_count st \<le> p + 1 \<and> 0 \<le> ml_idx st \<and>
     (\<forall>e\<in>set b. 0 \<le> fst e \<and> fst e \<le> ml_idx st)"

definition deque_slot :: "int \<Rightarrow> nat \<Rightarrow> RollingMinMaxStateLowered list \<Rightarrow> (int \<times> 'f) list list \<Rightarrow> bool" where
  "deque_slot p n sts bufs \<longleftrightarrow> n < length sts \<and> n < length bufs \<and> deque_ok p n (sts ! n) (bufs ! n) \<and> ml_count (sts ! n) \<le> p"

definition cross_slot :: "nat \<Rightarrow> 'f LoweredStates \<Rightarrow> bool" where
  "cross_slot n l \<longleftrightarrow> n < length (cross_lowered l) \<and> cl_initialized (cross_lowered l ! n) \<in> {0, 1}"

definition kalman_slot :: "nat \<Rightarrow> 'f LoweredStates \<Rightarrow> bool" where
  "kalman_slot n l \<longleftrightarrow> n < length (kalman1d_lowered l) \<and> kl_initialized (kalman1d_lowered l ! n) \<in> {0, 1}"

definition vwap_slot :: "int \<Rightarrow> nat \<Rightarrow> 'f LoweredStates \<Rightarrow> bool" where
  "vwap_slot p n l \<longleftrightarrow> small_period p \<and> n < length (vwap_lowered l) \<and>
     n < length (vwap_price_lowered_buffers l) \<and> n < length (vwap_vol_lowered_buffers l) \<and>
     (let st = vwap_lowered l ! n
      in vl_price_buf st = Some n \<and> vl_vol_buf st = Some n \<and>
         int (length (vwap_price_lowered_buffers l ! n)) = p \<and> int (length (vwap_vol_lowered_buffers l ! n)) = p \<and>
         0 \<le> vl_head st \<and> vl_head st < p \<and> 0 \<le> vl_count st \<and> vl_count st \<le> p)"

definition pair_slot ::
    "int \<Rightarrow> nat \<Rightarrow> 'f RollingPairStateLowered list \<Rightarrow> 'f list list \<Rightarrow> 'f list list \<Rightarrow> bool" where
  "pair_slot p n sts xs ys \<longleftrightarrow> small_period p \<and> n < length sts \<and> n < length xs \<and> n < length ys \<and>
     pl_x_buf (sts ! n) = Some n \<and> pl_y_buf (sts ! n) = Some n \<and>
     int (length (xs ! n)) = p \<and> int (length (ys ! n)) = p \<and>
     0 \<le> pl_head (sts ! n) \<and> pl_head (sts ! n) < p \<and> 0 \<le> pl_count (sts ! n) \<and> pl_count (sts ! n) \<le> p"

section \<open>Steps\<close>

definition sma_lstep ::
    "'f machine \<Rightarrow> int \<Rightarrow> 'f \<Rightarrow> 'f SmaStateLowered \<Rightarrow> 'f list \<Rightarrow> 'f \<times> 'f SmaStateLowered \<times> 'f list" where
  "sma_lstep M p x st b =
     (let was_full = (sl_count st = p);
          old = (if was_full then b ! nat (sl_head st) else dlit M 0);
          sum = dsub M (dadd M (sl_sum st) x) old;
          count = (if was_full then sl_count st else sl_count st + 1)
      in (if count = p then ddiv M sum (dlit M (of_int p)) else qnan M,
          st\<lparr>sl_sum := sum, sl_head := (sl_head st + 1) mod p, sl_count := count\<rparr>,
          b[nat (sl_head st) := x]))"

definition ema_lstep :: "'f machine \<Rightarrow> int \<Rightarrow> 'f \<Rightarrow> 'f EmaStateLowered \<Rightarrow> 'f \<times> 'f EmaStateLowered" where
  "ema_lstep M p x st =
     (let alpha = ema_period_alpha M p;
          blended = dadd M (dmul M alpha x) (dmul M (dsub M (dlit M 1) alpha) (el_value st));
          v = (if el_initialized st \<noteq> 0 then blended else x)
      in (v, st\<lparr>el_value := v, el_initialized := 1\<rparr>))"

definition lag_lstep ::
    "'f machine \<Rightarrow> int \<Rightarrow> 'f \<Rightarrow> LagStateLowered \<Rightarrow> 'f list \<Rightarrow> 'f \<times> LagStateLowered \<times> 'f list" where
  "lag_lstep M p x st b =
     (if ll_count st = p then b ! nat (ll_head st) else qnan M,
      st\<lparr>ll_head := (ll_head st + 1) mod p,
         ll_count := if ll_count st = p then ll_count st else ll_count st + 1\<rparr>,
      b[nat (ll_head st) := x])"

definition ring_lpush ::
    "'f machine \<Rightarrow> int \<Rightarrow> 'f \<Rightarrow> 'f RollingStdStateLowered \<Rightarrow> 'f list \<Rightarrow> 'f RollingStdStateLowered \<times> 'f list" where
  "ring_lpush M p x st b =
     (let was_full = (rl_count st = p);
          old = (if was_full then b ! nat (rl_head st) else dlit M 0);
          sum = dsub M (dadd M (narrow M (rl_sum st)) x) old;
          sumsq = dsub M (dadd M (narrow M (rl_m2 st)) (dmul M x x)) (dmul M old old)
      in (st\<lparr>rl_count := if was_full then rl_count st else rl_count st + 1,
             rl_head := (rl_head st + 1) mod p, rl_sum := sum, rl_m2 := sumsq\<rparr>,
          b[nat (rl_head st) := x]))"

text \<open>Mean and deviation of the sums in a slot.\<close>

definition ring_lmean :: "'f machine \<Rightarrow> int \<Rightarrow> 'f \<Rightarrow> 'f" where
  "ring_lmean M p acc = ddiv M acc (dlit M (of_int p))"

definition ring_lstd :: "'f machine \<Rightarrow> int \<Rightarrow> 'f \<Rightarrow> 'f \<Rightarrow> 'f" where
  "ring_lstd M p acc squares =
     (let mean = ring_lmean M p acc;
          var = ddiv M (dsub M squares (dmul M (dlit M (of_int p)) (dmul M mean mean))) (dlit M (of_int (p - 1)))
      in dsqrt M (if flt M var (dlit M 0) then dlit M 0 else var))"

definition std_lvalue :: "'f machine \<Rightarrow> int \<Rightarrow> 'f RollingStdStateLowered \<Rightarrow> 'f" where
  "std_lvalue M p st = (if rl_count st = p then ring_lstd M p (rl_sum st) (rl_m2 st) else qnan M)"

definition zscore_lvalue :: "'f machine \<Rightarrow> int \<Rightarrow> 'f \<Rightarrow> 'f RollingStdStateLowered \<Rightarrow> 'f" where
  "zscore_lvalue M p x st =
     (let stdv = ring_lstd M p (rl_sum st) (rl_m2 st);
          z = (if fle M (dlit M (1 / 10 ^ 18)) (fabs M stdv)
               then ddiv M (dsub M x (ring_lmean M p (rl_sum st))) stdv else qnan M)
      in if rl_count st = p then z else qnan M)"

definition cross_lstep ::
    "'f machine \<Rightarrow> bool \<Rightarrow> 'f \<Rightarrow> 'f \<Rightarrow> 'f CrossStateLowered \<Rightarrow> 'f \<times> 'f CrossStateLowered" where
  "cross_lstep M up a b st =
     (let crossed = (if up then fle M (cl_prev_a st) (cl_prev_b st) \<and> flt M b a
                     else fle M (cl_prev_b st) (cl_prev_a st) \<and> flt M a b)
      in (if cl_initialized st \<noteq> 0 \<and> crossed then dlit M 1 else dlit M 0,
          st\<lparr>cl_prev_a := a, cl_prev_b := b, cl_initialized := 1\<rparr>))"

definition kalman_lstep ::
    "'f machine \<Rightarrow> 'f \<Rightarrow> 'f \<Rightarrow> 'f \<Rightarrow> 'f Kalman1dStateLowered \<Rightarrow> 'f \<times> 'f Kalman1dStateLowered" where
  "kalman_lstep M x q r st =
     (if kl_initialized st = 0 then (x, st\<lparr>kl_x_hat := x, kl_p := r, kl_initialized := 1\<rparr>)
      else
        let p_pred = dadd M (kl_p st) q;
            denom = dadd M p_pred r;
            k_gain = ddiv M p_pred denom;
            p_new = dmul M (dsub M (dlit M 1) k_gain) p_pred;
            v = (if flt M (dlit M 0) denom
                 then dadd M (kl_x_hat st) (dmul M k_gain (dsub M x (kl_x_hat st))) else kl_x_hat st)
        in (v, st\<lparr>kl_x_hat := v,
                  kl_p := if flt M (dlit M 0) denom
                          then (if flt M p_new (dlit M 0) then dlit M 0 else p_new) else kl_p st\<rparr>))"

definition vwap_lstep ::
    "'f machine \<Rightarrow> int \<Rightarrow> 'f \<Rightarrow> 'f \<Rightarrow> 'f VwapStateLowered \<Rightarrow> 'f list \<Rightarrow> 'f list \<Rightarrow>
       'f \<times> 'f VwapStateLowered \<times> 'f list \<times> 'f list" where
  "vwap_lstep M p price vol st ps vs =
     (let h = nat (vl_head st);
          was_full = (vl_count st = p);
          pv = dadd M (if was_full then dsub M (vl_sum_pv st) (dmul M (ps ! h) (vs ! h)) else vl_sum_pv st)
                 (dmul M price vol);
          sv = dadd M (if was_full then dsub M (vl_sum_vol st) (vs ! h) else vl_sum_vol st) vol;
          count = (if was_full then vl_count st else vl_count st + 1)
      in (if count = p \<and> flt M (dlit M 0) sv then ddiv M pv sv else qnan M,
          st\<lparr>vl_head := (vl_head st + 1) mod p, vl_count := count, vl_sum_pv := pv, vl_sum_vol := sv\<rparr>,
          ps[h := price], vs[h := vol]))"

definition pair_ladjust :: "'f machine \<Rightarrow> bool \<Rightarrow> 'f \<Rightarrow> 'f \<Rightarrow> 'f \<Rightarrow> 'f" where
  "pair_ladjust M was_full acc old new =
     dadd M (if was_full then dsub M (narrow M acc) old else narrow M acc) new"

definition pair_lpush ::
    "'f machine \<Rightarrow> int \<Rightarrow> 'f \<Rightarrow> 'f \<Rightarrow> 'f RollingPairStateLowered \<Rightarrow> 'f list \<Rightarrow> 'f list \<Rightarrow>
       'f RollingPairStateLowered \<times> 'f list \<times> 'f list" where
  "pair_lpush M p x y st xs ys =
     (let h = nat (pl_head st);
          was_full = (pl_count st = p);
          ox = xs ! h; oy = ys ! h
      in (st\<lparr>pl_head := (pl_head st + 1) mod p,
             pl_count := if was_full then pl_count st else pl_count st + 1,
             pl_sum_x := pair_ladjust M was_full (pl_sum_x st) ox x,
             pl_sum_y := pair_ladjust M was_full (pl_sum_y st) oy y,
             pl_sum_xy := pair_ladjust M was_full (pl_sum_xy st) (dmul M ox oy) (dmul M x y),
             pl_sum_xx := pair_ladjust M was_full (pl_sum_xx st) (dmul M ox ox) (dmul M x x),
             pl_sum_yy := pair_ladjust M was_full (pl_sum_yy st) (dmul M oy oy) (dmul M y y)\<rparr>,
          xs[h := x], ys[h := y]))"

definition pair_lvar :: "'f machine \<Rightarrow> int \<Rightarrow> 'f \<Rightarrow> 'f \<Rightarrow> 'f \<Rightarrow> 'f" where
  "pair_lvar M p sab sa sb = dsub M sab (ddiv M (dmul M sa sb) (dlit M (of_int p)))"

definition corr_lvalue :: "'f machine \<Rightarrow> int \<Rightarrow> 'f RollingPairStateLowered \<Rightarrow> 'f" where
  "corr_lvalue M p st =
     (let cov = pair_lvar M p (pl_sum_xy st) (pl_sum_x st) (pl_sum_y st);
          vx = pair_lvar M p (pl_sum_xx st) (pl_sum_x st) (pl_sum_x st);
          vy = pair_lvar M p (pl_sum_yy st) (pl_sum_y st) (pl_sum_y st);
          denom = dsqrt M (dmul M vx vy);
          r = ddiv M cov denom
      in if pl_count st = p \<and> flt M (dlit M 0) vx \<and> flt M (dlit M 0) vy \<and> flt M (dlit M 0) denom
         then (if flt M (dlit M 1) r then dlit M 1 else if flt M r (dlit M (- 1)) then dlit M (- 1) else r)
         else qnan M)"

definition beta_lvalue :: "'f machine \<Rightarrow> int \<Rightarrow> 'f RollingPairStateLowered \<Rightarrow> 'f" where
  "beta_lvalue M p st =
     (let cov = pair_lvar M p (pl_sum_xy st) (pl_sum_x st) (pl_sum_y st);
          vx = pair_lvar M p (pl_sum_xx st) (pl_sum_x st) (pl_sum_x st)
      in if pl_count st = p \<and> flt M (dlit M 0) vx then ddiv M cov vx else qnan M)"

text \<open>The deque: entries superseded by the sample leave at the back, the sample enters, entries
  outside the window leave at the front, and the front is the extremum.\<close>

definition deque_tail :: "RollingMinMaxStateLowered \<Rightarrow> nat" where
  "deque_tail st = nat ((ml_head st + ml_count st - 1) mod ml_cap st)"

fun deque_pop_back ::
    "nat \<Rightarrow> ('f \<Rightarrow> bool) \<Rightarrow> RollingMinMaxStateLowered \<Rightarrow> (int \<times> 'f) list \<Rightarrow> RollingMinMaxStateLowered" where
  "deque_pop_back 0 gone st b = st"
| "deque_pop_back (Suc k) gone st b =
     (if 0 < ml_count st \<and> gone (snd (b ! deque_tail st))
      then deque_pop_back k gone (st\<lparr>ml_count := ml_count st - 1\<rparr>) b else st)"

definition deque_push :: "'f \<Rightarrow> RollingMinMaxStateLowered \<Rightarrow> (int \<times> 'f) list \<Rightarrow> RollingMinMaxStateLowered \<times> (int \<times> 'f) list" where
  "deque_push x st b =
     (st\<lparr>ml_count := ml_count st + 1\<rparr>, b[nat ((ml_head st + ml_count st) mod ml_cap st) := (ml_idx st, x)])"

fun deque_pop_front ::
    "nat \<Rightarrow> int \<Rightarrow> RollingMinMaxStateLowered \<Rightarrow> (int \<times> 'f) list \<Rightarrow> RollingMinMaxStateLowered" where
  "deque_pop_front 0 p st b = st"
| "deque_pop_front (Suc k) p st b =
     (if 0 < ml_count st \<and> p < ml_idx st + 1 - fst (b ! nat (ml_head st))
      then deque_pop_front k p (st\<lparr>ml_head := (ml_head st + 1) mod ml_cap st, ml_count := ml_count st - 1\<rparr>) b
      else st)"

definition deque_lstep ::
    "'f machine \<Rightarrow> bool \<Rightarrow> int \<Rightarrow> 'f \<Rightarrow> RollingMinMaxStateLowered \<Rightarrow> (int \<times> 'f) list \<Rightarrow>
       'f \<times> RollingMinMaxStateLowered \<times> (int \<times> 'f) list" where
  "deque_lstep M smallest p x st b =
     (let st1 = deque_pop_back (nat (ml_count st)) (\<lambda>v. if smallest then fle M x v else fle M v x) st b;
          (st2, b') = deque_push x st1 b;
          st3 = deque_pop_front (nat (ml_count st2)) p st2 b';
          st4 = st3\<lparr>ml_idx := ml_idx st3 + 1\<rparr>
      in (if p \<le> ml_idx st4 then snd (b' ! nat (ml_head st4)) else qnan M, st4, b'))"

end
