(* ===== verification/Jit_Low_Exec.thy ===== *)
theory Jit_Low_Exec
  imports Jit_Sim Lowered_Steps
begin

text \<open>
  The inline code of the stateful operators runs to the values and slots of \<open>Lowered_Steps\<close>, on
  every target that computes what the language reference documents.
\<close>

section \<open>Code of one block\<close>

lemma documented_op: "documented M L \<Longrightarrow> op_value M opc vs = Some v \<Longrightarrow> L opc vs = Some v"
  by (simp add: documented_def)

text \<open>Results of earlier positions stay, and nothing but positions of the code is written.\<close>

definition kept :: "nat \<Rightarrow> nat \<Rightarrow> nat \<Rightarrow> (nat \<times> nat \<rightharpoonup> 'f rval) \<Rightarrow> (nat \<times> nat \<rightharpoonup> 'f rval) \<Rightarrow> bool" where
  "kept l n k r r' \<longleftrightarrow> (\<forall>q. r' q \<noteq> r q \<longrightarrow> fst q = l \<and> n \<le> snd q \<and> snd q < n + k)"

lemma kept_start: "kept l n k r r"
  by (simp add: kept_def)

lemma kept_update: "j < k \<Longrightarrow> kept l n k r r' \<Longrightarrow> kept l n k r (r'((l, pos n j) \<mapsto> v))"
  by (auto simp: kept_def pos_def)

definition emits ::
    "'f machine \<Rightarrow> 'f target \<Rightarrow> ('f, 'f operand) emitter \<Rightarrow> 'f codegen \<Rightarrow> 'f codegen \<Rightarrow> 'f exec \<Rightarrow> 'f \<Rightarrow> 'f memory \<Rightarrow> bool" where
  "emits M L m cg cg0 s x mm \<longleftrightarrow>
     (\<exists>v k is r. m cg = (Inr v, appends k is cg0) \<and> length is = k \<and>
        run_list M L (here cg0) (code_length cg0) 0 is s = Inr (with_state s r mm) \<and>
        opv M s r v = Some (VF x) \<and> kept (here cg0) (code_length cg0) k (regs s) r)"

lemma emitsI:
  assumes "m cg = (Inr v, appends k is cg0)" and "length is = k"
    and "run_list M L (here cg0) (code_length cg0) 0 is (with_state s r0 m0) = Inr (with_state s r m')"
    and "opv M s r v = Some (VF x)" and "kept (here cg0) (code_length cg0) k r0 r" and "m' = mm"
  shows "emits M L m cg cg0 (with_state s r0 m0) x mm"
proof -
  have "with_state (with_state s r0 m0) r mm = with_state s r mm" "opv M (with_state s r0 m0) r v = opv M s r v"
    by (simp add: with_state_def, cases v, simp_all)
  with assms show ?thesis unfolding emits_def by (metis operand_with_state(4))
qed

lemma put_low_eq: "l = l' \<Longrightarrow> put_low c l m = put_low c l' m"
  by simp

text \<open>Where the code of an operator runs: behind the load of its base, on a context whose base is
  valid, for a node id far below the width of a word.\<close>

definition site ::
    "'f machine \<Rightarrow> 'f target \<Rightarrow> nat \<Rightarrow> lowered_kind \<Rightarrow> nat \<Rightarrow> int \<Rightarrow> 'f codegen \<Rightarrow> 'f codegen \<Rightarrow> 'f exec \<Rightarrow> 'f memory \<Rightarrow> bool" where
  "site M L c kd k node_id cg cg0 s m \<longleftrightarrow> documented M L \<and> at_open cg0 \<and> c < length (contexts m) \<and>
     hoisted s k = Some (VP (PLowered c kd)) \<and> 0 \<le> node_id \<and> node_id < 2 ^ 32 \<and>
     LoadLoweredBaseField k cg = (Inr (Hoisted k), cg0)"

lemma siteD:
  assumes "site M L c kd k node_id cg cg0 s m"
  shows "documented M L" "at_open cg0" "c < length (contexts m)" "hoisted s k = Some (VP (PLowered c kd))"
    "LoadLoweredBaseField k cg = (Inr (Hoisted k), cg0)" "unat (i64 node_id) = nat node_id"
  using assms small_i64(1) [of node_id] by (auto simp: site_def small_def)

lemma small_slot:
  assumes "small_period p" and "0 \<le> h" "h < p" "0 \<le> n" "n \<le> p"
  shows "small h" "small n" "small p" "small (h + 1)" "small (n + 1)" "small ((h + 1) mod p)"
    "0 < p" "i64 p \<noteq> 0"
proof -
  show "small h" "small n" "small p" "small (h + 1)" "small (n + 1)" "small ((h + 1) mod p)" "0 < p"
    using assms by (auto simp: small_def small_period_def intro: order.strict_trans [OF pos_mod_bound])
  then show "i64 p \<noteq> 0" using assms(1) by (intro i64_nonzero) (simp_all add: small_period_def)
qed

text \<open>A selection between two values of a type is a value of that type.\<close>

lemma select_value [simp]:
  "(if b then VF x else VF y) = VF (if b then x else y)"
  "(if b then VI (i64 i) else VI (i64 j)) = VI (i64 (if b then i else j))"
  by simp_all

lemma small_if: "small i \<Longrightarrow> small j \<Longrightarrow> small (if b then i else j)"
  by simp

text \<open>Emission and execution by rewriting.\<close>

lemmas emission = bindm_def prod.case sum.case is_warm_def reading_def state_pointer_def next_head_def ret_def
  base_getters simp_thms if_True if_False list.size numeral_plus_one semiring_norm append.simps
  add_0_right add_0_left

lemmas execution = small_if low_access cells_at_def nth_opt_def buffer_ptr_def put_at_def icmp_holds_def fcmp_holds_def

section \<open>Averages and lags\<close>

lemma sma_slotD:
  assumes "sma_slot p n l"
  shows "n < length (sma_lowered l)" "n < length (sma_lowered_buffers l)"
    "sl_buffer (sma_lowered l ! n) = Some n" "length (sma_lowered_buffers l ! n) = nat p"
    "0 \<le> sl_head (sma_lowered l ! n)" "sl_head (sma_lowered l ! n) < p" "0 \<le> sl_count (sma_lowered l ! n)"
    "sl_count (sma_lowered l ! n) \<le> p"
    "small (sl_head (sma_lowered l ! n))" "small (sl_count (sma_lowered l ! n))" "small p"
    "small (sl_head (sma_lowered l ! n) + 1)" "small (sl_count (sma_lowered l ! n) + 1)"
    "small ((sl_head (sma_lowered l ! n) + 1) mod p)" "0 < p" "i64 p \<noteq> 0"
  using assms small_slot [of p "sl_head (sma_lowered l ! n)" "sl_count (sma_lowered l ! n)"]
  by (auto simp: sma_slot_def Let_def)

text \<open>The code that assumes a full window computes the same where the window is full.\<close>

lemma sma_lstep_full:
  "sl_count st = p \<Longrightarrow> sma_lstep M p x st b =
     (let acc = dsub M (dadd M (sl_sum st) x) (b ! nat (sl_head st))
      in (ddiv M acc (dlit M (of_int p)), st\<lparr>sl_sum := acc, sl_head := (sl_head st + 1) mod p\<rparr>, b[nat (sl_head st) := x]))"
  by (cases st) (simp add: sma_lstep_def Let_def)

lemma lag_lstep_full:
  "ll_count st = p \<Longrightarrow> lag_lstep M p x st b =
     (b ! nat (ll_head st), st\<lparr>ll_head := (ll_head st + 1) mod p\<rparr>, b[nat (ll_head st) := x])"
  by (cases st) (simp add: lag_lstep_def)

lemma ema_lstep_full:
  "el_initialized st = 1 \<Longrightarrow> ema_lstep M p x st =
     (let v = dadd M (dmul M (ema_period_alpha M p) x) (dmul M (dsub M (dlit M 1) (ema_period_alpha M p)) (el_value st))
      in (v, st\<lparr>el_value := v\<rparr>))"
  by (cases st) (simp add: ema_lstep_def Let_def)

lemma sma_emits:
  assumes site: "site M L c SmaKind 0 node_id cg cg0 s m"
    and warm: "assume_warm cg \<and> p \<in> set (warm_safe_calls cg) \<Longrightarrow> sl_count (sma_lowered l ! nat node_id) = period"
    and slot: "sma_slot period (nat node_id) l"
    and x: "older (here cg0) (code_length cg0) x" "opv M s r x = Some (VF a)"
    and step: "sma_lstep M period a (sma_lowered l ! nat node_id) (sma_lowered_buffers l ! nat node_id) = (y, st, bf)"
  shows "emits M L (EmitLoweredSma M p x node_id period) cg cg0 (with_state s r (put_low c l m)) y
     (put_low c (l\<lparr>sma_lowered_buffers := (sma_lowered_buffers l)[nat node_id := bf],
        sma_lowered := (sma_lowered l)[nat node_id := st]\<rparr>) m)"
proof (cases "assume_warm cg \<and> p \<in> set (warm_safe_calls cg)")
  case True
  note at = siteD [OF site] and sl = sma_slotD [OF slot] warm [OF True]
  show ?thesis
    by (rule emitsI, simp only: EmitLoweredSma_def emission True at(5) emit_first [OF at(2)] emit_appends [OF at(2)] cong: if_cong,
      simp, simp add: at x sl documented_op [OF at(1)] execution sma_cells_def sma_put_def cong: rbind_first del: One_nat_def add_2_eq_Suc add_2_eq_Suc',
      use step in \<open>auto simp: sma_lstep_full [OF warm [OF True]] Let_def intro!: kept_update kept_start put_low_eq\<close>)
next
  case False
  note at = siteD [OF site] and sl = sma_slotD [OF slot]
  show ?thesis
    by (rule emitsI, simp only: EmitLoweredSma_def emission False at(5) emit_first [OF at(2)] emit_appends [OF at(2)] cong: if_cong,
      simp, simp add: at x sl documented_op [OF at(1)] execution sma_cells_def sma_put_def cong: rbind_first del: One_nat_def add_2_eq_Suc add_2_eq_Suc',
      use step in \<open>auto simp: sma_lstep_def Let_def intro!: kept_update kept_start put_low_eq\<close>)
qed

lemma ema_emits:
  assumes site: "site M L c EmaKind 1 node_id cg cg0 s m"
    and warm: "assume_warm cg \<and> p \<in> set (warm_safe_calls cg) \<Longrightarrow> el_initialized (ema_lowered l ! nat node_id) = 1"
    and slot: "ema_slot (nat node_id) l"
    and x: "older (here cg0) (code_length cg0) x" "opv M s r x = Some (VF a)"
    and step: "ema_lstep M period a (ema_lowered l ! nat node_id) = (y, st)"
  shows "emits M L (EmitLoweredEma M p x node_id period) cg cg0 (with_state s r (put_low c l m)) y
     (put_low c (l\<lparr>ema_lowered := (ema_lowered l)[nat node_id := st]\<rparr>) m)"
proof (cases "assume_warm cg \<and> p \<in> set (warm_safe_calls cg)")
  case True
  note at = siteD [OF site] and sl = slot [unfolded ema_slot_def] warm [OF True]
  show ?thesis
    by (rule emitsI, simp only: EmitLoweredEma_def emission True at(5) [folded numeral_One] emit_first [OF at(2)] emit_appends [OF at(2)] cong: if_cong,
      simp, simp add: at x sl documented_op [OF at(1)] execution ema_cells_def ema_put_def cong: rbind_first del: One_nat_def add_2_eq_Suc add_2_eq_Suc',
      use step in \<open>auto simp: ema_lstep_full [OF warm [OF True]] Let_def intro!: kept_update kept_start put_low_eq\<close>)
next
  case False
  note at = siteD [OF site] 
  from slot have sl: "nat node_id < length (ema_lowered l)" "small (el_initialized (ema_lowered l ! nat node_id))" "small 0" "small 1"
    by (auto simp: ema_slot_def small_def)
  show ?thesis
    by (rule emitsI, simp only: EmitLoweredEma_def emission False at(5) [folded numeral_One] emit_first [OF at(2)] emit_appends [OF at(2)] cong: if_cong,
      simp, simp add: at x sl documented_op [OF at(1)] execution ema_cells_def ema_put_def cong: rbind_first del: One_nat_def add_2_eq_Suc add_2_eq_Suc',
      use step in \<open>auto simp: ema_lstep_def Let_def intro!: kept_update kept_start put_low_eq\<close>)
qed

lemma lag_slotD:
  assumes "lag_slot p n l"
  shows "n < length (lag_lowered l)" "n < length (lag_lowered_buffers l)"
    "ll_buffer (lag_lowered l ! n) = Some n" "length (lag_lowered_buffers l ! n) = nat p"
    "0 \<le> ll_head (lag_lowered l ! n)" "ll_head (lag_lowered l ! n) < p" "0 \<le> ll_count (lag_lowered l ! n)"
    "ll_count (lag_lowered l ! n) \<le> p"
    "small (ll_head (lag_lowered l ! n))" "small (ll_count (lag_lowered l ! n))" "small p"
    "small (ll_head (lag_lowered l ! n) + 1)" "small (ll_count (lag_lowered l ! n) + 1)"
    "small ((ll_head (lag_lowered l ! n) + 1) mod p)" "0 < p" "i64 p \<noteq> 0"
  using assms small_slot [of p "ll_head (lag_lowered l ! n)" "ll_count (lag_lowered l ! n)"]
  by (auto simp: lag_slot_def Let_def)

lemma lag_emits:
  assumes site: "site M L c LagKind 2 node_id cg cg0 s m"
    and warm: "assume_warm cg \<and> p \<in> set (warm_safe_calls cg) \<Longrightarrow> ll_count (lag_lowered l ! nat node_id) = period"
    and slot: "lag_slot period (nat node_id) l"
    and x: "older (here cg0) (code_length cg0) x" "opv M s r x = Some (VF a)"
    and step: "lag_lstep M period a (lag_lowered l ! nat node_id) (lag_lowered_buffers l ! nat node_id) = (y, st, bf)"
  shows "emits M L (EmitLoweredLag M p x node_id period) cg cg0 (with_state s r (put_low c l m)) y
     (put_low c (l\<lparr>lag_lowered_buffers := (lag_lowered_buffers l)[nat node_id := bf],
        lag_lowered := (lag_lowered l)[nat node_id := st]\<rparr>) m)"
proof (cases "assume_warm cg \<and> p \<in> set (warm_safe_calls cg)")
  case True
  note at = siteD [OF site] and sl = lag_slotD [OF slot] warm [OF True]
  show ?thesis
    by (rule emitsI, simp only: EmitLoweredLag_def emission True at(5) emit_first [OF at(2)] emit_appends [OF at(2)] cong: if_cong,
      simp, simp add: at x sl documented_op [OF at(1)] execution lag_cells_def lag_put_def cong: rbind_first del: One_nat_def add_2_eq_Suc add_2_eq_Suc',
      use step in \<open>auto simp: lag_lstep_full [OF warm [OF True]] Let_def intro!: kept_update kept_start put_low_eq\<close>)
next
  case False
  note at = siteD [OF site] and sl = lag_slotD [OF slot]
  show ?thesis
    by (rule emitsI, simp only: EmitLoweredLag_def emission False at(5) emit_first [OF at(2)] emit_appends [OF at(2)] cong: if_cong,
      simp, simp add: at x sl documented_op [OF at(1)] execution lag_cells_def lag_put_def cong: rbind_first del: One_nat_def add_2_eq_Suc add_2_eq_Suc',
      use step in \<open>auto simp: lag_lstep_def Let_def intro!: kept_update kept_start put_low_eq\<close>)
qed

section \<open>Deviations\<close>

lemma ring_slotD:
  assumes "ring_slot p n sts bufs"
  shows "n < length sts" "n < length bufs" "rl_buffer (sts ! n) = Some n" "length (bufs ! n) = nat p"
    "0 \<le> rl_head (sts ! n)" "rl_head (sts ! n) < p" "0 \<le> rl_count (sts ! n)" "rl_count (sts ! n) \<le> p"
    "small (rl_head (sts ! n))" "small (rl_count (sts ! n))" "small p" "small (rl_head (sts ! n) + 1)"
    "small (rl_count (sts ! n) + 1)" "small ((rl_head (sts ! n) + 1) mod p)" "0 < p" "i64 p \<noteq> 0"
  using assms small_slot [of p "rl_head (sts ! n)" "rl_count (sts ! n)"] by (auto simp: ring_slot_def)

lemmas ring_emission = emission emit_ring_push_def emit_stddev_def
lemmas ring_values = ring_lpush_def std_lvalue_def zscore_lvalue_def ring_lstd_def ring_lmean_def

lemma rolling_std_emits:
  assumes site: "site M L c StdKind 3 node_id cg cg0 s m"
    and cold: "\<not> (assume_warm cg \<and> p \<in> set (warm_safe_calls cg))"
    and slot: "ring_slot period (nat node_id) (rolling_std_lowered l) (rolling_std_lowered_buffers l)"
    and x: "older (here cg0) (code_length cg0) x" "opv M s r x = Some (VF a)"
    and push: "push = ring_lpush M period a (rolling_std_lowered l ! nat node_id) (rolling_std_lowered_buffers l ! nat node_id)"
  shows "emits M L (EmitLoweredRollingStd M p x node_id period) cg cg0 (with_state s r (put_low c l m)) (std_lvalue M period (fst push))
     (put_low c (l\<lparr>rolling_std_lowered_buffers := (rolling_std_lowered_buffers l)[nat node_id := snd push],
        rolling_std_lowered := (rolling_std_lowered l)[nat node_id := fst push]\<rparr>) m)"
proof -
  note at = siteD [OF site] and sl = ring_slotD [OF slot]
  show ?thesis
    apply (rule emitsI)
    apply (simp only: EmitLoweredRollingStd_def ring_emission cold at(5) emit_first [OF at(2)] emit_appends [OF at(2)] cong: if_cong)
      apply simp
      apply (simp add: at x sl documented_op [OF at(1)] execution ring_cells_def ring_put_def intrinsic_def cong: rbind_first del: One_nat_def add_2_eq_Suc add_2_eq_Suc' split del: if_split)
  subgoal by (cases "rl_count (rolling_std_lowered l ! nat node_id) = period") (simp_all add: push ring_values Let_def)
  subgoal by (intro kept_update kept_start; simp)
  subgoal by (rule put_low_eq) (simp add: push ring_values Let_def cong: if_cong split del: if_split)
  done
qed
lemma zscore_emits:
  assumes site: "site M L c ZscoreKind 4 node_id cg cg0 s m"
    and cold: "\<not> (assume_warm cg \<and> p \<in> set (warm_safe_calls cg))"
    and slot: "ring_slot period (nat node_id) (zscore_lowered l) (zscore_lowered_buffers l)"
    and x: "older (here cg0) (code_length cg0) x" "opv M s r x = Some (VF a)"
    and push: "push = ring_lpush M period a (zscore_lowered l ! nat node_id) (zscore_lowered_buffers l ! nat node_id)"
  shows "emits M L (EmitLoweredZscore M p x node_id period) cg cg0 (with_state s r (put_low c l m)) (zscore_lvalue M period a (fst push))
     (put_low c (l\<lparr>zscore_lowered_buffers := (zscore_lowered_buffers l)[nat node_id := snd push],
        zscore_lowered := (zscore_lowered l)[nat node_id := fst push]\<rparr>) m)"
proof -
  note at = siteD [OF site] and sl = ring_slotD [OF slot]
  show ?thesis
    apply (rule emitsI)
    apply (simp only: EmitLoweredZscore_def ring_emission cold at(5) emit_first [OF at(2)] emit_appends [OF at(2)] cong: if_cong)
      apply simp
      apply (simp add: at x sl documented_op [OF at(1)] execution ring_cells_def ring_put_def intrinsic_def cong: rbind_first del: One_nat_def add_2_eq_Suc add_2_eq_Suc' split del: if_split)
  subgoal by (cases "rl_count (zscore_lowered l ! nat node_id) = period") (simp_all add: push ring_values Let_def)
  subgoal by (intro kept_update kept_start; simp)
  subgoal by (rule put_low_eq) (simp add: push ring_values Let_def cong: if_cong split del: if_split)
  done
qed

section \<open>Weighted averages and pairs\<close>

lemma market_hit:
  assumes "use_program_market_cache cg" "\<not> per_lane_scalar_emit cg"
    and "program_market_field_cache cg (MarketFieldCacheKey sym_id f) = Some v"
  shows "EmitMarketFieldLoad sym_id f cg = (Inr v, cg)"
    and "EmitMarketFieldLoad sym_id f (appends k is cg) = (Inr v, appends k is cg)"
  using assms by (simp_all add: EmitMarketFieldLoad_def cached_market_field_def Let_def appends_def)

lemma vwap_slotD:
  assumes "vwap_slot p n l"
  shows "n < length (vwap_lowered l)" "n < length (vwap_price_lowered_buffers l)" "n < length (vwap_vol_lowered_buffers l)"
    "vl_price_buf (vwap_lowered l ! n) = Some n" "vl_vol_buf (vwap_lowered l ! n) = Some n"
    "length (vwap_price_lowered_buffers l ! n) = nat p" "length (vwap_vol_lowered_buffers l ! n) = nat p"
    "0 \<le> vl_head (vwap_lowered l ! n)" "vl_head (vwap_lowered l ! n) < p" "0 \<le> vl_count (vwap_lowered l ! n)"
    "vl_count (vwap_lowered l ! n) \<le> p"
    "small (vl_head (vwap_lowered l ! n))" "small (vl_count (vwap_lowered l ! n))" "small p"
    "small (vl_head (vwap_lowered l ! n) + 1)" "small (vl_count (vwap_lowered l ! n) + 1)"
    "small ((vl_head (vwap_lowered l ! n) + 1) mod p)" "0 < p" "i64 p \<noteq> 0"
  using assms small_slot [of p "vl_head (vwap_lowered l ! n)" "vl_count (vwap_lowered l ! n)"]
  by (auto simp: vwap_slot_def Let_def)

lemma vwap_emits:
  assumes site: "site M L c VwapKind 9 node_id cg cg0 s m"
    and slot: "vwap_slot period (nat node_id) l"
    and market: "use_program_market_cache cg0" "\<not> per_lane_scalar_emit cg0"
      "program_market_field_cache cg0 (MarketFieldCacheKey sym_id 0) = Some bo" "program_market_field_cache cg0 (MarketFieldCacheKey sym_id 1) = Some ao"
      "program_market_field_cache cg0 (MarketFieldCacheKey sym_id 3) = Some vo"
    and x: "older (here cg0) (code_length cg0) bo" "opv M s r bo = Some (VF (ins_bid ins))"
      "older (here cg0) (code_length cg0) ao" "opv M s r ao = Some (VF (ins_ask ins))"
      "older (here cg0) (code_length cg0) vo" "opv M s r vo = Some (VF (ins_volume ins))"
    and push: "push = vwap_lstep M period (fst (vwap_sample M ins)) (snd (vwap_sample M ins)) (vwap_lowered l ! nat node_id)
      (vwap_price_lowered_buffers l ! nat node_id) (vwap_vol_lowered_buffers l ! nat node_id)"
  shows "emits M L (EmitLoweredVwap M sym_id node_id period) cg cg0 (with_state s r (put_low c l m)) (fst push)
     (put_low c (l\<lparr>vwap_price_lowered_buffers := (vwap_price_lowered_buffers l)[nat node_id := fst (snd (snd push))],
        vwap_vol_lowered_buffers := (vwap_vol_lowered_buffers l)[nat node_id := snd (snd (snd push))],
        vwap_lowered := (vwap_lowered l)[nat node_id := fst (snd push)]\<rparr>) m)"
proof -
  note at = siteD [OF site] and sl = vwap_slotD [OF slot]
  note hit = market_hit [OF market(1,2,3)] market_hit [OF market(1,2,4), folded numeral_One] market_hit [OF market(1,2,5)]
  show ?thesis
    apply (rule emitsI)
    apply (simp only: EmitLoweredVwap_def vwap_push_def hit emission at(5) emit_first [OF at(2)] emit_appends [OF at(2)] cong: if_cong)
      apply simp
      apply (simp add: at x sl documented_op [OF at(1)] execution vwap_cells_def vwap_put_def cong: rbind_first del: One_nat_def add_2_eq_Suc add_2_eq_Suc' split del: if_split)
  subgoal by (cases "vl_count (vwap_lowered l ! nat node_id) = period") (simp_all add: push vwap_lstep_def vwap_sample_def mid_of_def Let_def)
  subgoal by (intro kept_update kept_start; simp)
  subgoal by (rule put_low_eq) (simp add: push vwap_lstep_def vwap_sample_def mid_of_def Let_def cong: if_cong split del: if_split)
  done
qed
end
