(* ===== verification/Jit_Pair_Exec.thy ===== *)
theory Jit_Pair_Exec
  imports Jit_Low_Exec
begin

lemma pair_slotD:
  assumes "pair_slot p n sts xs ys"
  shows "n < length sts" "n < length xs" "n < length ys" "pl_x_buf (sts ! n) = Some n" "pl_y_buf (sts ! n) = Some n"
    "length (xs ! n) = nat p" "length (ys ! n) = nat p"
    "0 \<le> pl_head (sts ! n)" "pl_head (sts ! n) < p" "0 \<le> pl_count (sts ! n)" "pl_count (sts ! n) \<le> p"
    "small (pl_head (sts ! n))" "small (pl_count (sts ! n))" "small p" "small (pl_head (sts ! n) + 1)"
    "small (pl_count (sts ! n) + 1)" "small ((pl_head (sts ! n) + 1) mod p)" "0 < p" "i64 p \<noteq> 0"
  using assms small_slot [of p "pl_head (sts ! n)" "pl_count (sts ! n)"] by (auto simp: pair_slot_def)

lemmas pair_emission = emission EmitLoweredRollingPair_def pair_push_def pair_value_def load_sum_def maybe_sub_def store_sum_def
lemmas pair_values = pair_lpush_def pair_ladjust_def corr_lvalue_def beta_lvalue_def pair_lvar_def

text \<open>Two pieces of code in one block.\<close>

lemma run_list_append:
  "run_list M L l b k (is @ js) s = rbind (run_list M L l b k is s) (run_list M L l b (k + length is) js)"
proof (induction "is" arbitrary: k s)
  case (Cons i "is")
  then show ?case by (cases "run_instr M L l (pos b k) s i") simp_all
qed simp

lemma run_list_offset: "run_list M L l b (k + j) is s = run_list M L l (b + k) j is s"
proof (induction "is" arbitrary: j s)
  case (Cons i "is")
  from Cons [of "j + 1"] show ?case by (simp add: pos_def add.assoc)
qed simp

lemma kept_trans: "kept l n k r r' \<Longrightarrow> kept l (n + k) j r' r'' \<Longrightarrow> kept l n (k + j) r r''"
  unfolding kept_def by (metis add_leD1 add.assoc less_add_eq_less not_less le_add_same_cancel1 trans_less_add1)

lemma emits_bind:
  assumes "at_open cg0" and "m cg = (Inr v, appends k is cg0)" and "length is = k"
    and "run_list M L (here cg0) (code_length cg0) 0 is (with_state s r m0) = Inr (with_state s r' m1)"
    and "kept (here cg0) (code_length cg0) k r r'"
    and "emits M L (f v) (appends k is cg0) (appends k is cg0) (with_state s r' m1) x mm"
  shows "emits M L (bindm m f) cg cg0 (with_state s r m0) x mm"
proof -
  let ?cg1 = "appends k is cg0"
  from assms(6) obtain w j js r'' where js: "f v ?cg1 = (Inr w, appends j js ?cg1)" "length js = j"
      "run_list M L (here ?cg1) (code_length ?cg1) 0 js (with_state s r' m1) = Inr (with_state (with_state s r' m1) r'' mm)"
      "opv M (with_state s r' m1) r'' w = Some (VF x)" "kept (here ?cg1) (code_length ?cg1) j r' r''"
    by (auto simp: emits_def)
  have len: "code_length ?cg1 = code_length cg0 + k" using assms(1,3) by simp
  have "appends j js ?cg1 = appends (k + j) (is @ js) cg0"
    using assms(1) by (simp add: appends_def at_open_def)
  then have "bindm m f cg = (Inr w, appends (k + j) (is @ js) cg0)"
    using assms(2) js(1) by (simp add: bindm_def)
  moreover have "run_list M L (here cg0) (code_length cg0) 0 (is @ js) (with_state s r m0) = Inr (with_state s r'' mm)"
    using js(3) assms(1,3,4) by (simp add: run_list_append run_list_offset [of _ _ _ _ k 0, simplified] with_state_def)
  moreover have "opv M s r'' w = Some (VF x)" using js(4) by (cases w) simp_all
  moreover have "kept (here cg0) (code_length cg0) (k + j) r r''"
    using kept_trans [OF assms(5), of j r''] js(5) len by simp
  ultimately show ?thesis using assms(3) js(2) by (intro emitsI) simp_all
qed

lemma pair_value_emits:
  assumes at: "documented M L" "at_open cg1" "small (pl_count st)" "small period"
    and x: "older (here cg1) (code_length cg1) oc" "opv M s r oc = Some (VI (i64 (pl_count st)))"
      "older (here cg1) (code_length cg1) o1" "opv M s r o1 = Some (VF (pl_sum_x st))"
      "older (here cg1) (code_length cg1) o2" "opv M s r o2 = Some (VF (pl_sum_y st))"
      "older (here cg1) (code_length cg1) o3" "opv M s r o3 = Some (VF (pl_sum_xy st))"
      "older (here cg1) (code_length cg1) o4" "opv M s r o4 = Some (VF (pl_sum_xx st))"
      "older (here cg1) (code_length cg1) o5" "opv M s r o5 = Some (VF (pl_sum_yy st))"
  shows "emits M L (pair_value M kind period (oc, o1, o2, o3, o4, o5)) cg1 cg1 (with_state s r m)
    (case kind of Corr \<Rightarrow> corr_lvalue M period st | Beta \<Rightarrow> beta_lvalue M period st) m"
proof (cases kind)
  case Corr
  then show ?thesis
    apply (simp only: RollingPairKind.case)
    apply (rule emitsI)
    apply (simp only: pair_emission RollingPairKind.distinct emit_first [OF at(2)] emit_appends [OF at(2)] cong: if_cong)
      apply simp
      apply (simp add: at x documented_op [OF at(1)] execution intrinsic_def cong: rbind_first del: One_nat_def add_2_eq_Suc add_2_eq_Suc' split del: if_split)
    apply (simp add: corr_lvalue_def pair_lvar_def Let_def split del: if_split)
  by (intro kept_update kept_start; simp) simp
next
  case Beta
  then show ?thesis
    apply (simp only: RollingPairKind.case)
    apply (rule emitsI)
    apply (simp only: pair_emission RollingPairKind.distinct emit_first [OF at(2)] emit_appends [OF at(2)] cong: if_cong)
      apply simp
      apply (simp add: at x documented_op [OF at(1)] execution intrinsic_def cong: rbind_first del: One_nat_def add_2_eq_Suc add_2_eq_Suc' split del: if_split)
    apply (simp add: beta_lvalue_def pair_lvar_def Let_def split del: if_split)
  by (intro kept_update kept_start; simp) simp
qed


lemma older_pos: "j < k \<Longrightarrow> older l (n + k) (Reg l (pos n j))"
  by (simp add: older_def pos_def)

text \<open>The arrays of one of the two pair operators, seen from slot \<open>n\<close>: \<open>put\<close> replaces its state and
  its two buffers.\<close>

locale pair_arrays =
  fixes kd :: lowered_kind
    and sts :: "'f LoweredStates \<Rightarrow> 'f RollingPairStateLowered list"
    and xs :: "'f LoweredStates \<Rightarrow> 'f list list"
    and ys :: "'f LoweredStates \<Rightarrow> 'f list list"
    and put :: "'f LoweredStates \<Rightarrow> nat \<Rightarrow> 'f RollingPairStateLowered \<Rightarrow> 'f list \<Rightarrow> 'f list \<Rightarrow> 'f LoweredStates"
  assumes put_cells: "n < length (sts l) \<Longrightarrow> cells (put l n st xb yb) c n kd = pair_cells c kd st"
    and put_put_cell: "n < length (sts l) \<Longrightarrow>
      put_cell (put l n st xb yb) n j v kd = map_option (\<lambda>st'. put l n st' xb yb) (pair_put j v st)"
    and put_x: "n < length (xs l) \<Longrightarrow> n < length (buffers (put l n st xb yb) False kd) \<and>
      buffers (put l n st xb yb) False kd ! n = xb"
    and put_y: "n < length (ys l) \<Longrightarrow> n < length (buffers (put l n st xb yb) True kd) \<and>
      buffers (put l n st xb yb) True kd ! n = yb"
    and put_set_x: "set_buffers ((buffers (put l n st xb yb) False kd)[n := xb']) False (put l n st xb yb) kd = put l n st xb' yb"
    and put_set_y: "set_buffers ((buffers (put l n st xb yb) True kd)[n := yb']) True (put l n st xb yb) kd = put l n st xb yb'"
    and put_same: "put l n (sts l ! n) (xs l ! n) (ys l ! n) = l"
begin

lemma pair_push_runs:
  assumes at: "documented M L" "at_open cg0" "c < length (contexts m)" "opv M s r base = Some (VP (PLowered c kd))"
      "older (here cg0) (code_length cg0) base" "unat (i64 node_id) = nat node_id"
    and slot: "pair_slot period (nat node_id) (sts l) (xs l) (ys l)"
    and x: "older (here cg0) (code_length cg0) x" "opv M s r x = Some (VF a)"
      "older (here cg0) (code_length cg0) y" "opv M s r y = Some (VF b)"
    and push: "push = pair_lpush M period a b (sts l ! nat node_id) (xs l ! nat node_id) (ys l ! nat node_id)"
  shows "\<exists>oc o1 o2 o3 o4 o5 k is r' m'. pair_push base x y node_id period cg0 = (Inr (oc, o1, o2, o3, o4, o5), appends k is cg0) \<and>
     length is = k \<and>
     run_list M L (here cg0) (code_length cg0) 0 is (with_state s r (put_low c
       (put l (nat node_id) (sts l ! nat node_id) (xs l ! nat node_id) (ys l ! nat node_id)) m)) = Inr (with_state s r' m') \<and>
     list_all (older (here cg0) (code_length cg0 + k)) [oc, o1, o2, o3, o4, o5] \<and>
     opv M s r' oc = Some (VI (i64 (pl_count (fst push)))) \<and>
     opv M s r' o1 = Some (VF (pl_sum_x (fst push))) \<and>
     opv M s r' o2 = Some (VF (pl_sum_y (fst push))) \<and>
     opv M s r' o3 = Some (VF (pl_sum_xy (fst push))) \<and>
     opv M s r' o4 = Some (VF (pl_sum_xx (fst push))) \<and>
     opv M s r' o5 = Some (VF (pl_sum_yy (fst push))) \<and>
     kept (here cg0) (code_length cg0) k r r' \<and>
     m' = put_low c (put l (nat node_id) (fst push) (fst (snd push)) (snd (snd push))) m"
proof -
  define st xb yb where s: "st = sts l ! nat node_id" "xb = xs l ! nat node_id" "yb = ys l ! nat node_id"
  note sl = pair_slotD [OF slot, folded s]
  note put = put_cells [OF sl(1)] put_put_cell [OF sl(1)] put_x [OF sl(2)] put_y [OF sl(3)] put_set_x put_set_y
  show ?thesis
    unfolding push s [symmetric]
    apply (intro exI conjI)
    apply (simp only: pair_emission emit_first [OF at(2)] emit_appends [OF at(2)] cong: if_cong)
      apply simp
      apply (simp add: at x sl put documented_op [OF at(1)] execution pair_cells_def pair_put_def intrinsic_def cong: rbind_first del: One_nat_def add_2_eq_Suc add_2_eq_Suc' split del: if_split)
    apply (simp_all add: older_pos pair_values Let_def cong: if_cong split del: if_split)
  by (intro kept_update kept_start; simp)
qed

lemma pair_emits:
  assumes at: "documented M L" "at_open cg0" "c < length (contexts m)" "opv M s r base = Some (VP (PLowered c kd))"
      "older (here cg0) (code_length cg0) base" "unat (i64 node_id) = nat node_id"
    and slot: "pair_slot period (nat node_id) (sts l) (xs l) (ys l)"
    and x: "older (here cg0) (code_length cg0) x" "opv M s r x = Some (VF a)"
      "older (here cg0) (code_length cg0) y" "opv M s r y = Some (VF b)"
    and push: "push = pair_lpush M period a b (sts l ! nat node_id) (xs l ! nat node_id) (ys l ! nat node_id)"
  shows "emits M L (EmitLoweredRollingPair M x y node_id period kind base) cg0 cg0 (with_state s r (put_low c l m))
    (case kind of Corr \<Rightarrow> corr_lvalue M period (fst push) | Beta \<Rightarrow> beta_lvalue M period (fst push))
    (put_low c (put l (nat node_id) (fst push) (fst (snd push)) (snd (snd push))) m)"
proof -
  from pair_push_runs [OF assms] obtain oc o1 o2 o3 o4 o5 k "is" r' m' where
    e: "pair_push base x y node_id period cg0 = (Inr (oc, o1, o2, o3, o4, o5), appends k is cg0)" "length is = k"
      "run_list M L (here cg0) (code_length cg0) 0 is (with_state s r (put_low c l m)) = Inr (with_state s r' m')"
      "kept (here cg0) (code_length cg0) k r r'"
      "m' = put_low c (put l (nat node_id) (fst push) (fst (snd push)) (snd (snd push))) m"
    and o: "list_all (older (here cg0) (code_length cg0 + k)) [oc, o1, o2, o3, o4, o5]"
      "opv M s r' oc = Some (VI (i64 (pl_count (fst push))))" "opv M s r' o1 = Some (VF (pl_sum_x (fst push)))"
      "opv M s r' o2 = Some (VF (pl_sum_y (fst push)))" "opv M s r' o3 = Some (VF (pl_sum_xy (fst push)))"
      "opv M s r' o4 = Some (VF (pl_sum_xx (fst push)))" "opv M s r' o5 = Some (VF (pl_sum_yy (fst push)))"
    by (auto simp: put_same)
  have "small (pl_count (fst push))" "small period"
    using pair_slotD [OF slot] by (simp_all add: push pair_lpush_def Let_def)
  moreover have "code_length (appends k is cg0) = code_length cg0 + k" using at(2) e(2) by simp
  ultimately show ?thesis
    unfolding EmitLoweredRollingPair_def e(5) [symmetric] using o at(1,2)
    by (intro emits_bind [where m = "pair_push base x y node_id period", OF at(2) e(1,2,3,4)] pair_value_emits) simp_all
qed

end

interpretation corr: pair_arrays CorrKind rolling_corr_lowered rolling_corr_x_lowered_buffers rolling_corr_y_lowered_buffers
  "\<lambda>l n st xb yb. l\<lparr>rolling_corr_x_lowered_buffers := (rolling_corr_x_lowered_buffers l)[n := xb],
     rolling_corr_y_lowered_buffers := (rolling_corr_y_lowered_buffers l)[n := yb],
     rolling_corr_lowered := (rolling_corr_lowered l)[n := st]\<rparr>"
  by unfold_locales (simp_all add: cells_at_def put_at_def option.map_comp comp_def)

interpretation beta: pair_arrays BetaKind rolling_beta_lowered rolling_beta_x_lowered_buffers rolling_beta_y_lowered_buffers
  "\<lambda>l n st xb yb. l\<lparr>rolling_beta_x_lowered_buffers := (rolling_beta_x_lowered_buffers l)[n := xb],
     rolling_beta_y_lowered_buffers := (rolling_beta_y_lowered_buffers l)[n := yb],
     rolling_beta_lowered := (rolling_beta_lowered l)[n := st]\<rparr>"
  by unfold_locales (simp_all add: cells_at_def put_at_def option.map_comp comp_def)

lemma rolling_corr_emits:
  assumes site: "site M L c CorrKind 10 node_id cg cg0 s m"
    and "pair_slot period (nat node_id) (rolling_corr_lowered l) (rolling_corr_x_lowered_buffers l) (rolling_corr_y_lowered_buffers l)"
    and "older (here cg0) (code_length cg0) x" "opv M s r x = Some (VF a)"
      "older (here cg0) (code_length cg0) y" "opv M s r y = Some (VF b)"
    and "push = pair_lpush M period a b (rolling_corr_lowered l ! nat node_id)
      (rolling_corr_x_lowered_buffers l ! nat node_id) (rolling_corr_y_lowered_buffers l ! nat node_id)"
  shows "emits M L (bindm GetRollingCorrBase (EmitLoweredRollingPair M x y node_id period Corr)) cg cg0
     (with_state s r (put_low c l m)) (corr_lvalue M period (fst push))
     (put_low c (l\<lparr>rolling_corr_x_lowered_buffers := (rolling_corr_x_lowered_buffers l)[nat node_id := fst (snd push)],
        rolling_corr_y_lowered_buffers := (rolling_corr_y_lowered_buffers l)[nat node_id := snd (snd push)],
        rolling_corr_lowered := (rolling_corr_lowered l)[nat node_id := fst push]\<rparr>) m)"
proof -
  note at = siteD [OF site]
  have "emits M L (EmitLoweredRollingPair M x y node_id period Corr (Hoisted 10)) cg0 cg0 (with_state s r (put_low c l m))
    (corr_lvalue M period (fst push))
    (put_low c (l\<lparr>rolling_corr_x_lowered_buffers := (rolling_corr_x_lowered_buffers l)[nat node_id := fst (snd push)],
        rolling_corr_y_lowered_buffers := (rolling_corr_y_lowered_buffers l)[nat node_id := snd (snd push)],
        rolling_corr_lowered := (rolling_corr_lowered l)[nat node_id := fst push]\<rparr>) m)"
    using corr.pair_emits [OF at(1-3) _ _ at(6) assms(2-7), of "Hoisted 10" Corr] at(4) by (simp add: older_def)
  then show ?thesis by (simp add: emits_def bindm_def base_getters at(5))
qed

lemma rolling_beta_emits:
  assumes site: "site M L c BetaKind 11 node_id cg cg0 s m"
    and "pair_slot period (nat node_id) (rolling_beta_lowered l) (rolling_beta_x_lowered_buffers l) (rolling_beta_y_lowered_buffers l)"
    and "older (here cg0) (code_length cg0) x" "opv M s r x = Some (VF a)"
      "older (here cg0) (code_length cg0) y" "opv M s r y = Some (VF b)"
    and "push = pair_lpush M period a b (rolling_beta_lowered l ! nat node_id)
      (rolling_beta_x_lowered_buffers l ! nat node_id) (rolling_beta_y_lowered_buffers l ! nat node_id)"
  shows "emits M L (bindm GetRollingBetaBase (EmitLoweredRollingPair M x y node_id period Beta)) cg cg0
     (with_state s r (put_low c l m)) (beta_lvalue M period (fst push))
     (put_low c (l\<lparr>rolling_beta_x_lowered_buffers := (rolling_beta_x_lowered_buffers l)[nat node_id := fst (snd push)],
        rolling_beta_y_lowered_buffers := (rolling_beta_y_lowered_buffers l)[nat node_id := snd (snd push)],
        rolling_beta_lowered := (rolling_beta_lowered l)[nat node_id := fst push]\<rparr>) m)"
proof -
  note at = siteD [OF site]
  have "emits M L (EmitLoweredRollingPair M x y node_id period Beta (Hoisted 11)) cg0 cg0 (with_state s r (put_low c l m))
    (beta_lvalue M period (fst push))
    (put_low c (l\<lparr>rolling_beta_x_lowered_buffers := (rolling_beta_x_lowered_buffers l)[nat node_id := fst (snd push)],
        rolling_beta_y_lowered_buffers := (rolling_beta_y_lowered_buffers l)[nat node_id := snd (snd push)],
        rolling_beta_lowered := (rolling_beta_lowered l)[nat node_id := fst push]\<rparr>) m)"
    using beta.pair_emits [OF at(1-3) _ _ at(6) assms(2-7), of "Hoisted 11" Beta] at(4) by (simp add: older_def)
  then show ?thesis by (simp add: emits_def bindm_def base_getters at(5))
qed

end
