(* ===== verification/Jit_Static.thy ===== *)
theory Jit_Static
  imports Jit_Low_Exec
begin

text \<open>
  What holds of every emission in scalar mode, whether the code it emits is reached or not: the code
  of the function grows, the insertion point stays in an open block, and the rest of the code
  generator is left alone. And what it means that emitted code runs to a value.
\<close>

section \<open>Emission in scalar mode\<close>

definition frame :: "'f codegen \<Rightarrow> 'f codegen \<Rightarrow> bool" where
  "frame cg cg' \<longleftrightarrow> cg' = cg\<lparr>blocks := blocks cg', here := here cg', hoisted_loads := hoisted_loads cg',
     base_cached := base_cached cg', entry_slots := entry_slots cg'\<rparr>"

lemma frame_refl: "frame cg cg"
  by (simp add: frame_def)

lemma frame_trans: "frame a b \<Longrightarrow> frame b c \<Longrightarrow> frame a c"
proof -
  assume 1: "frame a b" and 2: "frame b c"
  have "c = (a\<lparr>blocks := blocks b, here := here b, hoisted_loads := hoisted_loads b, base_cached := base_cached b,
      entry_slots := entry_slots b\<rparr>)
    \<lparr>blocks := blocks c, here := here c, hoisted_loads := hoisted_loads c, base_cached := base_cached c,
      entry_slots := entry_slots c\<rparr>"
    by (subst 1 [unfolded frame_def, symmetric]) (rule 2 [unfolded frame_def])
  then show "frame a c" by (simp add: frame_def)
qed

lemma frame_fields:
  assumes "frame cg cg'"
  shows "symbols cg' = symbols cg" "market_arg cg' = market_arg cg" "ctx_arg cg' = ctx_arg cg"
    "node_ids cg' = node_ids cg" "signal_values cg' = signal_values cg" "lowering cg' = lowering cg"
    "program_market_field_cache cg' = program_market_field_cache cg" "lane_count cg' = lane_count cg"
    "use_program_market_cache cg' = use_program_market_cache cg" "per_lane_scalar_emit cg' = per_lane_scalar_emit cg"
    "stateful_emit_cache cg' = stateful_emit_cache cg"
    "use_avx2 cg' = use_avx2 cg" "assume_warm cg' = assume_warm cg" "warm_safe_calls cg' = warm_safe_calls cg"
  by (subst assms [unfolded frame_def], simp)+

text \<open>Nodes carry their ids, windows are not assumed to be full, and the mean over four lanes is not
  in use.\<close>

definition plain_mode :: "'f codegen \<Rightarrow> bool" where
  "plain_mode cg \<longleftrightarrow> node_ids cg = Map.empty \<and> signal_values cg = Map.empty \<and> \<not> assume_warm cg \<and>
     (use_avx2 cg \<longrightarrow> HasFlag (lowering cg) kSma)"

definition good :: "'f codegen \<Rightarrow> bool" where
  "good cg \<longleftrightarrow> at_open cg \<and> scalar_mode cg \<and> set (hoisted_loads cg) \<subseteq> {..<12} \<and> plain_mode cg"

lemma goodD:
  assumes "good cg"
  shows "at_open cg" "scalar_mode cg" "set (hoisted_loads cg) \<subseteq> {..<12}" "plain_mode cg" "\<not> IsVectorized cg"
    "node_ids cg = Map.empty" "signal_values cg = Map.empty" "\<not> assume_warm cg" "use_avx2 cg \<longrightarrow> HasFlag (lowering cg) kSma"
  using assms by (auto simp: good_def plain_mode_def scalar_mode_def IsVectorized_def)

text \<open>Code is added to the current block and to new blocks, one of which may become the current
  one.\<close>

definition nearby :: "'f codegen \<Rightarrow> 'f codegen \<Rightarrow> bool" where
  "nearby cg cg' \<longleftrightarrow> (\<forall>l < length (blocks cg). l \<noteq> here cg \<longrightarrow> blocks cg' ! l = blocks cg ! l) \<and>
     (here cg' = here cg \<or> length (blocks cg) \<le> here cg')"

lemma nearby_refl: "nearby cg cg"
  by (simp add: nearby_def)

lemma nearby_trans: "nearby a b \<Longrightarrow> nearby b c \<Longrightarrow> length (blocks a) \<le> length (blocks b) \<Longrightarrow> nearby a c"
  by (force simp: nearby_def)

definition grows :: "'f codegen \<Rightarrow> 'f codegen \<Rightarrow> bool" where
  "grows cg cg' \<longleftrightarrow> good cg' \<and> extends cg cg' \<and> nearby cg cg' \<and> frame cg cg'"

lemma grows_refl: "good cg \<Longrightarrow> grows cg cg"
  by (simp add: grows_def frame_refl nearby_refl)

lemma extends_length: "extends a b \<Longrightarrow> length (blocks a) \<le> length (blocks b)"
  by (simp add: extends_def)

lemma grows_trans: "grows a b \<Longrightarrow> grows b c \<Longrightarrow> grows a c"
  unfolding grows_def by (blast intro: extends_trans frame_trans nearby_trans extends_length)

text \<open>Emitters that only add code.\<close>

named_theorems static_intro

text \<open>The quotes of the instruments in \<open>A\<close> are loaded.\<close>

definition loaded :: "nat set \<Rightarrow> 'f codegen \<Rightarrow> bool" where
  "loaded A cg \<longleftrightarrow> (\<forall>i\<in>A. \<forall>f\<in>{0, 1, 3}. MarketFieldCacheKey i f \<in> dom (program_market_field_cache cg))"

lemma loaded_grows: "grows cg cg' \<Longrightarrow> loaded A cg' = loaded A cg"
  using frame_fields(7) [of cg cg'] by (simp add: grows_def loaded_def)

definition static :: "nat set \<Rightarrow> ('f, 'a) emitter \<Rightarrow> bool" where
  "static A m \<longleftrightarrow> (\<forall>cg v cg'. good cg \<longrightarrow> loaded A cg \<longrightarrow> m cg = (Inr v, cg') \<longrightarrow> grows cg cg')"

lemma staticI: "(\<And>cg v cg'. good cg \<Longrightarrow> loaded A cg \<Longrightarrow> m cg = (Inr v, cg') \<Longrightarrow> grows cg cg') \<Longrightarrow> static A m"
  by (simp add: static_def)

lemma staticD: "static A m \<Longrightarrow> good cg \<Longrightarrow> loaded A cg \<Longrightarrow> m cg = (Inr v, cg') \<Longrightarrow> grows cg cg'"
  by (auto simp: static_def)

lemma static_ret [static_intro]: "static A (ret x)"
  by (simp add: static_def grows_refl)

lemma static_reading [static_intro]: "static A (reading f)"
  by (simp add: static_def grows_refl)

lemma static_throw [static_intro]: "static A (throw e)"
  by (simp add: static_def)

lemma static_lift [static_intro]: "static A (lift_result r)"
  by (auto simp: static_def grows_refl)

lemma static_bindm [static_intro]: "static A m \<Longrightarrow> (\<And>x. static A (f x)) \<Longrightarrow> static A (bindm m f)"
  unfolding static_def bindm_eq_Inr_iff by (metis grows_def grows_trans loaded_grows)

lemma static_if [static_intro]: "static A m \<Longrightarrow> static A m' \<Longrightarrow> static A (if b then m else m')"
  by simp

lemma static_prod [static_intro]: "(\<And>x y. static A (f x y)) \<Longrightarrow> static A (case p of (x, y) \<Rightarrow> f x y)"
  by (cases p) simp

lemma scalar_mode_blocks: "scalar_mode (cg\<lparr>blocks := bs\<rparr>) = scalar_mode cg"
  by (simp add: scalar_mode_def)

lemma static_instr [static_intro]: "static A (emit_instr i)"
proof (rule staticI)
  fix cg v cg' assume "good cg" and e: "emit_instr i cg = (Inr v, cg')"
  then have o: "at_open cg" "scalar_mode cg" "set (hoisted_loads cg) \<subseteq> {..<12}" "plain_mode cg" by (simp_all add: good_def)
  have "cg' = appends 1 [i] cg" using e emit_first [OF o(1), of i] by simp
  with o extends_appends [OF o(1), of 1 "[i]"] show "grows cg cg'"
    by (auto simp: grows_def nearby_def good_def frame_def appends_def scalar_mode_blocks at_open_def plain_mode_def)
qed

lemma hoist_grows: "good cg \<Longrightarrow> k < 12 \<Longrightarrow> grows cg (hoist k cg)"
  by (auto simp: grows_def nearby_def good_def frame_def hoist_def extends_def at_open_def scalar_mode_def plain_mode_def)

lemma static_base [static_intro]: "k < 12 \<Longrightarrow> static A (LoadLoweredBaseField k)"
proof (rule staticI)
  fix cg v cg' assume "k < 12" and "good cg" and "LoadLoweredBaseField k cg = (Inr v, cg')"
  then show "grows cg cg'"
    using hoist_grows LoadLoweredBaseField_hoists(2) [of cg k v cg'] by (auto simp: good_def)
qed

lemma static_market [static_intro]:
  assumes "i \<in> A" and "f \<in> {0, 1, 3}"
  shows "static A (EmitMarketFieldLoad i f)"
proof (rule staticI)
  fix cg v cg' assume g: "good cg" and l: "loaded A cg" and e: "EmitMarketFieldLoad i f cg = (Inr v, cg')"
  from l assms obtain w where "program_market_field_cache cg (MarketFieldCacheKey i f) = Some w" by (auto simp: loaded_def)
  with g e market_hit(1) [of cg i f w] have "cg' = cg" by (simp add: good_def scalar_mode_def)
  with g show "grows cg cg'" by (simp add: grows_refl)
qed

lemma static_vwap [static_intro]: "i \<in> A \<Longrightarrow> static A (EmitLoweredVwap M i n p)"
  unfolding EmitLoweredVwap_def vwap_push_def state_pointer_def next_head_def base_getters
  by (intro static_intro; simp)

lemma static_straight [static_intro]:
  "static A (EmitLoweredSma M p x i n)" "static A (EmitLoweredEma M p x i n)" "static A (EmitLoweredLag M p x i n)"
  "static A (EmitLoweredRollingStd M p x i n)" "static A (EmitLoweredZscore M p x i n)"
  "static A (EmitLoweredRollingPair M x y i n kind base)"
  unfolding EmitLoweredSma_def EmitLoweredEma_def EmitLoweredLag_def EmitLoweredRollingStd_def EmitLoweredZscore_def
    EmitLoweredRollingPair_def pair_push_def pair_value_def emit_ring_push_def emit_stddev_def is_warm_def
    state_pointer_def next_head_def base_getters load_sum_def maybe_sub_def store_sum_def
  by (intro static_intro; simp)+

section \<open>Code that runs to a value\<close>

definition positions :: "'f codegen \<Rightarrow> (nat \<times> nat) set" where
  "positions cg = {(l, i). l < length (blocks cg) \<and> i < length (code (blocks cg ! l))}"

definition results_grow :: "'f codegen \<Rightarrow> (nat \<times> nat \<rightharpoonup> 'f rval) \<Rightarrow> 'f codegen \<Rightarrow> (nat \<times> nat \<rightharpoonup> 'f rval) \<Rightarrow> bool" where
  "results_grow cg r cg' r' \<longleftrightarrow> (\<forall>q. r' q \<noteq> r q \<longrightarrow> q \<in> positions cg' \<and> q \<notin> positions cg)"

text \<open>The code between \<open>cg\<close> and \<open>cg'\<close>, in any function that contains it, leads to a state where the
  operand \<open>v\<close> has the value \<open>x\<close> and the memory is \<open>mm\<close>; earlier results keep their values.\<close>

definition runs ::
    "'f machine \<Rightarrow> 'f target \<Rightarrow> 'f codegen \<Rightarrow> 'f codegen \<Rightarrow> 'f exec \<Rightarrow> 'f operand \<Rightarrow> 'f codegen \<Rightarrow> 'f \<Rightarrow> 'f memory \<Rightarrow> bool" where
  "runs M L P cg s v cg' x mm \<longleftrightarrow>
     (\<exists>r q. steps M L (blocks P) (point cg, s) (point cg', with_state (s\<lparr>pred := q\<rparr>) r mm) \<and>
        opv M s r v = Some (VF x) \<and> results_grow cg (regs s) cg' r)"

lemma positions_mono:
  assumes "extends cg cg'"
  shows "positions cg \<subseteq> positions cg'"
proof
  fix q assume "q \<in> positions cg"
  then obtain l i where q: "q = (l, i)" "l < length (blocks cg)" "i < length (code (blocks cg ! l))"
    by (auto simp: positions_def)
  with assms have "block_ext (blocks cg ! l) (blocks cg' ! l)" "l < length (blocks cg')" by (auto simp: extends_def)
  with q show "q \<in> positions cg'"
    by (auto simp: positions_def block_ext_def split: if_splits dest: prefix_length_le)
qed

lemma results_grow_refl: "results_grow cg r cg' r"
  by (simp add: results_grow_def)

lemma results_grow_trans:
  assumes "results_grow a r b r'" and "results_grow b r' c r''" and "extends a b" and "extends b c"
  shows "results_grow a r c r''"
proof -
  have "positions a \<subseteq> positions b" "positions b \<subseteq> positions c" using assms(3,4) by (simp_all add: positions_mono)
  then show ?thesis using assms(1,2) unfolding results_grow_def by (metis subsetD)
qed

lemma opv_pred [simp]: "opv M (s\<lparr>pred := q\<rparr>) r a = opv M s r a"
  by (cases a) simp_all

lemma opv_with_state [simp]: "opv M (with_state s r0 m) r a = opv M s r a"
  by (cases a) simp_all

lemma with_state_twice [simp]: "with_state (with_state s r m) r' m' = with_state s r' m'"
  "(with_state s r m)\<lparr>pred := q\<rparr> = with_state (s\<lparr>pred := q\<rparr>) r m"
  by (simp_all add: with_state_def)

lemma emits_runs:
  assumes "emits M L m cg cg0 s x mm" and "m cg = (Inr v, cg')" and "extends cg' P"
    and "at_open cg0" and "blocks cg0 = blocks cg" "here cg0 = here cg"
  shows "runs M L P cg s v cg' x mm"
proof -
  from assms(1,2) obtain k "is" r where e: "cg' = appends k is cg0" "length is = k"
      "run_list M L (here cg0) (code_length cg0) 0 is s = Inr (with_state s r mm)"
      "opv M s r v = Some (VF x)" "kept (here cg0) (code_length cg0) k (regs s) r"
    by (auto simp: emits_def)
  have "steps M L (blocks P) (point cg0, s) (point cg', with_state s r mm)"
    using appends_steps [OF assms(4), of k "is" P M L s] e assms(3) by simp
  moreover have "point cg0 = point cg" using assms(5,6) by (simp add: point_def)
  moreover have "results_grow cg (regs s) cg' r"
  proof -
    have "fst q = here cg \<and> code_length cg \<le> snd q \<and> snd q < code_length cg + k" if "r q \<noteq> regs s q" for q
      using e(5) that unfolding kept_def assms(5,6) by blast
    moreover have "here cg < length (blocks cg)" "blocks cg' = (blocks cg)[here cg := (blocks cg ! here cg)\<lparr>code := code (blocks cg ! here cg) @ is\<rparr>]"
      using e(1) assms(4-6) by (auto simp: appends_def at_open_def)
    ultimately show ?thesis using e(2) by (fastforce simp: results_grow_def positions_def)
  qed
  moreover have "with_state s r mm = with_state (s\<lparr>pred := pred s\<rparr>) r mm" by simp
  ultimately show ?thesis unfolding runs_def using e(4) by metis
qed

end
