(* ===== verification/Jit_Blocks.thy ===== *)
theory Jit_Blocks
  imports Jit_Static
begin

text \<open>
  Code that branches: the current block is closed and new blocks follow. The crossings, the Kalman
  filter and the monotonic deques are emitted this way.
\<close>

section \<open>New blocks behind the current code\<close>

definition blk :: "'f codegen \<Rightarrow> nat \<Rightarrow> nat" where
  "blk cg j = length (blocks cg) + j"

definition forked ::
    "'f instr list \<Rightarrow> 'f terminator option \<Rightarrow> 'f block list \<Rightarrow> nat \<Rightarrow> 'f codegen \<Rightarrow> 'f codegen" where
  "forked is t news h cg = cg\<lparr>blocks := (blocks cg)[here cg := \<lparr>code = code (blocks cg ! here cg) @ is, final = t\<rparr>] @ news,
     here := h\<rparr>"

lemma blk_eq [simp]: "blk cg i = blk cg j \<longleftrightarrow> i = j"
  by (simp add: blk_def)

lemma here_blk [simp]: "at_open cg \<Longrightarrow> here cg \<noteq> blk cg j" "at_open cg \<Longrightarrow> blk cg j \<noteq> here cg"
  by (auto simp: blk_def at_open_def)

lemma open_block: "final b = None \<Longrightarrow> \<lparr>code = code b, final = None\<rparr> = b" "final b = None \<Longrightarrow> b\<lparr>code := c\<rparr> = \<lparr>code = c, final = None\<rparr>"
  by (cases b; simp)+

lemma fork_start:
  assumes "at_open cg"
  shows "CreateBlock (appends k is cg) = (Inr (blk cg 0), forked is None [\<lparr>code = [], final = None\<rparr>] (here cg) cg)"
    and "CreateBlock cg = (Inr (blk cg 0), forked [] None [\<lparr>code = [], final = None\<rparr>] (here cg) cg)"
  using assms by (simp_all add: CreateBlock_def appends_def forked_def blk_def at_open_def open_block)

lemma fork_create:
  "CreateBlock (forked is t news h cg) = (Inr (blk cg (length news)), forked is t (news @ [\<lparr>code = [], final = None\<rparr>]) h cg)"
  by (simp add: CreateBlock_def forked_def blk_def)

lemma fork_insert: "SetInsertPoint l (forked is t news h cg) = (Inr (), forked is t news l cg)"
  by (simp add: SetInsertPoint_def forked_def)

lemma fork_here: "here (forked is t news h cg) = h"
  by (simp add: forked_def)

lemma fork_final:
  "at_open cg \<Longrightarrow> set_final t (forked is None news (here cg) cg) = (Inr (), forked is (Some t) news (here cg) cg)"
  by (simp add: set_final_def forked_def at_open_def nth_append list_update_append)

lemma fork_final_new:
  "j < length news \<Longrightarrow> set_final t (forked is u news (blk cg j) cg) =
     (Inr (), forked is u (news[j := (news ! j)\<lparr>final := Some t\<rparr>]) (blk cg j) cg)"
  by (simp add: set_final_def forked_def blk_def nth_append list_update_append)

lemma fork_emit:
  "at_open cg \<Longrightarrow> emit_instr i (forked is None news (here cg) cg) =
     (Inr (Reg (here cg) (pos (code_length cg) (length is))), forked (is @ [i]) None news (here cg) cg)"
  by (simp add: emit_instr_def append_code_def forked_def at_open_def nth_append list_update_append pos_def)

lemma fork_emit_new:
  "j < length news \<Longrightarrow> emit_instr i (forked is u news (blk cg j) cg) =
     (Inr (Reg (blk cg j) (length (code (news ! j)))),
      forked is u (news[j := (news ! j)\<lparr>code := code (news ! j) @ [i]\<rparr>]) (blk cg j) cg)"
  by (simp add: emit_instr_def append_code_def forked_def blk_def nth_append list_update_append)

text \<open>A forked generator extends the one it came from, and a function that extends it contains its
  blocks.\<close>

lemma fork_grows:
  assumes "good cg" and "j < length news" and "final (news ! j) = None"
  shows "grows cg (forked is t news (blk cg j) cg)"
proof -
  have "extends cg (forked is t news (blk cg j) cg)"
    using assms(1) by (auto simp: extends_def forked_def good_def at_open_def nth_append nth_list_update block_ext_def)
  moreover have "good (forked is t news (blk cg j) cg)"
    using assms by (auto simp: good_def at_open_def scalar_mode_def plain_mode_def forked_def blk_def nth_append)
  moreover have "frame cg (forked is t news (blk cg j) cg)" by (simp add: frame_def forked_def)
  moreover have "nearby cg (forked is t news (blk cg j) cg)"
    by (auto simp: nearby_def forked_def blk_def nth_append)
  ultimately show ?thesis by (simp add: grows_def)
qed

lemma fork_blocks:
  assumes "extends (forked is t news h cg) P" and "at_open cg"
  shows "here cg < length (blocks P)" "block_ext \<lparr>code = code (blocks cg ! here cg) @ is, final = t\<rparr> (blocks P ! here cg)"
    and "j < length news \<Longrightarrow> blk cg j < length (blocks P)"
    and "j < length news \<Longrightarrow> block_ext (news ! j) (blocks P ! blk cg j)"
proof -
  have "length (blocks cg) + length news \<le> length (blocks P)"
    and e: "\<And>l. l < length (blocks cg) + length news \<Longrightarrow>
      block_ext (((blocks cg)[here cg := \<lparr>code = code (blocks cg ! here cg) @ is, final = t\<rparr>] @ news) ! l) (blocks P ! l)"
    using assms(1) by (auto simp: extends_def forked_def)
  then show "here cg < length (blocks P)" "j < length news \<Longrightarrow> blk cg j < length (blocks P)"
    using assms(2) by (auto simp: at_open_def blk_def)
  show "block_ext \<lparr>code = code (blocks cg ! here cg) @ is, final = t\<rparr> (blocks P ! here cg)"
    using e [of "here cg"] assms(2) by (simp add: at_open_def nth_append)
  show "j < length news \<Longrightarrow> block_ext (news ! j) (blocks P ! blk cg j)"
    using e [of "blk cg j"] by (simp add: blk_def nth_append)
qed

section \<open>Runs through blocks\<close>

lemma steps_one: "step M L P c = Inr c' \<Longrightarrow> steps M L P c c'"
  by (auto intro: steps.intros)

text \<open>The rest of a block, and the branch at its end.\<close>

lemma block_steps:
  assumes "l < length P" and "block_ext \<lparr>code = pre @ is, final = Some t\<rparr> (P ! l)"
    and "run_list M L l (length pre) 0 is s = Inr s'" and "branch M l s' t = Inr c"
  shows "steps M L P (At l (length pre), s) c"
proof -
  have b: "P ! l = \<lparr>code = pre @ is, final = Some t\<rparr>" using assms(2) by (simp add: block_ext_def)
  have "steps M L P (At l (length pre + 0), s) (At l (length pre + 0 + length is), s')"
    by (rule run_list_steps [OF assms(3,1)]) (simp_all add: b)
  moreover have "step M L P (At l (length pre + length is), s') = Inr c"
    using assms(1,4) by (simp add: block_at_def b)
  then have "steps M L P (At l (length pre + length is), s') c" by (rule steps_one)
  ultimately show ?thesis by (auto intro: steps_trans)
qed

lemma whole_block_steps:
  assumes "l < length P" and "block_ext \<lparr>code = is, final = Some t\<rparr> (P ! l)"
    and "run_list M L l 0 0 is s = Inr s'" and "branch M l s' t = Inr c"
  shows "steps M L P (At l 0, s) c"
  using block_steps [of l P "[]"] assms by simp

lemma open_steps:
  assumes "l < length P" and "block_ext \<lparr>code = is, final = None\<rparr> (P ! l)"
    and "run_list M L l 0 0 is s = Inr s'"
  shows "steps M L P (At l 0, s) (At l (length is), s')"
proof -
  have "prefix ([] @ is) (code (P ! l))" using assms(2) by (simp add: block_ext_def)
  from run_list_steps [OF assms(3,1) this] show ?thesis by simp
qed

lemma pos_0 [simp]: "pos 0 k = k"
  by (simp add: pos_def)

text \<open>Operands from before the fork.\<close>

definition old :: "'f codegen \<Rightarrow> 'f operand \<Rightarrow> bool" where
  "old cg a \<longleftrightarrow> (case a of Reg l i \<Rightarrow> (l, i) \<in> positions cg | _ \<Rightarrow> True)"

lemma old_older: "old cg a \<Longrightarrow> older (here cg) (code_length cg) a"
  by (auto simp: old_def older_def positions_def split: operand.splits)

lemma opv_old [simp]: "old cg a \<Longrightarrow> opv M s (r((blk cg j, k) \<mapsto> v)) a = opv M s r a"
  by (cases a) (auto simp: old_def positions_def blk_def)

lemma opv_old_here [simp]: "old cg a \<Longrightarrow> opv M s (r((here cg, pos (code_length cg) k) \<mapsto> v)) a = opv M s r a"
  by (simp add: old_older)

text \<open>Code that forks in two blocks which meet in a third.\<close>

lemma diamond_steps:
  assumes "extends (forked is (Some (CondBr c (blk cg t) (blk cg e))) news (blk cg m) cg) P" and "at_open cg"
    and "run_list M L (here cg) (code_length cg) 0 is s = Inr s1" and "operand_value M s1 c = Some (VB b)"
    and "j = (if b then t else e)" and "j < length news" and "news ! j = \<lparr>code = cs, final = Some (Br (blk cg m))\<rparr>"
    and "run_list M L (blk cg j) 0 0 cs (s1\<lparr>pred := here cg\<rparr>) = Inr s2"
    and "m < length news" and "news ! m = \<lparr>code = ms, final = None\<rparr>"
    and "run_list M L (blk cg m) 0 0 ms (s2\<lparr>pred := blk cg j\<rparr>) = Inr s3"
  shows "steps M L (blocks P) (point cg, s) (At (blk cg m) (length ms), s3)"
proof -
  note P = fork_blocks [OF assms(1,2)]
  have "steps M L (blocks P) (At (here cg) (code_length cg), s) (At (blk cg j) 0, s1\<lparr>pred := here cg\<rparr>)"
    by (rule block_steps [OF P(1,2) assms(3)]) (simp add: assms(4,5))
  moreover have "steps M L (blocks P) (At (blk cg j) 0, s1\<lparr>pred := here cg\<rparr>) (At (blk cg m) 0, s2\<lparr>pred := blk cg j\<rparr>)"
    by (rule whole_block_steps [OF P(3) [OF assms(6)] P(4) [OF assms(6), unfolded assms(7)] assms(8)]) simp
  moreover have "steps M L (blocks P) (At (blk cg m) 0, s2\<lparr>pred := blk cg j\<rparr>) (At (blk cg m) (length ms), s3)"
    by (rule open_steps [OF P(3) [OF assms(9)] P(4) [OF assms(9), unfolded assms(10)] assms(11)])
  ultimately show ?thesis unfolding point_def by (blast intro: steps_trans)
qed

lemma fork_point: "j < length news \<Longrightarrow> point (forked is t news (blk cg j) cg) = At (blk cg j) (length (code (news ! j)))"
  by (simp add: point_def forked_def blk_def nth_append)

lemma results_update:
  "q \<in> positions cg' \<Longrightarrow> q \<notin> positions cg \<Longrightarrow> results_grow cg r cg' r' \<Longrightarrow> results_grow cg r cg' (r'(q \<mapsto> v))"
  by (simp add: results_grow_def)

lemma fork_results_here:
  assumes "at_open cg" and "k < length is" and "results_grow cg r (forked is t news h cg) r'"
  shows "results_grow cg r (forked is t news h cg) (r'((here cg, pos (code_length cg) k) \<mapsto> v))"
  by (rule results_update [OF _ _ assms(3)])
    (use assms(1,2) in \<open>simp_all add: positions_def forked_def at_open_def nth_append pos_def\<close>)

lemma fork_results_new:
  assumes "j < length news" and "k < length (code (news ! j))" and "results_grow cg r (forked is t news h cg) r'"
  shows "results_grow cg r (forked is t news h cg) (r'((blk cg j, k) \<mapsto> v))"
  by (rule results_update [OF _ _ assms(3)])
    (use assms(1,2) in \<open>simp_all add: positions_def forked_def nth_append blk_def\<close>)

lemma diamond_runs:
  assumes "cg' = forked is (Some (CondBr c (blk cg t) (blk cg e))) news (blk cg k) cg" and "extends cg' P" and "at_open cg"
    and "run_list M L (here cg) (code_length cg) 0 is (with_state s r m) = Inr (with_state s r1 m1)"
    and "opv M s r1 c = Some (VB b)" and "j = (if b then t else e)"
    and "j < length news" and "news ! j = \<lparr>code = cs, final = Some (Br (blk cg k))\<rparr>"
    and "run_list M L (blk cg j) 0 0 cs (with_state (s\<lparr>pred := here cg\<rparr>) r1 m1) = Inr (with_state (s\<lparr>pred := here cg\<rparr>) r2 m2)"
    and "k < length news" and "news ! k = \<lparr>code = ms, final = None\<rparr>"
    and "run_list M L (blk cg k) 0 0 ms (with_state (s\<lparr>pred := blk cg j\<rparr>) r2 m2) = Inr (with_state (s\<lparr>pred := blk cg j\<rparr>) r3 m3)"
    and "opv M s r3 v = Some (VF x)" and "results_grow cg r cg' r3" and "m3 = mm"
  shows "runs M L P cg (with_state s r m) v cg' x mm"
proof -
  have "steps M L (blocks P) (point cg, with_state s r m)
      (At (blk cg k) (length ms), with_state (s\<lparr>pred := blk cg j\<rparr>) r3 m3)"
    by (rule diamond_steps [OF assms(2) [unfolded assms(1)] assms(3,4) _ assms(6-8), where ?s2.0 = "with_state (s\<lparr>pred := here cg\<rparr>) r2 m2"])
      (use assms(5,9-12) in simp_all)
  moreover have "point cg' = At (blk cg k) (length ms)"
    using assms(10,11) by (simp add: assms(1) fork_point)
  ultimately show ?thesis using assms(13-15) by (auto simp: runs_def)
qed

section \<open>Crossings\<close>

lemmas fork_simps = fork_create fork_insert fork_final_new fork_emit_new fork_here

lemma list_numeral:
  "(x # xs) ! numeral v = xs ! pred_numeral v" "(x # xs)[numeral v := y] = x # xs[pred_numeral v := y]"
  "(x # xs)[0 := y] = y # xs"
  by (simp_all add: numeral_eq_Suc)

lemmas fork_emission = emission sum.case nth_Cons_0 nth_Cons_Suc list_numeral pred_numeral_simps Num.BitM.simps
  block.simps add_Suc_right add_0_right zero_less_Suc Suc_less_eq zero_less_numeral less_numeral_extra numeral_One [symmetric]



text \<open>The code of a crossing, as a listing: up to the branch, the first tick, a later tick, and the
  join.\<close>

abbreviation hd_reg :: "'f codegen \<Rightarrow> nat \<Rightarrow> 'f operand" where
  "hd_reg cg k \<equiv> Reg (here cg) (pos (code_length cg) k)"

definition cross_head :: "'f codegen \<Rightarrow> int \<Rightarrow> 'f instr list" where
  "cross_head cg node_id =
     [GEP (Hoisted 7) (ConstI64 node_id), StructGEP (hd_reg cg 0) 0, StructGEP (hd_reg cg 0) 1,
      StructGEP (hd_reg cg 0) 2, Load I64 (hd_reg cg 3), Op (ICmpOp INE) [hd_reg cg 4, ConstI64 0]]"

definition cross_blocks :: "'f machine \<Rightarrow> 'f codegen \<Rightarrow> CrossKind \<Rightarrow> 'f operand \<Rightarrow> 'f operand \<Rightarrow> 'f block list" where
  "cross_blocks M cg kind a b =
     [\<lparr>code = [Store a (hd_reg cg 1), Store b (hd_reg cg 2), Store (ConstI64 1) (hd_reg cg 3)],
       final = Some (Br (blk cg 2))\<rparr>,
      \<lparr>code =
         [Load F64 (hd_reg cg 1), Load F64 (hd_reg cg 2),
          Op (FCmpOp (if kind = Above then OLE else OGE)) [Reg (blk cg 1) 0, Reg (blk cg 1) 1],
          Op (FCmpOp (if kind = Above then OGT else OLT)) [a, b],
          Op IAndOp [Reg (blk cg 1) 2, Reg (blk cg 1) 3],
          Store a (hd_reg cg 1), Store b (hd_reg cg 2),
          Op SelectOp [Reg (blk cg 1) 4, ConstFP (dlit M 1), ConstFP (dlit M 0)]],
       final = Some (Br (blk cg 2))\<rparr>,
      \<lparr>code = [Phi [(ConstFP (dlit M 0), blk cg 0), (Reg (blk cg 1) 7, blk cg 1)]], final = None\<rparr>]"

lemma EmitLoweredCross_code:
  assumes o: "at_open cg0" and b: "LoadLoweredBaseField 7 cg = (Inr (Hoisted 7), cg0)"
  shows "EmitLoweredCross M xa xb node_id kind cg = (Inr (Reg (blk cg0 2) 0),
     forked (cross_head cg0 node_id) (Some (CondBr (hd_reg cg0 5) (blk cg0 1) (blk cg0 0)))
       (cross_blocks M cg0 kind xa xb) (blk cg0 2) cg0)"
  by (cases kind; simp only: EmitLoweredCross_def emit_crossed_def fork_emission CrossKind.distinct b emit_first [OF o]
      emit_appends [OF o] fork_start [OF o] fork_final [OF o] fork_simps cong: if_cong;
    simp add: cross_head_def cross_blocks_def)

lemma cross_lstep_steady:
  "cl_initialized st = 1 \<Longrightarrow> snd (cross_lstep M up a b st) = st\<lparr>cl_prev_a := a, cl_prev_b := b\<rparr>"
  by (cases st) (simp add: cross_lstep_def Let_def)

lemma cross_runs:
  assumes site: "site M L c CrossKind 7 node_id cg cg0 s m" and "cross_slot (nat node_id) l"
    and x: "old cg0 xa" "opv M s r xa = Some (VF a)" "old cg0 xb" "opv M s r xb = Some (VF b)"
    and e: "EmitLoweredCross M xa xb node_id kind cg = (Inr v, cg')" and P: "extends cg' P"
    and step: "push = cross_lstep M (kind = Above) a b (cross_lowered l ! nat node_id)"
  shows "runs M L P cg0 (with_state s r (put_low c l m)) v cg' (fst push)
    (put_low c (l\<lparr>cross_lowered := (cross_lowered l)[nat node_id := snd push]\<rparr>) m)"
proof -
  note at = siteD [OF site]
  let ?st = "cross_lowered l ! nat node_id"
  have sl: "nat node_id < length (cross_lowered l)" "small (cl_initialized ?st)" "small 0" "small 1"
    using assms(2) by (auto simp: cross_slot_def small_def)
  have cg': "v = Reg (blk cg0 2) 0" "cg' = forked (cross_head cg0 node_id) (Some (CondBr (hd_reg cg0 5) (blk cg0 1) (blk cg0 0)))
       (cross_blocks M cg0 kind xa xb) (blk cg0 2) cg0"
    using e EmitLoweredCross_code [OF at(2,5)] by simp_all
  note sim = at x sl documented_op [OF at(1)] execution cross_cells_def cross_put_def cross_head_def cross_blocks_def
  show ?thesis
  proof (cases "cl_initialized ?st = 0")
    case True
    show ?thesis
      apply (rule diamond_runs [where j = 0 and b = False, OF cg'(2) P at(2)])
      apply (simp add: sim True cong: rbind_first del: One_nat_def add_2_eq_Suc add_2_eq_Suc')
      apply simp
      apply simp
      apply (simp add: cross_blocks_def)
      apply (simp add: cross_blocks_def)
      apply (simp add: sim True cong: rbind_first del: One_nat_def add_2_eq_Suc add_2_eq_Suc')
      apply (simp add: cross_blocks_def)
      apply (simp add: cross_blocks_def)
      apply (simp add: sim True cong: rbind_first del: One_nat_def add_2_eq_Suc add_2_eq_Suc')
      apply (cases kind; simp add: cg'(1) step cross_lstep_def Let_def True)
      subgoal unfolding cg'(2) cross_head_def by (intro fork_results_here [OF at(2)] fork_results_new results_grow_refl; simp add: cross_blocks_def)
      apply (simp add: step cross_lstep_def Let_def)
      done
  next
    case False
    then have one: "cl_initialized ?st = 1" using assms(2) by (simp add: cross_slot_def)
    show ?thesis
      apply (rule diamond_runs [where j = 1 and b = True, OF cg'(2) P at(2)])
      apply (simp add: sim False cong: rbind_first del: One_nat_def add_2_eq_Suc add_2_eq_Suc')
      apply simp
      apply simp
      apply (simp add: cross_blocks_def)
      apply (simp add: cross_blocks_def)
      apply (simp add: sim False cong: rbind_first del: One_nat_def add_2_eq_Suc add_2_eq_Suc')
      apply (simp add: cross_blocks_def)
      apply (simp add: cross_blocks_def)
      apply (simp add: sim False cong: rbind_first del: One_nat_def add_2_eq_Suc add_2_eq_Suc')
      apply (cases kind; simp add: cg'(1) step cross_lstep_def Let_def False)
      subgoal unfolding cg'(2) cross_head_def by (intro fork_results_here [OF at(2)] fork_results_new results_grow_refl; simp add: cross_blocks_def)
      apply (simp add: step cross_lstep_steady one)
      done
  qed
qed
section \<open>The Kalman filter\<close>

definition kalman_head :: "'f codegen \<Rightarrow> int \<Rightarrow> 'f instr list" where
  "kalman_head cg node_id =
     [GEP (Hoisted 8) (ConstI64 node_id), StructGEP (hd_reg cg 0) 0, StructGEP (hd_reg cg 0) 1,
      StructGEP (hd_reg cg 0) 2, Load I64 (hd_reg cg 3), Op (ICmpOp INE) [hd_reg cg 4, ConstI64 0]]"

definition kalman_blocks :: "'f machine \<Rightarrow> 'f codegen \<Rightarrow> 'f operand \<Rightarrow> 'f \<Rightarrow> 'f \<Rightarrow> 'f block list" where
  "kalman_blocks M cg x q r =
     (let u = Reg (blk cg 1); zero = ConstFP (dlit M 0)
      in [\<lparr>code = [Store x (hd_reg cg 1), Store (ConstFP r) (hd_reg cg 2), Store (ConstI64 1) (hd_reg cg 3)],
           final = Some (Br (blk cg 2))\<rparr>,
          \<lparr>code =
             [Load F64 (hd_reg cg 1), Load F64 (hd_reg cg 2), Op FAddOp [u 1, ConstFP q], Op FAddOp [u 2, ConstFP r],
              Op (FCmpOp OGT) [u 3, zero], Op FDivOp [u 2, u 3], Op FSubOp [x, u 0], Op FMulOp [u 5, u 6],
              Op FAddOp [u 0, u 7], Op FSubOp [ConstFP (dlit M 1), u 5], Op FMulOp [u 9, u 2],
              Op (FCmpOp OLT) [u 10, zero], Op SelectOp [u 11, zero, u 10], Op SelectOp [u 4, u 8, u 0],
              Store (u 13) (hd_reg cg 1), Op SelectOp [u 4, u 12, u 1], Store (u 15) (hd_reg cg 2)],
           final = Some (Br (blk cg 2))\<rparr>,
          \<lparr>code = [Phi [(x, blk cg 0), (u 13, blk cg 1)]], final = None\<rparr>])"

lemma EmitLoweredKalman1d_code:
  assumes o: "at_open cg0" and b: "LoadLoweredBaseField 8 cg = (Inr (Hoisted 8), cg0)"
  shows "EmitLoweredKalman1d M x node_id q r cg = (Inr (Reg (blk cg0 2) 0),
     forked (kalman_head cg0 node_id) (Some (CondBr (hd_reg cg0 5) (blk cg0 1) (blk cg0 0)))
       (kalman_blocks M cg0 x q r) (blk cg0 2) cg0)"
  by (simp only: EmitLoweredKalman1d_def emit_kalman_update_def fork_emission b emit_first [OF o]
      emit_appends [OF o] fork_start [OF o] fork_final [OF o] fork_simps cong: if_cong)
    (simp add: kalman_head_def kalman_blocks_def Let_def)

lemma kalman_runs:
  assumes site: "site M L c KalmanKind 8 node_id cg cg0 s m" and "kalman_slot (nat node_id) l"
    and x: "old cg0 x" "opv M s r x = Some (VF a)"
    and e: "EmitLoweredKalman1d M x node_id q var cg = (Inr v, cg')" and P: "extends cg' P"
    and step: "push = kalman_lstep M a q var (kalman1d_lowered l ! nat node_id)"
  shows "runs M L P cg0 (with_state s r (put_low c l m)) v cg' (fst push)
    (put_low c (l\<lparr>kalman1d_lowered := (kalman1d_lowered l)[nat node_id := snd push]\<rparr>) m)"
proof -
  note at = siteD [OF site]
  let ?st = "kalman1d_lowered l ! nat node_id"
  have sl: "nat node_id < length (kalman1d_lowered l)" "small (kl_initialized ?st)" "small 0" "small 1"
    using assms(2) by (auto simp: kalman_slot_def small_def)
  have cg': "v = Reg (blk cg0 2) 0" "cg' = forked (kalman_head cg0 node_id) (Some (CondBr (hd_reg cg0 5) (blk cg0 1) (blk cg0 0)))
       (kalman_blocks M cg0 x q var) (blk cg0 2) cg0"
    using e EmitLoweredKalman1d_code [OF at(2,5)] by simp_all
  note sim = at x sl documented_op [OF at(1)] execution kalman_cells_def kalman_put_def kalman_head_def kalman_blocks_def Let_def
  show ?thesis
  proof (cases "kl_initialized ?st = 0")
    case True
    show ?thesis
      apply (rule diamond_runs [where j = 0 and b = False, OF cg'(2) P at(2)])
      apply (simp add: sim True cong: rbind_first del: One_nat_def add_2_eq_Suc add_2_eq_Suc')
      apply simp
      apply simp
      apply (simp add: kalman_blocks_def Let_def)
      apply (simp add: kalman_blocks_def Let_def)
      apply (simp add: sim True cong: rbind_first del: One_nat_def add_2_eq_Suc add_2_eq_Suc')
      apply (simp add: kalman_blocks_def Let_def)
      apply (simp add: kalman_blocks_def Let_def)
      apply (simp add: sim True cong: rbind_first del: One_nat_def add_2_eq_Suc add_2_eq_Suc')
      apply (simp add: cg'(1) step kalman_lstep_def Let_def True x)
      subgoal unfolding cg'(2) kalman_head_def
        by (intro fork_results_here [OF at(2)] fork_results_new results_grow_refl; simp add: kalman_blocks_def Let_def)
      apply (simp add: step kalman_lstep_def Let_def True)
      done
  next
    case False
    show ?thesis
      apply (rule diamond_runs [where j = 1 and b = True, OF cg'(2) P at(2)])
      apply (simp add: sim False cong: rbind_first del: One_nat_def add_2_eq_Suc add_2_eq_Suc')
      apply simp
      apply simp
      apply (simp add: kalman_blocks_def Let_def)
      apply (simp add: kalman_blocks_def Let_def)
      apply (simp add: sim False cong: rbind_first del: One_nat_def add_2_eq_Suc add_2_eq_Suc' split del: if_split)
      apply (simp add: kalman_blocks_def Let_def)
      apply (simp add: kalman_blocks_def Let_def)
      apply (simp add: sim False cong: rbind_first del: One_nat_def add_2_eq_Suc add_2_eq_Suc' split del: if_split)
      apply (simp add: cg'(1) step kalman_lstep_def Let_def False)
      subgoal unfolding cg'(2) kalman_head_def
        by (intro fork_results_here [OF at(2)] fork_results_new results_grow_refl; simp add: kalman_blocks_def Let_def)
      apply (simp add: step kalman_lstep_def Let_def False)
      done
  qed
qed

text \<open>Both emitters only add code.\<close>

lemma base_loaded:
  assumes "good cg" and "bindm (LoadLoweredBaseField k) f cg = (Inr v, cg')"
  shows "LoadLoweredBaseField k cg = (Inr (Hoisted k), hoist k cg)"
  using assms LoadLoweredBaseField_hoists [of cg k] by (auto simp: bindm_eq_Inr_iff good_def)

lemma hoist_good: "good cg \<Longrightarrow> k < 12 \<Longrightarrow> good (hoist k cg)" "good cg \<Longrightarrow> at_open (hoist k cg)"
  using hoist_grows [of cg k] by (simp_all add: grows_def good_def del: One_nat_def)

lemma static_cross [static_intro]: "static A (EmitLoweredCross M a b i kind)"
proof (rule staticI)
  fix cg v cg' assume g: "good cg" and e: "EmitLoweredCross M a b i kind cg = (Inr v, cg')"
  from e have base: "LoadLoweredBaseField 7 cg = (Inr (Hoisted 7), hoist 7 cg)"
    unfolding EmitLoweredCross_def GetCrossBase_def by (rule base_loaded [OF g])
  from e have cg': "cg' = forked (cross_head (hoist 7 cg) i)
      (Some (CondBr (hd_reg (hoist 7 cg) 5) (blk (hoist 7 cg) 1) (blk (hoist 7 cg) 0)))
      (cross_blocks M (hoist 7 cg) kind a b) (blk (hoist 7 cg) 2) (hoist 7 cg)"
    by (simp only: EmitLoweredCross_code [OF hoist_good(2) [OF g] base] prod.inject)
  have "grows (hoist 7 cg) cg'"
    unfolding cg' by (rule fork_grows [OF hoist_good(1) [OF g]]) (simp_all add: cross_blocks_def)
  moreover have "grows cg (hoist 7 cg)" by (rule hoist_grows [OF g]) simp
  ultimately show "grows cg cg'" using grows_trans by blast
qed

lemma static_kalman [static_intro]: "static A (EmitLoweredKalman1d M x i q r)"
proof (rule staticI)
  fix cg v cg' assume g: "good cg" and e: "EmitLoweredKalman1d M x i q r cg = (Inr v, cg')"
  from e have base: "LoadLoweredBaseField 8 cg = (Inr (Hoisted 8), hoist 8 cg)"
    unfolding EmitLoweredKalman1d_def GetKalman1dBase_def by (rule base_loaded [OF g])
  from e have cg': "cg' = forked (kalman_head (hoist 8 cg) i)
      (Some (CondBr (hd_reg (hoist 8 cg) 5) (blk (hoist 8 cg) 1) (blk (hoist 8 cg) 0)))
      (kalman_blocks M (hoist 8 cg) x q r) (blk (hoist 8 cg) 2) (hoist 8 cg)"
    by (simp only: EmitLoweredKalman1d_code [OF hoist_good(2) [OF g] base] prod.inject)
  have "grows (hoist 8 cg) cg'"
    unfolding cg' by (rule fork_grows [OF hoist_good(1) [OF g]]) (simp_all add: kalman_blocks_def Let_def)
  moreover have "grows cg (hoist 8 cg)" by (rule hoist_grows [OF g]) simp
  ultimately show "grows cg cg'" using grows_trans by blast
qed

end
