(* ===== verification/Jit_Deque_Exec.thy ===== *)
theory Jit_Deque_Exec
  imports Jit_Blocks
begin

text \<open>
  The code of the rolling extrema: two loops over a deque in the memory of the context.
\<close>

section \<open>The code\<close>

definition deque_head :: "'f codegen \<Rightarrow> 'f operand \<Rightarrow> int \<Rightarrow> 'f instr list" where
  "deque_head cg base node_id =
     [GEP base (ConstI64 node_id), StructGEP (hd_reg cg 0) 0, StructGEP (hd_reg cg 0) 1,
      StructGEP (hd_reg cg 0) 2, StructGEP (hd_reg cg 0) 3, StructGEP (hd_reg cg 0) 4]"

abbreviation breg :: "'f codegen \<Rightarrow> nat \<Rightarrow> nat \<Rightarrow> 'f operand" where
  "breg cg j k \<equiv> Reg (blk cg j) k"

definition deque_blocks :: "'f machine \<Rightarrow> 'f codegen \<Rightarrow> MonoDequeKind \<Rightarrow> 'f operand \<Rightarrow> int \<Rightarrow> 'f block list" where
  "deque_blocks M cg kind x period =
     (let buf = hd_reg cg 1; head = hd_reg cg 2; cnt = hd_reg cg 3; cap = hd_reg cg 4; idx = hd_reg cg 5
      in [\<lparr>code = [Load I64 cnt, Op (ICmpOp SGT) [breg cg 0 0, ConstI64 0]],
           final = Some (CondBr (breg cg 0 1) (blk cg 1) (blk cg 3))\<rparr>,
          \<lparr>code = [Load I64 head, Load I64 cap, Load PtrTy buf, Op IAddOp [breg cg 1 0, breg cg 0 0],
              Op ISubOp [breg cg 1 3, ConstI64 1], Op URemOp [breg cg 1 4, breg cg 1 1],
              GEP (breg cg 1 2) (breg cg 1 5), StructGEP (breg cg 1 6) 1, Load F64 (breg cg 1 7),
              Op (FCmpOp (if kind = MinDeque then OGE else OLE)) [breg cg 1 8, x]],
           final = Some (CondBr (breg cg 1 9) (blk cg 2) (blk cg 3))\<rparr>,
          \<lparr>code = [Load I64 cnt, Op ISubOp [breg cg 2 0, ConstI64 1], Store (breg cg 2 1) cnt],
           final = Some (Br (blk cg 0))\<rparr>,
          \<lparr>code = [Load I64 head, Load I64 cnt, Load I64 cap, Load PtrTy buf, Load I64 idx,
              Op IAddOp [breg cg 3 0, breg cg 3 1], Op URemOp [breg cg 3 5, breg cg 3 2],
              GEP (breg cg 3 3) (breg cg 3 6), StructGEP (breg cg 3 7) 0, Store (breg cg 3 4) (breg cg 3 8),
              StructGEP (breg cg 3 7) 1, Store x (breg cg 3 10), Op IAddOp [breg cg 3 1, ConstI64 1],
              Store (breg cg 3 12) cnt],
           final = Some (Br (blk cg 4))\<rparr>,
          \<lparr>code = [Load I64 cnt, Op (ICmpOp SGT) [breg cg 4 0, ConstI64 0]],
           final = Some (CondBr (breg cg 4 1) (blk cg 5) (blk cg 7))\<rparr>,
          \<lparr>code = [Load I64 head, Load PtrTy buf, Load I64 idx, GEP (breg cg 5 1) (breg cg 5 0),
              StructGEP (breg cg 5 3) 0, Load I64 (breg cg 5 4), Op IAddOp [breg cg 5 2, ConstI64 1],
              Op ISubOp [breg cg 5 6, breg cg 5 5], Op (ICmpOp SGT) [breg cg 5 7, ConstI64 period]],
           final = Some (CondBr (breg cg 5 8) (blk cg 6) (blk cg 7))\<rparr>,
          \<lparr>code = [Load I64 head, Load I64 cap, Op IAddOp [breg cg 6 0, ConstI64 1],
              Op URemOp [breg cg 6 2, breg cg 6 1], Store (breg cg 6 3) head, Load I64 cnt,
              Op ISubOp [breg cg 6 5, ConstI64 1], Store (breg cg 6 6) cnt],
           final = Some (Br (blk cg 4))\<rparr>,
          \<lparr>code = [Load I64 idx, Op IAddOp [breg cg 7 0, ConstI64 1], Store (breg cg 7 1) idx,
              Load PtrTy buf, Load I64 head, GEP (breg cg 7 3) (breg cg 7 4), StructGEP (breg cg 7 5) 1,
              Load F64 (breg cg 7 6), Op (ICmpOp SGE) [breg cg 7 1, ConstI64 period],
              Op SelectOp [breg cg 7 8, breg cg 7 7, NaNConst M]],
           final = None\<rparr>])"

lemma EmitLoweredMonoDequeRolling_code:
  assumes o: "at_open cg0"
  shows "EmitLoweredMonoDequeRolling M x node_id period kind base cg0 = (Inr (breg cg0 7 9),
     forked (deque_head cg0 base node_id) (Some (Br (blk cg0 0))) (deque_blocks M cg0 kind x period) (blk cg0 7) cg0)"
  by (cases kind; simp only: EmitLoweredMonoDequeRolling_def mono_pop_back_def mono_push_def mono_pop_front_def mono_finish_def
      fork_emission MonoDequeKind.distinct emit_first [OF o]
      emit_appends [OF o] fork_start [OF o] fork_final [OF o] fork_simps cong: if_cong;
    simp add: deque_head_def deque_blocks_def Let_def)

lemma static_deque: "static A (EmitLoweredMonoDequeRolling M x node_id period kind base)"
proof (rule staticI)
  fix cg v cg' assume g: "good cg" and e: "EmitLoweredMonoDequeRolling M x node_id period kind base cg = (Inr v, cg')"
  have "at_open cg" using g by (simp add: good_def)
  with e have cg': "cg' = forked (deque_head cg base node_id) (Some (Br (blk cg 0)))
      (deque_blocks M cg kind x period) (blk cg 7) cg"
    by (simp only: EmitLoweredMonoDequeRolling_code prod.inject)
  show "grows cg cg'" unfolding cg' by (rule fork_grows [OF g]) (simp_all add: deque_blocks_def Let_def)
qed

lemma static_minmax [static_intro]: "static A (EmitLoweredRollingMin M x i p)" "static A (EmitLoweredRollingMax M x i p)"
  unfolding EmitLoweredRollingMin_def EmitLoweredRollingMax_def base_getters
  by (intro static_bindm static_base static_deque; simp)+

section \<open>The loops\<close>

text \<open>The arrays of one of the two operators, seen from slot \<open>n\<close>.\<close>

locale deque_arrays =
  fixes kd :: lowered_kind
    and sts :: "'f LoweredStates \<Rightarrow> RollingMinMaxStateLowered list"
    and bufs :: "'f LoweredStates \<Rightarrow> (int \<times> 'f) list list"
    and put :: "'f LoweredStates \<Rightarrow> nat \<Rightarrow> RollingMinMaxStateLowered \<Rightarrow> (int \<times> 'f) list \<Rightarrow> 'f LoweredStates"
  assumes put_cells: "n < length (sts l) \<Longrightarrow> cells (put l n st b) c n kd = deque_cells c kd st"
    and put_put_cell: "n < length (sts l) \<Longrightarrow>
      put_cell (put l n st b) n j v kd = map_option (\<lambda>st'. put l n st' b) (deque_put j v st)"
    and put_entries: "n < length (bufs l) \<Longrightarrow> n < length (entries (put l n st b) kd) \<and> entries (put l n st b) kd ! n = b"
    and put_set_entries: "set_entries ((entries (put l n st b) kd)[n := b']) (put l n st b) kd = put l n st b'"
    and put_same: "put l n (sts l ! n) (bufs l ! n) = l"
begin

end

text \<open>Results in the new blocks only.\<close>

definition in_blocks :: "'f codegen \<Rightarrow> 'f block list \<Rightarrow> (nat \<times> nat \<rightharpoonup> 'f rval) \<Rightarrow> (nat \<times> nat \<rightharpoonup> 'f rval) \<Rightarrow> bool" where
  "in_blocks cg news r r' \<longleftrightarrow> (\<forall>q. r' q \<noteq> r q \<longrightarrow>
     (\<exists>j k. q = (blk cg j, k) \<and> j < length news \<and> k < length (code (news ! j))))"

lemma in_blocks_refl: "in_blocks cg news r r"
  by (simp add: in_blocks_def)

lemma in_blocks_update:
  "j < length news \<Longrightarrow> k < length (code (news ! j)) \<Longrightarrow> in_blocks cg news r r' \<Longrightarrow>
     in_blocks cg news r (r'((blk cg j, k) \<mapsto> v))"
  by (auto simp: in_blocks_def)

lemma in_blocks_trans: "in_blocks cg news r r' \<Longrightarrow> in_blocks cg news r' r'' \<Longrightarrow> in_blocks cg news r r''"
  unfolding in_blocks_def by metis

lemma in_blocks_opv: "in_blocks cg news r r' \<Longrightarrow> old cg a \<Longrightarrow> opv M s r' a = opv M s r a"
  by (cases a) (fastforce simp: in_blocks_def old_def positions_def blk_def)+

lemma in_blocks_here: "in_blocks cg news r r' \<Longrightarrow> at_open cg \<Longrightarrow> r' (here cg, k) = r (here cg, k)"
  by (metis here_blk(1) in_blocks_def prod.inject)

lemma in_blocks_results:
  assumes "in_blocks cg news r0 r" and "results_grow cg r' (forked is t news h cg) r0"
  shows "results_grow cg r' (forked is t news h cg) r"
  unfolding results_grow_def
proof (intro allI impI)
  fix q assume "r q \<noteq> r' q"
  show "q \<in> positions (forked is t news h cg) \<and> q \<notin> positions cg"
  proof (cases "r q = r0 q")
    case True
    with \<open>r q \<noteq> r' q\<close> assms(2) show ?thesis by (simp only: results_grow_def) metis
  next
    case False
    with assms(1) obtain j k where "q = (blk cg j, k)" "j < length news" "k < length (code (news ! j))"
      unfolding in_blocks_def by blast
    then show ?thesis by (simp add: positions_def forked_def nth_append blk_def)
  qed
qed

text \<open>The field pointers the head of the code computes.\<close>

definition pointers :: "'f codegen \<Rightarrow> nat \<Rightarrow> lowered_kind \<Rightarrow> nat \<Rightarrow> (nat \<times> nat \<rightharpoonup> 'f rval) \<Rightarrow> bool" where
  "pointers cg c kd n r \<longleftrightarrow> (\<forall>k\<in>{1, 2, 3, 4, 5}. r (here cg, pos (code_length cg) k) =
     Some (VP (PField (PElem (PLowered c kd) (i64 (int n))) (k - 1))))"

lemma in_blocks_pointers: "in_blocks cg news r r' \<Longrightarrow> at_open cg \<Longrightarrow> pointers cg c kd n r \<Longrightarrow> pointers cg c kd n r'"
  by (simp add: pointers_def in_blocks_here)

lemma mod_range:
  assumes "small_period p"
  shows "0 \<le> i mod (p + 1)" "i mod (p + 1) \<le> p" "small (i mod (p + 1))"
proof -
  have p: "0 < p + 1" "p + 1 \<le> 2 ^ 62" using assms by (simp_all add: small_period_def)
  have m: "0 \<le> i mod (p + 1)" "i mod (p + 1) < p + 1" using p(1) by (rule pos_mod_sign, rule pos_mod_bound)
  then show "0 \<le> i mod (p + 1)" "i mod (p + 1) \<le> p" by simp_all
  show "small (i mod (p + 1))" using m p(2) unfolding small_def by linarith
qed

lemma deque_okD:
  assumes "deque_ok p n st b"
  shows "ml_buf st = Some n" "length b = nat (p + 1)" "ml_cap st = p + 1" "0 \<le> ml_head st" "ml_head st \<le> p" "0 \<le> ml_count st"
    "0 < p" "0 \<le> p" "small p" "small (p + 1)" "small (ml_head st)" "small (ml_count st)" "small (ml_head st + ml_count st)" "small 0" "small 1"
    "i64 (p + 1) \<noteq> 0" "small ((ml_head st + ml_count st) mod (p + 1))" "small ((ml_head st + 1) mod (p + 1))"
    "0 \<le> (ml_head st + ml_count st) mod (p + 1)" "(ml_head st + ml_count st) mod (p + 1) \<le> p"
    "small (ml_head st + 1)"
proof -
  note d = assms [unfolded deque_ok_def small_period_def]
  from d show "ml_buf st = Some n" "length b = nat (p + 1)" "ml_cap st = p + 1" "0 \<le> ml_head st" "ml_head st \<le> p"
    "0 \<le> ml_count st" "0 < p" "0 \<le> p" "small p" "small (p + 1)" "small (ml_head st)" "small (ml_count st)"
    "small (ml_head st + ml_count st)" "small 0" "small 1" "small (ml_head st + 1)"
    by (auto simp: small_def)
  moreover show "0 \<le> (ml_head st + ml_count st) mod (p + 1)" "(ml_head st + ml_count st) mod (p + 1) \<le> p"
    "small ((ml_head st + ml_count st) mod (p + 1))" "small ((ml_head st + 1) mod (p + 1))"
    using mod_range [of p] d by (simp_all only: small_period_def)
  ultimately show "i64 (p + 1) \<noteq> 0" by (intro i64_nonzero) simp_all
qed

text \<open>A whole block, up to its branch.\<close>

lemma goto_steps:
  assumes "extends (forked is t news h cg) P" and "at_open cg" and "j < length news"
    and "news ! j = \<lparr>code = cs, final = Some (Br e)\<rparr>"
    and "run_list M L (blk cg j) 0 0 cs (with_state s r m) = Inr (with_state s r1 m1)" and "m1 = m2"
  shows "steps M L (blocks P) (At (blk cg j) 0, with_state s r m) (At e 0, with_state (s\<lparr>pred := blk cg j\<rparr>) r1 m2)"
  by (rule whole_block_steps [OF fork_blocks(3) [OF assms(1-3)] fork_blocks(4) [OF assms(1-3), unfolded assms(4)] assms(5)])
    (simp add: assms(6))

lemma fork_steps:
  assumes "extends (forked is t news h cg) P" and "at_open cg" and "j < length news"
    and "news ! j = \<lparr>code = cs, final = Some (CondBr c e e')\<rparr>"
    and "run_list M L (blk cg j) 0 0 cs (with_state s r m) = Inr (with_state s r1 m)" and "opv M s r1 c = Some (VB b)"
  shows "steps M L (blocks P) (At (blk cg j) 0, with_state s r m) (At (if b then e else e') 0, with_state (s\<lparr>pred := blk cg j\<rparr>) r1 m)"
  by (rule whole_block_steps [OF fork_blocks(3) [OF assms(1-3)] fork_blocks(4) [OF assms(1-3), unfolded assms(4)] assms(5)])
    (simp add: assms(6))

context deque_arrays
begin

text \<open>The state of the loops.\<close>

abbreviation at_deque where
  "at_deque c m l n s r st b \<equiv> with_state s r (put_low c (put l n st b) m)"

text \<open>Where the loops run: in a function that contains the blocks, with the pointers of the head and
  the value of the sample.\<close>

definition deque_env where
  "deque_env M L P c m l n cg is kind x p \<longleftrightarrow> documented M L \<and> at_open cg \<and> c < length (contexts m) \<and>
     n < length (sts l) \<and> n < length (bufs l) \<and> small (int n) \<and> old cg x \<and>
     extends (forked is (Some (Br (blk cg 0))) (deque_blocks M cg kind x p) (blk cg 7) cg) P"

definition deque_regs where
  "deque_regs M c n cg x a s r \<longleftrightarrow> pointers cg c kd n r \<and> opv M s r x = Some (VF a)"

lemma deque_envD:
  assumes "deque_env M L P c m l n cg is kind x p"
  shows "documented M L" "at_open cg" "c < length (contexts m)" "n < length (sts l)" "n < length (bufs l)" "small (int n)" "old cg x"
    "extends (forked is (Some (Br (blk cg 0))) (deque_blocks M cg kind x p) (blk cg 7) cg) P"
  using assms by (simp_all add: deque_env_def)

lemma deque_regsD:
  assumes "deque_regs M c n cg x a s r"
  shows "opv M s r x = Some (VF a)"
    "r (here cg, pos (code_length cg) (Suc 0)) = Some (VP (PField (PElem (PLowered c kd) (i64 (int n))) 0))"
    "r (here cg, pos (code_length cg) 2) = Some (VP (PField (PElem (PLowered c kd) (i64 (int n))) (Suc 0)))"
    "r (here cg, pos (code_length cg) 3) = Some (VP (PField (PElem (PLowered c kd) (i64 (int n))) 2))"
    "r (here cg, pos (code_length cg) 4) = Some (VP (PField (PElem (PLowered c kd) (i64 (int n))) 3))"
    "r (here cg, pos (code_length cg) 5) = Some (VP (PField (PElem (PLowered c kd) (i64 (int n))) 4))"
  using assms by (simp_all add: deque_regs_def pointers_def)

lemma deque_regs_kept:
  "in_blocks cg news r r' \<Longrightarrow> deque_env M L P c m l n cg is kind x p \<Longrightarrow> deque_regs M c n cg x a s r \<Longrightarrow>
     deque_regs M c n cg x a (s\<lparr>pred := q\<rparr>) r'"
  by (simp add: deque_regs_def deque_envD in_blocks_pointers in_blocks_opv)

lemmas deque_sim = execution deque_cells_def deque_put_def entry_cells_def put_entry_def deque_blocks_def Let_def put_cells put_put_cell
  put_entries put_set_entries

lemma block_zero:
  assumes env: "deque_env M L P c m l n cg is kind x p" and ok: "deque_ok p n st b" and regs: "deque_regs M c n cg x a s r"
  shows "\<exists>r'. steps M L (blocks P) (At (blk cg 0) 0, at_deque c m l n s r st b)
      (At (if 0 < ml_count st then blk cg 1 else blk cg 3) 0, at_deque c m l n (s\<lparr>pred := blk cg 0\<rparr>) r' (st) (b)) \<and>
     r' (blk cg 0, 0) = Some (VI (i64 (ml_count st))) \<and>
     in_blocks cg (deque_blocks M cg kind x p) r r'"
proof -
  note e = deque_envD [OF env]
  note sim = e deque_okD [OF ok] deque_regsD [OF regs] documented_op [OF e(1)] deque_sim
  show ?thesis
    apply (intro exI conjI)
    apply (rule fork_steps [OF e(8,2)])
    apply (simp add: deque_blocks_def Let_def)
    apply (simp add: deque_blocks_def Let_def)
    apply (simp add: sim cong: rbind_first del: One_nat_def add_2_eq_Suc add_2_eq_Suc')
    apply (simp)
    apply simp
    apply (intro in_blocks_update in_blocks_refl; simp add: deque_blocks_def Let_def)
    done
qed

lemma block_one:
  assumes env: "deque_env M L P c m l n cg is kind x p" and ok: "deque_ok p n st b" and regs: "deque_regs M c n cg x a s r"
    and some: "0 < ml_count st" "r (blk cg 0, 0) = Some (VI (i64 (ml_count st)))"
    and gone: "gone = (\<lambda>v. if kind = MinDeque then fle M a v else fle M v a)"
  shows "\<exists>r'. steps M L (blocks P) (At (blk cg 1) 0, at_deque c m l n s r st b)
      (At (if gone (snd (b ! deque_tail st)) then blk cg 2 else blk cg 3) 0, at_deque c m l n (s\<lparr>pred := blk cg 1\<rparr>) r' (st) (b)) \<and>
     in_blocks cg (deque_blocks M cg kind x p) r r'"
proof -
  note e = deque_envD [OF env]
  have tail: "small (ml_head st + ml_count st - 1)" "small ((ml_head st + ml_count st - 1) mod (p + 1))"
    "0 \<le> (ml_head st + ml_count st - 1) mod (p + 1)" "(ml_head st + ml_count st - 1) mod (p + 1) \<le> p"
    using deque_okD [OF ok] some mod_range [of p] ok by (simp add: small_def, simp_all only: deque_ok_def)
  note sim = e deque_okD [OF ok] deque_regsD [OF regs] documented_op [OF e(1)] deque_sim
  show ?thesis
  proof (cases kind)
    case MinDeque
    then show ?thesis
    apply (intro exI conjI)
    apply (rule fork_steps [OF e(8,2)])
    apply (simp add: deque_blocks_def Let_def)
    apply (simp add: deque_blocks_def Let_def)
    apply (simp add: sim some tail cong: rbind_first del: One_nat_def add_2_eq_Suc add_2_eq_Suc')
    apply (simp add: gone deque_tail_def deque_okD [OF ok])
    apply (intro in_blocks_update in_blocks_refl; simp add: deque_blocks_def Let_def)
    done
  next
    case MaxDeque
    then show ?thesis
    apply (intro exI conjI)
    apply (rule fork_steps [OF e(8,2)])
    apply (simp add: deque_blocks_def Let_def)
    apply (simp add: deque_blocks_def Let_def)
    apply (simp add: sim some tail cong: rbind_first del: One_nat_def add_2_eq_Suc add_2_eq_Suc')
    apply (simp add: gone deque_tail_def deque_okD [OF ok])
    apply (intro in_blocks_update in_blocks_refl; simp add: deque_blocks_def Let_def)
    done
  qed
qed

lemma block_two:
  assumes env: "deque_env M L P c m l n cg is kind x p" and ok: "deque_ok p n st b" and regs: "deque_regs M c n cg x a s r"
    and some: "0 < ml_count st"
  shows "\<exists>r'. steps M L (blocks P) (At (blk cg 2) 0, at_deque c m l n s r st b)
      (At (blk cg 0) 0, at_deque c m l n (s\<lparr>pred := blk cg 2\<rparr>) r' (st\<lparr>ml_count := ml_count st - 1\<rparr>) (b)) \<and>
     in_blocks cg (deque_blocks M cg kind x p) r r'"
proof -
  note e = deque_envD [OF env]
  have less: "small (ml_count st - 1)" using deque_okD [OF ok] some by (simp add: small_def)
  note sim = e deque_okD [OF ok] deque_regsD [OF regs] documented_op [OF e(1)] deque_sim
  show ?thesis
    apply (intro exI conjI)
    apply (rule goto_steps [OF e(8,2)])
    apply (simp add: deque_blocks_def Let_def)
    apply (simp add: deque_blocks_def Let_def)
    apply (simp add: sim cong: rbind_first del: One_nat_def add_2_eq_Suc add_2_eq_Suc')
    apply (simp add: less)
    apply (intro in_blocks_update in_blocks_refl; simp add: deque_blocks_def Let_def)
    done
qed

lemma block_three:
  assumes env: "deque_env M L P c m l n cg is kind x p" and ok: "deque_ok p n st b" and regs: "deque_regs M c n cg x a s r"
    and idx: "ml_idx st < 2 ^ 61"
  shows "\<exists>r'. steps M L (blocks P) (At (blk cg 3) 0, at_deque c m l n s r st b)
      (At (blk cg 4) 0, at_deque c m l n (s\<lparr>pred := blk cg 3\<rparr>) r' (fst (deque_push a st b)) (snd (deque_push a st b))) \<and>
     in_blocks cg (deque_blocks M cg kind x p) r r'"
proof -
  note e = deque_envD [OF env]
  have i: "small (ml_idx st)" "small (ml_count st + 1)" using ok idx by (auto simp: deque_ok_def small_def small_period_def)
  note sim = e deque_okD [OF ok] deque_regsD [OF regs] documented_op [OF e(1)] deque_sim
  show ?thesis
    apply (intro exI conjI)
    apply (rule goto_steps [OF e(8,2)])
    apply (simp add: deque_blocks_def Let_def)
    apply (simp add: deque_blocks_def Let_def)
    apply (simp add: sim i cong: rbind_first del: One_nat_def add_2_eq_Suc add_2_eq_Suc')
    apply (simp add: deque_push_def deque_okD [OF ok])
    apply (intro in_blocks_update in_blocks_refl; simp add: deque_blocks_def Let_def)
    done
qed

lemma block_four:
  assumes env: "deque_env M L P c m l n cg is kind x p" and ok: "deque_ok p n st b" and regs: "deque_regs M c n cg x a s r"
  shows "\<exists>r'. steps M L (blocks P) (At (blk cg 4) 0, at_deque c m l n s r st b)
      (At (if 0 < ml_count st then blk cg 5 else blk cg 7) 0, at_deque c m l n (s\<lparr>pred := blk cg 4\<rparr>) r' (st) (b)) \<and>
     in_blocks cg (deque_blocks M cg kind x p) r r'"
proof -
  note e = deque_envD [OF env]
  note sim = e deque_okD [OF ok] deque_regsD [OF regs] documented_op [OF e(1)] deque_sim
  show ?thesis
    apply (intro exI conjI)
    apply (rule fork_steps [OF e(8,2)])
    apply (simp add: deque_blocks_def Let_def)
    apply (simp add: deque_blocks_def Let_def)
    apply (simp add: sim cong: rbind_first del: One_nat_def add_2_eq_Suc add_2_eq_Suc')
    apply (simp)
    apply (intro in_blocks_update in_blocks_refl; simp add: deque_blocks_def Let_def)
    done
qed

lemma block_five:
  assumes env: "deque_env M L P c m l n cg is kind x p" and ok: "deque_ok p n st b" and regs: "deque_regs M c n cg x a s r"
    and idx: "ml_idx st < 2 ^ 61"
  shows "\<exists>r'. steps M L (blocks P) (At (blk cg 5) 0, at_deque c m l n s r st b)
      (At (if p < ml_idx st + 1 - fst (b ! nat (ml_head st)) then blk cg 6 else blk cg 7) 0, at_deque c m l n (s\<lparr>pred := blk cg 5\<rparr>) r' (st) (b)) \<and>
     in_blocks cg (deque_blocks M cg kind x p) r r'"
proof -
  note e = deque_envD [OF env]
  have "b ! nat (ml_head st) \<in> set b" using ok by (intro nth_mem) (simp add: deque_ok_def nat_less_iff)
  then have i: "small (ml_idx st + 1)" "small (ml_idx st + 1 - fst (b ! nat (ml_head st)))"
    using ok idx by (auto simp: deque_ok_def small_def)
  note sim = e deque_okD [OF ok] deque_regsD [OF regs] documented_op [OF e(1)] deque_sim
  show ?thesis
    apply (intro exI conjI)
    apply (rule fork_steps [OF e(8,2)])
    apply (simp add: deque_blocks_def Let_def)
    apply (simp add: deque_blocks_def Let_def)
    apply (simp add: sim i cong: rbind_first del: One_nat_def add_2_eq_Suc add_2_eq_Suc')
    apply (simp)
    apply (intro in_blocks_update in_blocks_refl; simp add: deque_blocks_def Let_def)
    done
qed

lemma block_six:
  assumes env: "deque_env M L P c m l n cg is kind x p" and ok: "deque_ok p n st b" and regs: "deque_regs M c n cg x a s r"
    and some: "0 < ml_count st"
  shows "\<exists>r'. steps M L (blocks P) (At (blk cg 6) 0, at_deque c m l n s r st b)
      (At (blk cg 4) 0, at_deque c m l n (s\<lparr>pred := blk cg 6\<rparr>) r' (st\<lparr>ml_head := (ml_head st + 1) mod ml_cap st, ml_count := ml_count st - 1\<rparr>) (b)) \<and>
     in_blocks cg (deque_blocks M cg kind x p) r r'"
proof -
  note e = deque_envD [OF env]
  have less: "small (ml_count st - 1)" using deque_okD [OF ok] some by (simp add: small_def)
  note sim = e deque_okD [OF ok] deque_regsD [OF regs] documented_op [OF e(1)] deque_sim
  show ?thesis
    apply (intro exI conjI)
    apply (rule goto_steps [OF e(8,2)])
    apply (simp add: deque_blocks_def Let_def)
    apply (simp add: deque_blocks_def Let_def)
    apply (simp add: sim less cong: rbind_first del: One_nat_def add_2_eq_Suc add_2_eq_Suc')
    apply (simp add: deque_okD [OF ok])
    apply (intro in_blocks_update in_blocks_refl; simp add: deque_blocks_def Let_def)
    done
qed

lemma block_seven:
  assumes env: "deque_env M L P c m l n cg is kind x p" and ok: "deque_ok p n st b" and regs: "deque_regs M c n cg x a s r"
    and idx: "ml_idx st < 2 ^ 61"
  shows "\<exists>r'. steps M L (blocks P) (At (blk cg 7) 0, at_deque c m l n s r st b)
      (At (blk cg 7) 10, at_deque c m l n s r' (st\<lparr>ml_idx := ml_idx st + 1\<rparr>) b) \<and>
     r' (blk cg 7, 9) = Some (VF (if p \<le> ml_idx st + 1 then snd (b ! nat (ml_head st)) else qnan M)) \<and>
     in_blocks cg (deque_blocks M cg kind x p) r r'"
proof -
  note e = deque_envD [OF env]
  have i: "small (ml_idx st)" "small (ml_idx st + 1)" using ok idx by (auto simp: deque_ok_def small_def)
  note sim = e deque_okD [OF ok] deque_regsD [OF regs] documented_op [OF e(1)] deque_sim
  have open_run: "steps M L (blocks P) (At (blk cg 7) 0, s1) (At (blk cg 7) 10, s2)"
    if "deque_blocks M cg kind x p ! 7 = \<lparr>code = cs, final = None\<rparr>" and "length cs = 10"
      and "run_list M L (blk cg 7) 0 0 cs s1 = Inr s2" for s1 s2 cs
  proof -
    have j: "7 < length (deque_blocks M cg kind x p)" by (simp add: deque_blocks_def Let_def)
    show ?thesis
      using open_steps [OF fork_blocks(3) [OF e(8,2) j] fork_blocks(4) [OF e(8,2) j, unfolded that(1)] that(3)] that(2) by simp
  qed
  show ?thesis
    apply (intro exI conjI)
    apply (rule open_run)
    apply (simp add: deque_blocks_def Let_def)
    apply simp
    apply (simp add: sim i cong: rbind_first del: One_nat_def add_2_eq_Suc add_2_eq_Suc')
    apply (simp)
    apply (intro in_blocks_update in_blocks_refl; simp add: deque_blocks_def Let_def)
    done
qed

text \<open>The loop over the back, and the loop over the front.\<close>

lemma deque_ok_count: "deque_ok p n st b \<Longrightarrow> 0 < ml_count st \<Longrightarrow> deque_ok p n (st\<lparr>ml_count := ml_count st - 1\<rparr>) b"
  by (auto simp: deque_ok_def)

lemma deque_ok_front:
  assumes "deque_ok p n st b" and "0 < ml_count st"
  shows "deque_ok p n (st\<lparr>ml_head := (ml_head st + 1) mod ml_cap st, ml_count := ml_count st - 1\<rparr>) b"
  using assms mod_range(1,2) [of p "ml_head st + 1"] by (auto simp: deque_ok_def)

lemma deque_ok_push:
  assumes "deque_ok p n st b" and "ml_count st \<le> p" and "deque_push a st b = (st', b')"
  shows "deque_ok p n st' b'"
proof -
  have "st' = st\<lparr>ml_count := ml_count st + 1\<rparr>" "b' = b[nat ((ml_head st + ml_count st) mod ml_cap st) := (ml_idx st, a)]"
    using assms(3) by (simp_all add: deque_push_def)
  moreover have "0 \<le> fst e \<and> fst e \<le> ml_idx st" if "e \<in> set (b[i := (ml_idx st, a)])" for e i
    using set_update_subset_insert [of b i "(ml_idx st, a)"] that assms(1) by (auto simp: deque_ok_def)
  ultimately show ?thesis using assms(1,2) by (simp add: deque_ok_def)
qed

lemma deque_pop_back_ok:
  "deque_ok p n st b \<Longrightarrow> deque_ok p n (deque_pop_back k gone st b) b \<and>
     ml_count (deque_pop_back k gone st b) \<le> ml_count st \<and> ml_idx (deque_pop_back k gone st b) = ml_idx st"
proof (induction k arbitrary: st)
  case (Suc k)
  then show ?case using Suc.IH [OF deque_ok_count [OF Suc.prems]] by (auto simp: deque_ok_def)
qed simp

lemma deque_pop_front_ok:
  "deque_ok p n st b \<Longrightarrow> deque_ok p n (deque_pop_front k p st b) b \<and> ml_idx (deque_pop_front k p st b) = ml_idx st"
proof (induction k arbitrary: st)
  case (Suc k)
  then show ?case using Suc.IH [OF deque_ok_front [OF Suc.prems]] by auto
qed simp

lemma pred_twice: "(s::'f exec)\<lparr>pred := q, pred := q'\<rparr> = s\<lparr>pred := q'\<rparr>"
  by simp

lemma loop_back:
  assumes env: "deque_env M L P c m l n cg is kind x p" and gone: "gone = (\<lambda>v. if kind = MinDeque then fle M a v else fle M v a)"
  shows "deque_ok p n st b \<Longrightarrow> deque_regs M c n cg x a s r \<Longrightarrow> ml_count st \<le> int k \<Longrightarrow>
     \<exists>q r'. steps M L (blocks P) (At (blk cg 0) 0, at_deque c m l n s r st b)
       (At (blk cg 3) 0, at_deque c m l n (s\<lparr>pred := q\<rparr>) r' (deque_pop_back k gone st b) b) \<and>
       in_blocks cg (deque_blocks M cg kind x p) r r'"
proof (induction k arbitrary: s r st)
  case 0
  from block_zero [OF env 0(1,2)] 0(3) show ?case by auto
next
  case (Suc k)
  from block_zero [OF env Suc.prems(1,2)] obtain r1 where
    1: "steps M L (blocks P) (At (blk cg 0) 0, at_deque c m l n s r st b)
      (At (if 0 < ml_count st then blk cg 1 else blk cg 3) 0, at_deque c m l n (s\<lparr>pred := blk cg 0\<rparr>) r1 st b)"
    "r1 (blk cg 0, 0) = Some (VI (i64 (ml_count st)))" "in_blocks cg (deque_blocks M cg kind x p) r r1" by blast
  show ?case
  proof (cases "0 < ml_count st")
    case False
    with 1 show ?thesis by auto
  next
    case some: True
    let ?out = "gone (snd (b ! deque_tail st))"
    from block_one [OF env Suc.prems(1) deque_regs_kept [OF 1(3) env Suc.prems(2)] some 1(2) gone] obtain r2 where
      2: "steps M L (blocks P) (At (blk cg 1) 0, at_deque c m l n (s\<lparr>pred := blk cg 0\<rparr>) r1 st b)
        (At (if ?out then blk cg 2 else blk cg 3) 0, at_deque c m l n (s\<lparr>pred := blk cg 1\<rparr>) r2 st b)"
      "in_blocks cg (deque_blocks M cg kind x p) r1 r2" by auto
    note r2 = in_blocks_trans [OF 1(3) 2(2)]
    from 1(1) 2(1) some have s2: "steps M L (blocks P) (At (blk cg 0) 0, at_deque c m l n s r st b)
        (At (if ?out then blk cg 2 else blk cg 3) 0, at_deque c m l n (s\<lparr>pred := blk cg 1\<rparr>) r2 st b)"
      by (auto intro: steps_trans)
    show ?thesis
    proof (cases ?out)
      case False
      with s2 r2 some show ?thesis by auto
    next
      case True
      let ?st = "st\<lparr>ml_count := ml_count st - 1\<rparr>"
      from block_two [OF env Suc.prems(1) deque_regs_kept [OF r2 env Suc.prems(2)] some] obtain r3 where
        3: "steps M L (blocks P) (At (blk cg 2) 0, at_deque c m l n (s\<lparr>pred := blk cg 1\<rparr>) r2 st b)
          (At (blk cg 0) 0, at_deque c m l n (s\<lparr>pred := blk cg 2\<rparr>) r3 ?st b)"
        "in_blocks cg (deque_blocks M cg kind x p) r2 r3" by auto
      note r3 = in_blocks_trans [OF r2 3(2)]
      have "ml_count ?st \<le> int k" using Suc.prems(3) by simp
      from Suc.IH [OF deque_ok_count [OF Suc.prems(1) some] deque_regs_kept [OF r3 env Suc.prems(2), of "blk cg 2"] this]
      obtain q r4 where 4: "steps M L (blocks P) (At (blk cg 0) 0, at_deque c m l n (s\<lparr>pred := blk cg 2\<rparr>) r3 ?st b)
          (At (blk cg 3) 0, at_deque c m l n (s\<lparr>pred := q\<rparr>) r4 (deque_pop_back k gone ?st b) b)"
        "in_blocks cg (deque_blocks M cg kind x p) r3 r4" by (simp only: pred_twice) blast
      have "deque_pop_back (Suc k) gone st b = deque_pop_back k gone ?st b" using some True by simp
      moreover have "steps M L (blocks P) (At (blk cg 0) 0, at_deque c m l n s r st b)
          (At (blk cg 3) 0, at_deque c m l n (s\<lparr>pred := q\<rparr>) r4 (deque_pop_back k gone ?st b) b)"
        using s2 3(1) 4(1) True by (auto intro: steps_trans)
      ultimately show ?thesis using in_blocks_trans [OF r3 4(2)] by metis
    qed
  qed
qed

lemma loop_front:
  assumes env: "deque_env M L P c m l n cg is kind x p"
  shows "deque_ok p n st b \<Longrightarrow> deque_regs M c n cg x a s r \<Longrightarrow> ml_count st \<le> int k \<Longrightarrow> ml_idx st < 2 ^ 61 \<Longrightarrow>
     \<exists>q r'. steps M L (blocks P) (At (blk cg 4) 0, at_deque c m l n s r st b)
       (At (blk cg 7) 0, at_deque c m l n (s\<lparr>pred := q\<rparr>) r' (deque_pop_front k p st b) b) \<and>
       in_blocks cg (deque_blocks M cg kind x p) r r'"
proof (induction k arbitrary: s r st)
  case 0
  from block_four [OF env 0(1,2)] 0(3) show ?case by auto
next
  case (Suc k)
  from block_four [OF env Suc.prems(1,2)] obtain r1 where
    1: "steps M L (blocks P) (At (blk cg 4) 0, at_deque c m l n s r st b)
      (At (if 0 < ml_count st then blk cg 5 else blk cg 7) 0, at_deque c m l n (s\<lparr>pred := blk cg 4\<rparr>) r1 st b)"
    "in_blocks cg (deque_blocks M cg kind x p) r r1" by blast
  show ?case
  proof (cases "0 < ml_count st")
    case False
    with 1 show ?thesis by auto
  next
    case some: True
    let ?out = "p < ml_idx st + 1 - fst (b ! nat (ml_head st))"
    from block_five [OF env Suc.prems(1) deque_regs_kept [OF 1(2) env Suc.prems(2)] Suc.prems(4)] obtain r2 where
      2: "steps M L (blocks P) (At (blk cg 5) 0, at_deque c m l n (s\<lparr>pred := blk cg 4\<rparr>) r1 st b)
        (At (if ?out then blk cg 6 else blk cg 7) 0, at_deque c m l n (s\<lparr>pred := blk cg 5\<rparr>) r2 st b)"
      "in_blocks cg (deque_blocks M cg kind x p) r1 r2" by auto
    note r2 = in_blocks_trans [OF 1(2) 2(2)]
    from 1(1) 2(1) some have s2: "steps M L (blocks P) (At (blk cg 4) 0, at_deque c m l n s r st b)
        (At (if ?out then blk cg 6 else blk cg 7) 0, at_deque c m l n (s\<lparr>pred := blk cg 5\<rparr>) r2 st b)"
      by (auto intro: steps_trans)
    show ?thesis
    proof (cases ?out)
      case False
      with s2 r2 some show ?thesis by auto
    next
      case True
      let ?st = "st\<lparr>ml_head := (ml_head st + 1) mod ml_cap st, ml_count := ml_count st - 1\<rparr>"
      from block_six [OF env Suc.prems(1) deque_regs_kept [OF r2 env Suc.prems(2)] some] obtain r3 where
        3: "steps M L (blocks P) (At (blk cg 6) 0, at_deque c m l n (s\<lparr>pred := blk cg 5\<rparr>) r2 st b)
          (At (blk cg 4) 0, at_deque c m l n (s\<lparr>pred := blk cg 6\<rparr>) r3 ?st b)"
        "in_blocks cg (deque_blocks M cg kind x p) r2 r3" by auto
      note r3 = in_blocks_trans [OF r2 3(2)]
      have st: "ml_count ?st \<le> int k" "ml_idx ?st < 2 ^ 61" using Suc.prems(3,4) by simp_all
      from Suc.IH [OF deque_ok_front [OF Suc.prems(1) some] deque_regs_kept [OF r3 env Suc.prems(2), of "blk cg 6"] st]
      obtain q r4 where 4: "steps M L (blocks P) (At (blk cg 4) 0, at_deque c m l n (s\<lparr>pred := blk cg 6\<rparr>) r3 ?st b)
          (At (blk cg 7) 0, at_deque c m l n (s\<lparr>pred := q\<rparr>) r4 (deque_pop_front k p ?st b) b)"
        "in_blocks cg (deque_blocks M cg kind x p) r3 r4" by (simp only: pred_twice) blast
      have "deque_pop_front (Suc k) p st b = deque_pop_front k p ?st b" using some True by simp
      moreover have "steps M L (blocks P) (At (blk cg 4) 0, at_deque c m l n s r st b)
          (At (blk cg 7) 0, at_deque c m l n (s\<lparr>pred := q\<rparr>) r4 (deque_pop_front k p ?st b) b)"
        using s2 3(1) 4(1) True by (auto intro: steps_trans)
      ultimately show ?thesis using in_blocks_trans [OF r3 4(2)] by metis
    qed
  qed
qed

lemma deque_runs:
  assumes doc: "documented M L" "at_open cg" "c < length (contexts m)" "opv M s r base = Some (VP (PLowered c kd))"
    and n: "small (int n)" "node_id = int n"
    and slot: "deque_slot p n (sts l) (bufs l)" "ml_idx (sts l ! n) < 2 ^ 61"
    and x: "old cg xa" "opv M s r xa = Some (VF a)"
    and e: "EmitLoweredMonoDequeRolling M xa node_id p kind base cg = (Inr v, cg')" and P: "extends cg' P"
    and step: "deque_lstep M (kind = MinDeque) p a (sts l ! n) (bufs l ! n) = (y, st, b)"
  shows "runs M L P cg (with_state s r (put_low c l m)) v cg' y (put_low c (put l n st b) m)"
proof -
  let ?new = "deque_blocks M cg kind xa p" and ?st0 = "sts l ! n" and ?b0 = "bufs l ! n"
  let ?gone = "\<lambda>v. if kind = MinDeque then fle M a v else fle M v a"
  from e have cg': "v = breg cg 7 9"
      "cg' = forked (deque_head cg base node_id) (Some (Br (blk cg 0))) ?new (blk cg 7) cg"
    by (simp_all only: EmitLoweredMonoDequeRolling_code [OF doc(2)] prod.inject sum.inject)
  have ok0: "deque_ok p n ?st0 ?b0" "ml_count ?st0 \<le> p" and l: "n < length (sts l)" "n < length (bufs l)"
    using slot(1) by (simp_all add: deque_slot_def)
  have env: "deque_env M L P c m l n cg (deque_head cg base node_id) kind xa p"
    using doc l n x(1) P by (simp add: deque_env_def cg'(2))
  note env' = deque_envD [OF env]
  have "\<exists>r1. run_list M L (here cg) (code_length cg) 0 (deque_head cg base node_id) (with_state s r (put_low c l m)) =
      Inr (with_state s r1 (put_low c l m)) \<and> pointers cg c kd n r1 \<and> opv M s r1 xa = Some (VF a) \<and> results_grow cg r cg' r1"
    unfolding deque_head_def
    apply (intro exI conjI)
    apply (simp add: doc(4) n(2) cong: rbind_first)
    apply (simp add: pointers_def)
    apply (simp add: x)
    subgoal unfolding cg'(2) deque_head_def by (intro fork_results_here [OF doc(2)] results_grow_refl; simp)
    done
  then obtain r1 where h: "run_list M L (here cg) (code_length cg) 0 (deque_head cg base node_id) (with_state s r (put_low c l m)) =
      Inr (with_state s r1 (put_low c l m))" "deque_regs M c n cg xa a s r1" "results_grow cg r cg' r1"
    by (auto simp: deque_regs_def)
  have 0: "steps M L (blocks P) (point cg, with_state s r (put_low c l m))
      (At (blk cg 0) 0, at_deque c m l n (s\<lparr>pred := here cg\<rparr>) r1 ?st0 ?b0)"
    using block_steps [OF fork_blocks(1,2) [OF env'(8) doc(2)] h(1)] by (simp add: point_def put_same)
  have regs1: "deque_regs M c n cg xa a (s\<lparr>pred := q\<rparr>) r1" for q
    using deque_regs_kept [OF in_blocks_refl env h(2)] .
  have small_count: "ml_count ?st0 \<le> int (nat (ml_count ?st0))" by simp
  define st1 where "st1 = deque_pop_back (nat (ml_count ?st0)) ?gone ?st0 ?b0"
  from loop_back [OF env refl ok0(1) regs1 small_count]
  obtain q2 r2 where 2: "steps M L (blocks P) (At (blk cg 0) 0, at_deque c m l n (s\<lparr>pred := here cg\<rparr>) r1 ?st0 ?b0)
      (At (blk cg 3) 0, at_deque c m l n (s\<lparr>pred := q2\<rparr>) r2 st1 ?b0)" "in_blocks cg ?new r1 r2"
    unfolding st1_def by (simp only: pred_twice) blast
  from deque_pop_back_ok [OF ok0(1)] have ok1: "deque_ok p n st1 ?b0" "ml_count st1 \<le> p" "ml_idx st1 < 2 ^ 61"
    using ok0(2) slot(2) unfolding st1_def by (blast, metis order_trans, metis)
  obtain st2 b2 where push: "deque_push a st1 ?b0 = (st2, b2)" by fastforce
  from block_three [OF env ok1(1) deque_regs_kept [OF 2(2) env h(2)] ok1(3)] obtain r3 where
    3: "steps M L (blocks P) (At (blk cg 3) 0, at_deque c m l n (s\<lparr>pred := q2\<rparr>) r2 st1 ?b0)
      (At (blk cg 4) 0, at_deque c m l n (s\<lparr>pred := blk cg 3\<rparr>) r3 st2 b2)" "in_blocks cg ?new r2 r3"
    unfolding push by (simp only: pred_twice fst_conv snd_conv) blast
  have ok2: "deque_ok p n st2 b2" "ml_idx st2 = ml_idx st1"
    using deque_ok_push [OF ok1(1,2) push] push by (auto simp: deque_push_def)
  note r3 = in_blocks_trans [OF 2(2) 3(2)]
  have count2: "ml_count st2 \<le> int (nat (ml_count st2))" and idx2: "ml_idx st2 < 2 ^ 61" using ok1(3) ok2(2) by simp_all
  define st3 where "st3 = deque_pop_front (nat (ml_count st2)) p st2 b2"
  from loop_front [OF env ok2(1) deque_regs_kept [OF r3 env h(2)] count2 idx2] obtain q4 r4 where
    4: "steps M L (blocks P) (At (blk cg 4) 0, at_deque c m l n (s\<lparr>pred := blk cg 3\<rparr>) r3 st2 b2)
      (At (blk cg 7) 0, at_deque c m l n (s\<lparr>pred := q4\<rparr>) r4 st3 b2)" "in_blocks cg ?new r3 r4"
    unfolding st3_def by (simp only: pred_twice) blast
  from deque_pop_front_ok [OF ok2(1)] have ok3: "deque_ok p n st3 b2" "ml_idx st3 < 2 ^ 61"
    unfolding st3_def using idx2 by (blast, metis)
  note r4 = in_blocks_trans [OF r3 4(2)]
  from block_seven [OF env ok3(1) deque_regs_kept [OF r4 env h(2)] ok3(2)] obtain r5 where
    5: "steps M L (blocks P) (At (blk cg 7) 0, at_deque c m l n (s\<lparr>pred := q4\<rparr>) r4 st3 b2)
      (At (blk cg 7) 10, at_deque c m l n (s\<lparr>pred := q4\<rparr>) r5 (st3\<lparr>ml_idx := ml_idx st3 + 1\<rparr>) b2)"
    "r5 (blk cg 7, 9) = Some (VF (if p \<le> ml_idx st3 + 1 then snd (b2 ! nat (ml_head st3)) else qnan M))"
    "in_blocks cg ?new r4 r5" by blast
  have "point cg' = At (blk cg 7) 10"
    unfolding cg'(2) by (subst fork_point) (simp_all add: deque_blocks_def Let_def)
  moreover have "results_grow cg r cg' r5"
    using in_blocks_results [OF in_blocks_trans [OF r4 5(3)]] h(3) unfolding cg'(2) by blast
  moreover have whole: "deque_lstep M (kind = MinDeque) p a ?st0 ?b0 =
      (if p \<le> ml_idx st3 + 1 then snd (b2 ! nat (ml_head st3)) else qnan M, st3\<lparr>ml_idx := ml_idx st3 + 1\<rparr>, b2)"
    by (simp add: deque_lstep_def push Let_def flip: st1_def) (simp add: st3_def)
  moreover have "y = (if p \<le> ml_idx st3 + 1 then snd (b2 ! nat (ml_head st3)) else qnan M)"
      "st = st3\<lparr>ml_idx := ml_idx st3 + 1\<rparr>" "b = b2"
    using step whole by auto
  moreover have "steps M L (blocks P) (point cg, with_state s r (put_low c l m))
      (At (blk cg 7) 10, at_deque c m l n (s\<lparr>pred := q4\<rparr>) r5 (st3\<lparr>ml_idx := ml_idx st3 + 1\<rparr>) b2)"
    using 0 2(1) 3(1) 4(1) 5(1) by (blast intro: steps_trans)
  ultimately show ?thesis using 5(2) unfolding runs_def cg'(1) by auto
qed

end

section \<open>The two operators\<close>

definition put_min :: "'f LoweredStates \<Rightarrow> nat \<Rightarrow> RollingMinMaxStateLowered \<Rightarrow> (int \<times> 'f) list \<Rightarrow> 'f LoweredStates" where
  "put_min l n st b = l\<lparr>rolling_min_lowered := (rolling_min_lowered l)[n := st],
     rolling_min_lowered_buffers := (rolling_min_lowered_buffers l)[n := b]\<rparr>"

definition put_max :: "'f LoweredStates \<Rightarrow> nat \<Rightarrow> RollingMinMaxStateLowered \<Rightarrow> (int \<times> 'f) list \<Rightarrow> 'f LoweredStates" where
  "put_max l n st b = l\<lparr>rolling_max_lowered := (rolling_max_lowered l)[n := st],
     rolling_max_lowered_buffers := (rolling_max_lowered_buffers l)[n := b]\<rparr>"

interpretation min_arrays: deque_arrays MinKind rolling_min_lowered rolling_min_lowered_buffers put_min
  by unfold_locales (auto simp: put_min_def cells_at_def put_at_def entries_def set_entries_def option.map_comp comp_def nth_opt_def intro!: option.map_cong0)

interpretation max_arrays: deque_arrays MaxKind rolling_max_lowered rolling_max_lowered_buffers put_max
  by unfold_locales (auto simp: put_max_def cells_at_def put_at_def entries_def set_entries_def option.map_comp comp_def nth_opt_def intro!: option.map_cong0)

lemma rolling_min_runs:
  assumes site: "site M L c MinKind 5 node_id cg cg0 s m"
    and "deque_slot p (nat node_id) (rolling_min_lowered l) (rolling_min_lowered_buffers l)"
    and "ml_idx (rolling_min_lowered l ! nat node_id) < 2 ^ 61"
    and x: "old cg0 xa" "opv M s r xa = Some (VF a)"
    and e: "EmitLoweredRollingMin M xa node_id p cg = (Inr v, cg')" and P: "extends cg' P"
    and step: "deque_lstep M True p a (rolling_min_lowered l ! nat node_id) (rolling_min_lowered_buffers l ! nat node_id) = (y, st, b)"
  shows "runs M L P cg0 (with_state s r (put_low c l m)) v cg' y (put_low c (put_min l (nat node_id) st b) m)"
proof -
  note at = siteD [OF site]
  have id: "small (int (nat node_id))" "node_id = int (nat node_id)" using site by (auto simp: site_def small_def)
  have base: "opv M s r (Hoisted 5) = Some (VP (PLowered c MinKind))" using at(4) by simp
  have "EmitLoweredMonoDequeRolling M xa node_id p MinDeque (Hoisted 5) cg0 = (Inr v, cg')"
    using e by (simp add: EmitLoweredRollingMin_def base_getters bindm_def at(5))
  from min_arrays.deque_runs [OF at(1-3) base id assms(2,3) x this P] step show ?thesis by simp
qed

lemma rolling_max_runs:
  assumes site: "site M L c MaxKind 6 node_id cg cg0 s m"
    and "deque_slot p (nat node_id) (rolling_max_lowered l) (rolling_max_lowered_buffers l)"
    and "ml_idx (rolling_max_lowered l ! nat node_id) < 2 ^ 61"
    and x: "old cg0 xa" "opv M s r xa = Some (VF a)"
    and e: "EmitLoweredRollingMax M xa node_id p cg = (Inr v, cg')" and P: "extends cg' P"
    and step: "deque_lstep M False p a (rolling_max_lowered l ! nat node_id) (rolling_max_lowered_buffers l ! nat node_id) = (y, st, b)"
  shows "runs M L P cg0 (with_state s r (put_low c l m)) v cg' y (put_low c (put_max l (nat node_id) st b) m)"
proof -
  note at = siteD [OF site]
  have id: "small (int (nat node_id))" "node_id = int (nat node_id)" using site by (auto simp: site_def small_def)
  have base: "opv M s r (Hoisted 6) = Some (VP (PLowered c MaxKind))" using at(4) by simp
  have "EmitLoweredMonoDequeRolling M xa node_id p MaxDeque (Hoisted 6) cg0 = (Inr v, cg')"
    using e by (simp add: EmitLoweredRollingMax_def base_getters bindm_def at(5))
  from max_arrays.deque_runs [OF at(1-3) base id assms(2,3) x this P] step show ?thesis by simp
qed

end
