(* ===== verification/Jit_Scoped.thy ===== *)
theory Jit_Scoped
  imports Node_Ids
begin

text \<open>
  The per-compile cache of stateful calls hands out the value of the first call with a node id. That
  is sound when the first call has been evaluated wherever the value is used: \<open>scoped\<close>. The
  allocation of node ids (\<^verbatim>\<open>src/signal_program.cpp\<close>) produces trees of that kind.
\<close>

section \<open>Evaluated and emitted calls\<close>

text \<open>The ids evaluated for sure after a tree, and those whose code has been emitted.\<close>

fun settled :: "int set \<Rightarrow> 'f expr \<Rightarrow> int set" and settleds :: "int set \<Rightarrow> 'f expr list \<Rightarrow> int set" where
  "settled A (UnaryOp l k e) = settled A e"
| "settled A (BinaryOp l k a b) = settled (settled A a) b"
| "settled A (Conditional l c t e) = settled A c"
| "settled A (FunctionCall l n as i sy) =
     (if i \<in> A then A else if IsStatefulOp n then insert i (settleds A as) else settleds A as)"
| "settled A _ = A"
| "settleds A [] = A"
| "settleds A (a # as) = settleds (settled A a) as"

fun emitted :: "int set \<Rightarrow> 'f expr \<Rightarrow> int set" and emitteds :: "int set \<Rightarrow> 'f expr list \<Rightarrow> int set" where
  "emitted S (UnaryOp l k e) = emitted S e"
| "emitted S (BinaryOp l k a b) = emitted (emitted S a) b"
| "emitted S (Conditional l c t e) = emitted (emitted (emitted S c) t) e"
| "emitted S (FunctionCall l n as i sy) =
     (if i \<in> S then S else if IsStatefulOp n then insert i (emitteds S as) else emitteds S as)"
| "emitted S _ = S"
| "emitteds S [] = S"
| "emitteds S (a # as) = emitteds (emitted S a) as"

text \<open>A call whose code exists has been evaluated; the others are evaluated here.\<close>

fun scoped :: "int set \<Rightarrow> int set \<Rightarrow> 'f expr \<Rightarrow> bool" and scopeds :: "int set \<Rightarrow> int set \<Rightarrow> 'f expr list \<Rightarrow> bool" where
  "scoped A S (UnaryOp l k e) \<longleftrightarrow> scoped A S e"
| "scoped A S (BinaryOp l k a b) \<longleftrightarrow> scoped A S a \<and> scoped (settled A a) (emitted S a) b"
| "scoped A S (Conditional l c t e) \<longleftrightarrow> scoped A S c \<and> scoped (settled A c) (emitted S c) t \<and>
     scoped (settled A c) (emitted (emitted S c) t) e"
| "scoped A S (FunctionCall l n as i sy) \<longleftrightarrow>
     (if i \<in> S then i \<in> A
      else scopeds A S as \<and> (if IsStatefulOp n then 0 < i \<and> i \<notin> emitteds S as else i < 0))"
| "scoped A S _ \<longleftrightarrow> True"
| "scopeds A S [] \<longleftrightarrow> True"
| "scopeds A S (a # as) \<longleftrightarrow> scoped A S a \<and> scopeds (settled A a) (emitted S a) as"

lemma settled_mono:
  fixes e :: "'f expr" and es :: "'f expr list"
  shows "A \<subseteq> settled A e" and "A \<subseteq> settleds A es"
  by (induction A e and A es rule: settled_settleds.induct) auto

lemma emitted_mono:
  fixes e :: "'f expr" and es :: "'f expr list"
  shows "S \<subseteq> emitted S e" and "S \<subseteq> emitteds S es"
  by (induction S e and S es rule: emitted_emitteds.induct) auto

section \<open>The calls every evaluation reaches\<close>

fun sure :: "'f expr \<Rightarrow> 'f expr set" where
  "sure (UnaryOp l k e) = sure e"
| "sure (BinaryOp l k a b) = sure a \<union> sure b"
| "sure (Conditional l c t e) = sure c"
| "sure (FunctionCall l n as i sy) =
     (if IsStatefulOp n then {erase (FunctionCall l n as i sy)} else {}) \<union> \<Union> (sure ` set as)"
| "sure _ = {}"

lemma erase_idem: "erase (erase e) = erase e"
  by (induction e) simp_all

lemma sure_erase: "sure (erase e) = sure e"
proof (induction e)
  case (FunctionCall l n as i sy)
  have "map (erase \<circ> erase) as = map erase as" by (simp add: erase_idem)
  moreover have "\<Union> (sure ` set (map erase as)) = \<Union> (sure ` set as)" using FunctionCall by auto
  ultimately show ?case by (simp del: map_eq_conv add: image_image)
qed auto

lemma sure_same: "erase a = erase b \<Longrightarrow> sure a = sure b"
  by (metis sure_erase)

lemma call_count_erase: "length (calls (erase e)) = length (calls e)"
proof (induction e)
  case (FunctionCall l n as i sy)
  then have "map (length \<circ> calls \<circ> erase) as = map (length \<circ> calls) as" by simp
  then show ?case by (simp del: map_eq_conv add: length_concat comp_def)
qed auto

abbreviation call_count :: "'f expr \<Rightarrow> nat" where
  "call_count e \<equiv> length (calls e)"

lemma call_count_same: "erase a = erase b \<Longrightarrow> call_count a = call_count b"
  by (metis call_count_erase)

section \<open>Allocated trees\<close>

definition known :: "int set \<Rightarrow> 'f SeenStateful list \<Rightarrow> 'f expr \<Rightarrow> bool" where
  "known A seen r \<longleftrightarrow> (\<exists>y\<in>set seen. unconditional y \<and> erase (seen_call y) = r \<and> seen_id y \<in> A)"

definition evaluated :: "int set \<Rightarrow> 'f SeenStateful list \<Rightarrow> 'f SeenStateful \<Rightarrow> bool" where
  "evaluated A seen x \<longleftrightarrow> seen_id x \<in> A \<and> (\<forall>r\<in>sure (seen_call x). known A seen r)"

text \<open>An unconditional entry has been evaluated, with everything in it, unless its call is being
  walked, which then has more than \<open>k\<close> calls.\<close>

definition alloc_inv :: "nat \<Rightarrow> int \<Rightarrow> 'f SeenStateful list \<Rightarrow> int set \<Rightarrow> int set \<Rightarrow> bool" where
  "alloc_inv k n seen A S \<longleftrightarrow> 1 \<le> n \<and> A \<subseteq> S \<and> S \<subseteq> {1..<n} \<and>
     (\<forall>x\<in>set seen. 1 \<le> seen_id x \<and> seen_id x < n) \<and>
     (\<forall>x\<in>set seen. unconditional x \<longrightarrow> evaluated A seen x \<or> k < call_count (seen_call x))"

definition alloc_post :: "bool \<Rightarrow> int \<Rightarrow> 'f SeenStateful list \<Rightarrow> int \<Rightarrow> 'f SeenStateful list \<Rightarrow> int set \<Rightarrow> int set \<Rightarrow> int set \<Rightarrow> 'f expr set \<Rightarrow> bool" where
  "alloc_post u n seen n' seen' S A' S' rs \<longleftrightarrow> n \<le> n' \<and> A' \<subseteq> S' \<and> S' \<subseteq> S \<union> {n..<n'} \<and>
     (\<exists>new. seen' = seen @ new \<and> (\<forall>x\<in>set new. n \<le> seen_id x \<and> seen_id x < n' \<and>
        (unconditional x \<longrightarrow> u \<and> evaluated A' seen' x))) \<and>
     (u \<longrightarrow> (\<forall>r\<in>rs. known A' seen' r))"

lemma known_mono: "known A seen r \<Longrightarrow> A \<subseteq> A' \<Longrightarrow> set seen \<subseteq> set seen' \<Longrightarrow> known A' seen' r"
  by (fastforce simp: known_def)

lemma evaluated_mono: "evaluated A seen x \<Longrightarrow> A \<subseteq> A' \<Longrightarrow> set seen \<subseteq> set seen' \<Longrightarrow> evaluated A' seen' x"
  unfolding evaluated_def by (blast intro: known_mono)

lemma alloc_inv_step:
  assumes inv: "alloc_inv k n seen A S" and post: "alloc_post u n seen n' seen' S A' S' rs" and "A \<subseteq> A'"
  shows "alloc_inv k n' seen' A' S'"
proof -
  from post obtain new where new: "seen' = seen @ new" "\<forall>x\<in>set new. n \<le> seen_id x \<and> seen_id x < n' \<and>
        (unconditional x \<longrightarrow> u \<and> evaluated A' seen' x)" and n: "n \<le> n'" "A' \<subseteq> S'" "S' \<subseteq> S \<union> {n..<n'}"
    by (auto simp: alloc_post_def)
  have "evaluated A' seen' x \<or> k < call_count (seen_call x)" if "x \<in> set seen'" "unconditional x" for x
  proof (cases "x \<in> set new")
    case True
    with new(2) that(2) show ?thesis by blast
  next
    case False
    then have "x \<in> set seen" using that(1) new(1) by simp
    then have "evaluated A seen x \<or> k < call_count (seen_call x)" using inv that(2) by (simp add: alloc_inv_def)
    then show ?thesis using evaluated_mono [OF _ assms(3), of seen x seen'] new(1) by auto
  qed
  moreover have "1 \<le> n" "S \<subseteq> {1..<n}" and old: "\<forall>x\<in>set seen. 1 \<le> seen_id x \<and> seen_id x < n"
    using inv by (simp_all add: alloc_inv_def)
  moreover have "S' \<subseteq> {1..<n'}" using calculation(2,3) n by fastforce
  moreover have "\<forall>x\<in>set seen'. 1 \<le> seen_id x \<and> seen_id x < n'" using old new n(1) calculation(2) by fastforce
  ultimately show ?thesis using n by (simp add: alloc_inv_def)
qed

text \<open>In the branches of a conditional no unconditional entry is added, so that what is evaluated
  before is all the other branch knows.\<close>

lemma alloc_inv_branch:
  assumes inv: "alloc_inv k n seen A S" and post: "alloc_post False n seen n' seen' S A' S' rs" and "A \<subseteq> S'"
  shows "alloc_inv k n' seen' A S'"
proof -
  from post obtain new where new: "seen' = seen @ new" "\<forall>x\<in>set new. n \<le> seen_id x \<and> seen_id x < n' \<and> \<not> unconditional x"
    and n: "n \<le> n'" "S' \<subseteq> S \<union> {n..<n'}"
    by (auto simp: alloc_post_def)
  then have post': "alloc_post False n seen n' seen' S A S' {}" using assms(3) by (simp add: alloc_post_def)
  show ?thesis by (rule alloc_inv_step [OF inv post' subset_refl])
qed

lemma TryAlias_known:
  assumes "\<forall>x\<in>set seen. 1 \<le> seen_id x"
  shows "if \<exists>y\<in>set seen. unconditional y \<and> erase (seen_call y) = erase e
    then \<exists>y\<in>set seen. unconditional y \<and> erase (seen_call y) = erase e \<and> TryAliasNodeId seen e = seen_id y \<and> 1 \<le> seen_id y
    else TryAliasNodeId seen e = 0"
  using assms
proof (induction seen)
  case (Cons x seen)
  show ?case
  proof (cases "unconditional x \<and> erase (seen_call x) = erase e")
    case True
    then show ?thesis using Cons.prems by (auto simp: AstEquals_erase)
  next
    case False
    with Cons.IH Cons.prems show ?thesis by (simp add: AstEquals_erase) metis
  qed
qed simp

text \<open>Below a call that shares the id of an evaluated one, no unconditional entry is added.\<close>

definition quiet_post :: "int \<Rightarrow> 'f SeenStateful list \<Rightarrow> int \<Rightarrow> 'f SeenStateful list \<Rightarrow> bool" where
  "quiet_post n seen n' seen' \<longleftrightarrow> n \<le> n' \<and>
     (\<exists>new. seen' = seen @ new \<and> (\<forall>x\<in>set new. n \<le> seen_id x \<and> seen_id x < n' \<and> \<not> unconditional x))"

lemma quiet_refl: "quiet_post n seen n seen"
  by (simp add: quiet_post_def)

lemma quiet_trans: "quiet_post n seen n1 seen1 \<Longrightarrow> quiet_post n1 seen1 n2 seen2 \<Longrightarrow> quiet_post n seen n2 seen2"
  by (fastforce simp: quiet_post_def)

definition covered :: "bool \<Rightarrow> 'f SeenStateful list \<Rightarrow> 'f expr set \<Rightarrow> bool" where
  "covered u seen rs \<longleftrightarrow> (\<forall>x\<in>set seen. 1 \<le> seen_id x) \<and>
     (u \<longrightarrow> (\<forall>r\<in>rs. \<exists>y\<in>set seen. unconditional y \<and> erase (seen_call y) = r))"

lemma covered_quiet: "covered u seen rs \<Longrightarrow> 1 \<le> n \<Longrightarrow> quiet_post n seen n' seen' \<Longrightarrow> covered u seen' rs"
  by (fastforce simp: covered_def quiet_post_def)

lemma covered_Un: "covered u seen (R \<union> R') \<longleftrightarrow> covered u seen R \<and> covered u seen R'"
  by (auto simp: covered_def)

lemma covered_False: "covered u seen R \<Longrightarrow> covered False seen R'"
  by (simp add: covered_def)

lemma quiet_next:
  assumes "quiet_post n seen n1 seen1" and "covered u seen R" and "1 \<le> n"
    and "covered u seen1 R \<Longrightarrow> 1 \<le> n1 \<Longrightarrow> quiet_post n1 seen1 n2 seen2"
  shows "quiet_post n seen n2 seen2"
proof -
  have "1 \<le> n1" using assms(1,3) by (simp add: quiet_post_def)
  with covered_quiet [OF assms(2,3,1)] assms(4) quiet_trans [OF assms(1)] show ?thesis by blast
qed

lemma quiet_assign:
  assumes "covered u seen (sure (FunctionCall l m as i sy))" and "assign_id u (FunctionCall l m as i sy) m i (n, seen) = (i', (n', seen'))"
  shows "quiet_post n seen n' seen'"
proof (cases "IsStatefulOp m \<and> i < 0 \<and> \<not> 0 < TryAliasNodeId seen (FunctionCall l m as i sy)")
  case True
  let ?e = "FunctionCall l m as i sy"
  have "\<forall>x\<in>set seen. 1 \<le> seen_id x" using assms(1) by (simp add: covered_def)
  from TryAlias_known [OF this, of ?e] True have "\<not> (\<exists>y\<in>set seen. unconditional y \<and> erase (seen_call y) = erase ?e)"
    by (auto split: if_splits)
  with assms(1) True have "\<not> u" by (auto simp: covered_def)
  with assms(2) True show ?thesis by (auto simp: assign_id_def quiet_post_def)
next
  case False
  with assms(2) show ?thesis by (auto simp: assign_id_def Let_def quiet_refl split: if_splits)
qed

lemma quiet_walk:
  fixes e e' :: "'f expr" and es es' :: "'f expr list"
  shows "alloc_walk u e (n, seen) = (e', (n', seen')) \<Longrightarrow> covered u seen (sure e) \<Longrightarrow> 1 \<le> n \<Longrightarrow> quiet_post n seen n' seen'"
    and "alloc_walks u es (n, seen) = (es', (n', seen')) \<Longrightarrow> covered u seen (\<Union> (sure ` set es)) \<Longrightarrow> 1 \<le> n \<Longrightarrow> quiet_post n seen n' seen'"
proof (induction u e "(n, seen)" and u es "(n, seen)" arbitrary: e' n seen n' seen' and es' n seen n' seen'
    rule: alloc_walk_alloc_walks.induct)
  case (2 u l k a b)
  obtain a' n1 seen1 where a: "alloc_walk u a (n, seen) = (a', (n1, seen1))" by (metis surj_pair)
  obtain b' n2 seen2 where b: "alloc_walk u b (n1, seen1) = (b', (n2, seen2))" by (metis surj_pair)
  from 2(4) have cov: "covered u seen (sure a)" "covered u seen (sure b)" by (simp_all add: covered_Un)
  have "quiet_post n seen n2 seen2"
    by (rule quiet_next [OF 2(1) [OF a cov(1) 2(5)] cov(2) 2(5) 2(2) [OF a [symmetric] refl b]])
  with 2(3) a b show ?case by (simp add: Let_def)
next
  case (3 u l c t e)
  obtain c' n1 seen1 where c: "alloc_walk u c (n, seen) = (c', (n1, seen1))" by (metis surj_pair)
  obtain t' n2 seen2 where t: "alloc_walk False t (n1, seen1) = (t', (n2, seen2))" by (metis surj_pair)
  obtain e1 n3 seen3 where e: "alloc_walk False e (n2, seen2) = (e1, (n3, seen3))" by (metis surj_pair)
  from 3(5) have cov: "covered u seen (sure c)" by simp
  have "quiet_post n seen n2 seen2"
    by (rule quiet_next [OF 3(1) [OF c cov 3(6)] covered_False [OF cov] 3(6) 3(2) [OF c [symmetric] refl t]])
  from quiet_next [OF this covered_False [OF cov] 3(6) 3(3) [OF c [symmetric] refl t [symmetric] refl e]]
  have "quiet_post n seen n3 seen3" .
  with 3(4) c t e show ?case by (simp add: Let_def)
next
  case (4 u l m as i sy)
  obtain i' n1 seen1 where i: "assign_id u (FunctionCall l m as i sy) m i (n, seen) = (i', (n1, seen1))" by (metis surj_pair)
  obtain as' n2 seen2 where ars: "alloc_walks u as (n1, seen1) = (as', (n2, seen2))" by (metis surj_pair)
  from 4(3) have cov: "covered u seen (\<Union> (sure ` set as))" by (simp add: covered_Un)
  have "quiet_post n seen n2 seen2"
    by (rule quiet_next [OF quiet_assign [OF 4(3) i] cov 4(4) 4(1) [OF i [symmetric] refl ars]])
  with 4(2) i ars show ?case by (simp add: Let_def)
next
  case (9 u a as)
  obtain a' n1 seen1 where a: "alloc_walk u a (n, seen) = (a', (n1, seen1))" by (metis surj_pair)
  obtain as' n2 seen2 where ars: "alloc_walks u as (n1, seen1) = (as', (n2, seen2))" by (metis surj_pair)
  from 9(4) have cov: "covered u seen (sure a)" "covered u seen (\<Union> (sure ` set as))" by (simp_all add: covered_Un)
  have "quiet_post n seen n2 seen2"
    by (rule quiet_next [OF 9(1) [OF a cov(1) 9(5)] cov(2) 9(5) 9(2) [OF a [symmetric] refl ars]])
  with 9(3) a ars show ?case by (simp add: Let_def)
qed (auto simp: Let_def quiet_refl split: prod.splits)

text \<open>Postconditions in sequence, and of a branch.\<close>

lemma post_refl: "A \<subseteq> S \<Longrightarrow> alloc_post u n seen n seen S A S {}"
  by (simp add: alloc_post_def)

lemma post_trans:
  assumes "alloc_post u n seen n1 seen1 S A1 S1 R1" and "alloc_post u n1 seen1 n2 seen2 S1 A2 S2 R2" and "A1 \<subseteq> A2"
  shows "alloc_post u n seen n2 seen2 S A2 S2 (R1 \<union> R2)"
proof -
  from assms(1) obtain new1 where 1: "seen1 = seen @ new1" "\<forall>x\<in>set new1. n \<le> seen_id x \<and> seen_id x < n1 \<and>
        (unconditional x \<longrightarrow> u \<and> evaluated A1 seen1 x)" "n \<le> n1" "A1 \<subseteq> S1" "S1 \<subseteq> S \<union> {n..<n1}"
      "u \<longrightarrow> (\<forall>r\<in>R1. known A1 seen1 r)" by (auto simp: alloc_post_def)
  from assms(2) obtain new2 where 2: "seen2 = seen1 @ new2" "\<forall>x\<in>set new2. n1 \<le> seen_id x \<and> seen_id x < n2 \<and>
        (unconditional x \<longrightarrow> u \<and> evaluated A2 seen2 x)" "n1 \<le> n2" "A2 \<subseteq> S2" "S2 \<subseteq> S1 \<union> {n1..<n2}"
      "u \<longrightarrow> (\<forall>r\<in>R2. known A2 seen2 r)" by (auto simp: alloc_post_def)
  have sub: "set seen1 \<subseteq> set seen2" using 2(1) by simp
  have "\<forall>x\<in>set (new1 @ new2). n \<le> seen_id x \<and> seen_id x < n2 \<and> (unconditional x \<longrightarrow> u \<and> evaluated A2 seen2 x)"
    using 1(2,3) 2(2,3) evaluated_mono [OF _ assms(3) sub] by fastforce
  moreover have "u \<longrightarrow> (\<forall>r\<in>R1 \<union> R2. known A2 seen2 r)"
    using 1(6) 2(6) known_mono [OF _ assms(3) sub] by blast
  moreover have "S2 \<subseteq> S \<union> {n..<n2}" "n \<le> n2" using 1(3,5) 2(3,5) by fastforce+
  moreover have "seen2 = seen @ (new1 @ new2)" using 1(1) 2(1) by simp
  ultimately show ?thesis using 2(4) unfolding alloc_post_def by blast
qed

lemma post_branch: "alloc_post False n seen n' seen' S A' S' R \<Longrightarrow> A \<subseteq> S' \<Longrightarrow> alloc_post u n seen n' seen' S A S' {}"
  by (fastforce simp: alloc_post_def)

lemma quiet_alloc_post:
  "quiet_post n seen n' seen' \<Longrightarrow> A \<subseteq> S \<Longrightarrow> (u \<Longrightarrow> \<forall>r\<in>R. known A seen r) \<Longrightarrow> alloc_post u n seen n' seen' S A S R"
  by (fastforce simp: alloc_post_def quiet_post_def intro: known_mono)

text \<open>A call that gets the id of an evaluated one.\<close>

lemma scoped_alias:
  assumes inv: "alloc_inv k n seen A S" and few: "call_count e \<le> k"
    and y: "y \<in> set seen" "unconditional y" "erase (seen_call y) = erase e"
  shows "seen_id y \<in> A" "\<forall>r\<in>sure e. known A seen r"
proof -
  have "evaluated A seen y" using inv few y call_count_same [OF y(3)] by (fastforce simp: alloc_inv_def)
  then show "seen_id y \<in> A" "\<forall>r\<in>sure e. known A seen r" using sure_same [OF y(3)] by (simp_all add: evaluated_def)
qed

text \<open>A call that gets a new id: its entry is pending while its arguments are walked.\<close>

lemma alloc_inv_fresh:
  assumes "alloc_inv k n seen A S" and "call_count e \<le> k" and "k' < call_count e"
  shows "alloc_inv k' (n + 1) (seen @ [\<lparr>seen_call = e, seen_id = n, unconditional = u\<rparr>]) A S"
  using assms evaluated_mono [of A seen _ A "seen @ [\<lparr>seen_call = e, seen_id = n, unconditional = u\<rparr>]"]
  by (fastforce simp: alloc_inv_def)

lemma post_fresh:
  assumes inv: "alloc_inv k n seen A S"
    and post: "alloc_post u (n + 1) (seen @ [\<lparr>seen_call = e, seen_id = n, unconditional = u\<rparr>]) n' seen' S A' S' R"
    and e: "sure e = insert (erase e) R"
  shows "alloc_post u n seen n' seen' S (insert n A') (insert n S') (sure e)" "n \<notin> S'"
proof -
  let ?x = "\<lparr>seen_call = e, seen_id = n, unconditional = u\<rparr>"
  from post obtain new where 1: "seen' = (seen @ [?x]) @ new" "\<forall>x\<in>set new. n + 1 \<le> seen_id x \<and> seen_id x < n' \<and>
        (unconditional x \<longrightarrow> u \<and> evaluated A' seen' x)" "n + 1 \<le> n'" "A' \<subseteq> S'" "S' \<subseteq> S \<union> {n + 1..<n'}"
      "u \<longrightarrow> (\<forall>r\<in>R. known A' seen' r)" unfolding alloc_post_def by blast
  have "S \<subseteq> {1..<n}" using inv by (simp add: alloc_inv_def)
  with 1(5) show "n \<notin> S'" by fastforce
  have sub: "A' \<subseteq> insert n A'" by blast
  have known: "\<forall>r\<in>sure e. known (insert n A') seen' r" if u
  proof -
    have "known (insert n A') seen' (erase e)" using that 1(1) by (auto simp: known_def intro!: bexI [of _ ?x])
    with 1(6) that e known_mono [OF _ sub subset_refl] show ?thesis by auto
  qed
  have "n \<le> seen_id x \<and> seen_id x < n' \<and> (unconditional x \<longrightarrow> u \<and> evaluated (insert n A') seen' x)"
    if "x \<in> set (?x # new)" for x
  proof (cases "x = ?x")
    case True
    then show ?thesis using 1(3) known by (simp add: evaluated_def)
  next
    case False
    with that have "x \<in> set new" by simp
    then show ?thesis using 1(2) evaluated_mono [OF _ sub subset_refl] by fastforce
  qed
  then have "\<exists>new. seen' = seen @ new \<and> (\<forall>x\<in>set new. n \<le> seen_id x \<and> seen_id x < n' \<and>
      (unconditional x \<longrightarrow> u \<and> evaluated (insert n A') seen' x))"
    using 1(1) by (intro exI [of _ "?x # new"]) fastforce
  moreover have "insert n S' \<subseteq> S \<union> {n..<n'}" using 1(3,5) by fastforce
  moreover have "n \<le> n'" "insert n A' \<subseteq> insert n S'" using 1(3,4) by auto
  ultimately show "alloc_post u n seen n' seen' S (insert n A') (insert n S') (sure e)"
    using known unfolding alloc_post_def by (intro conjI impI)
qed

definition unassigned :: "'f expr \<Rightarrow> bool" where
  "unassigned e \<longleftrightarrow> (\<forall>(m, as, i, sy)\<in>set (calls e). i < 0)"

lemma unassigned_simps [simp]:
  "unassigned (UnaryOp l uk e) = unassigned e" "unassigned (BinaryOp l bk a b) \<longleftrightarrow> unassigned a \<and> unassigned b"
  "unassigned (Conditional l c t e) \<longleftrightarrow> unassigned c \<and> unassigned t \<and> unassigned e"
  "unassigned (FunctionCall l m as i sy) \<longleftrightarrow> i < 0 \<and> (\<forall>a\<in>set as. unassigned a)"
  unfolding unassigned_def by (simp_all add: ball_Un conj_ac)

lemma unassigned_leaf [simp]:
  "unassigned (NumberLiteral l v)" "unassigned (IdentifierExpr l n)" "unassigned (ParameterExpr l n p)"
  by (simp_all add: unassigned_def)

lemma unnumbered_unassigned: "unnumbered e = unassigned e"
proof -
  have "(\<forall>c\<in>set (flagged_calls u e). call_id (snd c) < 0) = unassigned e" for u
    by (induction u e rule: flagged_calls.induct) (simp_all add: ball_Un)
  then show ?thesis by (simp add: unnumbered_def)
qed

lemma args_count: "sum_list (map call_count as) = length (concat (map calls as))"
  by (simp add: length_concat comp_def)

lemma alloc_walk_scoped:
  fixes e e' :: "'f expr" and es es' :: "'f expr list"
  shows "alloc_walk u e (n, seen) = (e', (n', seen')) \<Longrightarrow> alloc_inv k n seen A S \<Longrightarrow> call_count e \<le> k \<Longrightarrow> unassigned e \<Longrightarrow>
      scoped A S e' \<and> alloc_post u n seen n' seen' S (settled A e') (emitted S e') (sure e)"
    and "alloc_walks u es (n, seen) = (es', (n', seen')) \<Longrightarrow> alloc_inv k n seen A S \<Longrightarrow> sum_list (map call_count es) \<le> k \<Longrightarrow>
      \<forall>a\<in>set es. unassigned a \<Longrightarrow>
      scopeds A S es' \<and> alloc_post u n seen n' seen' S (settleds A es') (emitteds S es') (\<Union> (sure ` set es))"
proof (induction u e "(n, seen)" and u es "(n, seen)" arbitrary: e' n seen n' seen' k A S and es' n seen n' seen' k A S
    rule: alloc_walk_alloc_walks.induct)
  case (1 u l o' e)
  then show ?case by (auto simp: Let_def split: prod.splits)
next
  case (2 u l o' a b)
  obtain a' n1 seen1 where a: "alloc_walk u a (n, seen) = (a', (n1, seen1))" by (metis surj_pair)
  obtain b' n2 seen2 where b: "alloc_walk u b (n1, seen1) = (b', (n2, seen2))" by (metis surj_pair)
  from 2(1) [OF a 2(4)] 2(5,6) have A: "scoped A S a'" "alloc_post u n seen n1 seen1 S (settled A a') (emitted S a') (sure a)"
    by simp_all
  from 2(2) [OF a [symmetric] refl b alloc_inv_step [OF 2(4) A(2) settled_mono(1)]] 2(5,6)
  have B: "scoped (settled A a') (emitted S a') b'"
      "alloc_post u n1 seen1 n2 seen2 (emitted S a') (settled (settled A a') b') (emitted (emitted S a') b') (sure b)"
    by simp_all
  from post_trans [OF A(2) B(2) settled_mono(1)] A(1) B(1) 2(3) a b show ?case by (auto simp: Let_def)
next
  case (3 u l c t e)
  obtain c' n1 seen1 where c: "alloc_walk u c (n, seen) = (c', (n1, seen1))" by (metis surj_pair)
  obtain t' n2 seen2 where t: "alloc_walk False t (n1, seen1) = (t', (n2, seen2))" by (metis surj_pair)
  obtain e1 n3 seen3 where e: "alloc_walk False e (n2, seen2) = (e1, (n3, seen3))" by (metis surj_pair)
  let ?A = "settled A c'" and ?S1 = "emitted S c'"
  from 3(1) [OF c 3(5)] 3(6,7) have C: "scoped A S c'" "alloc_post u n seen n1 seen1 S ?A ?S1 (sure c)" by simp_all
  note inv1 = alloc_inv_step [OF 3(5) C(2) settled_mono(1)]
  from 3(2) [OF c [symmetric] refl t inv1] 3(6,7)
  have T: "scoped ?A ?S1 t'" "alloc_post False n1 seen1 n2 seen2 ?S1 (settled ?A t') (emitted ?S1 t') (sure t)" by simp_all
  have sub: "?A \<subseteq> emitted ?S1 t'" using inv1 emitted_mono(1) [of ?S1 t'] unfolding alloc_inv_def by blast
  note inv2 = alloc_inv_branch [OF inv1 T(2) sub]
  from 3(3) [OF c [symmetric] refl t [symmetric] refl e inv2] 3(6,7)
  have E: "scoped ?A (emitted ?S1 t') e1"
      "alloc_post False n2 seen2 n3 seen3 (emitted ?S1 t') (settled ?A e1) (emitted (emitted ?S1 t') e1) (sure e)" by simp_all
  have sub3: "?A \<subseteq> emitted (emitted ?S1 t') e1" using sub emitted_mono(1) by fast
  from post_trans [OF post_trans [OF C(2) post_branch [OF T(2) sub] subset_refl] post_branch [OF E(2) sub3] subset_refl]
    C(1) T(1) E(1) 3(4) c t e show ?case by (auto simp: Let_def)
next
  case (4 u l m as i sy)
  let ?e = "FunctionCall l m as i sy"
  obtain i' n1 seen1 where i: "assign_id u ?e m i (n, seen) = (i', (n1, seen1))" by (metis surj_pair)
  obtain as' n2 seen2 where ars: "alloc_walks u as (n1, seen1) = (as', (n2, seen2))" by (metis surj_pair)
  have e': "e' = FunctionCall l m as' i' sy" "n' = n2" "seen' = seen2" using 4(2) i ars by (auto simp: Let_def)
  have neg: "i < 0" "\<forall>a\<in>set as. unassigned a" using 4(5) by simp_all
  have few: "sum_list (map call_count as) < call_count ?e" by (simp add: args_count)
  have S: "A \<subseteq> S" "S \<subseteq> {1..<n}" "1 \<le> n" "\<forall>x\<in>set seen. 1 \<le> seen_id x" using 4(3) by (auto simp: alloc_inv_def)
  note IH = 4(1) [OF i [symmetric] refl ars]
  show ?case
  proof (cases "IsStatefulOp m")
    case False
    then have 1: "i' = i" "n1 = n" "seen1 = seen" using i by (auto simp: assign_id_def)
    have "i \<notin> A" "i \<notin> S" using S neg(1) by auto
    with IH [of k A S] 4(3,4) few neg False show ?thesis by (simp add: e' 1)
  next
    case True
    show ?thesis
    proof (cases "\<exists>y\<in>set seen. unconditional y \<and> erase (seen_call y) = erase ?e")
      case dup: True
      with TryAlias_known [OF S(4), of ?e] obtain y where y: "y \<in> set seen" "unconditional y" "erase (seen_call y) = erase ?e"
        "TryAliasNodeId seen ?e = seen_id y" "1 \<le> seen_id y" by (auto split: if_splits)
      then have 1: "i' = seen_id y" "n1 = n" "seen1 = seen" using i True neg(1) by (auto simp: assign_id_def Let_def)
      note al = scoped_alias [OF 4(3,4) y(1-3)]
      have args_sure: "\<Union> (sure ` set as) \<subseteq> sure ?e" by auto
      have "covered u seen (\<Union> (sure ` set as))"
        using al(2) S(4) args_sure unfolding covered_def known_def by blast
      from quiet_walk(2) [OF ars [unfolded 1] this S(3)] have "quiet_post n seen n2 seen2" .
      from quiet_alloc_post [OF this S(1) al(2)] al(1) S(1) show ?thesis by (auto simp: e' 1)
    next
      case fresh: False
      with TryAlias_known [OF S(4), of ?e] have "TryAliasNodeId seen ?e = 0" by (auto split: if_splits)
      then have 1: "i' = n" "n1 = n + 1" "seen1 = seen @ [\<lparr>seen_call = ?e, seen_id = n, unconditional = u\<rparr>]"
        using i True neg(1) by (auto simp: assign_id_def Let_def)
      note inv = alloc_inv_fresh [OF 4(3,4) few, of u]
      from IH [of "sum_list (map call_count as)" A S] inv neg(2)
      have IH': "scopeds A S as'" "alloc_post u (n + 1) (seen @ [\<lparr>seen_call = ?e, seen_id = n, unconditional = u\<rparr>]) n2 seen2
          S (settleds A as') (emitteds S as') (\<Union> (sure ` set as))" unfolding 1 by simp_all
      have "n \<notin> S" "n \<notin> A" using S by auto
      with post_fresh [OF 4(3) IH'(2)] IH'(1) True S(3) show ?thesis by (simp add: e' 1)
    qed
  qed
next
  case (9 u a as)
  obtain a' n1 seen1 where a: "alloc_walk u a (n, seen) = (a', (n1, seen1))" by (metis surj_pair)
  obtain as' n2 seen2 where ars: "alloc_walks u as (n1, seen1) = (as', (n2, seen2))" by (metis surj_pair)
  from 9(1) [OF a 9(4)] 9(5,6) have A: "scoped A S a'" "alloc_post u n seen n1 seen1 S (settled A a') (emitted S a') (sure a)"
    by simp_all
  from 9(2) [OF a [symmetric] refl ars alloc_inv_step [OF 9(4) A(2) settled_mono(1)]] 9(5,6)
  have B: "scopeds (settled A a') (emitted S a') as'"
      "alloc_post u n1 seen1 n2 seen2 (emitted S a') (settleds (settled A a') as') (emitteds (emitted S a') as') (\<Union> (sure ` set as))"
    by simp_all
  from post_trans [OF A(2) B(2) settled_mono(2)] A(1) B(1) 9(3) a ars show ?case by (auto simp: Let_def)
qed (auto simp: alloc_inv_def post_refl)

text \<open>C18: In the trees that allocation produces, a node id that has been emitted once is evaluated on
  every path to its other occurrences.\<close>

theorem AllocateNodeIds_scoped:
  assumes "unnumbered (body sg)"
  shows "scoped {} {} (body (fst (AllocateNodeIds sg)))"
proof -
  obtain e n seen where walk: "alloc_walk True (body sg) (1, []) = (e, (n, seen))" by (metis surj_pair)
  have "alloc_inv (call_count (body sg)) 1 [] {} {}" by (simp add: alloc_inv_def)
  from alloc_walk_scoped(1) [OF walk this order_refl] assms walk show ?thesis
    by (simp add: AllocateNodeIds_def unnumbered_unassigned)
qed

text \<open>Two structurally equal averages share the id 1; the second is evaluated after the first.\<close>

theorem AllocateNodeIds_scoped_witness:
  "scoped {} {} (body (fst (AllocateNodeIds two_averages)))"
  by (rule AllocateNodeIds_scoped [OF unnumbered_two_averages])

end
