(* ===== verification/Spec2Isabelle.thy ===== *)
theory Spec2Isabelle
  imports Runtime_Parity Signal_Graph Node_Ids Spsc_Ring Multi_Symbol Forward_Gradient Jit_Program Jit_Pair_Exec Jit_Deque_Exec Jit_Scoped
begin

text \<open>
  A verification development for the JIT signal engine, a C++ library that reads a small language
  of trading signals, type-checks and folds it, and evaluates it tick by tick over market data,
  either by an interpreter or by code that LLVM compiles and that calls helpers of the runtime.

  \<^bold>\<open>The front end.\<close> \<^verbatim>\<open>Lexer\<close> models \<^verbatim>\<open>src/lexer.cpp\<close>: the scanner
  over a character list, with 32-bit columns. \<^verbatim>\<open>Ast\<close> has the trees of
  \<^verbatim>\<open>src/ast.h\<close> as a datatype, cloning and structural equality. \<^verbatim>\<open>Parser\<close> is
  the recursive descent of \<^verbatim>\<open>src/parser.cpp\<close> with fuel; the entry points take three
  times the number of tokens plus a constant, which is proved to be enough for every
  token list that ends in an end-of-file token. \<^verbatim>\<open>Type_Check\<close> and
  \<^verbatim>\<open>Constant_Fold\<close> model the files of those names, against a declarative type system and
  a normal form. \<^verbatim>\<open>Signal_Program\<close> reads programs of several lines;
  \<^verbatim>\<open>Signal_Graph\<close> inlines references between signals by depth-first search and
  \<^verbatim>\<open>Node_Ids\<close> attaches node ids and symbol ids to the trees
  (all of \<^verbatim>\<open>src/signal_program.cpp\<close>).

  \<^bold>\<open>The operators.\<close> \<^verbatim>\<open>Machine_Float\<close> is the arithmetic: binary64 and the
  80-bit format of \<^verbatim>\<open>long double\<close>, executable, and exact real arithmetic as the ideal.
  \<^verbatim>\<open>Ring_Buffer\<close> states the contract of a fixed-capacity window as locales;
  \<^verbatim>\<open>Ring_Stats\<close>, \<^verbatim>\<open>Window_Ops\<close>, \<^verbatim>\<open>Mono_Deque\<close> and
  \<^verbatim>\<open>Filters\<close> are the accumulators of \<^verbatim>\<open>src/runtime.cpp\<close>, which interpret
  those locales; \<^verbatim>\<open>Exact_Stats\<close> shows what they compute in exact arithmetic and
  \<^verbatim>\<open>Operator_Streams\<close> states the result along a stream of samples.

  \<^bold>\<open>The evaluators.\<close> \<^verbatim>\<open>Runtime_State\<close> has the state structs of
  \<^verbatim>\<open>src/runtime.h\<close>, \<^verbatim>\<open>Signal_Context\<close> the sizing and prewarming of a context,
  \<^verbatim>\<open>Jit_Runtime\<close> the helpers that compiled code calls, \<^verbatim>\<open>Interpreter\<close> and
  \<^verbatim>\<open>Interpreter_Facts\<close> the interpreter, and \<^verbatim>\<open>Runtime_Parity\<close> compares the two.

  \<^verbatim>\<open>Gradient_Runtime\<close> has the helpers that carry a derivative with respect to a
  parameter through an operator; \<^verbatim>\<open>Gradient_Facts\<close> shows that ema_alpha, kalman1d and
  rolling_beta return the derivative of what they compute, and one case in which rolling_std does
  not. \<^verbatim>\<open>Autodiff\<close> is the symbolic differentiation of \<^verbatim>\<open>src/autodiff.cpp\<close>: the trees it
  builds, folded, evaluate to the derivative at every point where the signal is regular.
  \<^verbatim>\<open>Forward_Gradient\<close> is the forward-mode evaluator of the same file, which pairs every
  value with its derivative and computes what the symbolic derivative computes, bit for bit, for the
  stateless operators other than abs; its stateful operators share the steps of
  \<^verbatim>\<open>Gradient_Runtime\<close> where the two files repeat each other.

  \<^bold>\<open>Code generation.\<close> \<^verbatim>\<open>Jit_Ir\<close> is the part of the intermediate language
  of LLVM that \<^verbatim>\<open>src/jit_compiler.cpp\<close> emits: values, instructions, blocks, and the memory the
  code reads and writes (the slots of a context, by struct and field). \<^verbatim>\<open>Jit_Exec\<close> executes it,
  calls of the runtime included. What an arithmetic instruction computes is a parameter of the
  execution; \<open>documented\<close> states the language reference for the instructions used.
  \<^verbatim>\<open>Jit_Builder\<close> has the state of the generator (\<^verbatim>\<open>CodegenContext\<close>) and its
  helpers, \<^verbatim>\<open>Jit_Lowered\<close> the inline code of the stateful operators,
  \<^verbatim>\<open>Jit_Emit\<close> the emission of expressions in scalar and vector mode, and
  \<^verbatim>\<open>Jit_Program\<close> the functions of a signal, a program and a vectorized program.
  \<^verbatim>\<open>Lowered_Steps\<close> states what the inline code of each operator does to its slot;
  \<^verbatim>\<open>Jit_Sim\<close>, \<^verbatim>\<open>Jit_Low_Exec\<close>, \<^verbatim>\<open>Jit_Pair_Exec\<close>,
  \<^verbatim>\<open>Jit_Static\<close>, \<^verbatim>\<open>Jit_Blocks\<close> and \<^verbatim>\<open>Jit_Deque_Exec\<close> show that
  the emitted code runs to that. A node of a tree is named by its path. The loads of base pointers at
  the entry of a function are named by the field they load.

  \<^bold>\<open>Concurrency.\<close> \<^verbatim>\<open>Spsc_Ring\<close> models \<^verbatim>\<open>src/spsc_ring.h\<close>: the
  operations, and the two threads as a step relation with one step per shared access, which is
  shown to refine a bounded queue. The accesses are interleaved as in a sequentially consistent
  memory. \<^verbatim>\<open>Multi_Symbol\<close> has the arena of one context per symbol and the sharded
  evaluation of \<^verbatim>\<open>src/multithread_eval.cpp\<close>; the compiled step of a program is a
  parameter, with the hypothesis that it touches only the context of its symbol, and the object
  representation of a double is a parameter of the hash.

  \<^bold>\<open>Conventions.\<close> Errors are values of the sum type \<open>result\<close>; an operation the source
  does not guard (an index out of range, a conversion out of range) is the error \<open>Undefined\<close>,
  and theorems state when it cannot occur. NaN payloads are identified. The two formats share one
  carrier, so widening is the identity. Counters of type \<^verbatim>\<open>size_t\<close> are natural numbers;
  where the source lets one wrap (the age of a deque entry) the wrap is written out. The branch
  for compilers without an 80-bit format is not modelled, nor is contraction of multiply and add.
  The natural logarithm of the C library and the iteration order of a hash set are parameters. A
  pointer from a lowered slot into the storage of its operator is the index of the buffer's owner.

  \<^bold>\<open>Not modelled.\<close> Of \<^verbatim>\<open>src/jit_compiler.cpp\<close>: gradient programs, the
  module cache, tiered compilation, and what LLVM does with a module (constant folding by the builder,
  verification, optimization, loading); the drivers, benchmarks and tools, which are input,
  output and measurement.
\<close>

end
